(* ===== verification/CommonData.thy ===== *)
theory CommonData
  imports Prelude "HOL-Library.Sublist"
begin

text \<open>
  Byte-string conversions of \<^verbatim>\<open>src/toscore/common/CommonData.h\<close> and
  \<^verbatim>\<open>CommonData.cpp\<close> (hexadecimal, nibbles, big-endian integers), the view operations of
  \<^verbatim>\<open>vector_ref.h\<close>, and the two's complement conversions of \<^verbatim>\<open>Common.h\<close>.  The template
  parameter of the big-endian functions is a natural number where the code instantiates it
  by \<^verbatim>\<open>bigint\<close> and a word where it instantiates it by a machine type.
\<close>

unbundle bit_operations_syntax

section \<open>Definitions\<close>

subsection \<open>Views of byte arrays\<close>

text \<open>A \<^verbatim>\<open>vector_ref\<close> is the list it refers to; out of bounds, a crop is empty.\<close>

definition cropped :: "'a list \<Rightarrow> nat \<Rightarrow> nat \<Rightarrow> 'a list" where
  "cropped d b c =
    (if b \<le> length d \<and> c \<le> length d \<and> b + c \<le> length d then take c (drop b d) else [])"

definition cropped_from :: "'a list \<Rightarrow> nat \<Rightarrow> 'a list" where
  "cropped_from d b = (if b \<le> length d then drop b d else [])"

subsection \<open>Hexadecimal strings\<close>

definition hexdigits :: string where
  "hexdigits = ''0123456789abcdef''"

fun toHex_loop :: "bytes \<Rightarrow> string" where
  "toHex_loop [] = []"
| "toHex_loop (b # bs) =
    hexdigits ! unat (drop_bit 4 b AND 0x0f) # hexdigits ! unat (b AND 0x0f) # toHex_loop bs"

definition toHex :: "bytes \<Rightarrow> string \<Rightarrow> string" where
  "toHex bs pre = pre @ toHex_loop bs"

definition fromHexChar :: "char \<Rightarrow> int" where
  "fromHexChar c =
    (let i = int (of_char c :: nat) in
     if int (of_char (CHR ''0'') :: nat) \<le> i \<and> i \<le> int (of_char (CHR ''9'') :: nat)
     then i - int (of_char (CHR ''0'') :: nat)
     else if int (of_char (CHR ''a'') :: nat) \<le> i \<and> i \<le> int (of_char (CHR ''f'') :: nat)
     then i - int (of_char (CHR ''a'') :: nat) + 10
     else if int (of_char (CHR ''A'') :: nat) \<le> i \<and> i \<le> int (of_char (CHR ''F'') :: nat)
     then i - int (of_char (CHR ''A'') :: nat) + 10
     else - 1)"

definition isHex :: "string \<Rightarrow> bool" where
  "isHex s = list_all (\<lambda>c. fromHexChar c \<noteq> - 1) (if take 2 s = ''0x'' then drop 2 s else s)"

datatype WhenError = DontThrow | Throw
datatype hex_error = BadHexCharacter

text \<open>
  The pair loop of \<^verbatim>\<open>fromHex\<close>.  It is entered with an even number of characters left, so
  the read of \<^verbatim>\<open>_s[i + 1]\<close> is in range; the one-character equation stands for the
  terminating zero that \<^verbatim>\<open>std::string\<close> would deliver there, which is no hex digit.
\<close>

fun fromHex_loop :: "WhenError \<Rightarrow> string \<Rightarrow> bytes \<Rightarrow> hex_error + bytes" where
  "fromHex_loop w [] ret = Inr ret"
| "fromHex_loop w [c] ret = (if w = Throw then Inl BadHexCharacter else Inr [])"
| "fromHex_loop w (c # d # cs) ret =
    (let h = fromHexChar c; l = fromHexChar d in
     if h \<noteq> - 1 \<and> l \<noteq> - 1 then fromHex_loop w cs (ret @ [of_int (h * 16 + l)])
     else if w = Throw then Inl BadHexCharacter else Inr [])"

definition fromHex :: "string \<Rightarrow> WhenError \<Rightarrow> hex_error + bytes" where
  "fromHex str w =
    (let s = (if 2 \<le> length str \<and> str ! 0 = CHR ''0'' \<and> str ! 1 = CHR ''x'' then 2 else 0) in
     if length str mod 2 \<noteq> 0
     then (let h = fromHexChar (str ! s) in
           if h \<noteq> - 1 then fromHex_loop w (drop (s + 1) str) [of_int h]
           else if w = Throw then Inl BadHexCharacter else Inr [])
     else fromHex_loop w (drop s str) [])"

fun asNibbles :: "bytes \<Rightarrow> bytes" where
  "asNibbles [] = []"
| "asNibbles (b # bs) = b div 16 # b mod 16 # asNibbles bs"

subsection \<open>Big-endian integers\<close>

fun toBigEndian_loop :: "nat \<Rightarrow> nat \<Rightarrow> bytes \<Rightarrow> bytes" where
  "toBigEndian_loop 0 val out = out"
| "toBigEndian_loop (Suc i) val out =
    toBigEndian_loop i (drop_bit 8 val) (out[i := of_nat (val AND 0xff)])"

definition toBigEndian :: "nat \<Rightarrow> bytes \<Rightarrow> bytes" where
  "toBigEndian val out = toBigEndian_loop (length out) val out"

definition toBigEndian256 :: "u256 \<Rightarrow> bytes" where
  "toBigEndian256 val = toBigEndian (unat val) (replicate 32 0)"

definition toBigEndian160 :: "u160 \<Rightarrow> bytes" where
  "toBigEndian160 val = toBigEndian (unat val) (replicate 20 0)"

definition fromBigEndian_bigint :: "bytes \<Rightarrow> nat" where
  "fromBigEndian_bigint bs = foldl (\<lambda>ret b. push_bit 8 ret OR unat b) 0 bs"

definition fromBigEndian :: "bytes \<Rightarrow> 'a::len word" where
  "fromBigEndian bs = foldl (\<lambda>ret b. push_bit 8 ret OR ucast b) 0 bs"

function bytesRequired :: "nat \<Rightarrow> nat" where
  "bytesRequired i = (if i \<noteq> 0 then Suc (bytesRequired (drop_bit 8 i)) else 0)"
  by pat_completeness auto
termination by (relation "measure id") (auto simp: drop_bit_eq_div)

definition toCompactBigEndian :: "nat \<Rightarrow> nat \<Rightarrow> bytes" where
  "toCompactBigEndian val mn = toBigEndian val (replicate (max mn (bytesRequired val)) 0)"

declare bytesRequired.simps [simp del]

subsection \<open>Prefixes and logarithms\<close>

function commonPrefix_loop :: "'a list \<Rightarrow> 'a list \<Rightarrow> nat \<Rightarrow> nat \<Rightarrow> nat" where
  "commonPrefix_loop t u s i =
    (if i \<ge> s \<or> t ! i \<noteq> u ! i then i else commonPrefix_loop t u s (i + 1))"
  by pat_completeness auto
termination by (relation "measure (\<lambda>(t, u, s, i). s - i)") auto

definition commonPrefix :: "'a list \<Rightarrow> 'a list \<Rightarrow> nat" where
  "commonPrefix t u = commonPrefix_loop t u (min (length t) (length u)) 0"

declare commonPrefix_loop.simps [simp del]

function toLog2_loop :: "nat \<Rightarrow> nat \<Rightarrow> nat" where
  "toLog2_loop x ret = (let x' = drop_bit 1 x in if x' \<noteq> 0 then toLog2_loop x' (ret + 1) else ret)"
  by pat_completeness auto
termination by (relation "measure fst") (auto simp: drop_bit_eq_div)

definition toLog2 :: "u256 \<Rightarrow> nat" where
  "toLog2 x = toLog2_loop (unat x) 0"

declare toLog2_loop.simps [simp del]

subsection \<open>Two's complement\<close>

text \<open>\<^verbatim>\<open>s256\<close> is a signed-magnitude integer: an \<open>int\<close>.\<close>

definition u2s :: "u256 \<Rightarrow> int" where
  "u2s u = (if bit u 255 then - (2 ^ 256 - uint u) else uint u)"

definition s2u :: "int \<Rightarrow> u256" where
  "s2u s = (if 0 \<le> s then of_int s else of_int (2 ^ 256 + s))"

section \<open>Lemmas\<close>

subsection \<open>Views\<close>

lemma length_cropped: "length (cropped d b c) = (if b + c \<le> length d then c else 0)"
  by (auto simp: cropped_def)

lemma cropped_in [simp]: "b + c \<le> length d \<Longrightarrow> cropped d b c = take c (drop b d)"
  by (simp add: cropped_def)

lemma cropped_out: "length d < b + c \<Longrightarrow> cropped d b c = []"
  by (simp add: cropped_def)

lemma cropped_from_in [simp]: "b \<le> length d \<Longrightarrow> cropped_from d b = drop b d"
  by (simp add: cropped_from_def)

lemma length_cropped_from [simp]: "length (cropped_from d b) = length d - b"
  by (simp add: cropped_from_def)

subsection \<open>Big-endian integers\<close>

lemma push_byte_or: "b < 256 \<Longrightarrow> push_bit 8 r OR b = r * 256 + (b :: nat)"
proof -
  assume b: "b < 256"
  have "push_bit 8 r AND b = 0"
  proof (rule bit_eqI)
    fix n
    show "bit (push_bit 8 r AND b) n = bit 0 n"
    proof (cases "n < 8")
      case False
      then have "b < 2 ^ n"
        using b power_increasing [of 8 n "2 :: nat"] by simp
      then have "\<not> bit b n"
        by (simp add: bit_iff_odd)
      then show ?thesis
        by (simp add: bit_and_iff)
    qed (simp add: bit_and_iff bit_push_bit_iff)
  qed
  then have "push_bit 8 r OR b = push_bit 8 r + b"
    by (rule disjunctive_add_eq_or [symmetric])
  then show ?thesis
    by (simp add: push_bit_eq_mult)
qed

lemma fromBigEndian_bigint_Nil [simp]: "fromBigEndian_bigint [] = 0"
  by (simp add: fromBigEndian_bigint_def)

lemma fromBigEndian_bigint_snoc [simp]:
  "fromBigEndian_bigint (bs @ [b]) = fromBigEndian_bigint bs * 256 + unat b"
  by (simp add: fromBigEndian_bigint_def push_byte_or)

lemma fromBigEndian_bigint_less: "fromBigEndian_bigint bs < 256 ^ length bs"
proof (induction bs rule: rev_induct)
  case (snoc b bs)
  then have "fromBigEndian_bigint bs + 1 \<le> 256 ^ length bs"
    by simp
  then have "(fromBigEndian_bigint bs + 1) * 256 \<le> 256 ^ length bs * 256"
    by (rule mult_le_mono1)
  then show ?case
    using unat_lt_256 [of b] by (simp del: unat_lt_256)
qed simp

lemma fromBigEndian_bigint_append:
  "fromBigEndian_bigint (xs @ ys) = fromBigEndian_bigint xs * 256 ^ length ys + fromBigEndian_bigint ys"
proof (induction ys rule: rev_induct)
  case (snoc y ys)
  then show ?case
    using fromBigEndian_bigint_snoc [of "xs @ ys" y] by (simp add: algebra_simps)
qed simp

lemma fromBigEndian_bigint_Cons:
  "fromBigEndian_bigint (b # bs) = unat b * 256 ^ length bs + fromBigEndian_bigint bs"
  using fromBigEndian_bigint_append [of "[b]" bs] fromBigEndian_bigint_snoc [of "[]" b] by simp

lemma fromBigEndian_bigint_zeros [simp]: "fromBigEndian_bigint (replicate n 0) = 0"
  by (induction n) (simp_all add: fromBigEndian_bigint_Cons)

lemma fromBigEndian_eq:
  "LENGTH('a) \<ge> 8 \<Longrightarrow> (fromBigEndian bs :: 'a::len word) = of_nat (fromBigEndian_bigint bs)"
proof (induction bs rule: rev_induct)
  case (snoc b bs)
  let ?n = "fromBigEndian_bigint bs"
  have "push_bit 8 (of_nat ?n :: 'a word) OR ucast b = of_nat (push_bit 8 ?n OR unat b)"
    by (simp add: of_nat_or_eq of_nat_push_bit)
  then show ?case
    using snoc by (simp add: fromBigEndian_def push_byte_or)
qed (simp add: fromBigEndian_def)

text \<open>The digits that \<^verbatim>\<open>toBigEndian\<close> writes, as a recursion on their number.\<close>

primrec be_digits :: "nat \<Rightarrow> nat \<Rightarrow> bytes" where
  "be_digits 0 v = []"
| "be_digits (Suc n) v = be_digits n (v div 256) @ [of_nat v]"

lemma length_be_digits [simp]: "length (be_digits n v) = n"
  by (induction n arbitrary: v) auto

lemma toBigEndian_loop_eq:
  "n \<le> length out \<Longrightarrow> toBigEndian_loop n v out = be_digits n v @ drop n out"
proof (induction n arbitrary: v out)
  case (Suc n)
  have "v AND 0xff = v mod 256"
    using take_bit_eq_mask [of 8 v] by (simp add: take_bit_eq_mod mask_eq_exp_minus_1)
  then have "(of_nat (v AND 0xff) :: byte) = of_nat v"
    using of_nat_byte_mod [of v] by simp
  with Suc show ?case
    by (simp add: drop_bit_eq_div Cons_nth_drop_Suc [symmetric])
qed simp

lemma toBigEndian_eq: "toBigEndian v out = be_digits (length out) v"
  by (simp add: toBigEndian_def toBigEndian_loop_eq)

lemma fromBigEndian_bigint_be_digits [simp]:
  "fromBigEndian_bigint (be_digits n v) = v mod 256 ^ n"
proof (induction n arbitrary: v)
  case (Suc n)
  then show ?case
    by (simp add: unat_of_nat mod_mult2_eq)
qed simp

lemma be_digits_fromBigEndian [simp]: "be_digits (length bs) (fromBigEndian_bigint bs) = bs"
proof (induction bs rule: rev_induct)
  case (snoc b bs)
  have "(of_nat (fromBigEndian_bigint bs * 256 + unat b) :: byte) = of_nat ((fromBigEndian_bigint bs * 256 + unat b) mod 256)"
    by (rule of_nat_byte_mod [symmetric])
  with snoc show ?case
    by simp
qed simp

subsection \<open>Number of significant bytes\<close>

lemma bytesRequired_0 [simp]: "bytesRequired 0 = 0"
  by (simp add: bytesRequired.simps)

lemma bytesRequired_pos: "i \<noteq> 0 \<Longrightarrow> bytesRequired i = Suc (bytesRequired (i div 256))"
  by (subst bytesRequired.simps) (simp add: drop_bit_eq_div)

lemma bytesRequired_le_iff: "bytesRequired i \<le> n \<longleftrightarrow> i < 256 ^ n"
proof (induction n arbitrary: i)
  case 0
  then show ?case
    by (cases "i = 0") (simp_all add: bytesRequired_pos)
next
  case (Suc n)
  show ?case
  proof (cases "i = 0")
    case False
    then have "bytesRequired i \<le> Suc n \<longleftrightarrow> i div 256 < 256 ^ n"
      using Suc [of "i div 256"] by (simp add: bytesRequired_pos)
    also have "\<dots> \<longleftrightarrow> i < 256 ^ Suc n"
      by (simp add: div_less_iff_less_mult mult.commute)
    finally show ?thesis .
  qed simp
qed

lemma bytesRequired_gt_iff: "n < bytesRequired i \<longleftrightarrow> 256 ^ n \<le> i"
  using bytesRequired_le_iff [of i n] by linarith

lemma less_bytesRequired: "i < 256 ^ bytesRequired i"
  using bytesRequired_le_iff [of i "bytesRequired i"] by simp

lemma fromBigEndian_hd_pos:
  assumes "bs \<noteq> []" and "bs ! 0 \<noteq> 0"
  shows "bytesRequired (fromBigEndian_bigint bs) = length bs"
proof -
  obtain b cs where bs: "bs = b # cs"
    using assms(1) by (cases bs) auto
  have "0 < unat b"
    using assms(2) bs by (simp add: unat_gt_0)
  then have "256 ^ length cs \<le> fromBigEndian_bigint bs"
    by (simp add: bs fromBigEndian_bigint_Cons trans_le_add1)
  then have "length cs < bytesRequired (fromBigEndian_bigint bs)"
    by (simp add: bytesRequired_gt_iff)
  moreover have "bytesRequired (fromBigEndian_bigint bs) \<le> length bs"
    by (simp add: bytesRequired_le_iff fromBigEndian_bigint_less)
  ultimately show ?thesis
    by (simp add: bs)
qed

lemma be_digits_nth: "i < n \<Longrightarrow> be_digits n v ! i = of_nat (v div 256 ^ (n - 1 - i))"
proof (induction n arbitrary: v)
  case (Suc n)
  show ?case
  proof (cases "i = n")
    case False
    then have "be_digits (Suc n) v ! i = be_digits n (v div 256) ! i"
      using Suc(2) by (simp add: nth_append)
    also have "\<dots> = of_nat (v div 256 ^ Suc (n - 1 - i))"
      using Suc False by (simp add: div_mult2_eq)
    also have "Suc (n - 1 - i) = Suc n - 1 - i"
      using Suc(2) False by simp
    finally show ?thesis .
  qed (simp add: nth_append)
qed simp

subsection \<open>Hexadecimal strings\<close>

lemma hexdigit_facts:
  assumes "n < 16"
  shows fromHexChar_hexdigits: "fromHexChar (hexdigits ! n) = int n"
    and hexdigits_not_x: "hexdigits ! n \<noteq> CHR ''x''"
proof -
  have "list_all (\<lambda>n. fromHexChar (hexdigits ! n) = int n \<and> hexdigits ! n \<noteq> CHR ''x'') [0..<16]"
    by code_simp
  with assms show "fromHexChar (hexdigits ! n) = int n" "hexdigits ! n \<noteq> CHR ''x''"
    by (auto simp: list_all_iff)
qed

lemma byte_nibbles:
  "unat (drop_bit 4 b AND 0x0f :: byte) = unat b div 16" "unat (b AND 0x0f :: byte) = unat b mod 16"
proof -
  have m: "x AND 0x0f = take_bit 4 x" for x :: byte
    by (simp add: take_bit_eq_mask mask_eq_exp_minus_1)
  show "unat (b AND 0x0f) = unat b mod 16"
    by (simp add: unat_mod m take_bit_eq_mod)
  have "unat b div 16 < 16"
    using unat_lt_256 [of b] by (simp add: div_less_iff_less_mult del: unat_lt_256)
  then show "unat (drop_bit 4 b AND 0x0f) = unat b div 16"
    by (simp add: m take_bit_eq_mod unat_mod unat_div drop_bit_eq_div)
qed

lemma fromHex_loop_toHex: "fromHex_loop w (toHex_loop bs) ret = Inr (ret @ bs)"
proof (induction bs arbitrary: ret)
  case (Cons b bs)
  have lt: "unat b div 16 < 16" "unat b mod 16 < 16"
    using unat_lt_256 [of b] by (simp_all add: div_less_iff_less_mult del: unat_lt_256)
  have "int (unat b div 16) * 16 + int (unat b mod 16) = int (unat b)"
    using div_mult_mod_eq [of "unat b" 16] by linarith
  then have "(of_int (int (unat b div 16) * 16 + int (unat b mod 16)) :: byte) = b"
    by (simp only: of_int_of_nat_eq) simp
  with lt Cons show ?case
    by (simp add: byte_nibbles unat_div drop_bit_eq_div fromHexChar_hexdigits)
qed simp

lemma length_toHex_loop [simp]: "length (toHex_loop bs) = 2 * length bs"
  by (induction bs) auto

lemma fromHex_toHex_aux:
  assumes "pre = '''' \<or> pre = ''0x''"
  shows "fromHex (toHex bs pre) w = Inr bs"
proof (cases "pre = ''0x''")
  case False
  then have p: "pre = ''''"
    using assms by simp
  have "\<not> (2 \<le> length (toHex_loop bs) \<and> toHex_loop bs ! 0 = CHR ''0'' \<and> toHex_loop bs ! 1 = CHR ''x'')"
    by (cases bs) (auto simp: byte_nibbles unat_div drop_bit_eq_div hexdigits_not_x)
  then have "fromHex (toHex bs pre) w = fromHex_loop w (toHex_loop bs) []"
    unfolding fromHex_def toHex_def Let_def p by auto
  then show ?thesis
    by (simp add: fromHex_loop_toHex)
qed (simp add: fromHex_def toHex_def fromHex_loop_toHex)

lemma isHex_toHex: "isHex (toHex bs ''0x'')"
proof -
  have "list_all (\<lambda>c. fromHexChar c \<noteq> - 1) (toHex_loop bs)"
  proof (induction bs)
    case (Cons b bs)
    have lt: "unat b div 16 < 16" "unat b mod 16 < 16"
      using unat_lt_256 [of b] by (simp_all add: div_less_iff_less_mult del: unat_lt_256)
    with Cons show ?case
      by (simp add: byte_nibbles unat_div drop_bit_eq_div fromHexChar_hexdigits)
  qed simp
  then show ?thesis
    by (simp add: isHex_def toHex_def)
qed

subsection \<open>Prefixes, logarithms, two's complement\<close>

lemma commonPrefix_loop_spec:
  assumes "i \<le> s" and "s \<le> length t" and "s \<le> length u" and "take i t = take i u"
  shows "take (commonPrefix_loop t u s i) t = take (commonPrefix_loop t u s i) u
    \<and> i \<le> commonPrefix_loop t u s i \<and> commonPrefix_loop t u s i \<le> s
    \<and> (commonPrefix_loop t u s i < s
        \<longrightarrow> t ! commonPrefix_loop t u s i \<noteq> u ! commonPrefix_loop t u s i)"
  using assms
proof (induction t u s i rule: commonPrefix_loop.induct)
  case (1 t u s i)
  show ?case
  proof (cases "i \<ge> s \<or> t ! i \<noteq> u ! i")
    case True
    then have "commonPrefix_loop t u s i = i"
      by (simp add: commonPrefix_loop.simps)
    with True 1 show ?thesis
      by auto
  next
    case False
    then have "commonPrefix_loop t u s i = commonPrefix_loop t u s (i + 1)"
      by (subst commonPrefix_loop.simps) simp
    moreover have "take (i + 1) t = take (i + 1) u"
      using False 1 by (simp add: take_Suc_conv_app_nth)
    ultimately show ?thesis
      using 1 False by auto
  qed
qed

lemma commonPrefix_eq: "commonPrefix t u = length (longest_common_prefix t u)"
proof -
  let ?n = "commonPrefix t u"
  have n: "take ?n t = take ?n u" "?n \<le> length t" "?n \<le> length u"
    and d: "?n < min (length t) (length u) \<Longrightarrow> t ! ?n \<noteq> u ! ?n"
    using commonPrefix_loop_spec [of 0 "min (length t) (length u)" t u]
    by (auto simp: commonPrefix_def)
  have "prefix (take ?n t) (longest_common_prefix t u)"
    using n by (intro longest_common_prefix_max_prefix) (metis take_is_prefix)+
  then have le: "?n \<le> length (longest_common_prefix t u)"
    using n prefix_length_le by fastforce
  have "length (longest_common_prefix t u) \<le> ?n"
  proof (rule ccontr)
    assume gt: "\<not> length (longest_common_prefix t u) \<le> ?n"
    obtain ys zs where "t = longest_common_prefix t u @ ys" "u = longest_common_prefix t u @ zs"
      using longest_common_prefix_prefix1 longest_common_prefix_prefix2 prefix_def by metis
    then have "t ! ?n = longest_common_prefix t u ! ?n" "u ! ?n = longest_common_prefix t u ! ?n"
      "?n < min (length t) (length u)"
      using gt by (metis not_le nth_append, metis not_le nth_append, metis not_le length_append min_less_iff_conj trans_less_add1)
    with d show False
      by simp
  qed
  with le show ?thesis
    by simp
qed

lemma toLog2_loop_spec:
  "0 < x \<Longrightarrow> \<exists>k. toLog2_loop x r = r + k \<and> 2 ^ k \<le> x \<and> x < 2 ^ (k + 1)"
proof (induction x r rule: toLog2_loop.induct)
  case (1 x r)
  show ?case
  proof (cases "drop_bit 1 x = 0")
    case True
    then have "toLog2_loop x r = r"
      by (subst toLog2_loop.simps) simp
    with True 1(2) show ?thesis
      by (intro exI [of _ 0]) (auto simp: drop_bit_eq_div)
  next
    case False
    then obtain k where "toLog2_loop (drop_bit 1 x) (r + 1) = r + 1 + k"
      "2 ^ k \<le> drop_bit 1 x" "drop_bit 1 x < 2 ^ (k + 1)"
      using 1 by fastforce
    moreover have "toLog2_loop x r = toLog2_loop (drop_bit 1 x) (r + 1)"
      using False by (subst toLog2_loop.simps) simp
    ultimately show ?thesis
      by (intro exI [of _ "k + 1"]) (auto simp: drop_bit_eq_div)
  qed
qed

lemma u2s_eq_sint: "u2s u = sint u"
  using unsigned_less [of u, where ?'a = int]
  by (simp add: sint_uint signed_take_bit_eq_take_bit_minus u2s_def bit_uint_iff
    take_bit_int_eq_self)

lemma s2u_eq: "s2u s = word_of_int s"
  by (simp add: s2u_def word_of_int_2p)

end
