(* ===== verification/RLP.thy ===== *)
theory RLP
  imports CommonData
begin

text \<open>
  The Recursive Linear Prefix codec of \<^verbatim>\<open>src/toscore/utils/RLP.h\<close> and \<^verbatim>\<open>RLP.cpp\<close>.  The
  reader's methods take the bytes of \<^verbatim>\<open>m_data\<close>; the subscript operator, whose cache is
  mutable, takes and returns the whole object.  The writer is the record \<open>RLPStream\<close>.  An
  access that the code makes without checking bounds reads through \<open>at_ref\<close>, whose error
  \<open>OutOfBounds\<close> stands for the failed assertion (undefined behaviour in a release build).
\<close>

unbundle bit_operations_syntax

section \<open>Definitions: the reader\<close>

datatype rlp_error = BadCast | BadRLP | OversizeRLP | UndersizeRLP | RLPException | OutOfBounds

definition c_rlpMaxLengthBytes :: nat where "c_rlpMaxLengthBytes = 8"
definition c_rlpDataImmLenStart :: nat where "c_rlpDataImmLenStart = 0x80"
definition c_rlpListStart :: nat where "c_rlpListStart = 0xc0"
definition c_rlpDataImmLenCount :: nat where
  "c_rlpDataImmLenCount = c_rlpListStart - c_rlpDataImmLenStart - c_rlpMaxLengthBytes"
definition c_rlpDataIndLenZero :: nat where
  "c_rlpDataIndLenZero = c_rlpDataImmLenStart + c_rlpDataImmLenCount - 1"
definition c_rlpListImmLenCount :: nat where
  "c_rlpListImmLenCount = 256 - c_rlpListStart - c_rlpMaxLengthBytes"
definition c_rlpListIndLenZero :: nat where
  "c_rlpListIndLenZero = c_rlpListStart + c_rlpListImmLenCount - 1"

lemmas rlp_consts [simp] = c_rlpMaxLengthBytes_def c_rlpDataImmLenStart_def c_rlpListStart_def
  c_rlpDataImmLenCount_def c_rlpDataIndLenZero_def c_rlpListImmLenCount_def
  c_rlpListIndLenZero_def

text \<open>The conversion flags are bits of an integer.\<close>

abbreviation (input) AllowNonCanon :: nat where "AllowNonCanon \<equiv> 1"
abbreviation (input) ThrowOnFail :: nat where "ThrowOnFail \<equiv> 4"
abbreviation (input) FailIfTooBig :: nat where "FailIfTooBig \<equiv> 8"
abbreviation (input) FailIfTooSmall :: nat where "FailIfTooSmall \<equiv> 16"
abbreviation (input) Strict :: nat where "Strict \<equiv> ThrowOnFail OR FailIfTooBig"
abbreviation (input) VeryStrict :: nat where "VeryStrict \<equiv> ThrowOnFail OR FailIfTooBig OR FailIfTooSmall"
abbreviation (input) LaissezFaire :: nat where "LaissezFaire \<equiv> AllowNonCanon"

definition flag_set :: "nat \<Rightarrow> nat \<Rightarrow> bool" where
  "flag_set flags f = (flags AND f \<noteq> 0)"

definition at_ref :: "bytes \<Rightarrow> nat \<Rightarrow> rlp_error + nat" where
  "at_ref d i = (if i < length d then Inr (unat (d ! i)) else Inl OutOfBounds)"

subsection \<open>Predicates\<close>

definition isNull :: "bytes \<Rightarrow> bool" where
  "isNull d = (length d = 0)"

definition isEmpty :: "bytes \<Rightarrow> bool" where
  "isEmpty d = (\<not> isNull d \<and> (unat (d ! 0) = c_rlpDataImmLenStart \<or> unat (d ! 0) = c_rlpListStart))"

definition isData :: "bytes \<Rightarrow> bool" where
  "isData d = (\<not> isNull d \<and> unat (d ! 0) < c_rlpListStart)"

definition isList :: "bytes \<Rightarrow> bool" where
  "isList d = (\<not> isNull d \<and> unat (d ! 0) \<ge> c_rlpListStart)"

definition isSingleByte :: "bytes \<Rightarrow> bool" where
  "isSingleByte d = (\<not> isNull d \<and> unat (d ! 0) < c_rlpDataImmLenStart)"

definition requireGood :: "bytes \<Rightarrow> rlp_error + unit" where
  "requireGood d =
    (if isNull d then Inl BadRLP
     else bindE (at_ref d 0) (\<lambda>n.
       if n \<noteq> c_rlpDataImmLenStart + 1 then Inr ()
       else if length d < 2 then Inl BadRLP
       else bindE (at_ref d 1) (\<lambda>b.
         if b < c_rlpDataImmLenStart then Inl BadRLP else Inr ())))"

definition isInt :: "bytes \<Rightarrow> rlp_error + bool" where
  "isInt d =
    (if isNull d then Inr False
     else bindE (requireGood d) (\<lambda>_. bindE (at_ref d 0) (\<lambda>n.
       if n < c_rlpDataImmLenStart then Inr (n \<noteq> 0)
       else if n = c_rlpDataImmLenStart then Inr True
       else if n \<le> c_rlpDataIndLenZero then
         (if length d \<le> 1 then Inl BadRLP
          else bindE (at_ref d 1) (\<lambda>b. Inr (b \<noteq> 0)))
       else if n < c_rlpListStart then
         (if length d \<le> 1 + n - c_rlpDataIndLenZero then Inl BadRLP
          else bindE (at_ref d (1 + n - c_rlpDataIndLenZero)) (\<lambda>b. Inr (b \<noteq> 0)))
       else Inr False)))"

subsection \<open>Sizes\<close>

definition lengthSize :: "bytes \<Rightarrow> nat" where
  "lengthSize d =
    (if isData d \<and> unat (d ! 0) > c_rlpDataIndLenZero then unat (d ! 0) - c_rlpDataIndLenZero
     else if isList d \<and> unat (d ! 0) > c_rlpListIndLenZero then unat (d ! 0) - c_rlpListIndLenZero
     else 0)"

definition payloadOffset :: "bytes \<Rightarrow> nat" where
  "payloadOffset d = (if isSingleByte d then 0 else 1 + lengthSize d)"

text \<open>The loop \<^verbatim>\<open>ret = (ret << 8) | m_data[i + 1]\<close> on a 64-bit \<^verbatim>\<open>size_t\<close>.\<close>

fun length_loop :: "bytes \<Rightarrow> nat \<Rightarrow> nat \<Rightarrow> u64 \<Rightarrow> rlp_error + u64" where
  "length_loop d i 0 ret = Inr ret"
| "length_loop d i (Suc k) ret =
    bindE (at_ref d (i + 1)) (\<lambda>b. length_loop d (i + 1) k (push_bit 8 ret OR of_nat b))"

definition RLP_length :: "bytes \<Rightarrow> rlp_error + nat" where
  "RLP_length d =
    (if isNull d then Inr 0
     else bindE (requireGood d) (\<lambda>_. bindE (at_ref d 0) (\<lambda>n.
       if n < c_rlpDataImmLenStart then Inr 1
       else if n \<le> c_rlpDataIndLenZero then Inr (n - c_rlpDataImmLenStart)
       else if n < c_rlpListStart then
         (if length d \<le> n - c_rlpDataIndLenZero then Inl BadRLP
          else bindE (if length d > 1
                      then bindE (at_ref d 1) (\<lambda>b. if b = 0 then Inl BadRLP else Inr ())
                      else Inr ()) (\<lambda>_.
            if n - c_rlpDataIndLenZero > 8 then Inl UndersizeRLP
            else bindE (at_ref d 1) (\<lambda>b. if b = 0 then Inl BadRLP
            else bindE (length_loop d 0 (n - c_rlpDataIndLenZero) 0) (\<lambda>ret.
              if unat ret < c_rlpListStart - c_rlpDataImmLenStart - c_rlpMaxLengthBytes
              then Inl BadRLP
              else if unat ret \<ge> 2 ^ 64 - 1 - 0x100 then Inl UndersizeRLP
              else Inr (unat ret)))))
       else if n \<le> c_rlpListIndLenZero then Inr (n - c_rlpListStart)
       else
         (if length d \<le> n - c_rlpListIndLenZero then Inl BadRLP
          else bindE (if length d > 1
                      then bindE (at_ref d 1) (\<lambda>b. if b = 0 then Inl BadRLP else Inr ())
                      else Inr ()) (\<lambda>_.
            if n - c_rlpListIndLenZero > 8 then Inl UndersizeRLP
            else bindE (at_ref d 1) (\<lambda>b. if b = 0 then Inl BadRLP
            else bindE (length_loop d 0 (n - c_rlpListIndLenZero) 0) (\<lambda>ret.
              if unat ret < 0x100 - c_rlpListStart - c_rlpMaxLengthBytes then Inl BadRLP
              else if unat ret \<ge> 2 ^ 64 - 1 - 0x100 then Inl UndersizeRLP
              else Inr (unat ret))))))))"

definition actualSize :: "bytes \<Rightarrow> rlp_error + nat" where
  "actualSize d =
    (if isNull d then Inr 0
     else if isSingleByte d then Inr 1
     else if isData d \<or> isList d
     then bindE (RLP_length d) (\<lambda>l. Inr (payloadOffset d + l))
     else Inr 0)"

definition payload :: "bytes \<Rightarrow> rlp_error + bytes" where
  "payload d =
    bindE (RLP_length d) (\<lambda>l.
      if l > length d then Inl BadRLP else Inr (cropped d (payloadOffset d) l))"

text \<open>The constructor: the bytes it keeps as \<^verbatim>\<open>m_data\<close>.\<close>

definition RLP_ctor :: "bytes \<Rightarrow> nat \<Rightarrow> rlp_error + bytes" where
  "RLP_ctor d s =
    bindE (if flag_set s FailIfTooBig
           then bindE (actualSize d) (\<lambda>a.
             if a < length d
             then (if flag_set s ThrowOnFail then Inl OversizeRLP else Inr [])
             else Inr d)
           else Inr d) (\<lambda>m.
    if flag_set s FailIfTooSmall
    then bindE (actualSize m) (\<lambda>a.
      if a > length d
      then (if flag_set s ThrowOnFail then Inl UndersizeRLP else Inr [])
      else Inr m)
    else Inr m)"

definition sizeAsEncoded :: "bytes \<Rightarrow> rlp_error + nat" where
  "sizeAsEncoded d = bindE (RLP_ctor d (ThrowOnFail OR FailIfTooSmall)) actualSize"

subsection \<open>Lists: counting, subscripts, iteration\<close>

lemma sizeAsEncoded_pos:
  "sizeAsEncoded d = Inr n \<Longrightarrow> d \<noteq> [] \<Longrightarrow> 0 < n \<and> n \<le> length d"
  by (auto simp: sizeAsEncoded_def RLP_ctor_def flag_set_def actualSize_def payloadOffset_def
      isNull_def isData_def isList_def bindE_eq_Inr Suc_le_eq split: if_splits)

function items_loop :: "bytes \<Rightarrow> nat \<Rightarrow> rlp_error + nat" where
  "items_loop d i =
    (if length d \<noteq> 0
     then (case sizeAsEncoded d of Inl e \<Rightarrow> Inl e
           | Inr n \<Rightarrow> items_loop (cropped_from d n) (i + 1))
     else Inr i)"
  by pat_completeness auto
termination
  by (relation "measure (\<lambda>(d, i). length d)") (auto dest: sizeAsEncoded_pos)

declare items_loop.simps [simp del]

definition items :: "bytes \<Rightarrow> rlp_error + nat" where
  "items d = (if isList d then bindE (payload d) (\<lambda>p. items_loop p 0) else Inr 0)"

definition itemCount :: "bytes \<Rightarrow> rlp_error + nat" where
  "itemCount d = (if isList d then items d else Inr 0)"

definition itemCountStrict :: "bytes \<Rightarrow> rlp_error + nat" where
  "itemCountStrict d = (if \<not> isList d then Inl BadCast else items d)"

definition RLP_size :: "bytes \<Rightarrow> rlp_error + nat" where
  "RLP_size d = (if isData d then RLP_length d else Inr 0)"

definition sizeStrict :: "bytes \<Rightarrow> rlp_error + nat" where
  "sizeStrict d = (if \<not> isData d then Inl BadCast else RLP_length d)"

text \<open>The object with its list-indexing cache; \<^verbatim>\<open>(size_t)-1\<close> marks an empty cache.\<close>

record RLP =
  m_data :: bytes
  m_lastIndex :: nat
  m_lastEnd :: nat
  m_lastItem :: bytes

definition RLP_object :: "bytes \<Rightarrow> RLP" where
  "RLP_object d = \<lparr>m_data = d, m_lastIndex = 2 ^ 64 - 1, m_lastEnd = 0, m_lastItem = []\<rparr>"

function index_loop :: "RLP \<Rightarrow> nat \<Rightarrow> rlp_error + RLP" where
  "index_loop r i =
    (if m_lastIndex r < i \<and> length (m_lastItem r) \<noteq> 0
     then (case payload (m_data r) of Inl e \<Rightarrow> Inl e
       | Inr p \<Rightarrow> (let item = cropped_from p (m_lastEnd r) in
         (case sizeAsEncoded item of Inl e \<Rightarrow> Inl e
          | Inr n \<Rightarrow> (let item' = cropped item 0 n in
              index_loop (r\<lparr>m_lastItem := item', m_lastEnd := m_lastEnd r + length item',
                m_lastIndex := m_lastIndex r + 1\<rparr>) i))))
     else Inr r)"
  by pat_completeness auto
termination
  by (relation "measure (\<lambda>(r, i). i - m_lastIndex r)") auto

declare index_loop.simps [simp del]

definition RLP_index :: "RLP \<Rightarrow> nat \<Rightarrow> rlp_error + (bytes \<times> RLP)" where
  "RLP_index r i =
    bindE (if i < m_lastIndex r
           then bindE (payload (m_data r)) (\<lambda>p. bindE (sizeAsEncoded p) (\<lambda>n.
             Inr (r\<lparr>m_lastEnd := n, m_lastItem := cropped p 0 n, m_lastIndex := 0\<rparr>)))
           else Inr r) (\<lambda>r.
    bindE (index_loop r i) (\<lambda>r.
    bindE (RLP_ctor (m_lastItem r) (ThrowOnFail OR FailIfTooSmall)) (\<lambda>x. Inr (x, r))))"

text \<open>
  An iterator over the list in \<open>d\<close>: its current view as a pointer (an offset into \<open>d\<close>, or
  null) with a count, and the bytes that remain after it.
\<close>

record rlp_iterator =
  it_ptr :: "nat option"
  it_count :: nat
  m_remaining :: nat

definition it_view :: "bytes \<Rightarrow> rlp_iterator \<Rightarrow> bytes" where
  "it_view d it = (case it_ptr it of None \<Rightarrow> [] | Some p \<Rightarrow> take (it_count it) (drop p d))"

definition it_begin :: "bytes \<Rightarrow> rlp_error + rlp_iterator" where
  "it_begin d =
    (if isList d
     then bindE (RLP_length d) (\<lambda>l. bindE (payload d) (\<lambda>pl. bindE (sizeAsEncoded pl) (\<lambda>n.
       Inr \<lparr>it_ptr = (if payloadOffset d + l > length d then None else Some (payloadOffset d)),
            it_count = length (cropped pl 0 n),
            m_remaining = length pl - length (cropped pl 0 n)\<rparr>)))
     else Inr \<lparr>it_ptr = Some (length d), it_count = 0, m_remaining = 0\<rparr>)"

definition it_end :: "bytes \<Rightarrow> rlp_iterator" where
  "it_end d = \<lparr>it_ptr = Some (length d), it_count = 0, m_remaining = 0\<rparr>"

definition it_equal :: "rlp_iterator \<Rightarrow> rlp_iterator \<Rightarrow> bool" where
  "it_equal a b = (it_ptr a = it_ptr b \<and> it_count a = it_count b)"

definition it_next :: "bytes \<Rightarrow> rlp_iterator \<Rightarrow> rlp_error + rlp_iterator" where
  "it_next d it =
    (let nxt = map_option (\<lambda>p. p + it_count it) (it_ptr it) in
     if m_remaining it \<noteq> 0
     then (let view = it_view d (it\<lparr>it_ptr := nxt, it_count := m_remaining it\<rparr>) in
           bindE (sizeAsEncoded view) (\<lambda>n.
             Inr \<lparr>it_ptr = nxt, it_count = length (cropped view 0 n),
               m_remaining = m_remaining it - min (m_remaining it) (length (cropped view 0 n))\<rparr>))
     else Inr \<lparr>it_ptr = nxt, it_count = 0, m_remaining = 0\<rparr>)"

partial_function (option) toList_loop ::
  "bytes \<Rightarrow> rlp_iterator \<Rightarrow> bytes list \<Rightarrow> (rlp_error + bytes list) option" where
  "toList_loop d it ret =
    (if it_equal it (it_end d) then Some (Inr ret)
     else (case RLP_ctor (it_view d it) VeryStrict of
        Inl e \<Rightarrow> Some (Inl e)
      | Inr x \<Rightarrow> (case it_next d it of
          Inl e \<Rightarrow> Some (Inl e)
        | Inr it' \<Rightarrow> toList_loop d it' (ret @ [x]))))"

definition toList :: "bytes \<Rightarrow> nat \<Rightarrow> (rlp_error + bytes list) option" where
  "toList d flags =
    (if \<not> isList d
     then (if flag_set flags ThrowOnFail then Some (Inl BadCast) else Some (Inr []))
     else (case it_begin d of Inl e \<Rightarrow> Some (Inl e) | Inr it \<Rightarrow> toList_loop d it []))"

subsection \<open>Conversions\<close>

text \<open>
  \<^verbatim>\<open>toBytes\<close> copies \<^verbatim>\<open>length()\<close> bytes from the start of the payload view, without looking
  at the view's size.
\<close>

definition toBytes :: "bytes \<Rightarrow> nat \<Rightarrow> rlp_error + bytes" where
  "toBytes d flags =
    (if \<not> isData d
     then (if flag_set flags ThrowOnFail then Inl BadCast else Inr [])
     else bindE (payload d) (\<lambda>p. bindE (RLP_length d) (\<lambda>l.
       if l \<le> length p then Inr (take l p) else Inl OutOfBounds)))"

definition toBytesConstRef :: "bytes \<Rightarrow> nat \<Rightarrow> rlp_error + bytes" where
  "toBytesConstRef d flags =
    (if \<not> isData d
     then (if flag_set flags ThrowOnFail then Inl BadCast else Inr [])
     else bindE (payload d) (\<lambda>p. bindE (RLP_length d) (\<lambda>l. Inr (cropped p 0 l))))"

text \<open>
  \<^verbatim>\<open>toInt<T>\<close>: the guards, shared by all instances, give the payload to convert or 0.
\<close>

definition toInt_payload :: "bytes \<Rightarrow> nat \<Rightarrow> nat \<Rightarrow> rlp_error + bytes option" where
  "toInt_payload d flags maxSize =
    bindE (requireGood d) (\<lambda>_. bindE (isInt d) (\<lambda>i.
    if (\<not> i \<and> \<not> flag_set flags AllowNonCanon) \<or> isList d \<or> isNull d
    then (if flag_set flags ThrowOnFail then Inl BadCast else Inr None)
    else bindE (payload d) (\<lambda>p.
      if length p > maxSize \<and> flag_set flags FailIfTooBig
      then (if flag_set flags ThrowOnFail then Inl BadCast else Inr None)
      else Inr (Some p))))"

definition toInt :: "bytes \<Rightarrow> nat \<Rightarrow> rlp_error + 'a::len word" where
  "toInt d flags =
    bindE (toInt_payload d flags (LENGTH('a) div 8))
      (\<lambda>r. case r of None \<Rightarrow> Inr 0 | Some p \<Rightarrow> Inr (fromBigEndian p))"

definition toInt_bigint :: "bytes \<Rightarrow> nat \<Rightarrow> rlp_error + nat" where
  "toInt_bigint d flags =
    bindE (toInt_payload d flags (2 ^ 32 - 1))
      (\<lambda>r. case r of None \<Rightarrow> Inr 0 | Some p \<Rightarrow> Inr (fromBigEndian_bigint p))"

definition toPositiveInt64 :: "bytes \<Rightarrow> nat \<Rightarrow> rlp_error + int" where
  "toPositiveInt64 d flags =
    bindE (toInt d flags :: rlp_error + u64) (\<lambda>w.
      let i = sint w in
      if flag_set flags ThrowOnFail \<and> i < 0 then Inl BadCast else Inr i)"

definition toHash :: "nat \<Rightarrow> bytes \<Rightarrow> nat \<Rightarrow> rlp_error + bytes" where
  "toHash N d flags =
    bindE (requireGood d) (\<lambda>_. bindE (payload d) (\<lambda>p.
    let l = length p in
    if \<not> isData d \<or> (l > N \<and> flag_set flags FailIfTooBig)
       \<or> (l < N \<and> flag_set flags FailIfTooSmall)
    then (if flag_set flags ThrowOnFail then Inl BadCast else Inr (replicate N 0))
    else (let s = min N l in Inr (overwrite (replicate N 0) (N - s) (take s p)))))"

section \<open>Definitions: the writer\<close>

text \<open>The head of \<open>m_listStack\<close> is \<^verbatim>\<open>m_listStack.back()\<close>.\<close>

record RLPStream =
  m_out :: bytes
  m_listStack :: "(nat \<times> nat) list"

definition RLPStream_empty :: RLPStream where
  "RLPStream_empty = \<lparr>m_out = [], m_listStack = []\<rparr>"

text \<open>
  The loop \<^verbatim>\<open>for (; _i; _i >>= 8) *(b--) = (byte)_i\<close> with \<open>b\<close> an index into the buffer.
  Its callers reserve \<^verbatim>\<open>bytesRequired(_i)\<close> bytes, so \<open>b\<close> does not pass below the buffer.
\<close>

function pushInt_loop :: "nat \<Rightarrow> nat \<Rightarrow> bytes \<Rightarrow> bytes" where
  "pushInt_loop i b out =
    (if i \<noteq> 0 then pushInt_loop (drop_bit 8 i) (b - 1) (out[b := of_nat i]) else out)"
  by pat_completeness auto
termination by (relation "measure fst") (auto simp: drop_bit_eq_div)

declare pushInt_loop.simps [simp del]

definition pushInt :: "RLPStream \<Rightarrow> nat \<Rightarrow> nat \<Rightarrow> RLPStream" where
  "pushInt s i br =
    (let out = m_out s @ replicate br 0 in
     s\<lparr>m_out := pushInt_loop i (length out - 1) out\<rparr>)"

definition push_back :: "RLPStream \<Rightarrow> nat \<Rightarrow> RLPStream" where
  "push_back s b = s\<lparr>m_out := m_out s @ [of_nat b]\<rparr>"

definition pushCount :: "RLPStream \<Rightarrow> nat \<Rightarrow> nat \<Rightarrow> rlp_error + RLPStream" where
  "pushCount s count base =
    (let br = bytesRequired count in
     if br + base > 0xff then Inl RLPException
     else Inr (pushInt (push_back s (br + base)) count br))"

fun noteAppended_loop :: "bytes \<Rightarrow> (nat \<times> nat) list \<Rightarrow> nat \<Rightarrow> rlp_error + RLPStream" where
  "noteAppended_loop out [] cnt = Inr \<lparr>m_out = out, m_listStack = []\<rparr>"
| "noteAppended_loop out ((c, p) # st) cnt =
    (if c < cnt then Inl RLPException
     else if c - cnt \<noteq> 0
     then Inr \<lparr>m_out = out, m_listStack = (c - cnt, p) # st\<rparr>
     else
       (let s = length out - p;
            brs = bytesRequired s;
            encodeSize = (if s < c_rlpListImmLenCount then 1 else 1 + brs);
            os = length out;
            out = out @ replicate encodeSize 0;
            out = overwrite out (p + encodeSize) (take (os - p) (drop p out))
        in
        if s < c_rlpListImmLenCount
        then noteAppended_loop (out[p := of_nat (c_rlpListStart + s)]) st 1
        else if c_rlpListIndLenZero + brs \<le> 0xff
        then noteAppended_loop
          (pushInt_loop s (p + brs) (out[p := of_nat (c_rlpListIndLenZero + brs)])) st 1
        else Inl RLPException))"

definition noteAppended :: "RLPStream \<Rightarrow> nat \<Rightarrow> rlp_error + RLPStream" where
  "noteAppended s cnt =
    (if cnt = 0 then Inr s else noteAppended_loop (m_out s) (m_listStack s) cnt)"

definition appendRaw :: "RLPStream \<Rightarrow> bytes \<Rightarrow> nat \<Rightarrow> rlp_error + RLPStream" where
  "appendRaw s bs cnt = noteAppended (s\<lparr>m_out := m_out s @ bs\<rparr>) cnt"

definition appendList_rlp :: "RLPStream \<Rightarrow> bytes \<Rightarrow> rlp_error + RLPStream" where
  "appendList_rlp s rlp =
    bindE (if length rlp < c_rlpListImmLenCount
           then Inr (push_back s (length rlp + c_rlpListStart))
           else pushCount s (length rlp) c_rlpListIndLenZero) (\<lambda>s.
    appendRaw s rlp 1)"

definition appendList :: "RLPStream \<Rightarrow> nat \<Rightarrow> rlp_error + RLPStream" where
  "appendList s n =
    (if n \<noteq> 0 then Inr (s\<lparr>m_listStack := (n, length (m_out s)) # m_listStack s\<rparr>)
     else appendList_rlp s [])"

definition append_bytes :: "RLPStream \<Rightarrow> bytes \<Rightarrow> bool \<Rightarrow> rlp_error + RLPStream" where
  "append_bytes st bs compact =
    (let d = (if compact then dropWhile (\<lambda>b. b = 0) bs else bs); s = length d in
     bindE (if s = 1 \<and> unat (d ! 0) < c_rlpDataImmLenStart
            then Inr (push_back st (unat (d ! 0)))
            else bindE (if s < c_rlpDataImmLenCount
                        then Inr (push_back st (s + c_rlpDataImmLenStart))
                        else pushCount st s c_rlpDataIndLenZero) (\<lambda>st.
                 appendRaw st d 0)) (\<lambda>st.
     noteAppended st 1))"

definition append_bigint :: "RLPStream \<Rightarrow> nat \<Rightarrow> rlp_error + RLPStream" where
  "append_bigint s i =
    bindE (if i = 0 then Inr (push_back s c_rlpDataImmLenStart)
           else if i < c_rlpDataImmLenStart then Inr (push_back s i)
           else
             (let br = bytesRequired i in
              bindE (if br < c_rlpDataImmLenCount
                     then Inr (push_back s (br + c_rlpDataImmLenStart))
                     else (let brbr = bytesRequired br in
                       if c_rlpDataIndLenZero + brbr > 0xff then Inl RLPException
                       else Inr (pushInt (push_back s (c_rlpDataIndLenZero + brbr)) br brbr))) (\<lambda>s.
              Inr (pushInt s i br)))) (\<lambda>s.
    noteAppended s 1)"

definition append_hash :: "RLPStream \<Rightarrow> bytes \<Rightarrow> bool \<Rightarrow> bool \<Rightarrow> rlp_error + RLPStream" where
  "append_hash s h compact allOrNothing =
    (if allOrNothing \<and> list_all (\<lambda>b. b = 0) h then append_bytes s [] False
     else append_bytes s h compact)"

fun append_each :: "RLPStream \<Rightarrow> bytes list \<Rightarrow> rlp_error + RLPStream" where
  "append_each s [] = Inr s"
| "append_each s (x # xs) = bindE (append_bytes s x False) (\<lambda>s. append_each s xs)"

definition appendVector :: "RLPStream \<Rightarrow> bytes list \<Rightarrow> rlp_error + RLPStream" where
  "appendVector s xs = bindE (appendList s (length xs)) (\<lambda>s. append_each s xs)"

definition stream_out :: "RLPStream \<Rightarrow> rlp_error + bytes" where
  "stream_out s = (if m_listStack s \<noteq> [] then Inl RLPException else Inr (m_out s))"

definition stream_clear :: "RLPStream \<Rightarrow> RLPStream" where
  "stream_clear s = s\<lparr>m_out := [], m_listStack := []\<rparr>"

section \<open>Specification of the encoding\<close>

text \<open>An RLP item is a byte string or a list of items; \<open>enc\<close> is its canonical encoding.\<close>

datatype item = Str bytes | Lst "item list"

definition header :: "nat \<Rightarrow> nat \<Rightarrow> bytes" where
  "header base l =
    (if l < 56 then [of_nat (base + l)]
     else of_nat (base + 55 + bytesRequired l) # be_digits (bytesRequired l) l)"

definition encStr :: "bytes \<Rightarrow> bytes" where
  "encStr bs = (if length bs = 1 \<and> unat (bs ! 0) < 0x80 then bs else header 0x80 (length bs) @ bs)"

fun enc :: "item \<Rightarrow> bytes" where
  "enc (Str bs) = encStr bs"
| "enc (Lst xs) = header 0xc0 (length (concat (map enc xs))) @ concat (map enc xs)"

text \<open>Encodings whose size a 64-bit \<^verbatim>\<open>size_t\<close> can handle with the code's margin.\<close>

definition fits :: "bytes \<Rightarrow> bool" where
  "fits d = (length d < 2 ^ 64 - 1 - 0x100)"

section \<open>Lemmas: the reader\<close>

lemmas [rlp_defs] = isNull_def isData_def isList_def isSingleByte_def

lemma at_ref_in [simp]: "i < length d \<Longrightarrow> at_ref d i = Inr (unat (d ! i))"
  by (simp add: at_ref_def)

declare flag_set_def [simp]

lemma length_loop_eq:
  "i + 1 + k \<le> length d \<Longrightarrow>
    length_loop d i k r = Inr (foldl (\<lambda>r b. push_bit 8 r OR ucast b) r (take k (drop (i + 1) d)))"
proof (induction k arbitrary: i r)
  case (Suc k)
  then have "drop (i + 1) d = d ! (i + 1) # drop (i + 2) d"
    by (simp add: Cons_nth_drop_Suc)
  with Suc show ?case
    by simp
qed simp

lemma length_loop_0:
  "1 + k \<le> length d \<Longrightarrow> k \<le> 8 \<Longrightarrow>
    \<exists>w. length_loop d 0 k 0 = Inr w \<and> unat w = fromBigEndian_bigint (take k (drop 1 d))"
proof -
  assume k: "1 + k \<le> length d" "k \<le> 8"
  let ?bs = "take k (drop 1 d)"
  have "length_loop d 0 k 0 = Inr (fromBigEndian ?bs)"
    using k by (simp add: length_loop_eq fromBigEndian_def)
  moreover have "fromBigEndian_bigint ?bs < 2 ^ 64"
  proof -
    have "fromBigEndian_bigint ?bs < 256 ^ length ?bs"
      by (rule fromBigEndian_bigint_less)
    also have "\<dots> \<le> 256 ^ 8"
      using k by (intro power_increasing) auto
    finally show ?thesis
      by simp
  qed
  then have "unat (fromBigEndian ?bs :: u64) = fromBigEndian_bigint ?bs"
    by (simp add: fromBigEndian_eq unat_of_nat)
  ultimately show ?thesis
    by blast
qed

subsection \<open>What the reader finds behind a header\<close>

lemma header_base_cases: "l < 56 \<or> (56 \<le> l \<and> bytesRequired l \<noteq> 0)"
  using bytesRequired_le_iff [of l 0] by auto

lemma fits_bytesRequired: "l < 2 ^ 64 \<Longrightarrow> bytesRequired l \<le> 8"
  by (simp add: bytesRequired_le_iff)

lemma be_digits_hd_pos:
  assumes "0 < v" shows "be_digits (bytesRequired v) v ! 0 \<noteq> 0"
proof -
  let ?n = "bytesRequired v"
  obtain m where m: "?n = Suc m"
    using assms by (auto simp: bytesRequired_pos)
  obtain b bs where d: "be_digits ?n v = b # bs" "length bs = m"
    using m length_be_digits [of ?n v]
    by (cases "be_digits ?n v") (auto simp del: length_be_digits be_digits.simps)
  have "256 ^ m \<le> v"
    using bytesRequired_gt_iff [of m v] m by simp
  moreover have "fromBigEndian_bigint (b # bs) = v"
    using fromBigEndian_bigint_be_digits [of ?n v] d less_bytesRequired [of v] by simp
  ultimately show ?thesis
    using fromBigEndian_bigint_less [of bs] d
    by (auto simp: fromBigEndian_bigint_Cons)
qed

lemma length_header: "length (header base l) = (if l < 56 then 1 else 1 + bytesRequired l)"
  by (simp add: header_def)

lemma header_hd:
  "header base l = of_nat (base + (if l < 56 then l else 55 + bytesRequired l)) # (if l < 56 then [] else be_digits (bytesRequired l) l)"
  by (simp add: header_def add.assoc)

lemma reader_header:
  assumes base: "base = 0x80 \<or> base = 0xc0" and l: "l < 2 ^ 64 - 1 - 0x100"
    and single: "base = 0x80 \<Longrightarrow> l = 1 \<Longrightarrow> rest \<noteq> [] \<and> 0x80 \<le> unat (rest ! 0)"
  defines "d \<equiv> header base l @ rest"
  shows "RLP_length d = Inr l" and "payloadOffset d = length (header base l)"
    and "isData d = (base = 0x80)" and "isList d = (base = 0xc0)" and "\<not> isSingleByte d"
proof -
  let ?br = "bytesRequired l"
  have br: "?br \<le> 8"
    using l by (intro fits_bytesRequired) simp
  have "base + (if l < 56 then l else 55 + ?br) < 256"
    using base br by auto
  then have n: "unat (d ! 0) = base + (if l < 56 then l else 55 + ?br)"
    using unat_of_nat_small [of "base + (if l < 56 then l else 55 + ?br)", where ?'a = 8]
    by (simp add: d_def header_hd del: of_nat_add)
  have nn: "\<not> isNull d"
    by (simp add: d_def header_hd isNull_def)
  show "isData d = (base = 0x80)" "isList d = (base = 0xc0)" "\<not> isSingleByte d"
    using base n nn br by (auto simp: rlp_defs)
  have br0: "\<not> l < 56 \<Longrightarrow> 0 < ?br"
    using header_base_cases [of l] by auto
  show "payloadOffset d = length (header base l)"
    using base n nn br br0 by (auto simp: payloadOffset_def lengthSize_def length_header rlp_defs)
  have good: "requireGood d = Inr ()"
    using nn n base br br0 single
    by (auto simp: requireGood_def isNull_def d_def header_def unat_of_nat split: if_splits)
  show "RLP_length d = Inr l"
  proof (cases "l < 56")
    case True
    then show ?thesis
      using nn n good base by (auto simp: RLP_length_def isNull_def)
  next
    case False
    then have br0: "0 < ?br" and len: "length d > ?br"
      using br0 by (simp_all add: d_def length_header)
    have dig: "take ?br (drop 1 d) = be_digits ?br l"
      using False by (simp add: d_def header_hd)
    obtain w where w: "length_loop d 0 ?br 0 = Inr w" "unat w = l"
      using length_loop_0 [of ?br d] br len dig less_bytesRequired [of l] by auto
    have "d ! 1 = be_digits ?br l ! 0"
      using False br0 by (simp add: d_def header_hd nth_append)
    then have d1: "d ! 1 \<noteq> 0"
      using False be_digits_hd_pos [of l] by simp
    have L: "length d > 1" "length d \<noteq> 0"
      using len br0 by linarith+
    have "unat (d ! 1) \<noteq> 0"
      using d1 by (simp add: unat_eq_0)
    then show ?thesis
      using base n good br len w L False l br0
      by (auto simp: RLP_length_def isNull_def)
  qed
qed

lemma header_not_Nil [simp]: "header base l \<noteq> []" "[] \<noteq> header base l"
  by (simp_all add: header_def)

lemma encStr_cases:
  obtains (single) "length bs = 1" "unat (bs ! 0) < 0x80" "encStr bs = bs"
  | (hdr) "encStr bs = header 0x80 (length bs) @ bs"
      "\<And>t. length bs = 1 \<Longrightarrow> bs @ t \<noteq> [] \<and> 0x80 \<le> unat ((bs @ t) ! 0)"
proof (cases "length bs = 1 \<and> unat (bs ! 0) < 0x80")
  case True
  then show ?thesis
    using that(1) by (simp add: encStr_def)
next
  case False
  then show ?thesis
    by (intro that(2)) (auto simp: encStr_def nth_append)
qed

lemma actualSize_header:
  assumes "base = 0x80 \<or> base = 0xc0" and "l < 2 ^ 64 - 1 - 0x100"
    and "base = 0x80 \<Longrightarrow> l = 1 \<Longrightarrow> rest \<noteq> [] \<and> 0x80 \<le> unat (rest ! 0)"
  shows "actualSize (header base l @ rest) = Inr (length (header base l) + l)"
  using reader_header [OF assms] assms(1) by (auto simp: actualSize_def isNull_def)

lemma actualSize_encStr:
  assumes "fits (encStr bs)"
  shows "actualSize (encStr bs @ t) = Inr (length (encStr bs))"
proof (cases bs rule: encStr_cases)
  case single
  then show ?thesis
    by (auto simp: actualSize_def encStr_def rlp_defs nth_append)
next
  case hdr
  have "actualSize (header 0x80 (length bs) @ bs @ t) = Inr (length (header 0x80 (length bs)) + length bs)"
    using assms hdr(1) by (intro actualSize_header) (auto simp: fits_def hdr(2))
  then show ?thesis
    using hdr(1) by simp
qed

lemma actualSize_enc: "fits (enc x) \<Longrightarrow> actualSize (enc x @ t) = Inr (length (enc x))"
proof (cases x)
  case (Lst xs)
  assume "fits (enc x)"
  then show ?thesis
    using Lst actualSize_header [of "0xc0" "length (concat (map enc xs))" "concat (map enc xs) @ t"]
    by (simp add: fits_def)
qed (simp add: actualSize_encStr)

lemma enc_not_Nil [simp]: "enc x \<noteq> []" "[] \<noteq> enc x"
  by (cases x; auto simp: encStr_def)+

lemma sizeAsEncoded_enc:
  "fits (enc x) \<Longrightarrow> sizeAsEncoded (enc x @ t) = Inr (length (enc x))"
  by (simp add: sizeAsEncoded_def RLP_ctor_def actualSize_enc)

lemma RLP_ctor_enc: "fits (enc x) \<Longrightarrow> RLP_ctor (enc x) VeryStrict = Inr (enc x)"
  using actualSize_enc [of x "[]"] by (simp add: RLP_ctor_def)

lemma RLP_ctor_enc_lax:
  "fits (enc x) \<Longrightarrow> RLP_ctor (enc x @ t) (ThrowOnFail OR FailIfTooSmall) = Inr (enc x @ t)"
  by (simp add: RLP_ctor_def actualSize_enc)

subsection \<open>Payloads\<close>

lemma payload_header:
  assumes "base = 0x80 \<or> base = 0xc0" and "length p < 2 ^ 64 - 1 - 0x100"
    and "base = 0x80 \<Longrightarrow> length p = 1 \<Longrightarrow> 0x80 \<le> unat (p ! 0)"
  shows "payload (header base (length p) @ p @ t) = Inr p"
    and "RLP_length (header base (length p) @ p @ t) = Inr (length p)"
    and "payloadOffset (header base (length p) @ p @ t) = length (header base (length p))"
proof -
  have s: "base = 0x80 \<Longrightarrow> length p = 1 \<Longrightarrow> p @ t \<noteq> [] \<and> 0x80 \<le> unat ((p @ t) ! 0)"
    using assms(3) by (auto simp: nth_append)
  note R = reader_header [OF assms(1,2) s]
  show "RLP_length (header base (length p) @ p @ t) = Inr (length p)"
    "payloadOffset (header base (length p) @ p @ t) = length (header base (length p))"
    using R by simp_all
  then show "payload (header base (length p) @ p @ t) = Inr p"
    by (simp add: payload_def)
qed

lemma payload_encStr: "fits (encStr bs) \<Longrightarrow> payload (encStr bs @ t) = Inr bs \<and> RLP_length (encStr bs @ t) = Inr (length bs)"
proof (cases bs rule: encStr_cases)
  case single
  then have "RLP_length (bs @ t) = Inr 1" "payloadOffset (bs @ t) = 0"
    by (auto simp: RLP_length_def requireGood_def payloadOffset_def rlp_defs nth_append)
  then show ?thesis
    using single by (simp add: payload_def)
next
  case hdr
  assume "fits (encStr bs)"
  then show ?thesis
    using hdr(1) hdr(2) [of "[]"] payload_header [of "0x80" bs t] by (simp add: fits_def)
qed

lemma payload_encLst:
  "fits (enc (Lst xs)) \<Longrightarrow> payload (enc (Lst xs) @ t) = Inr (concat (map enc xs))
    \<and> RLP_length (enc (Lst xs) @ t) = Inr (length (concat (map enc xs)))
    \<and> payloadOffset (enc (Lst xs) @ t) = length (header 0xc0 (length (concat (map enc xs))))"
  using payload_header [of "0xc0" "concat (map enc xs)" t] by (simp add: fits_def)

lemma isData_encStr: "fits (encStr bs) \<Longrightarrow> isData (encStr bs @ t) \<and> \<not> isList (encStr bs @ t)"
proof (cases bs rule: encStr_cases)
  case single
  then show ?thesis
    by (auto simp: rlp_defs nth_append)
next
  case hdr
  assume "fits (encStr bs)"
  then have l: "length bs < 2 ^ 64 - 1 - 0x100"
    using hdr(1) by (simp add: fits_def)
  have "(0x80 :: nat) = 0x80 \<or> (0x80 :: nat) = 0xc0"
    by simp
  from reader_header(3,4) [OF this l hdr(2)] show ?thesis
    by (simp add: hdr(1))
qed

lemma isList_encLst:
  "fits (enc (Lst xs)) \<Longrightarrow> isList (enc (Lst xs) @ t) \<and> \<not> isData (enc (Lst xs) @ t)"
  using reader_header(3,4) [of "0xc0" "length (concat (map enc xs))" "concat (map enc xs) @ t"]
  by (simp add: fits_def)

lemma length_concat_mem: "x \<in> set xs \<Longrightarrow> length (f x) \<le> length (concat (map f xs))"
  by (induction xs) auto

lemma fits_member: "fits (enc (Lst xs)) \<Longrightarrow> x \<in> set xs \<Longrightarrow> fits (enc x)"
  using length_concat_mem [of x xs enc] by (simp add: fits_def)

subsection \<open>Conversions\<close>

lemma toBytes_encStr: "fits (encStr bs) \<Longrightarrow> toBytes (encStr bs @ t) flags = Inr bs"
  using payload_encStr [of bs t] isData_encStr [of bs t] by (simp add: toBytes_def)

lemma requireGood_of_length: "RLP_length d = Inr l \<Longrightarrow> d \<noteq> [] \<Longrightarrow> requireGood d = Inr ()"
  by (auto simp: RLP_length_def isNull_def bindE_eq_Inr split: if_splits)

lemma isInt_encStr:
  assumes "fits (encStr bs)" and "bs \<noteq> [] \<Longrightarrow> bs ! 0 \<noteq> 0"
  shows "isInt (encStr bs @ t) = Inr True"
proof (cases bs rule: encStr_cases)
  case single
  then show ?thesis
    using assms(2) by (cases bs) (auto simp: isInt_def requireGood_def isNull_def unat_eq_0)
next
  case hdr
  let ?l = "length bs" and ?d = "encStr bs @ t"
  have l: "?l < 2 ^ 64 - 1 - 0x100"
    using assms(1) hdr(1) by (simp add: fits_def)
  have good: "requireGood ?d = Inr ()"
    using payload_encStr [OF assms(1), of t] hdr(1) by (intro requireGood_of_length) auto
  have br: "bytesRequired ?l \<le> 8"
    using l by (intro fits_bytesRequired) simp
  have "0x80 + (if ?l < 56 then ?l else 55 + bytesRequired ?l) < 256"
    using br by auto
  then have n: "unat (?d ! 0) = 0x80 + (if ?l < 56 then ?l else 55 + bytesRequired ?l)"
    using unat_of_nat_small [of "0x80 + (if ?l < 56 then ?l else 55 + bytesRequired ?l)", where ?'a = 8]
    by (simp add: hdr(1) header_hd del: of_nat_add)
  have p: "bs \<noteq> [] \<Longrightarrow> ?d ! length (header 0x80 ?l) = bs ! 0"
    by (simp add: hdr(1) nth_append)
  have p0: "bs \<noteq> [] \<Longrightarrow> unat (bs ! 0) \<noteq> 0"
    using assms(2) by (simp add: unat_eq_0)
  have br0: "\<not> ?l < 56 \<Longrightarrow> 0 < bytesRequired ?l"
    using header_base_cases [of ?l] by auto
  have len: "length ?d = length (header 0x80 ?l) + ?l + length t"
    by (simp add: hdr(1))
  show ?thesis
    using good n p p0 br br0 len
    by (cases "bs = []") (auto simp: isInt_def isNull_def length_header)
qed

lemma toInt_payload_encStr:
  assumes "fits (encStr bs)" and "bs \<noteq> [] \<Longrightarrow> bs ! 0 \<noteq> 0" and "length bs \<le> m"
  shows "toInt_payload (encStr bs @ t) flags m = Inr (Some bs)"
proof -
  have "requireGood (encStr bs @ t) = Inr ()"
    using payload_encStr [OF assms(1), of t] enc_not_Nil [of "Str bs"]
    by (intro requireGood_of_length) auto
  moreover have "\<not> isNull (encStr bs @ t)"
    using enc_not_Nil [of "Str bs"] by (simp add: isNull_def)
  ultimately show ?thesis
    using assms(3) payload_encStr [OF assms(1), of t] isInt_encStr [OF assms(1,2), of t]
      isData_encStr [OF assms(1), of t]
    by (simp add: toInt_payload_def)
qed

lemma toHash_encStr:
  assumes "fits (encStr bs)" and "length bs = N"
  shows "toHash N (encStr bs @ t) flags = Inr bs"
proof -
  have "requireGood (encStr bs @ t) = Inr ()"
    using payload_encStr [OF assms(1), of t] enc_not_Nil [of "Str bs"]
    by (intro requireGood_of_length) auto
  then show ?thesis
    using assms(2) payload_encStr [OF assms(1), of t] isData_encStr [OF assms(1), of t]
    by (simp add: toHash_def overwrite_def)
qed

subsection \<open>Lists\<close>

lemma sizeAsEncoded_Nil [simp]: "sizeAsEncoded [] = Inr 0"
  by (simp add: sizeAsEncoded_def RLP_ctor_def actualSize_def isNull_def)

lemma items_loop_enc:
  "(\<And>x. x \<in> set xs \<Longrightarrow> fits (enc x)) \<Longrightarrow>
    items_loop (concat (map enc xs)) k = Inr (k + length xs)"
proof (induction xs arbitrary: k)
  case Nil
  then show ?case
    by (simp add: items_loop.simps)
next
  case (Cons x xs)
  then show ?case
    by (subst items_loop.simps) (simp add: sizeAsEncoded_enc)
qed

lemma items_enc: "fits (enc (Lst xs)) \<Longrightarrow> items (enc (Lst xs) @ t) = Inr (length xs)"
  using items_loop_enc [of xs 0] fits_member [of xs] isList_encLst [of xs t] payload_encLst [of xs t]
  by (simp add: items_def)

text \<open>
  The cache of the subscript operator: either untouched, or positioned at some index with
  the item there and the offset of its end.
\<close>

definition positioned :: "item list \<Rightarrow> RLP \<Rightarrow> bool" where
  "positioned xs r =
    (m_data r = enc (Lst xs) \<and> m_lastIndex r \<le> length xs \<and>
     m_lastItem r = (if m_lastIndex r < length xs then enc (xs ! m_lastIndex r) else []) \<and>
     m_lastEnd r = length (concat (map enc (take (Suc (m_lastIndex r)) xs))))"

definition cache_ok :: "item list \<Rightarrow> RLP \<Rightarrow> bool" where
  "cache_ok xs r =
    (positioned xs r \<or>
     m_data r = enc (Lst xs) \<and> m_lastIndex r = 2 ^ 64 - 1 \<and> m_lastItem r = [])"

lemma concat_enc_split:
  "k < length xs \<Longrightarrow> drop (length (concat (map enc (take k xs)))) (concat (map enc xs))
    = enc (xs ! k) @ concat (map enc (drop (Suc k) xs))"
proof -
  assume k: "k < length xs"
  have "concat (map enc xs) = concat (map enc (take k xs)) @ enc (xs ! k) @ concat (map enc (drop (Suc k) xs))"
    using id_take_nth_drop [OF k] by (metis concat.simps(2) concat_append list.simps(9) map_append)
  then show ?thesis
    by simp
qed

lemma length_concat_take_le:
  "length (concat (map enc (take k xs))) \<le> length (concat (map enc xs))"
proof -
  have "concat (map enc xs) = concat (map enc (take k xs)) @ concat (map enc (drop k xs))"
    by (metis append_take_drop_id concat_append map_append)
  then show ?thesis
    by simp
qed

lemma index_loop_positioned:
  assumes "fits (enc (Lst xs))" and "positioned xs r" and "m_lastIndex r \<le> i"
  shows "\<exists>r'. index_loop r i = Inr r' \<and> positioned xs r' \<and> m_lastIndex r' = min i (length xs)"
  using assms(2,3)
proof (induction r i rule: index_loop.induct)
  case (1 r i)
  let ?k = "m_lastIndex r"
  show ?case
  proof (cases "?k < i \<and> m_lastItem r \<noteq> []")
    case False
    then have "index_loop r i = Inr r"
      by (subst index_loop.simps) auto
    with False 1(2,3) show ?thesis
      by (auto simp: positioned_def split: if_splits)
  next
    case True
    then have k: "?k < length xs"
      using 1(2) by (auto simp: positioned_def split: if_splits)
    have pay: "payload (m_data r) = Inr (concat (map enc xs))"
      using payload_encLst [OF assms(1), of "[]"] 1(2) by (simp add: positioned_def)
    let ?rest = "cropped_from (concat (map enc xs)) (m_lastEnd r)"
    let ?next = "if Suc ?k < length xs then enc (xs ! Suc ?k) else []"
    have rest: "?rest = ?next @ concat (map enc (drop (Suc (Suc ?k)) xs))"
      using 1(2) concat_enc_split [of "Suc ?k" xs] length_concat_take_le [of "Suc ?k" xs] k
      by (auto simp: positioned_def)
    have "Suc ?k < length xs \<Longrightarrow> fits (enc (xs ! Suc ?k))"
      using fits_member [OF assms(1)] by simp
    then have size: "sizeAsEncoded ?rest = Inr (length ?next)"
      using k by (auto simp: rest sizeAsEncoded_enc)
    let ?r = "r\<lparr>m_lastItem := ?next, m_lastEnd := m_lastEnd r + length ?next, m_lastIndex := ?k + 1\<rparr>"
    have "take (Suc (Suc ?k)) xs = take (Suc ?k) xs @ (if Suc ?k < length xs then [xs ! Suc ?k] else [])"
      by (simp add: take_Suc_conv_app_nth)
    then have pos: "positioned xs ?r"
      using 1(2) k by (auto simp: positioned_def)
    have crop: "cropped ?rest 0 (length ?next) = ?next"
      by (simp add: rest)
    have step: "index_loop r i = index_loop ?r i"
      using True by (subst index_loop.simps) (simp add: pay size crop Let_def)
    have "\<exists>r'. index_loop ?r i = Inr r' \<and> positioned xs r' \<and> m_lastIndex r' = min i (length xs)"
      using 1(1) [OF _ pay refl size refl] True pos crop by simp
    then show ?thesis
      by (simp add: step)
  qed
qed

lemma RLP_ctor_Nil [simp]: "RLP_ctor [] s = Inr []"
  by (simp add: RLP_ctor_def actualSize_def isNull_def)

lemma RLP_index_cache_ok:
  assumes "fits (enc (Lst xs))" and "cache_ok xs r" and "i < 2 ^ 64 - 1"
  shows "\<exists>r'. RLP_index r i = Inr (if i < length xs then enc (xs ! i) else [], r') \<and> cache_ok xs r'"
proof -
  have pay: "m_data r = enc (Lst xs)" "payload (m_data r) = Inr (concat (map enc xs))"
    using payload_encLst [OF assms(1), of "[]"] assms(2) by (auto simp: cache_ok_def positioned_def)
  let ?first = "if xs = [] then [] else enc (xs ! 0)"
  have crop: "concat (map enc xs) = ?first @ concat (map enc (drop 1 xs))"
    by (cases xs) auto
  have size: "sizeAsEncoded (concat (map enc xs)) = Inr (length ?first)"
    using fits_member [OF assms(1)] by (cases xs) (auto simp: sizeAsEncoded_enc)
  let ?r0 = "r\<lparr>m_lastEnd := length ?first, m_lastItem := ?first, m_lastIndex := 0\<rparr>"
  have pos0: "positioned xs ?r0"
    using pay(1) by (cases xs) (auto simp: positioned_def)
  obtain r1 where r1: "(if i < m_lastIndex r
      then bindE (payload (m_data r)) (\<lambda>p. bindE (sizeAsEncoded p) (\<lambda>n.
        Inr (r\<lparr>m_lastEnd := n, m_lastItem := cropped p 0 n, m_lastIndex := 0\<rparr>)))
      else Inr r) = Inr r1" "positioned xs r1" "m_lastIndex r1 \<le> i"
  proof (cases "i < m_lastIndex r")
    case True
    have "cropped (concat (map enc xs)) 0 (length ?first) = ?first"
      by (subst crop) simp
    then show ?thesis
      using that [of ?r0] True pos0 by (simp add: pay(2) size)
  next
    case False
    then show ?thesis
      using that [of r] assms(2,3) by (auto simp: cache_ok_def)
  qed
  obtain r2 where r2: "index_loop r1 i = Inr r2" "positioned xs r2" "m_lastIndex r2 = min i (length xs)"
    using index_loop_positioned [OF assms(1) r1(2,3)] by blast
  then have item: "m_lastItem r2 = (if i < length xs then enc (xs ! i) else [])"
    by (auto simp: positioned_def min_def)
  have "RLP_ctor (m_lastItem r2) (ThrowOnFail OR FailIfTooSmall) = Inr (m_lastItem r2)"
    using item RLP_ctor_enc_lax [of "xs ! i" "[]"] fits_member [OF assms(1), of "xs ! i"] by simp
  then show ?thesis
    using r1(1) r2 item by (simp add: RLP_index_def cache_ok_def)
qed

text \<open>A sequence of subscripts on one object, whose cache lives on between them.\<close>

fun RLP_index_seq :: "RLP \<Rightarrow> nat list \<Rightarrow> rlp_error + bytes list" where
  "RLP_index_seq r [] = Inr []"
| "RLP_index_seq r (i # is) =
    bindE (RLP_index r i) (\<lambda>(x, r). bindE (RLP_index_seq r is) (\<lambda>xs. Inr (x # xs)))"

lemma RLP_index_seq_cache_ok:
  assumes "fits (enc (Lst xs))" and "cache_ok xs r" and "list_all (\<lambda>i. i < 2 ^ 64 - 1) is"
  shows "RLP_index_seq r is = Inr (map (\<lambda>i. if i < length xs then enc (xs ! i) else []) is)"
  using assms(2,3)
proof (induction "is" arbitrary: r)
  case (Cons i "is")
  then obtain r' where "RLP_index r i = Inr (if i < length xs then enc (xs ! i) else [], r')" "cache_ok xs r'"
    using RLP_index_cache_ok [OF assms(1), of r i] by auto
  with Cons show ?case
    by simp
qed simp

subsection \<open>Iteration\<close>

lemma it_view_enc:
  assumes "d = pre @ concat (map enc (y # ys)) @ t"
  shows "it_view d \<lparr>it_ptr = Some (length pre), it_count = length (enc y), m_remaining = m\<rparr> = enc y"
  by (simp add: it_view_def assms)

definition it_stuck :: "bytes \<Rightarrow> rlp_iterator \<Rightarrow> bool" where
  "it_stuck d it = (it_count it = 0 \<and> m_remaining it = 0 \<and> it_ptr it \<noteq> Some (length d))"

lemma toList_loop_stuck:
  assumes "it_stuck d it" shows "toList_loop d it ret = None"
proof -
  have "it_stuck d it \<longrightarrow> False" if "toList_loop d it ret = Some res" for d it ret res
  proof (rule toList_loop.raw_induct [where P = "\<lambda>d it ret res. it_stuck d it \<longrightarrow> False", OF _ that])
    fix f d it ret res
    assume IH: "\<And>d it ret res. f d it ret = Some res \<Longrightarrow> it_stuck d it \<longrightarrow> False"
      and eq: "(if it_equal it (it_end d) then Some (Inr ret)
       else (case RLP_ctor (it_view d it) VeryStrict of
          Inl e \<Rightarrow> Some (Inl e)
        | Inr x \<Rightarrow> (case it_next d it of
            Inl e \<Rightarrow> Some (Inl e)
          | Inr it' \<Rightarrow> f d it' (ret @ [x])))) = Some res"
    show "it_stuck d it \<longrightarrow> False"
    proof
      assume st: "it_stuck d it"
      have "it_next d it = Inr it"
        using st by (cases it; cases "it_ptr it") (auto simp: it_next_def Let_def it_stuck_def)
      moreover have "it_view d it = []"
        using st by (auto simp: it_view_def it_stuck_def split: option.splits)
      moreover have "\<not> it_equal it (it_end d)"
        using st by (auto simp: it_equal_def it_end_def it_stuck_def)
      ultimately have "f d it (ret @ [[]]) = Some res"
        using eq by simp
      with IH st show False
        by blast
    qed
  qed
  with assms show ?thesis
    by (cases "toList_loop d it ret") auto
qed

lemma toList_loop_enc:
  assumes "\<And>x. x \<in> set (y # ys) \<Longrightarrow> fits (enc x)"
    and "d = pre @ concat (map enc (y # ys)) @ t"
  shows "toList_loop d \<lparr>it_ptr = Some (length pre), it_count = length (enc y),
      m_remaining = length (concat (map enc ys))\<rparr> ret
    = (if t = [] then Some (Inr (ret @ map enc (y # ys))) else None)"
  using assms
proof (induction ys arbitrary: y pre ret)
  case Nil
  let ?it = "\<lparr>it_ptr = Some (length pre), it_count = length (enc y), m_remaining = 0\<rparr>"
  let ?it' = "\<lparr>it_ptr = Some (length pre + length (enc y)), it_count = 0, m_remaining = 0\<rparr>"
  have "toList_loop d ?it ret = toList_loop d ?it' (ret @ [enc y])"
    using it_view_enc [OF Nil(2), of 0] RLP_ctor_enc [of y] Nil(1)
    by (subst toList_loop.simps) (simp add: it_equal_def it_end_def it_next_def)
  also have "\<dots> = (if t = [] then Some (Inr (ret @ [enc y])) else None)"
  proof (cases "t = []")
    case True
    then show ?thesis
      using Nil(2) by (subst toList_loop.simps) (simp add: it_equal_def it_end_def)
  next
    case False
    then show ?thesis
      using Nil(2) by (simp add: toList_loop_stuck it_stuck_def)
  qed
  finally show ?case
    by simp
next
  case (Cons z zs)
  let ?it = "\<lparr>it_ptr = Some (length pre), it_count = length (enc y), m_remaining = length (concat (map enc (z # zs)))\<rparr>"
  let ?it' = "\<lparr>it_ptr = Some (length (pre @ enc y)), it_count = length (enc z), m_remaining = length (concat (map enc zs))\<rparr>"
  have view: "take (length (enc z) + length (concat (map enc zs))) (drop (length pre + length (enc y)) d)
    = enc z @ concat (map enc zs)"
    using Cons(3) by simp
  have "it_next d ?it = Inr ?it'"
    using Cons(2) by (simp add: it_next_def it_view_def view sizeAsEncoded_enc Let_def)
  then have "toList_loop d ?it ret = toList_loop d ?it' (ret @ [enc y])"
    using it_view_enc [OF Cons(3)] RLP_ctor_enc [of y] Cons(2)
    by (subst toList_loop.simps) (simp add: it_equal_def it_end_def)
  also have "\<dots> = (if t = [] then Some (Inr ((ret @ [enc y]) @ map enc (z # zs))) else None)"
    using Cons(2,3) by (intro Cons(1)) auto
  finally show ?case
    by simp
qed

lemma toList_enc:
  assumes "fits (enc (Lst xs))"
  shows "toList (enc (Lst xs) @ t) flags
    = (if t = [] then Some (Inr (map enc xs)) else None)"
proof -
  let ?d = "enc (Lst xs) @ t" and ?h = "header 0xc0 (length (concat (map enc xs)))"
  note facts = isList_encLst [OF assms, of t] payload_encLst [OF assms, of t]
  have d: "?d = ?h @ concat (map enc xs) @ t"
    by simp
  show ?thesis
  proof (cases xs)
    case Nil
    let ?it = "\<lparr>it_ptr = Some (length ?h), it_count = 0, m_remaining = 0\<rparr>"
    have "toList ?d flags = toList_loop ?d ?it []"
      using facts Nil by (simp add: toList_def it_begin_def)
    moreover have "t \<noteq> [] \<Longrightarrow> toList_loop ?d ?it [] = None"
      using Nil by (simp add: toList_loop_stuck it_stuck_def)
    moreover have "t = [] \<Longrightarrow> toList_loop ?d ?it [] = Some (Inr [])"
      using Nil by (subst toList_loop.simps) (simp add: it_equal_def it_end_def)
    ultimately show ?thesis
      using Nil by auto
  next
    case (Cons y ys)
    let ?it = "\<lparr>it_ptr = Some (length ?h), it_count = length (enc y), m_remaining = length (concat (map enc ys))\<rparr>"
    have fit: "x \<in> set (y # ys) \<Longrightarrow> fits (enc x)" for x
      using fits_member [OF assms] Cons by simp
    have "it_begin ?d = Inr ?it"
      using facts fit [of y] Cons by (simp add: it_begin_def sizeAsEncoded_enc)
    then have "toList ?d flags = toList_loop ?d ?it []"
      using facts by (simp add: toList_def)
    also have "\<dots> = (if t = [] then Some (Inr ([] @ map enc (y # ys))) else None)"
      using Cons by (intro toList_loop_enc fit) auto
    finally show ?thesis
      using Cons by simp
  qed
qed

subsection \<open>Bounds safety\<close>

text \<open>\<open>safe m\<close>: the operation \<open>m\<close> does not read outside its view.\<close>

definition safe :: "rlp_error + 'a \<Rightarrow> bool" where
  "safe m = (m \<noteq> Inl OutOfBounds)"

lemma safe_Inr [simp, intro]: "safe (Inr x)"
  by (simp add: safe_def)

lemma safe_Inl [simp]: "safe (Inl e) = (e \<noteq> OutOfBounds)"
  by (simp add: safe_def)

lemma safe_bindE [intro]: "safe m \<Longrightarrow> (\<And>x. m = Inr x \<Longrightarrow> safe (f x)) \<Longrightarrow> safe (bindE m f)"
  by (cases m) auto

lemma safe_at_ref [simp]: "safe (at_ref d i) = (i < length d)"
  by (simp add: at_ref_def)

lemma at_ref_eq_Inr [simp]: "at_ref d i = Inr n \<longleftrightarrow> i < length d \<and> n = unat (d ! i)"
  by (auto simp: at_ref_def)

lemma safe_requireGood [simp]: "safe (requireGood d)"
  by (auto simp: requireGood_def isNull_def)

lemma safe_isInt [simp]: "safe (isInt d)"
  unfolding isInt_def by (auto simp: isNull_def)

lemma safe_length_loop: "i + k < length d \<Longrightarrow> safe (length_loop d i k r)"
  by (simp add: length_loop_eq)

lemma safe_RLP_length [simp]: "safe (RLP_length d)"
  unfolding RLP_length_def
  by (auto simp: isNull_def intro!: safe_bindE safe_length_loop split: if_splits)

lemma safe_actualSize [simp]: "safe (actualSize d)"
  by (auto simp: actualSize_def)

lemma safe_payload [simp]: "safe (payload d)"
  by (auto simp: payload_def)

lemma safe_RLP_ctor [simp]: "safe (RLP_ctor d s)"
  unfolding RLP_ctor_def by (auto intro!: safe_bindE)

lemma safe_sizeAsEncoded [simp]: "safe (sizeAsEncoded d)"
  by (auto simp: sizeAsEncoded_def)

lemma safe_items [simp]: "safe (items d)"
proof -
  have "safe (items_loop p k)" for p k
  proof (induction p k rule: items_loop.induct)
    case (1 d i)
    then show ?case
      using safe_sizeAsEncoded [of d] by (subst items_loop.simps) (auto split: sum.splits simp: safe_def)
  qed
  then show ?thesis
    by (auto simp: items_def)
qed

lemma safe_RLP_index [simp]: "safe (RLP_index r i)"
proof -
  have "safe (index_loop r i)" for r i
  proof (induction r i rule: index_loop.induct)
    case (1 r i)
    then show ?case
      using safe_sizeAsEncoded safe_payload
      by (subst index_loop.simps) (auto split: sum.splits simp: Let_def safe_def)
  qed
  then show ?thesis
    unfolding RLP_index_def by (auto intro!: safe_bindE)
qed

lemma safe_toInt_payload [simp]: "safe (toInt_payload d flags m)"
  unfolding toInt_payload_def by (auto intro!: safe_bindE)

lemma safe_toHash [simp]: "safe (toHash N d flags)"
  unfolding toHash_def by (auto intro!: safe_bindE simp: Let_def)

lemma payload_length:
  "payload d = Inr p \<Longrightarrow> RLP_length d = Inr l \<Longrightarrow> length p = l \<or> length d < payloadOffset d + l"
  by (auto simp: payload_def length_cropped split: if_splits)

lemma payload_complete:
  assumes "actualSize d = Inr n" and "n \<le> length d" and "payload d = Inr p" and "RLP_length d = Inr l"
    and "d \<noteq> []"
  shows "length p = l \<and> n = payloadOffset d + l"
  using assms payload_length [OF assms(3,4)]
  by (auto simp: actualSize_def payloadOffset_def RLP_length_def requireGood_def
      rlp_defs bindE_eq_Inr split: if_splits)

lemma safe_toBytes:
  assumes "actualSize d = Inr n" and "n \<le> length d"
  shows "safe (toBytes d flags)"
proof -
  have "length p = l" if "payload d = Inr p" "RLP_length d = Inr l" "isData d" for p l
    using payload_complete [OF assms that(1,2)] that(3) by (auto simp: rlp_defs)
  then show ?thesis
    unfolding toBytes_def by (auto intro!: safe_bindE)
qed

subsection \<open>Canonical encodings\<close>

lemma long_header:
  assumes k: "k < length d" "0 < k" "k \<le> 8" and nz: "d ! 1 \<noteq> 0"
    and w: "length_loop d 0 k 0 = Inr w" and l: "56 \<le> unat w"
    and n: "unat (d ! 0) = base + 55 + k"
  shows "take (1 + k) d = header base (unat w)"
proof -
  let ?bs = "take k (drop 1 d)"
  have len: "length ?bs = k" and ne: "?bs \<noteq> []"
    using k by auto
  have uw: "unat w = fromBigEndian_bigint ?bs"
    using length_loop_0 [of k d] k w by auto
  have "?bs ! 0 \<noteq> 0"
    using nz k by simp
  then have br: "bytesRequired (unat w) = k"
    using fromBigEndian_hd_pos [OF ne] uw len by simp
  have dig: "be_digits k (unat w) = ?bs"
    using be_digits_fromBigEndian [of ?bs] len uw by simp
  have hd: "of_nat (base + 55 + k) = d ! 0"
    using n by (metis of_nat_unat ucast_id)
  have "take (1 + k) d = d ! 0 # ?bs"
    using k by (cases d) auto
  then show ?thesis
    using l br dig hd by (simp add: header_def)
qed

text \<open>
  Whatever length the reader accepts, the bytes before the payload are the canonical header
  of that length.
\<close>

lemma RLP_length_canonical:
  assumes len: "RLP_length d = Inr l" and ne: "d \<noteq> []" and ns: "\<not> isSingleByte d"
  defines "base \<equiv> (if isData d then 0x80 else 0xc0)"
  shows "take (payloadOffset d) d = header base l \<and> l < 2 ^ 64 - 1 - 0x100
    \<and> (base = 0x80 \<longrightarrow> l = 1 \<longrightarrow> 1 < length d \<and> 0x80 \<le> unat (d ! 1))"
proof -
  let ?n = "unat (d ! 0)"
  have nn: "\<not> isNull d"
    using ne by (simp add: isNull_def)
  have good: "requireGood d = Inr ()"
    by (rule requireGood_of_length [OF len ne])
  have short: "take 1 d = [d ! 0]"
    using ne by (cases d) auto
  have of_n: "of_nat ?n = d ! 0"
    by simp
  have n128: "128 \<le> ?n"
    using ns nn by (simp add: isSingleByte_def)
  have n256: "?n < 256"
    by simp
  consider "?n \<le> 0xb7" | "0xb7 < ?n" "?n < 0xc0" | "0xc0 \<le> ?n" "?n \<le> 0xf7" | "0xf7 < ?n"
    by linarith
  then show ?thesis
  proof cases
    case 1
    then have l: "l = ?n - 0x80" and b: "base = 0x80" and o: "payloadOffset d = 1"
      using len nn good ne n128 by (auto simp: RLP_length_def base_def payloadOffset_def lengthSize_def rlp_defs)
    have "l < 56" "base + l = ?n"
      using l b 1 n128 by auto
    then have "header base l = [of_nat ?n]"
      by (simp only: header_def if_True)
    moreover have "l = 1 \<Longrightarrow> 1 < length d \<and> 0x80 \<le> unat (d ! 1)"
      using good nn l n128 by (auto simp: requireGood_def rlp_defs bindE_eq_Inr split: if_splits)
    ultimately show ?thesis
      using l o b 1 short of_n by auto
  next
    case 2
    define k where "k = ?n - 0xb7"
    then have n: "?n = 0x80 + 55 + k" and k: "0 < k" "k \<le> 8"
      using 2 by auto
    obtain w where w: "length_loop d 0 k 0 = Inr w" "unat w = l" "56 \<le> l" "l < 2 ^ 64 - 1 - 0x100"
        "k < length d" "unat (d ! 1) \<noteq> 0"
      using len nn good ne 2 unfolding RLP_length_def k_def
      by (auto simp: bindE_eq_Inr not_less split: if_splits)
    have b: "base = 0x80" and o: "payloadOffset d = 1 + k"
      using nn 2 by (auto simp: base_def payloadOffset_def lengthSize_def rlp_defs k_def)
    have "take (1 + k) d = header 0x80 (unat w)"
      using w k n by (intro long_header) auto
    with w o b show ?thesis
      by auto
  next
    case 3
    then have l: "l = ?n - 0xc0" and b: "base = 0xc0" and o: "payloadOffset d = 1"
      using len nn good ne by (auto simp: RLP_length_def base_def payloadOffset_def lengthSize_def rlp_defs)
    have "l < 56" "base + l = ?n"
      using l b 3 by auto
    then have "header base l = [of_nat ?n]"
      by (simp only: header_def if_True)
    then show ?thesis
      using l o b 3 short of_n by auto
  next
    case 4
    define k where "k = ?n - 0xf7"
    then have n: "?n = 0xc0 + 55 + k" and k: "0 < k" "k \<le> 8"
      using 4 n256 by linarith+
    obtain w where w: "length_loop d 0 k 0 = Inr w" "unat w = l" "56 \<le> l" "l < 2 ^ 64 - 1 - 0x100"
        "k < length d" "unat (d ! 1) \<noteq> 0"
      using len nn good ne 4 unfolding RLP_length_def k_def
      by (auto simp: bindE_eq_Inr not_less split: if_splits)
    have b: "base = 0xc0" and o: "payloadOffset d = 1 + k"
      using nn 4 by (auto simp: base_def payloadOffset_def lengthSize_def rlp_defs k_def)
    have "take (1 + k) d = header 0xc0 (unat w)"
      using w k n by (intro long_header) auto
    with w o b show ?thesis
      by auto
  qed
qed

lemma RLP_ctor_strict:
  "RLP_ctor d VeryStrict = Inr d' \<longleftrightarrow> actualSize d = Inr (length d) \<and> d' = d"
  by (cases "actualSize d") (auto simp: RLP_ctor_def)

lemma strict_decompose:
  assumes "actualSize d = Inr (length d)" and "d \<noteq> []" and "\<not> isSingleByte d"
  shows "\<exists>p. payload d = Inr p \<and> d = header (if isData d then 0x80 else 0xc0) (length p) @ p
    \<and> (isData d \<longrightarrow> \<not> (length p = 1 \<and> unat (p ! 0) < 0x80))"
proof -
  obtain l where l: "RLP_length d = Inr l" "payloadOffset d + l = length d"
    using assms by (auto simp: actualSize_def rlp_defs bindE_eq_Inr split: if_splits)
  let ?p = "drop (payloadOffset d) d"
  have "payload d = Inr ?p" "length ?p = l"
    using l by (auto simp: payload_def)
  moreover have "d = take (payloadOffset d) d @ ?p"
    by simp
  moreover have "take (payloadOffset d) d = header (if isData d then 0x80 else 0xc0) l"
    and s: "isData d \<Longrightarrow> l = 1 \<Longrightarrow> 1 < length d \<and> 0x80 \<le> unat (d ! 1)"
    using RLP_length_canonical [OF l(1) assms(2,3)] by (auto split: if_splits)
  moreover have "isData d \<Longrightarrow> l = 1 \<Longrightarrow> \<not> unat (?p ! 0) < 0x80"
  proof -
    assume dl: "isData d" "l = 1"
    then have "length (take (payloadOffset d) d) = 1"
      using calculation(4) by (simp add: length_header)
    then have "payloadOffset d = 1"
      using l by simp
    then show ?thesis
      using s dl by simp
  qed
  ultimately show ?thesis
    by (intro exI [of _ ?p]) auto
qed

lemma strict_data_canonical:
  assumes "actualSize d = Inr (length d)" and "isData d"
  shows "\<exists>bs. payload d = Inr bs \<and> d = encStr bs"
proof (cases "isSingleByte d")
  case True
  then have "length d = 1"
    using assms by (auto simp: actualSize_def rlp_defs)
  moreover have "payload d = Inr d"
    using True calculation by (auto simp: payload_def RLP_length_def requireGood_def payloadOffset_def rlp_defs)
  ultimately show ?thesis
    using True by (intro exI [of _ d]) (auto simp: encStr_def isSingleByte_def)
next
  case False
  have "d \<noteq> []"
    using assms(2) by (auto simp: rlp_defs)
  with strict_decompose [OF assms(1) this False] assms(2) show ?thesis
    by (auto simp: encStr_def)
qed

section \<open>Lemmas: the writer\<close>

lemma pushInt_loop_eq:
  assumes "bytesRequired i \<le> b + 1" and "b < length out"
  shows "pushInt_loop i b out
    = overwrite out (b + 1 - bytesRequired i) (be_digits (bytesRequired i) i)"
  using assms
proof (induction i b out rule: pushInt_loop.induct)
  case (1 i b out)
  show ?case
  proof (cases "i = 0")
    case True
    then show ?thesis
      by (simp add: pushInt_loop.simps overwrite_def)
  next
    case False
    let ?j = "i div 256" and ?n = "bytesRequired (i div 256)"
    have n: "bytesRequired i = Suc ?n"
      using False by (rule bytesRequired_pos)
    have le: "?n \<le> b"
      using 1(2) n by simp
    show ?thesis
    proof (cases "?j = 0")
      case True
      then have "pushInt_loop i b out = out[b := of_nat i]"
        using False by (subst pushInt_loop.simps, subst pushInt_loop.simps) (simp add: drop_bit_eq_div)
      then show ?thesis
        using 1(3) n True by (simp add: overwrite_def upd_conv_take_nth_drop)
    next
      case j: False
      then have "0 < ?n"
        by (simp add: bytesRequired_pos)
      have upd: "drop b (out[b := of_nat i]) = of_nat i # drop (Suc b) out"
        using 1(3) by (simp add: Cons_nth_drop_Suc [of b "out[b := of_nat i]", symmetric])
      have "pushInt_loop i b out = pushInt_loop ?j (b - 1) (out[b := of_nat i])"
        using False by (subst pushInt_loop.simps) (simp add: drop_bit_eq_div)
      also have "\<dots> = overwrite (out[b := of_nat i]) (b - 1 + 1 - ?n) (be_digits ?n ?j)"
        using 1(1) False le \<open>0 < ?n\<close> 1(3) by (simp add: drop_bit_eq_div)
      also have "\<dots> = overwrite out (b + 1 - bytesRequired i) (be_digits (bytesRequired i) i)"
        using n le \<open>0 < ?n\<close> upd by (simp add: overwrite_def take_update_cancel)
      finally show ?thesis .
    qed
  qed
qed

lemma pushInt_eq: "pushInt s i (bytesRequired i) = s\<lparr>m_out := m_out s @ be_digits (bytesRequired i) i\<rparr>"
proof (cases "i = 0")
  case True
  then show ?thesis
    by (simp add: pushInt_def pushInt_loop.simps)
next
  case False
  then have "0 < bytesRequired i"
    by (simp add: bytesRequired_pos)
  then show ?thesis
    by (simp add: pushInt_def pushInt_loop_eq overwrite_def)
qed

lemma pushCount_header:
  assumes "56 \<le> l" and "l < 2 ^ 64" and "base \<le> 0xc0"
  shows "pushCount s l (base + 55) = Inr (s\<lparr>m_out := m_out s @ header base l\<rparr>)"
  using assms fits_bytesRequired [of l]
  by (simp add: pushCount_def pushInt_eq push_back_def header_def Let_def
      add.commute [of "bytesRequired l" "base + 55"] del: of_nat_add)

lemma append_bytes_eq:
  assumes "length bs < 2 ^ 64"
  shows "append_bytes s bs False = noteAppended (s\<lparr>m_out := m_out s @ encStr bs\<rparr>) 1"
proof (cases "length bs = 1 \<and> unat (bs ! 0) < 0x80")
  case True
  then show ?thesis
    by (cases bs) (auto simp: append_bytes_def push_back_def encStr_def)
next
  case False
  then have "append_bytes s bs False
    = bindE (Inr (s\<lparr>m_out := m_out s @ header 0x80 (length bs)\<rparr>)) (\<lambda>s.
        bindE (appendRaw s bs 0) (\<lambda>s. noteAppended s 1))"
    using pushCount_header [of "length bs" "0x80" s] assms
    by (auto simp: append_bytes_def push_back_def header_def add.commute Let_def)
  also have "\<dots> = noteAppended (s\<lparr>m_out := m_out s @ header 0x80 (length bs) @ bs\<rparr>) 1"
    by (simp add: appendRaw_def noteAppended_def)
  finally show ?thesis
    using False by (auto simp: encStr_def)
qed

lemma append_bigint_eq:
  assumes "bytesRequired i < 2 ^ 64"
  shows "append_bigint s i
    = noteAppended (s\<lparr>m_out := m_out s @ encStr (be_digits (bytesRequired i) i)\<rparr>) 1"
proof -
  consider "i = 0" | "i \<noteq> 0" "i < 0x80" | "0x80 \<le> i"
    by linarith
  then show ?thesis
  proof cases
    case 1
    then show ?thesis
      by (simp add: append_bigint_def push_back_def encStr_def header_def)
  next
    case 2
    then have br: "bytesRequired i = 1"
      by (simp add: bytesRequired_pos)
    then show ?thesis
      using 2 by (simp add: append_bigint_def push_back_def encStr_def unat_of_nat)
  next
    case 3
    let ?br = "bytesRequired i" and ?d = "be_digits (bytesRequired i) i"
    have ns: "\<not> (?br = 1 \<and> unat (?d ! 0) < 0x80)"
    proof
      assume a: "?br = 1 \<and> unat (?d ! 0) < 0x80"
      then have "i < 256"
        using bytesRequired_le_iff [of i 1] by simp
      then show False
        using a 3 by (auto simp: unat_of_nat)
    qed
    have "append_bigint s i = bindE (Inr (s\<lparr>m_out := m_out s @ header 0x80 ?br\<rparr>)) (\<lambda>s.
        noteAppended (pushInt s i ?br) 1)"
      using 3 assms fits_bytesRequired [of ?br]
      by (auto simp: append_bigint_def push_back_def header_def pushInt_eq add.commute Let_def)
    moreover have "encStr ?d = header 0x80 ?br @ ?d"
      using ns by (simp only: encStr_def length_be_digits if_False)
    ultimately show ?thesis
      by (simp add: pushInt_eq)
  qed
qed

text \<open>Shifting a list's body up by \<open>e\<close> bytes opens a gap of \<open>e\<close> bytes before it.\<close>

lemma memmove_gap:
  "\<exists>z. overwrite ((pre @ body) @ replicate e 0) (length pre + e) body = pre @ z @ body \<and> length z = e"
proof -
  let ?z = "take e (body @ replicate e 0)"
  have "overwrite ((pre @ body) @ replicate e 0) (length pre + e) body = pre @ ?z @ body"
    by (simp add: overwrite_def)
  moreover have "length ?z = e"
    by simp
  ultimately show ?thesis
    by blast
qed

lemma noteAppended_close:
  assumes "length body < 2 ^ 64"
  shows "noteAppended_loop (pre @ body) ((1, length pre) # st) 1
    = noteAppended_loop (pre @ header 0xc0 (length body) @ body) st 1"
proof (cases "length body < 56")
  case True
  obtain z where z: "overwrite ((pre @ body) @ replicate 1 0) (length pre + 1) body = pre @ z @ body"
      "length z = 1"
    using memmove_gap by blast
  then have "(pre @ z @ body)[length pre := of_nat (0xc0 + length body)]
    = pre @ header 0xc0 (length body) @ body"
    using True by (cases z) (auto simp: header_def list_update_append)
  then show ?thesis
    using True z(1) by (simp add: Let_def del: of_nat_add)
next
  case False
  let ?br = "bytesRequired (length body)"
  have br: "?br \<le> 8" "0 < ?br"
    using fits_bytesRequired [OF assms] header_base_cases [of "length body"] False by auto
  obtain z where z: "overwrite ((pre @ body) @ replicate (1 + ?br) 0) (length pre + (1 + ?br)) body
      = pre @ z @ body" "length z = 1 + ?br"
    using memmove_gap by blast
  let ?o1 = "(pre @ z @ body)[length pre := of_nat (0xf7 + ?br)]"
  have o1: "?o1 = pre @ (z[0 := of_nat (0xf7 + ?br)]) @ body"
    using z(2) by (cases z) (auto simp: list_update_append)
  have "pushInt_loop (length body) (length pre + ?br) ?o1
    = overwrite ?o1 (length pre + 1) (be_digits ?br (length body))"
    using z(2) by (subst pushInt_loop_eq) auto
  also have "\<dots> = pre @ header 0xc0 (length body) @ body"
    using False z(2) by (cases z) (auto simp: o1 overwrite_def header_def)
  finally show ?thesis
    using False br z(1) by (simp add: Let_def del: of_nat_add)
qed

subsection \<open>Writing a whole item\<close>

text \<open>How a client writes an item: a string with \<open>append\<close>, a list with \<open>appendList\<close> and its items.\<close>

fun write_item :: "RLPStream \<Rightarrow> item \<Rightarrow> rlp_error + RLPStream"
  and write_items :: "RLPStream \<Rightarrow> item list \<Rightarrow> rlp_error + RLPStream" where
  "write_item s (Str bs) = append_bytes s bs False"
| "write_item s (Lst xs) = bindE (appendList s (length xs)) (\<lambda>s. write_items s xs)"
| "write_items s [] = Inr s"
| "write_items s (x # xs) = bindE (write_item s x) (\<lambda>s. write_items s xs)"

lemma appendList_rlp_Nil:
  "appendList_rlp s [] = noteAppended (s\<lparr>m_out := m_out s @ enc (Lst [])\<rparr>) 1"
  by (simp add: appendList_rlp_def push_back_def appendRaw_def header_def)

lemma write_item_eq:
  "length (enc x) < 2 ^ 64 \<Longrightarrow> write_item s x = noteAppended (s\<lparr>m_out := m_out s @ enc x\<rparr>) 1"
  "length (concat (map enc xs)) < 2 ^ 64 \<Longrightarrow> xs \<noteq> [] \<Longrightarrow> m_out s = pre @ body \<Longrightarrow>
    m_listStack s = (length xs, length pre) # st \<Longrightarrow>
    write_items s xs = noteAppended_loop (pre @ body @ concat (map enc xs)) ((1, length pre) # st) 1"
proof (induction s x and s xs arbitrary: and pre body st rule: write_item_write_items.induct)
  case (1 s bs)
  then show ?case
    by (cases bs rule: encStr_cases) (auto simp: append_bytes_eq)
next
  case (2 s xs)
  show ?case
  proof (cases "xs = []")
    case True
    then show ?thesis
      by (simp add: appendList_def appendList_rlp_Nil)
  next
    case False
    let ?body = "concat (map enc xs)" and ?s = "s\<lparr>m_listStack := (length xs, length (m_out s)) # m_listStack s\<rparr>"
    have "length ?body < 2 ^ 64"
      using 2(2) by simp
    then have "write_items ?s xs = noteAppended_loop (m_out s @ [] @ ?body) ((1, length (m_out s)) # m_listStack s) 1"
      using False by (intro 2(1)) (auto simp: appendList_def)
    with \<open>length ?body < 2 ^ 64\<close> False show ?thesis
      using noteAppended_close [of ?body "m_out s" "m_listStack s"]
      by (simp add: appendList_def noteAppended_def)
  qed
next
  case (3 s)
  then show ?case
    by simp
next
  case (4 s x xs)
  have x: "write_item s x = noteAppended_loop ((pre @ body) @ enc x) ((length (x # xs), length pre) # st) 1"
    using 4 by (simp add: noteAppended_def)
  show ?case
  proof (cases "xs = []")
    case True
    then show ?thesis
      using x by simp
  next
    case False
    let ?s = "\<lparr>m_out = (pre @ body) @ enc x, m_listStack = (length xs, length pre) # st\<rparr>"
    have "write_item s x = Inr ?s"
      using x False by simp
    moreover have "write_items ?s xs = noteAppended_loop (pre @ (body @ enc x) @ concat (map enc xs)) ((1, length pre) # st) 1"
      using 4(3) False calculation by (intro 4(2)) auto
    ultimately show ?thesis
      by simp
  qed
qed

section \<open>Self-delimiting codes\<close>

text \<open>
  The contract between the item encoding and the code that walks over concatenated items:
  a measuring function finds the end of the first item whatever follows it.
\<close>

locale self_delimiting =
  fixes code :: "'x \<Rightarrow> 'b list"
    and measured :: "'b list \<Rightarrow> nat option"
    and ok :: "'x \<Rightarrow> bool"
  assumes code_nonempty: "ok x \<Longrightarrow> code x \<noteq> []"
    and code_measured: "ok x \<Longrightarrow> measured (code x @ t) = Some (length (code x))"
begin

lemma prefix_free:
  assumes "ok x" and "ok y" and "code x @ s = code y @ t"
  shows "code x = code y \<and> s = t"
proof -
  have "length (code x) = length (code y)"
    using code_measured [OF assms(1), of s] code_measured [OF assms(2), of t] assms(3) by simp
  with assms(3) show ?thesis
    by simp
qed

lemma concat_unique:
  assumes "list_all ok xs" and "list_all ok ys" and "concat (map code xs) = concat (map code ys)"
  shows "map code xs = map code ys"
  using assms
proof (induction xs arbitrary: ys)
  case Nil
  then show ?case
    using code_nonempty by (cases ys) auto
next
  case (Cons x xs)
  then obtain y ys' where ys: "ys = y # ys'"
    using code_nonempty by (cases ys) auto
  then have "code x = code y \<and> concat (map code xs) = concat (map code ys')"
    using Cons by (intro prefix_free) auto
  with Cons ys show ?case
    by simp
qed

end

definition measure_item :: "bytes \<Rightarrow> nat option" where
  "measure_item d = (case sizeAsEncoded d of Inl e \<Rightarrow> None | Inr n \<Rightarrow> Some n)"

interpretation rlp: self_delimiting enc measure_item "\<lambda>x. fits (enc x)"
  by unfold_locales (simp_all add: measure_item_def sizeAsEncoded_enc)

lemma enc_inj_aux: "fits (enc x) \<Longrightarrow> fits (enc y) \<Longrightarrow> enc x = enc y \<Longrightarrow> x = y"
proof (induction x arbitrary: y)
  case (Str bs)
  then obtain cs where y: "y = Str cs"
    using isList_encLst [of _ "[]"] isData_encStr [of bs "[]"]
    by (cases y) (auto simp del: enc.simps simp: enc.simps(1))
  then show ?case
    using Str payload_encStr [of bs "[]"] payload_encStr [of cs "[]"] by simp
next
  case (Lst xs)
  then obtain ys where y: "y = Lst ys"
    using isList_encLst [of xs "[]"] isData_encStr [of _ "[]"]
    by (cases y) (auto simp del: enc.simps simp: enc.simps(1))
  have f: "fits (enc (Lst xs))" "fits (enc (Lst ys))"
    using Lst(2,3) y by auto
  have "concat (map enc xs) = concat (map enc ys)"
    using payload_encLst [OF f(1), of "[]"] payload_encLst [OF f(2), of "[]"] Lst(4) y by (simp del: enc.simps)
  then have eq: "map enc xs = map enc ys"
    using fits_member [OF f(1)] fits_member [OF f(2)]
    by (intro rlp.concat_unique) (auto simp: list_all_iff)
  have "xs = ys"
  proof (rule nth_equalityI)
    show len: "length xs = length ys"
      using eq map_eq_imp_length_eq by blast
    fix i assume i: "i < length xs"
    then have "enc (xs ! i) = enc (ys ! i)"
      using eq len by (metis nth_map)
    then show "xs ! i = ys ! i"
      using i len fits_member [OF f(1)] fits_member [OF f(2)] by (intro Lst(1)) auto
  qed
  with y show ?case
    by simp
qed

section \<open>Properties\<close>

text \<open>
  Claim C33.  The stream writer implements the specification of the encoding: whatever item a
  client writes, string or nested list, the stream is complete afterwards and holds exactly
  the canonical encoding of the item, headers of every list inserted in front of its body.
\<close>

theorem stream_writes_encoding:
  assumes "length (enc x) < 2 ^ 64"
  shows "bindE (write_item RLPStream_empty x) stream_out = Inr (enc x)"
  using assms by (simp add: write_item_eq noteAppended_def RLPStream_empty_def stream_out_def)

theorem stream_writes_encoding_witness:
  "length (enc (Lst [Str [1], Lst []])) < 2 ^ 64
    \<and> bindE (write_item RLPStream_empty (Lst [Str [1], Lst []])) stream_out
      = Inr (enc (Lst [Str [1], Lst []]))"
  using stream_writes_encoding [of "Lst [Str [1], Lst []]"] by (simp add: encStr_def header_def)

text \<open>
  Claim C34.  Byte strings survive the codec: what the stream writes for a string is accepted by
  the strictest reader and reads back as the same string, under any conversion flags.
\<close>

theorem string_roundtrip:
  assumes "fits (encStr bs)"
  shows "\<exists>d. bindE (append_bytes RLPStream_empty bs False) stream_out = Inr d
    \<and> RLP_ctor d VeryStrict = Inr d \<and> toBytes d flags = Inr bs"
proof -
  have "length bs < 2 ^ 64"
    using assms by (cases bs rule: encStr_cases) (auto simp: fits_def)
  then have "bindE (append_bytes RLPStream_empty bs False) stream_out = Inr (encStr bs)"
    by (simp add: append_bytes_eq noteAppended_def RLPStream_empty_def stream_out_def)
  then show ?thesis
    using RLP_ctor_enc [of "Str bs"] toBytes_encStr [of bs "[]"] assms by simp
qed

theorem string_roundtrip_witness:
  "fits (encStr [0x80, 2, 3]) \<and> (\<exists>d. bindE (append_bytes RLPStream_empty [0x80, 2, 3] False) stream_out = Inr d
    \<and> RLP_ctor d VeryStrict = Inr d \<and> toBytes d Strict = Inr [0x80, 2, 3])"
  using string_roundtrip [of "[0x80, 2, 3]" Strict] by (simp add: fits_def encStr_def header_def)

text \<open>
  Claim C35.  Machine integers survive the codec: a word of whole bytes, written as an integer,
  is accepted by the strictest reader and reads back as the same word.
\<close>

theorem int_roundtrip:
  fixes w :: "'a::len word"
  assumes "LENGTH('a) = 8 * n" and "n < 2 ^ 32"
  shows "\<exists>d. bindE (append_bigint RLPStream_empty (unat w)) stream_out = Inr d
    \<and> RLP_ctor d VeryStrict = Inr d \<and> toInt d Strict = Inr w"
proof -
  let ?br = "bytesRequired (unat w)"
  let ?bs = "be_digits ?br (unat w)"
  have "unat w < 2 ^ LENGTH('a)"
    by (rule unsigned_less)
  then have "unat w < 256 ^ n"
    by (simp add: assms(1) power_mult)
  then have br: "?br \<le> n"
    by (simp add: bytesRequired_le_iff)
  have "length (header 0x80 ?br) \<le> 1 + bytesRequired ?br"
    by (simp add: length_header)
  moreover have "bytesRequired ?br \<le> 8"
    using br assms(2) by (intro fits_bytesRequired) simp
  ultimately have fit: "fits (encStr ?bs)"
    using br assms(2) by (auto simp: fits_def encStr_def)
  have "bindE (append_bigint RLPStream_empty (unat w)) stream_out = Inr (encStr ?bs)"
    using br assms(2) by (simp add: append_bigint_eq noteAppended_def RLPStream_empty_def stream_out_def)
  moreover have "toInt (encStr ?bs @ []) Strict = Inr w"
  proof -
    have "?bs \<noteq> [] \<Longrightarrow> ?bs ! 0 \<noteq> 0"
      using be_digits_hd_pos [of "unat w"] by (cases "w = 0") (auto simp: unat_gt_0)
    then have "toInt_payload (encStr ?bs @ []) Strict (LENGTH('a) div 8) = Inr (Some ?bs)"
      using br assms(1) by (intro toInt_payload_encStr [OF fit]) auto
    moreover have "(fromBigEndian ?bs :: 'a word) = w"
      using assms(1) less_bytesRequired [of "unat w"] len_gt_0 [where ?'a = 'a]
      by (subst fromBigEndian_eq) (auto simp: Suc_le_eq)
    ultimately show ?thesis
      by (simp add: toInt_def)
  qed
  ultimately show ?thesis
    using RLP_ctor_enc [of "Str ?bs"] fit by simp
qed

theorem int_roundtrip_witness:
  "LENGTH(256) = 8 * 32 \<and> (\<exists>d. bindE (append_bigint RLPStream_empty (unat (0x1234 :: u256))) stream_out = Inr d
    \<and> RLP_ctor d VeryStrict = Inr d \<and> toInt d Strict = Inr (0x1234 :: u256))"
  using int_roundtrip [where w = "0x1234 :: u256" and n = 32] by simp

text \<open>
  Claim C36.  The subscript operator returns the item at its index, and the null item past the
  end, whatever subscripts were taken before on the same object: the mutable position cache is
  not observable.  The item count is the number of items.
\<close>

theorem subscripts_ignore_cache:
  assumes "fits (enc (Lst xs))" and "list_all (\<lambda>i. i < 2 ^ 64 - 1) is"
  shows "RLP_index_seq (RLP_object (enc (Lst xs))) is
      = Inr (map (\<lambda>i. if i < length xs then enc (xs ! i) else []) is)
    \<and> itemCountStrict (enc (Lst xs)) = Inr (length xs)"
proof -
  have "cache_ok xs (RLP_object (enc (Lst xs)))"
    by (simp add: cache_ok_def RLP_object_def)
  moreover have "itemCountStrict (enc (Lst xs)) = Inr (length xs)"
    using items_enc [OF assms(1), of "[]"] isList_encLst [OF assms(1), of "[]"]
    by (simp add: itemCountStrict_def)
  ultimately show ?thesis
    using RLP_index_seq_cache_ok [OF assms(1) _ assms(2)] by blast
qed

theorem subscripts_ignore_cache_witness:
  "RLP_index_seq (RLP_object (enc (Lst [Str [7], Lst [], Str [9]]))) [2, 0, 5, 1] = Inr [[9], [7], [], [0xc0]]"
  using subscripts_ignore_cache [of "[Str [7], Lst [], Str [9]]" "[2, 0, 5, 1]"]
  by (simp add: fits_def encStr_def header_def)

text \<open>
  Claim C39.  Iterating over a list visits its items in order and ends, provided the view holds
  the list and nothing else.  If bytes follow the list (a view built without the check for
  excess size), the end iterator is never reached and the loop does not return.
\<close>

theorem iteration_ends_iff_exact:
  assumes "fits (enc (Lst xs))"
  shows "toList (enc (Lst xs) @ t) flags = (if t = [] then Some (Inr (map enc xs)) else None)"
  by (rule toList_enc [OF assms])

theorem iteration_ends_iff_exact_witness:
  "toList (enc (Lst [Str [7], Str [8]])) Strict = Some (Inr [[7], [8]])
    \<and> toList (enc (Lst [Str [7], Str [8]]) @ [0]) Strict = None"
  using iteration_ends_iff_exact [of "[Str [7], Str [8]]" "[]" Strict]
    iteration_ends_iff_exact [of "[Str [7], Str [8]]" "[0]" Strict]
  by (simp add: fits_def encStr_def header_def)

text \<open>
  Claim C37.  The strict constructor checks the outermost item: bytes that pass it as data are the
  encoding of exactly the string they read as, so re-encoding reproduces them; a list that passes
  carries the canonical header of its payload.  The members of a list are not looked at.
\<close>
theorem strict_reader_canonical:
  assumes "RLP_ctor d VeryStrict = Inr m" and "d \<noteq> []"
  shows "m = d \<and> (if isData d then \<exists>bs. toBytes d flags = Inr bs \<and> d = encStr bs
    else \<exists>p. payload d = Inr p \<and> d = header 0xc0 (length p) @ p)"
proof -
  have a: "actualSize d = Inr (length d)" and m: "m = d"
    using assms(1) unfolding RLP_ctor_strict by simp_all
  show ?thesis
  proof (cases "isData d")
    case True
    obtain bs where bs: "payload d = Inr bs" "d = encStr bs"
      using strict_data_canonical [OF a True] by blast
    obtain l where l: "RLP_length d = Inr l"
      using bs(1) by (auto simp: payload_def bindE_eq_Inr)
    have "length bs = l"
      using payload_complete [OF a _ bs(1) l assms(2)] by simp
    with bs l True m show ?thesis
      by (auto simp: toBytes_def)
  next
    case False
    then have "\<not> isSingleByte d"
      by (auto simp: rlp_defs)
    with False m show ?thesis
      using strict_decompose [OF a assms(2)] by auto
  qed
qed

theorem strict_reader_canonical_witness:
  "RLP_ctor [0x82, 1, 2] VeryStrict = Inr [0x82, 1, 2]
    \<and> (\<exists>bs. toBytes [0x82, 1, 2] Strict = Inr bs \<and> [0x82, 1, 2] = encStr bs)"
proof -
  have c: "RLP_ctor [0x82, 1, 2] VeryStrict = Inr [0x82, 1, 2]"
    by (simp add: RLP_ctor_def actualSize_def RLP_length_def requireGood_def payloadOffset_def
      lengthSize_def rlp_defs)
  have "isData [0x82, 1, 2]"
    by (simp add: rlp_defs)
  then show ?thesis
    using c strict_reader_canonical [OF c, of Strict] by simp
qed

text \<open>
  Claim C38.  On any bytes whatever, the constructor, item counts, subscripts and the integer and
  hash conversions never read outside the view: they return or throw one of the declared
  exceptions.  \<^verbatim>\<open>toBytes\<close>, which copies as many bytes as the header promises, is safe on a view that the
  constructor has found long enough, and only there: on the two bytes 0x82 0x01, which pass a
  construction without checks, it reads past the end.
\<close>
theorem reader_stays_in_bounds:
  "safe (RLP_ctor d s) \<and> safe (itemCount d) \<and> safe (RLP_index r i) \<and> safe (isInt d)
    \<and> safe (toInt d s :: rlp_error + 'a::len word) \<and> safe (toHash N d s)
    \<and> (case RLP_ctor d (ThrowOnFail OR FailIfTooSmall) of Inl e \<Rightarrow> True | Inr m \<Rightarrow> safe (toBytes m s))
    \<and> RLP_ctor [0x82, 1] LaissezFaire = Inr [0x82, 1] \<and> \<not> safe (toBytes [0x82, 1] s)"
proof -
  have "safe (toInt d s :: rlp_error + 'a word)"
    unfolding toInt_def by (auto intro!: safe_bindE split: option.splits)
  moreover have "safe (toBytes m s)" if "RLP_ctor d (ThrowOnFail OR FailIfTooSmall) = Inr m" for m
    using that safe_toBytes by (auto simp: RLP_ctor_def bindE_eq_Inr split: if_splits)
  moreover have "RLP_ctor [0x82, 1] LaissezFaire = Inr [0x82, 1]" "\<not> safe (toBytes [0x82, 1] s)"
    by (simp_all add: RLP_ctor_def toBytes_def safe_def payload_def RLP_length_def requireGood_def
        payloadOffset_def lengthSize_def rlp_defs flag_set_def cropped_def)
  ultimately show ?thesis
    by (auto simp: itemCount_def split: sum.splits)
qed

text \<open>
  Claim C40.  What the writer produces is prefix-free: for two different items neither output
  starts with the other, so items written one after the other can be told apart, and a string is
  never confused with a list nor one nesting with another.
\<close>
theorem writer_prefix_free:
  assumes "fits (enc x)" and "fits (enc y)" and "x \<noteq> y"
  shows "\<exists>a b. bindE (write_item RLPStream_empty x) stream_out = Inr a
    \<and> bindE (write_item RLPStream_empty y) stream_out = Inr b \<and> \<not> prefix a b \<and> \<not> prefix b a"
proof -
  have w: "bindE (write_item RLPStream_empty z) stream_out = Inr (enc z)" if "fits (enc z)" for z
    using that by (simp add: fits_def write_item_eq noteAppended_def RLPStream_empty_def stream_out_def)
  have "\<not> prefix (enc x) (enc y)" "\<not> prefix (enc y) (enc x)"
    using assms enc_inj_aux [OF assms(1,2)] rlp.prefix_free [OF assms(1,2)] rlp.prefix_free [OF assms(2,1)]
    by (metis append_Nil2 prefixE)+
  then show ?thesis
    using w [OF assms(1)] w [OF assms(2)] by blast
qed

theorem writer_prefix_free_witness:
  "\<exists>a b. bindE (write_item RLPStream_empty (Str [5])) stream_out = Inr a
    \<and> bindE (write_item RLPStream_empty (Lst [Str [5]])) stream_out = Inr b \<and> \<not> prefix a b \<and> \<not> prefix b a"
  by (rule writer_prefix_free) (simp_all add: fits_def encStr_def header_def)

end
