(* ===== verification/Instruction.thy ===== *)
theory Instruction
  imports Prelude
begin

text \<open>
  The instruction set of the virtual machine: \<^verbatim>\<open>src/contract/libtvm/Instruction.h\<close> and
  \<^verbatim>\<open>Instruction.cpp\<close>.  The scoped enumeration \<^verbatim>\<open>Instruction\<close> has \<^verbatim>\<open>uint8_t\<close> as its
  underlying type and the interpreter casts arbitrary bytes to it, so an instruction is
  the integer of its byte; the enumerators are the constants \<open>I_STOP\<close> to \<open>I_SUICIDE\<close>.
\<close>

section \<open>Definitions\<close>

type_synonym Instruction = int

abbreviation (input) I_STOP :: Instruction where "I_STOP \<equiv> 0x00"
abbreviation (input) I_ADD :: Instruction where "I_ADD \<equiv> 0x01"
abbreviation (input) I_MUL :: Instruction where "I_MUL \<equiv> 0x02"
abbreviation (input) I_SUB :: Instruction where "I_SUB \<equiv> 0x03"
abbreviation (input) I_DIV :: Instruction where "I_DIV \<equiv> 0x04"
abbreviation (input) I_SDIV :: Instruction where "I_SDIV \<equiv> 0x05"
abbreviation (input) I_MOD :: Instruction where "I_MOD \<equiv> 0x06"
abbreviation (input) I_SMOD :: Instruction where "I_SMOD \<equiv> 0x07"
abbreviation (input) I_ADDMOD :: Instruction where "I_ADDMOD \<equiv> 0x08"
abbreviation (input) I_MULMOD :: Instruction where "I_MULMOD \<equiv> 0x09"
abbreviation (input) I_EXP :: Instruction where "I_EXP \<equiv> 0x0a"
abbreviation (input) I_SIGNEXTEND :: Instruction where "I_SIGNEXTEND \<equiv> 0x0b"
abbreviation (input) I_LT :: Instruction where "I_LT \<equiv> 0x10"
abbreviation (input) I_GT :: Instruction where "I_GT \<equiv> 0x11"
abbreviation (input) I_SLT :: Instruction where "I_SLT \<equiv> 0x12"
abbreviation (input) I_SGT :: Instruction where "I_SGT \<equiv> 0x13"
abbreviation (input) I_EQ :: Instruction where "I_EQ \<equiv> 0x14"
abbreviation (input) I_ISZERO :: Instruction where "I_ISZERO \<equiv> 0x15"
abbreviation (input) I_AND :: Instruction where "I_AND \<equiv> 0x16"
abbreviation (input) I_OR :: Instruction where "I_OR \<equiv> 0x17"
abbreviation (input) I_XOR :: Instruction where "I_XOR \<equiv> 0x18"
abbreviation (input) I_NOT :: Instruction where "I_NOT \<equiv> 0x19"
abbreviation (input) I_BYTE :: Instruction where "I_BYTE \<equiv> 0x1a"
abbreviation (input) I_SHL :: Instruction where "I_SHL \<equiv> 0x1b"
abbreviation (input) I_SHR :: Instruction where "I_SHR \<equiv> 0x1c"
abbreviation (input) I_SAR :: Instruction where "I_SAR \<equiv> 0x1d"
abbreviation (input) I_SHA3 :: Instruction where "I_SHA3 \<equiv> 0x20"
abbreviation (input) I_ADDRESS :: Instruction where "I_ADDRESS \<equiv> 0x30"
abbreviation (input) I_BALANCE :: Instruction where "I_BALANCE \<equiv> 0x31"
abbreviation (input) I_ORIGIN :: Instruction where "I_ORIGIN \<equiv> 0x32"
abbreviation (input) I_CALLER :: Instruction where "I_CALLER \<equiv> 0x33"
abbreviation (input) I_CALLVALUE :: Instruction where "I_CALLVALUE \<equiv> 0x34"
abbreviation (input) I_CALLDATALOAD :: Instruction where "I_CALLDATALOAD \<equiv> 0x35"
abbreviation (input) I_CALLDATASIZE :: Instruction where "I_CALLDATASIZE \<equiv> 0x36"
abbreviation (input) I_CALLDATACOPY :: Instruction where "I_CALLDATACOPY \<equiv> 0x37"
abbreviation (input) I_CODESIZE :: Instruction where "I_CODESIZE \<equiv> 0x38"
abbreviation (input) I_CODECOPY :: Instruction where "I_CODECOPY \<equiv> 0x39"
abbreviation (input) I_GASPRICE :: Instruction where "I_GASPRICE \<equiv> 0x3a"
abbreviation (input) I_EXTCODESIZE :: Instruction where "I_EXTCODESIZE \<equiv> 0x3b"
abbreviation (input) I_EXTCODECOPY :: Instruction where "I_EXTCODECOPY \<equiv> 0x3c"
abbreviation (input) I_RETURNDATASIZE :: Instruction where "I_RETURNDATASIZE \<equiv> 0x3d"
abbreviation (input) I_RETURNDATACOPY :: Instruction where "I_RETURNDATACOPY \<equiv> 0x3e"
abbreviation (input) I_BLOCKHASH :: Instruction where "I_BLOCKHASH \<equiv> 0x40"
abbreviation (input) I_COINBASE :: Instruction where "I_COINBASE \<equiv> 0x41"
abbreviation (input) I_TIMESTAMP :: Instruction where "I_TIMESTAMP \<equiv> 0x42"
abbreviation (input) I_NUMBER :: Instruction where "I_NUMBER \<equiv> 0x43"
abbreviation (input) I_DIFFICULTY :: Instruction where "I_DIFFICULTY \<equiv> 0x44"
abbreviation (input) I_GASLIMIT :: Instruction where "I_GASLIMIT \<equiv> 0x45"
abbreviation (input) I_POP :: Instruction where "I_POP \<equiv> 0x50"
abbreviation (input) I_MLOAD :: Instruction where "I_MLOAD \<equiv> 0x51"
abbreviation (input) I_MSTORE :: Instruction where "I_MSTORE \<equiv> 0x52"
abbreviation (input) I_MSTORE8 :: Instruction where "I_MSTORE8 \<equiv> 0x53"
abbreviation (input) I_SLOAD :: Instruction where "I_SLOAD \<equiv> 0x54"
abbreviation (input) I_SSTORE :: Instruction where "I_SSTORE \<equiv> 0x55"
abbreviation (input) I_JUMP :: Instruction where "I_JUMP \<equiv> 0x56"
abbreviation (input) I_JUMPI :: Instruction where "I_JUMPI \<equiv> 0x57"
abbreviation (input) I_PC :: Instruction where "I_PC \<equiv> 0x58"
abbreviation (input) I_MSIZE :: Instruction where "I_MSIZE \<equiv> 0x59"
abbreviation (input) I_GAS :: Instruction where "I_GAS \<equiv> 0x5a"
abbreviation (input) I_JUMPDEST :: Instruction where "I_JUMPDEST \<equiv> 0x5b"
abbreviation (input) I_PUSH1 :: Instruction where "I_PUSH1 \<equiv> 0x60"
abbreviation (input) I_PUSH2 :: Instruction where "I_PUSH2 \<equiv> 0x61"
abbreviation (input) I_PUSH3 :: Instruction where "I_PUSH3 \<equiv> 0x62"
abbreviation (input) I_PUSH4 :: Instruction where "I_PUSH4 \<equiv> 0x63"
abbreviation (input) I_PUSH5 :: Instruction where "I_PUSH5 \<equiv> 0x64"
abbreviation (input) I_PUSH6 :: Instruction where "I_PUSH6 \<equiv> 0x65"
abbreviation (input) I_PUSH7 :: Instruction where "I_PUSH7 \<equiv> 0x66"
abbreviation (input) I_PUSH8 :: Instruction where "I_PUSH8 \<equiv> 0x67"
abbreviation (input) I_PUSH9 :: Instruction where "I_PUSH9 \<equiv> 0x68"
abbreviation (input) I_PUSH10 :: Instruction where "I_PUSH10 \<equiv> 0x69"
abbreviation (input) I_PUSH11 :: Instruction where "I_PUSH11 \<equiv> 0x6a"
abbreviation (input) I_PUSH12 :: Instruction where "I_PUSH12 \<equiv> 0x6b"
abbreviation (input) I_PUSH13 :: Instruction where "I_PUSH13 \<equiv> 0x6c"
abbreviation (input) I_PUSH14 :: Instruction where "I_PUSH14 \<equiv> 0x6d"
abbreviation (input) I_PUSH15 :: Instruction where "I_PUSH15 \<equiv> 0x6e"
abbreviation (input) I_PUSH16 :: Instruction where "I_PUSH16 \<equiv> 0x6f"
abbreviation (input) I_PUSH17 :: Instruction where "I_PUSH17 \<equiv> 0x70"
abbreviation (input) I_PUSH18 :: Instruction where "I_PUSH18 \<equiv> 0x71"
abbreviation (input) I_PUSH19 :: Instruction where "I_PUSH19 \<equiv> 0x72"
abbreviation (input) I_PUSH20 :: Instruction where "I_PUSH20 \<equiv> 0x73"
abbreviation (input) I_PUSH21 :: Instruction where "I_PUSH21 \<equiv> 0x74"
abbreviation (input) I_PUSH22 :: Instruction where "I_PUSH22 \<equiv> 0x75"
abbreviation (input) I_PUSH23 :: Instruction where "I_PUSH23 \<equiv> 0x76"
abbreviation (input) I_PUSH24 :: Instruction where "I_PUSH24 \<equiv> 0x77"
abbreviation (input) I_PUSH25 :: Instruction where "I_PUSH25 \<equiv> 0x78"
abbreviation (input) I_PUSH26 :: Instruction where "I_PUSH26 \<equiv> 0x79"
abbreviation (input) I_PUSH27 :: Instruction where "I_PUSH27 \<equiv> 0x7a"
abbreviation (input) I_PUSH28 :: Instruction where "I_PUSH28 \<equiv> 0x7b"
abbreviation (input) I_PUSH29 :: Instruction where "I_PUSH29 \<equiv> 0x7c"
abbreviation (input) I_PUSH30 :: Instruction where "I_PUSH30 \<equiv> 0x7d"
abbreviation (input) I_PUSH31 :: Instruction where "I_PUSH31 \<equiv> 0x7e"
abbreviation (input) I_PUSH32 :: Instruction where "I_PUSH32 \<equiv> 0x7f"
abbreviation (input) I_DUP1 :: Instruction where "I_DUP1 \<equiv> 0x80"
abbreviation (input) I_DUP2 :: Instruction where "I_DUP2 \<equiv> 0x81"
abbreviation (input) I_DUP3 :: Instruction where "I_DUP3 \<equiv> 0x82"
abbreviation (input) I_DUP4 :: Instruction where "I_DUP4 \<equiv> 0x83"
abbreviation (input) I_DUP5 :: Instruction where "I_DUP5 \<equiv> 0x84"
abbreviation (input) I_DUP6 :: Instruction where "I_DUP6 \<equiv> 0x85"
abbreviation (input) I_DUP7 :: Instruction where "I_DUP7 \<equiv> 0x86"
abbreviation (input) I_DUP8 :: Instruction where "I_DUP8 \<equiv> 0x87"
abbreviation (input) I_DUP9 :: Instruction where "I_DUP9 \<equiv> 0x88"
abbreviation (input) I_DUP10 :: Instruction where "I_DUP10 \<equiv> 0x89"
abbreviation (input) I_DUP11 :: Instruction where "I_DUP11 \<equiv> 0x8a"
abbreviation (input) I_DUP12 :: Instruction where "I_DUP12 \<equiv> 0x8b"
abbreviation (input) I_DUP13 :: Instruction where "I_DUP13 \<equiv> 0x8c"
abbreviation (input) I_DUP14 :: Instruction where "I_DUP14 \<equiv> 0x8d"
abbreviation (input) I_DUP15 :: Instruction where "I_DUP15 \<equiv> 0x8e"
abbreviation (input) I_DUP16 :: Instruction where "I_DUP16 \<equiv> 0x8f"
abbreviation (input) I_SWAP1 :: Instruction where "I_SWAP1 \<equiv> 0x90"
abbreviation (input) I_SWAP2 :: Instruction where "I_SWAP2 \<equiv> 0x91"
abbreviation (input) I_SWAP3 :: Instruction where "I_SWAP3 \<equiv> 0x92"
abbreviation (input) I_SWAP4 :: Instruction where "I_SWAP4 \<equiv> 0x93"
abbreviation (input) I_SWAP5 :: Instruction where "I_SWAP5 \<equiv> 0x94"
abbreviation (input) I_SWAP6 :: Instruction where "I_SWAP6 \<equiv> 0x95"
abbreviation (input) I_SWAP7 :: Instruction where "I_SWAP7 \<equiv> 0x96"
abbreviation (input) I_SWAP8 :: Instruction where "I_SWAP8 \<equiv> 0x97"
abbreviation (input) I_SWAP9 :: Instruction where "I_SWAP9 \<equiv> 0x98"
abbreviation (input) I_SWAP10 :: Instruction where "I_SWAP10 \<equiv> 0x99"
abbreviation (input) I_SWAP11 :: Instruction where "I_SWAP11 \<equiv> 0x9a"
abbreviation (input) I_SWAP12 :: Instruction where "I_SWAP12 \<equiv> 0x9b"
abbreviation (input) I_SWAP13 :: Instruction where "I_SWAP13 \<equiv> 0x9c"
abbreviation (input) I_SWAP14 :: Instruction where "I_SWAP14 \<equiv> 0x9d"
abbreviation (input) I_SWAP15 :: Instruction where "I_SWAP15 \<equiv> 0x9e"
abbreviation (input) I_SWAP16 :: Instruction where "I_SWAP16 \<equiv> 0x9f"
abbreviation (input) I_LOG0 :: Instruction where "I_LOG0 \<equiv> 0xa0"
abbreviation (input) I_LOG1 :: Instruction where "I_LOG1 \<equiv> 0xa1"
abbreviation (input) I_LOG2 :: Instruction where "I_LOG2 \<equiv> 0xa2"
abbreviation (input) I_LOG3 :: Instruction where "I_LOG3 \<equiv> 0xa3"
abbreviation (input) I_LOG4 :: Instruction where "I_LOG4 \<equiv> 0xa4"
abbreviation (input) I_PUSHC :: Instruction where "I_PUSHC \<equiv> 0xac"
abbreviation (input) I_JUMPC :: Instruction where "I_JUMPC \<equiv> 0xad"
abbreviation (input) I_JUMPCI :: Instruction where "I_JUMPCI \<equiv> 0xae"
abbreviation (input) I_JUMPTO :: Instruction where "I_JUMPTO \<equiv> 0xb0"
abbreviation (input) I_JUMPIF :: Instruction where "I_JUMPIF \<equiv> 0xb1"
abbreviation (input) I_JUMPSUB :: Instruction where "I_JUMPSUB \<equiv> 0xb2"
abbreviation (input) I_JUMPV :: Instruction where "I_JUMPV \<equiv> 0xb3"
abbreviation (input) I_JUMPSUBV :: Instruction where "I_JUMPSUBV \<equiv> 0xb4"
abbreviation (input) I_BEGINSUB :: Instruction where "I_BEGINSUB \<equiv> 0xb5"
abbreviation (input) I_BEGINDATA :: Instruction where "I_BEGINDATA \<equiv> 0xb6"
abbreviation (input) I_RETURNSUB :: Instruction where "I_RETURNSUB \<equiv> 0xb7"
abbreviation (input) I_PUTLOCAL :: Instruction where "I_PUTLOCAL \<equiv> 0xb8"
abbreviation (input) I_GETLOCAL :: Instruction where "I_GETLOCAL \<equiv> 0xb9"
abbreviation (input) I_XADD :: Instruction where "I_XADD \<equiv> 0xc1"
abbreviation (input) I_XMUL :: Instruction where "I_XMUL \<equiv> 0xc2"
abbreviation (input) I_XSUB :: Instruction where "I_XSUB \<equiv> 0xc3"
abbreviation (input) I_XDIV :: Instruction where "I_XDIV \<equiv> 0xc4"
abbreviation (input) I_XSDIV :: Instruction where "I_XSDIV \<equiv> 0xc5"
abbreviation (input) I_XMOD :: Instruction where "I_XMOD \<equiv> 0xc6"
abbreviation (input) I_XSMOD :: Instruction where "I_XSMOD \<equiv> 0xc7"
abbreviation (input) I_XLT :: Instruction where "I_XLT \<equiv> 0xd0"
abbreviation (input) I_XGT :: Instruction where "I_XGT \<equiv> 0xd1"
abbreviation (input) I_XSLT :: Instruction where "I_XSLT \<equiv> 0xd2"
abbreviation (input) I_XSGT :: Instruction where "I_XSGT \<equiv> 0xd3"
abbreviation (input) I_XEQ :: Instruction where "I_XEQ \<equiv> 0xd4"
abbreviation (input) I_XISZERO :: Instruction where "I_XISZERO \<equiv> 0xd5"
abbreviation (input) I_XAND :: Instruction where "I_XAND \<equiv> 0xd6"
abbreviation (input) I_XOOR :: Instruction where "I_XOOR \<equiv> 0xd7"
abbreviation (input) I_XXOR :: Instruction where "I_XXOR \<equiv> 0xd8"
abbreviation (input) I_XNOT :: Instruction where "I_XNOT \<equiv> 0xd9"
abbreviation (input) I_XSHL :: Instruction where "I_XSHL \<equiv> 0xdb"
abbreviation (input) I_XSHR :: Instruction where "I_XSHR \<equiv> 0xdc"
abbreviation (input) I_XSAR :: Instruction where "I_XSAR \<equiv> 0xdd"
abbreviation (input) I_XROL :: Instruction where "I_XROL \<equiv> 0xde"
abbreviation (input) I_XROR :: Instruction where "I_XROR \<equiv> 0xdf"
abbreviation (input) I_XPUSH :: Instruction where "I_XPUSH \<equiv> 0xe0"
abbreviation (input) I_XMLOAD :: Instruction where "I_XMLOAD \<equiv> 0xe1"
abbreviation (input) I_XMSTORE :: Instruction where "I_XMSTORE \<equiv> 0xe2"
abbreviation (input) I_XSLOAD :: Instruction where "I_XSLOAD \<equiv> 0xe4"
abbreviation (input) I_XSSTORE :: Instruction where "I_XSSTORE \<equiv> 0xe5"
abbreviation (input) I_XVTOWIDE :: Instruction where "I_XVTOWIDE \<equiv> 0xe6"
abbreviation (input) I_XWIDETOV :: Instruction where "I_XWIDETOV \<equiv> 0xe7"
abbreviation (input) I_XGET :: Instruction where "I_XGET \<equiv> 0xe8"
abbreviation (input) I_XPUT :: Instruction where "I_XPUT \<equiv> 0xe9"
abbreviation (input) I_XSWIZZLE :: Instruction where "I_XSWIZZLE \<equiv> 0xea"
abbreviation (input) I_XSHUFFLE :: Instruction where "I_XSHUFFLE \<equiv> 0xeb"
abbreviation (input) I_CREATE :: Instruction where "I_CREATE \<equiv> 0xf0"
abbreviation (input) I_CALL :: Instruction where "I_CALL \<equiv> 0xf1"
abbreviation (input) I_CALLCODE :: Instruction where "I_CALLCODE \<equiv> 0xf2"
abbreviation (input) I_RETURN :: Instruction where "I_RETURN \<equiv> 0xf3"
abbreviation (input) I_DELEGATECALL :: Instruction where "I_DELEGATECALL \<equiv> 0xf4"
abbreviation (input) I_STATICCALL :: Instruction where "I_STATICCALL \<equiv> 0xfa"
abbreviation (input) I_CREATE2 :: Instruction where "I_CREATE2 \<equiv> 0xfb"
abbreviation (input) I_REVERT :: Instruction where "I_REVERT \<equiv> 0xfd"
abbreviation (input) I_INVALID :: Instruction where "I_INVALID \<equiv> 0xfe"
abbreviation (input) I_SUICIDE :: Instruction where "I_SUICIDE \<equiv> 0xff"

text \<open>The enumerators with their names, in the order of the declaration.\<close>

definition Instruction_enum_low :: "(string \<times> Instruction) list" where
  "Instruction_enum_low = [
    (''STOP'', I_STOP), (''ADD'', I_ADD), (''MUL'', I_MUL),
    (''SUB'', I_SUB), (''DIV'', I_DIV), (''SDIV'', I_SDIV),
    (''MOD'', I_MOD), (''SMOD'', I_SMOD), (''ADDMOD'', I_ADDMOD),
    (''MULMOD'', I_MULMOD), (''EXP'', I_EXP), (''SIGNEXTEND'', I_SIGNEXTEND),
    (''LT'', I_LT), (''GT'', I_GT), (''SLT'', I_SLT),
    (''SGT'', I_SGT), (''EQ'', I_EQ), (''ISZERO'', I_ISZERO),
    (''AND'', I_AND), (''OR'', I_OR), (''XOR'', I_XOR),
    (''NOT'', I_NOT), (''BYTE'', I_BYTE), (''SHL'', I_SHL),
    (''SHR'', I_SHR), (''SAR'', I_SAR), (''SHA3'', I_SHA3),
    (''ADDRESS'', I_ADDRESS), (''BALANCE'', I_BALANCE), (''ORIGIN'', I_ORIGIN),
    (''CALLER'', I_CALLER), (''CALLVALUE'', I_CALLVALUE), (''CALLDATALOAD'', I_CALLDATALOAD),
    (''CALLDATASIZE'', I_CALLDATASIZE), (''CALLDATACOPY'', I_CALLDATACOPY), (''CODESIZE'', I_CODESIZE),
    (''CODECOPY'', I_CODECOPY), (''GASPRICE'', I_GASPRICE), (''EXTCODESIZE'', I_EXTCODESIZE),
    (''EXTCODECOPY'', I_EXTCODECOPY), (''RETURNDATASIZE'', I_RETURNDATASIZE), (''RETURNDATACOPY'', I_RETURNDATACOPY),
    (''BLOCKHASH'', I_BLOCKHASH), (''COINBASE'', I_COINBASE), (''TIMESTAMP'', I_TIMESTAMP),
    (''NUMBER'', I_NUMBER), (''DIFFICULTY'', I_DIFFICULTY), (''GASLIMIT'', I_GASLIMIT),
    (''POP'', I_POP), (''MLOAD'', I_MLOAD), (''MSTORE'', I_MSTORE),
    (''MSTORE8'', I_MSTORE8), (''SLOAD'', I_SLOAD), (''SSTORE'', I_SSTORE),
    (''JUMP'', I_JUMP), (''JUMPI'', I_JUMPI), (''PC'', I_PC),
    (''MSIZE'', I_MSIZE), (''GAS'', I_GAS), (''JUMPDEST'', I_JUMPDEST),
    (''PUSH1'', I_PUSH1), (''PUSH2'', I_PUSH2), (''PUSH3'', I_PUSH3),
    (''PUSH4'', I_PUSH4), (''PUSH5'', I_PUSH5), (''PUSH6'', I_PUSH6),
    (''PUSH7'', I_PUSH7), (''PUSH8'', I_PUSH8), (''PUSH9'', I_PUSH9),
    (''PUSH10'', I_PUSH10), (''PUSH11'', I_PUSH11), (''PUSH12'', I_PUSH12),
    (''PUSH13'', I_PUSH13), (''PUSH14'', I_PUSH14), (''PUSH15'', I_PUSH15),
    (''PUSH16'', I_PUSH16), (''PUSH17'', I_PUSH17), (''PUSH18'', I_PUSH18),
    (''PUSH19'', I_PUSH19), (''PUSH20'', I_PUSH20), (''PUSH21'', I_PUSH21),
    (''PUSH22'', I_PUSH22), (''PUSH23'', I_PUSH23), (''PUSH24'', I_PUSH24),
    (''PUSH25'', I_PUSH25), (''PUSH26'', I_PUSH26), (''PUSH27'', I_PUSH27),
    (''PUSH28'', I_PUSH28), (''PUSH29'', I_PUSH29), (''PUSH30'', I_PUSH30),
    (''PUSH31'', I_PUSH31), (''PUSH32'', I_PUSH32)]"

definition Instruction_enum_high :: "(string \<times> Instruction) list" where
  "Instruction_enum_high = [
    (''DUP1'', I_DUP1), (''DUP2'', I_DUP2), (''DUP3'', I_DUP3),
    (''DUP4'', I_DUP4), (''DUP5'', I_DUP5), (''DUP6'', I_DUP6),
    (''DUP7'', I_DUP7), (''DUP8'', I_DUP8), (''DUP9'', I_DUP9),
    (''DUP10'', I_DUP10), (''DUP11'', I_DUP11), (''DUP12'', I_DUP12),
    (''DUP13'', I_DUP13), (''DUP14'', I_DUP14), (''DUP15'', I_DUP15),
    (''DUP16'', I_DUP16), (''SWAP1'', I_SWAP1), (''SWAP2'', I_SWAP2),
    (''SWAP3'', I_SWAP3), (''SWAP4'', I_SWAP4), (''SWAP5'', I_SWAP5),
    (''SWAP6'', I_SWAP6), (''SWAP7'', I_SWAP7), (''SWAP8'', I_SWAP8),
    (''SWAP9'', I_SWAP9), (''SWAP10'', I_SWAP10), (''SWAP11'', I_SWAP11),
    (''SWAP12'', I_SWAP12), (''SWAP13'', I_SWAP13), (''SWAP14'', I_SWAP14),
    (''SWAP15'', I_SWAP15), (''SWAP16'', I_SWAP16), (''LOG0'', I_LOG0),
    (''LOG1'', I_LOG1), (''LOG2'', I_LOG2), (''LOG3'', I_LOG3),
    (''LOG4'', I_LOG4), (''PUSHC'', I_PUSHC), (''JUMPC'', I_JUMPC),
    (''JUMPCI'', I_JUMPCI), (''JUMPTO'', I_JUMPTO), (''JUMPIF'', I_JUMPIF),
    (''JUMPSUB'', I_JUMPSUB), (''JUMPV'', I_JUMPV), (''JUMPSUBV'', I_JUMPSUBV),
    (''BEGINSUB'', I_BEGINSUB), (''BEGINDATA'', I_BEGINDATA), (''RETURNSUB'', I_RETURNSUB),
    (''PUTLOCAL'', I_PUTLOCAL), (''GETLOCAL'', I_GETLOCAL), (''XADD'', I_XADD),
    (''XMUL'', I_XMUL), (''XSUB'', I_XSUB), (''XDIV'', I_XDIV),
    (''XSDIV'', I_XSDIV), (''XMOD'', I_XMOD), (''XSMOD'', I_XSMOD),
    (''XLT'', I_XLT), (''XGT'', I_XGT), (''XSLT'', I_XSLT),
    (''XSGT'', I_XSGT), (''XEQ'', I_XEQ), (''XISZERO'', I_XISZERO),
    (''XAND'', I_XAND), (''XOOR'', I_XOOR), (''XXOR'', I_XXOR),
    (''XNOT'', I_XNOT), (''XSHL'', I_XSHL), (''XSHR'', I_XSHR),
    (''XSAR'', I_XSAR), (''XROL'', I_XROL), (''XROR'', I_XROR),
    (''XPUSH'', I_XPUSH), (''XMLOAD'', I_XMLOAD), (''XMSTORE'', I_XMSTORE),
    (''XSLOAD'', I_XSLOAD), (''XSSTORE'', I_XSSTORE), (''XVTOWIDE'', I_XVTOWIDE),
    (''XWIDETOV'', I_XWIDETOV), (''XGET'', I_XGET), (''XPUT'', I_XPUT),
    (''XSWIZZLE'', I_XSWIZZLE), (''XSHUFFLE'', I_XSHUFFLE), (''CREATE'', I_CREATE),
    (''CALL'', I_CALL), (''CALLCODE'', I_CALLCODE), (''RETURN'', I_RETURN),
    (''DELEGATECALL'', I_DELEGATECALL), (''STATICCALL'', I_STATICCALL), (''CREATE2'', I_CREATE2),
    (''REVERT'', I_REVERT), (''INVALID'', I_INVALID), (''SUICIDE'', I_SUICIDE)]"

definition Instruction_enum :: "(string \<times> Instruction) list" where
  "Instruction_enum = Instruction_enum_low @ Instruction_enum_high"

datatype Tier = Zero | Base | VeryLow | Low | Mid | High | Ext | Special | Invalid

record InstructionInfo =
  info_name :: string
  info_additional :: int
  info_args :: nat
  info_ret :: nat
  info_gasPriceTier :: Tier

record InstructionMetric =
  gasPriceTier :: Tier
  args :: nat
  ret :: nat

definition mk_info :: "string \<Rightarrow> int \<Rightarrow> nat \<Rightarrow> nat \<Rightarrow> Tier \<Rightarrow> InstructionInfo" where
  "mk_info n a k r t = \<lparr>info_name = n, info_additional = a, info_args = k, info_ret = r, info_gasPriceTier = t\<rparr>"

text \<open>The table of the source; as in a \<^verbatim>\<open>std::map\<close> built from it, the first entry of a key counts.\<close>

definition c_instructionInfo_low :: "(Instruction \<times> InstructionInfo) list" where
  "c_instructionInfo_low = [
    (I_STOP, mk_info ''STOP'' 0 0 0 Zero),
    (I_ADD, mk_info ''ADD'' 0 2 1 VeryLow),
    (I_SUB, mk_info ''SUB'' 0 2 1 VeryLow),
    (I_MUL, mk_info ''MUL'' 0 2 1 Low),
    (I_DIV, mk_info ''DIV'' 0 2 1 Low),
    (I_SDIV, mk_info ''SDIV'' 0 2 1 Low),
    (I_MOD, mk_info ''MOD'' 0 2 1 Low),
    (I_SMOD, mk_info ''SMOD'' 0 2 1 Low),
    (I_EXP, mk_info ''EXP'' 0 2 1 Special),
    (I_NOT, mk_info ''NOT'' 0 1 1 VeryLow),
    (I_LT, mk_info ''LT'' 0 2 1 VeryLow),
    (I_GT, mk_info ''GT'' 0 2 1 VeryLow),
    (I_SLT, mk_info ''SLT'' 0 2 1 VeryLow),
    (I_SGT, mk_info ''SGT'' 0 2 1 VeryLow),
    (I_EQ, mk_info ''EQ'' 0 2 1 VeryLow),
    (I_ISZERO, mk_info ''ISZERO'' 0 1 1 VeryLow),
    (I_AND, mk_info ''AND'' 0 2 1 VeryLow),
    (I_OR, mk_info ''OR'' 0 2 1 VeryLow),
    (I_XOR, mk_info ''XOR'' 0 2 1 VeryLow),
    (I_BYTE, mk_info ''BYTE'' 0 2 1 VeryLow),
    (I_SHL, mk_info ''SHL'' 0 2 1 VeryLow),
    (I_SHR, mk_info ''SHR'' 0 2 1 VeryLow),
    (I_SAR, mk_info ''SAR'' 0 2 1 VeryLow),
    (I_ADDMOD, mk_info ''ADDMOD'' 0 3 1 Mid),
    (I_MULMOD, mk_info ''MULMOD'' 0 3 1 Mid),
    (I_SIGNEXTEND, mk_info ''SIGNEXTEND'' 0 2 1 Low),
    (I_SHA3, mk_info ''SHA3'' 0 2 1 Special),
    (I_ADDRESS, mk_info ''ADDRESS'' 0 0 1 Base),
    (I_BALANCE, mk_info ''BALANCE'' 0 1 1 Special),
    (I_ORIGIN, mk_info ''ORIGIN'' 0 0 1 Base),
    (I_CALLER, mk_info ''CALLER'' 0 0 1 Base),
    (I_CALLVALUE, mk_info ''CALLVALUE'' 0 0 1 Base),
    (I_CALLDATALOAD, mk_info ''CALLDATALOAD'' 0 1 1 VeryLow),
    (I_CALLDATASIZE, mk_info ''CALLDATASIZE'' 0 0 1 Base),
    (I_CALLDATACOPY, mk_info ''CALLDATACOPY'' 0 3 0 VeryLow),
    (I_CODESIZE, mk_info ''CODESIZE'' 0 0 1 Base),
    (I_CODECOPY, mk_info ''CODECOPY'' 0 3 0 VeryLow),
    (I_GASPRICE, mk_info ''GASPRICE'' 0 0 1 Base),
    (I_EXTCODESIZE, mk_info ''EXTCODESIZE'' 0 1 1 Special),
    (I_EXTCODECOPY, mk_info ''EXTCODECOPY'' 0 4 0 Special),
    (I_RETURNDATASIZE, mk_info ''RETURNDATASIZE'' 0 0 1 Base),
    (I_RETURNDATACOPY, mk_info ''RETURNDATACOPY'' 0 3 0 VeryLow),
    (I_BLOCKHASH, mk_info ''BLOCKHASH'' 0 1 1 Special),
    (I_COINBASE, mk_info ''COINBASE'' 0 0 1 Base),
    (I_TIMESTAMP, mk_info ''TIMESTAMP'' 0 0 1 Base),
    (I_NUMBER, mk_info ''NUMBER'' 0 0 1 Base),
    (I_DIFFICULTY, mk_info ''DIFFICULTY'' 0 0 1 Base),
    (I_GASLIMIT, mk_info ''GASLIMIT'' 0 0 1 Base),
    (I_POP, mk_info ''POP'' 0 1 0 Base),
    (I_MLOAD, mk_info ''MLOAD'' 0 1 1 VeryLow),
    (I_MSTORE, mk_info ''MSTORE'' 0 2 0 VeryLow),
    (I_MSTORE8, mk_info ''MSTORE8'' 0 2 0 VeryLow),
    (I_SLOAD, mk_info ''SLOAD'' 0 1 1 Special),
    (I_SSTORE, mk_info ''SSTORE'' 0 2 0 Special),
    (I_JUMP, mk_info ''JUMP'' 0 1 0 Mid),
    (I_JUMPI, mk_info ''JUMPI'' 0 2 0 High),
    (I_PC, mk_info ''PC'' 0 0 1 Base),
    (I_MSIZE, mk_info ''MSIZE'' 0 0 1 Base),
    (I_GAS, mk_info ''GAS'' 0 0 1 Base),
    (I_JUMPDEST, mk_info ''JUMPDEST'' 0 0 0 Special),
    (I_PUSH1, mk_info ''PUSH1'' 1 0 1 VeryLow),
    (I_PUSH2, mk_info ''PUSH2'' 2 0 1 VeryLow),
    (I_PUSH3, mk_info ''PUSH3'' 3 0 1 VeryLow),
    (I_PUSH4, mk_info ''PUSH4'' 4 0 1 VeryLow),
    (I_PUSH5, mk_info ''PUSH5'' 5 0 1 VeryLow),
    (I_PUSH6, mk_info ''PUSH6'' 6 0 1 VeryLow),
    (I_PUSH7, mk_info ''PUSH7'' 7 0 1 VeryLow),
    (I_PUSH8, mk_info ''PUSH8'' 8 0 1 VeryLow),
    (I_PUSH9, mk_info ''PUSH9'' 9 0 1 VeryLow),
    (I_PUSH10, mk_info ''PUSH10'' 10 0 1 VeryLow),
    (I_PUSH11, mk_info ''PUSH11'' 11 0 1 VeryLow),
    (I_PUSH12, mk_info ''PUSH12'' 12 0 1 VeryLow),
    (I_PUSH13, mk_info ''PUSH13'' 13 0 1 VeryLow),
    (I_PUSH14, mk_info ''PUSH14'' 14 0 1 VeryLow),
    (I_PUSH15, mk_info ''PUSH15'' 15 0 1 VeryLow),
    (I_PUSH16, mk_info ''PUSH16'' 16 0 1 VeryLow),
    (I_PUSH17, mk_info ''PUSH17'' 17 0 1 VeryLow),
    (I_PUSH18, mk_info ''PUSH18'' 18 0 1 VeryLow),
    (I_PUSH19, mk_info ''PUSH19'' 19 0 1 VeryLow),
    (I_PUSH20, mk_info ''PUSH20'' 20 0 1 VeryLow),
    (I_PUSH21, mk_info ''PUSH21'' 21 0 1 VeryLow),
    (I_PUSH22, mk_info ''PUSH22'' 22 0 1 VeryLow),
    (I_PUSH23, mk_info ''PUSH23'' 23 0 1 VeryLow),
    (I_PUSH24, mk_info ''PUSH24'' 24 0 1 VeryLow),
    (I_PUSH25, mk_info ''PUSH25'' 25 0 1 VeryLow),
    (I_PUSH26, mk_info ''PUSH26'' 26 0 1 VeryLow),
    (I_PUSH27, mk_info ''PUSH27'' 27 0 1 VeryLow),
    (I_PUSH28, mk_info ''PUSH28'' 28 0 1 VeryLow),
    (I_PUSH29, mk_info ''PUSH29'' 29 0 1 VeryLow),
    (I_PUSH30, mk_info ''PUSH30'' 30 0 1 VeryLow),
    (I_PUSH31, mk_info ''PUSH31'' 31 0 1 VeryLow),
    (I_PUSH32, mk_info ''PUSH32'' 32 0 1 VeryLow)]"

definition c_instructionInfo_high :: "(Instruction \<times> InstructionInfo) list" where
  "c_instructionInfo_high = [
    (I_DUP1, mk_info ''DUP1'' 0 1 2 VeryLow),
    (I_DUP2, mk_info ''DUP2'' 0 2 3 VeryLow),
    (I_DUP3, mk_info ''DUP3'' 0 3 4 VeryLow),
    (I_DUP4, mk_info ''DUP4'' 0 4 5 VeryLow),
    (I_DUP5, mk_info ''DUP5'' 0 5 6 VeryLow),
    (I_DUP6, mk_info ''DUP6'' 0 6 7 VeryLow),
    (I_DUP7, mk_info ''DUP7'' 0 7 8 VeryLow),
    (I_DUP8, mk_info ''DUP8'' 0 8 9 VeryLow),
    (I_DUP9, mk_info ''DUP9'' 0 9 10 VeryLow),
    (I_DUP10, mk_info ''DUP10'' 0 10 11 VeryLow),
    (I_DUP11, mk_info ''DUP11'' 0 11 12 VeryLow),
    (I_DUP12, mk_info ''DUP12'' 0 12 13 VeryLow),
    (I_DUP13, mk_info ''DUP13'' 0 13 14 VeryLow),
    (I_DUP14, mk_info ''DUP14'' 0 14 15 VeryLow),
    (I_DUP15, mk_info ''DUP15'' 0 15 16 VeryLow),
    (I_DUP16, mk_info ''DUP16'' 0 16 17 VeryLow),
    (I_SWAP1, mk_info ''SWAP1'' 0 2 2 VeryLow),
    (I_SWAP2, mk_info ''SWAP2'' 0 3 3 VeryLow),
    (I_SWAP3, mk_info ''SWAP3'' 0 4 4 VeryLow),
    (I_SWAP4, mk_info ''SWAP4'' 0 5 5 VeryLow),
    (I_SWAP5, mk_info ''SWAP5'' 0 6 6 VeryLow),
    (I_SWAP6, mk_info ''SWAP6'' 0 7 7 VeryLow),
    (I_SWAP7, mk_info ''SWAP7'' 0 8 8 VeryLow),
    (I_SWAP8, mk_info ''SWAP8'' 0 9 9 VeryLow),
    (I_SWAP9, mk_info ''SWAP9'' 0 10 10 VeryLow),
    (I_SWAP10, mk_info ''SWAP10'' 0 11 11 VeryLow),
    (I_SWAP11, mk_info ''SWAP11'' 0 12 12 VeryLow),
    (I_SWAP12, mk_info ''SWAP12'' 0 13 13 VeryLow),
    (I_SWAP13, mk_info ''SWAP13'' 0 14 14 VeryLow),
    (I_SWAP14, mk_info ''SWAP14'' 0 15 15 VeryLow),
    (I_SWAP15, mk_info ''SWAP15'' 0 16 16 VeryLow),
    (I_SWAP16, mk_info ''SWAP16'' 0 17 17 VeryLow),
    (I_LOG0, mk_info ''LOG0'' 0 2 0 Special),
    (I_LOG1, mk_info ''LOG1'' 0 3 0 Special),
    (I_LOG2, mk_info ''LOG2'' 0 4 0 Special),
    (I_LOG3, mk_info ''LOG3'' 0 5 0 Special),
    (I_LOG4, mk_info ''LOG4'' 0 6 0 Special),
    (I_JUMPTO, mk_info ''JUMPTO'' 2 1 0 VeryLow),
    (I_JUMPIF, mk_info ''JUMPIF'' 2 2 0 Low),
    (I_JUMPV, mk_info ''JUMPV'' 2 1 0 Mid),
    (I_JUMPSUB, mk_info ''JUMPSUB'' 2 1 0 Low),
    (I_JUMPSUBV, mk_info ''JUMPSUBV'' 2 1 0 Mid),
    (I_BEGINSUB, mk_info ''BEGINSUB'' 0 0 0 Special),
    (I_BEGINDATA, mk_info ''BEGINDATA'' 0 0 0 Special),
    (I_RETURNSUB, mk_info ''RETURNSUB'' 0 1 0 Mid),
    (I_PUTLOCAL, mk_info ''PUTLOCAL'' 2 1 0 VeryLow),
    (I_GETLOCAL, mk_info ''GETLOCAL'' 2 0 1 VeryLow),
    (I_XADD, mk_info ''XADD'' 1 0 0 Special),
    (I_XMUL, mk_info ''XMUL'' 1 2 1 Special),
    (I_XSUB, mk_info ''XSUB'' 1 2 1 Special),
    (I_XDIV, mk_info ''XDIV'' 1 2 1 Special),
    (I_XSDIV, mk_info ''XSDIV'' 1 2 1 Special),
    (I_XMOD, mk_info ''XMOD'' 1 2 1 Special),
    (I_XSMOD, mk_info ''XSMOD'' 1 2 1 Special),
    (I_XLT, mk_info ''XLT'' 1 2 1 Special),
    (I_XGT, mk_info ''XGT'' 1 2 1 Special),
    (I_XSLT, mk_info ''XSLT'' 1 2 1 Special),
    (I_XSGT, mk_info ''XSGT'' 1 2 1 Special),
    (I_XEQ, mk_info ''XEQ'' 1 2 1 Special),
    (I_XISZERO, mk_info ''XISZERO'' 1 2 1 Special),
    (I_XAND, mk_info ''XAND'' 1 1 1 Special),
    (I_XOR, mk_info ''XOR'' 1 2 1 Special),
    (I_XXOR, mk_info ''XXOR'' 1 2 1 Special),
    (I_XNOT, mk_info ''XNOT'' 1 2 1 Special),
    (I_XSHL, mk_info ''XSHL'' 1 2 1 Special),
    (I_XSHR, mk_info ''XSHR'' 1 2 1 Special),
    (I_XSAR, mk_info ''XSAR'' 1 2 1 Special),
    (I_XROL, mk_info ''XROL'' 1 2 1 Special),
    (I_XROR, mk_info ''XROR'' 1 2 1 Special),
    (I_XPUSH, mk_info ''XPUSH'' 1 1 1 VeryLow),
    (I_XMLOAD, mk_info ''XMLOAD'' 1 1 1 VeryLow),
    (I_XMSTORE, mk_info ''XMSTORE'' 1 2 0 VeryLow),
    (I_XSLOAD, mk_info ''XSLOAD'' 1 1 1 Special),
    (I_XSSTORE, mk_info ''XSSTORE'' 1 2 0 Special),
    (I_XVTOWIDE, mk_info ''XVTOWIDE'' 1 1 1 VeryLow),
    (I_XWIDETOV, mk_info ''XWIDETOV'' 1 1 1 VeryLow),
    (I_XPUT, mk_info ''XPUT'' 1 3 1 Special),
    (I_XGET, mk_info ''XGET'' 1 2 1 Special),
    (I_XSWIZZLE, mk_info ''XSWIZZLE'' 1 2 1 Special),
    (I_XSHUFFLE, mk_info ''XSHUFFLE'' 1 3 1 Special),
    (I_CREATE, mk_info ''CREATE'' 0 3 1 Special),
    (I_CREATE2, mk_info ''CREATE2'' 0 4 1 Special),
    (I_CALL, mk_info ''CALL'' 0 7 1 Special),
    (I_CALLCODE, mk_info ''CALLCODE'' 0 7 1 Special),
    (I_RETURN, mk_info ''RETURN'' 0 2 0 Zero),
    (I_STATICCALL, mk_info ''STATICCALL'' 0 6 1 Special),
    (I_DELEGATECALL, mk_info ''DELEGATECALL'' 0 6 1 Special),
    (I_REVERT, mk_info ''REVERT'' 0 2 0 Special),
    (I_INVALID, mk_info ''INVALID'' 0 0 0 Zero),
    (I_SUICIDE, mk_info ''SUICIDE'' 0 1 0 Special),
    (I_PUSHC, mk_info ''PUSHC'' 3 0 1 VeryLow),
    (I_JUMPC, mk_info ''JUMPC'' 0 1 0 Mid),
    (I_JUMPCI, mk_info ''JUMPCI'' 0 2 0 High)]"

definition c_instructionInfo :: "(Instruction \<times> InstructionInfo) list" where
  "c_instructionInfo = c_instructionInfo_low @ c_instructionInfo_high"

definition instructionInfo :: "Instruction \<Rightarrow> InstructionInfo" where
  "instructionInfo i =
    (case map_of c_instructionInfo i of Some info \<Rightarrow> info | None \<Rightarrow> mk_info [] 0 0 0 Invalid)"

text \<open>The table that \<^verbatim>\<open>VM::initMetrics\<close> fills (\<^verbatim>\<open>VMOpt.cpp\<close>).\<close>

definition metric_of :: "InstructionInfo \<Rightarrow> InstructionMetric" where
  "metric_of op = \<lparr>gasPriceTier = info_gasPriceTier op, args = info_args op, ret = info_ret op\<rparr>"

definition c_metrics :: "InstructionMetric list" where
  "c_metrics = map (\<lambda>i. metric_of (instructionInfo (int i))) [0..<256]"

section \<open>Lemmas\<close>

text \<open>The metrics as they come out: tier, items taken, items put.\<close>

definition metric :: "Tier \<Rightarrow> nat \<Rightarrow> nat \<Rightarrow> InstructionMetric" where
  "metric t a r = \<lparr>gasPriceTier = t, args = a, ret = r\<rparr>"

text \<open>The table without the names.\<close>

definition metric_table :: "(Instruction \<times> InstructionMetric) list" where
  "metric_table = [
    (0x00, metric Zero 0 0), (0x01, metric VeryLow 2 1), (0x03, metric VeryLow 2 1),
    (0x02, metric Low 2 1), (0x04, metric Low 2 1), (0x05, metric Low 2 1),
    (0x06, metric Low 2 1), (0x07, metric Low 2 1), (0x0a, metric Special 2 1),
    (0x19, metric VeryLow 1 1), (0x10, metric VeryLow 2 1), (0x11, metric VeryLow 2 1),
    (0x12, metric VeryLow 2 1), (0x13, metric VeryLow 2 1), (0x14, metric VeryLow 2 1),
    (0x15, metric VeryLow 1 1), (0x16, metric VeryLow 2 1), (0x17, metric VeryLow 2 1),
    (0x18, metric VeryLow 2 1), (0x1a, metric VeryLow 2 1), (0x1b, metric VeryLow 2 1),
    (0x1c, metric VeryLow 2 1), (0x1d, metric VeryLow 2 1), (0x08, metric Mid 3 1),
    (0x09, metric Mid 3 1), (0x0b, metric Low 2 1), (0x20, metric Special 2 1),
    (0x30, metric Base 0 1), (0x31, metric Special 1 1), (0x32, metric Base 0 1),
    (0x33, metric Base 0 1), (0x34, metric Base 0 1), (0x35, metric VeryLow 1 1),
    (0x36, metric Base 0 1), (0x37, metric VeryLow 3 0), (0x38, metric Base 0 1),
    (0x39, metric VeryLow 3 0), (0x3a, metric Base 0 1), (0x3b, metric Special 1 1),
    (0x3c, metric Special 4 0), (0x3d, metric Base 0 1), (0x3e, metric VeryLow 3 0),
    (0x40, metric Special 1 1), (0x41, metric Base 0 1), (0x42, metric Base 0 1),
    (0x43, metric Base 0 1), (0x44, metric Base 0 1), (0x45, metric Base 0 1),
    (0x50, metric Base 1 0), (0x51, metric VeryLow 1 1), (0x52, metric VeryLow 2 0),
    (0x53, metric VeryLow 2 0), (0x54, metric Special 1 1), (0x55, metric Special 2 0),
    (0x56, metric Mid 1 0), (0x57, metric High 2 0), (0x58, metric Base 0 1),
    (0x59, metric Base 0 1), (0x5a, metric Base 0 1), (0x5b, metric Special 0 0),
    (0x60, metric VeryLow 0 1), (0x61, metric VeryLow 0 1), (0x62, metric VeryLow 0 1),
    (0x63, metric VeryLow 0 1), (0x64, metric VeryLow 0 1), (0x65, metric VeryLow 0 1),
    (0x66, metric VeryLow 0 1), (0x67, metric VeryLow 0 1), (0x68, metric VeryLow 0 1),
    (0x69, metric VeryLow 0 1), (0x6a, metric VeryLow 0 1), (0x6b, metric VeryLow 0 1),
    (0x6c, metric VeryLow 0 1), (0x6d, metric VeryLow 0 1), (0x6e, metric VeryLow 0 1),
    (0x6f, metric VeryLow 0 1), (0x70, metric VeryLow 0 1), (0x71, metric VeryLow 0 1),
    (0x72, metric VeryLow 0 1), (0x73, metric VeryLow 0 1), (0x74, metric VeryLow 0 1),
    (0x75, metric VeryLow 0 1), (0x76, metric VeryLow 0 1), (0x77, metric VeryLow 0 1),
    (0x78, metric VeryLow 0 1), (0x79, metric VeryLow 0 1), (0x7a, metric VeryLow 0 1),
    (0x7b, metric VeryLow 0 1), (0x7c, metric VeryLow 0 1), (0x7d, metric VeryLow 0 1),
    (0x7e, metric VeryLow 0 1), (0x7f, metric VeryLow 0 1), (0x80, metric VeryLow 1 2),
    (0x81, metric VeryLow 2 3), (0x82, metric VeryLow 3 4), (0x83, metric VeryLow 4 5),
    (0x84, metric VeryLow 5 6), (0x85, metric VeryLow 6 7), (0x86, metric VeryLow 7 8),
    (0x87, metric VeryLow 8 9), (0x88, metric VeryLow 9 10), (0x89, metric VeryLow 10 11),
    (0x8a, metric VeryLow 11 12), (0x8b, metric VeryLow 12 13), (0x8c, metric VeryLow 13 14),
    (0x8d, metric VeryLow 14 15), (0x8e, metric VeryLow 15 16), (0x8f, metric VeryLow 16 17),
    (0x90, metric VeryLow 2 2), (0x91, metric VeryLow 3 3), (0x92, metric VeryLow 4 4),
    (0x93, metric VeryLow 5 5), (0x94, metric VeryLow 6 6), (0x95, metric VeryLow 7 7),
    (0x96, metric VeryLow 8 8), (0x97, metric VeryLow 9 9), (0x98, metric VeryLow 10 10),
    (0x99, metric VeryLow 11 11), (0x9a, metric VeryLow 12 12), (0x9b, metric VeryLow 13 13),
    (0x9c, metric VeryLow 14 14), (0x9d, metric VeryLow 15 15), (0x9e, metric VeryLow 16 16),
    (0x9f, metric VeryLow 17 17), (0xa0, metric Special 2 0), (0xa1, metric Special 3 0),
    (0xa2, metric Special 4 0), (0xa3, metric Special 5 0), (0xa4, metric Special 6 0),
    (0xb0, metric VeryLow 1 0), (0xb1, metric Low 2 0), (0xb3, metric Mid 1 0),
    (0xb2, metric Low 1 0), (0xb4, metric Mid 1 0), (0xb5, metric Special 0 0),
    (0xb6, metric Special 0 0), (0xb7, metric Mid 1 0), (0xb8, metric VeryLow 1 0),
    (0xb9, metric VeryLow 0 1), (0xc1, metric Special 0 0), (0xc2, metric Special 2 1),
    (0xc3, metric Special 2 1), (0xc4, metric Special 2 1), (0xc5, metric Special 2 1),
    (0xc6, metric Special 2 1), (0xc7, metric Special 2 1), (0xd0, metric Special 2 1),
    (0xd1, metric Special 2 1), (0xd2, metric Special 2 1), (0xd3, metric Special 2 1),
    (0xd4, metric Special 2 1), (0xd5, metric Special 2 1), (0xd6, metric Special 1 1),
    (0x18, metric Special 2 1), (0xd8, metric Special 2 1), (0xd9, metric Special 2 1),
    (0xdb, metric Special 2 1), (0xdc, metric Special 2 1), (0xdd, metric Special 2 1),
    (0xde, metric Special 2 1), (0xdf, metric Special 2 1), (0xe0, metric VeryLow 1 1),
    (0xe1, metric VeryLow 1 1), (0xe2, metric VeryLow 2 0), (0xe4, metric Special 1 1),
    (0xe5, metric Special 2 0), (0xe6, metric VeryLow 1 1), (0xe7, metric VeryLow 1 1),
    (0xe9, metric Special 3 1), (0xe8, metric Special 2 1), (0xea, metric Special 2 1),
    (0xeb, metric Special 3 1), (0xf0, metric Special 3 1), (0xfb, metric Special 4 1),
    (0xf1, metric Special 7 1), (0xf2, metric Special 7 1), (0xf3, metric Zero 2 0),
    (0xfa, metric Special 6 1), (0xf4, metric Special 6 1), (0xfd, metric Special 2 0),
    (0xfe, metric Zero 0 0), (0xff, metric Special 1 0), (0xac, metric VeryLow 0 1),
    (0xad, metric Mid 1 0), (0xae, metric High 2 0)]"

lemma metric_table_eq: "map (\<lambda>(k, i). (k, metric_of i)) c_instructionInfo = metric_table"
  by (simp add: c_instructionInfo_def c_instructionInfo_low_def c_instructionInfo_high_def
      metric_table_def mk_info_def metric_of_def metric_def)

fun metric_lookup :: "(Instruction \<times> InstructionMetric) list \<Rightarrow> Instruction \<Rightarrow> InstructionMetric" where
  "metric_lookup [] i = metric Invalid 0 0"
| "metric_lookup ((k, m) # t) i = (if i = k then m else metric_lookup t i)"

lemma metric_of_instructionInfo: "metric_of (instructionInfo i) = metric_lookup metric_table i"
proof -
  have lookup: "metric_lookup t i = (case map_of t i of Some m \<Rightarrow> m | None \<Rightarrow> metric Invalid 0 0)" for t
    by (induction t) auto
  have "map_of metric_table i = map_option metric_of (map_of c_instructionInfo i)"
    by (simp add: metric_table_eq [symmetric] map_of_map)
  then show ?thesis
    by (simp add: instructionInfo_def lookup mk_info_def metric_of_def metric_def
        split: option.splits)
qed

lemmas metric_lookup_eq = metric_of_instructionInfo [unfolded metric_table_def metric_lookup.simps]


lemma upt_256: "[0..<256] = 0 # 1 # [2..<256]"
  by (simp add: upt_conv_Cons)

lemma upt_128: "[0..<128] = 0 # 1 # [2..<128]"
  by (simp add: upt_conv_Cons)

lemma c_metrics_eq:
  "c_metrics =
    [metric Zero 0 0, metric VeryLow 2 1, metric Low 2 1, metric VeryLow 2 1, metric Low 2 1,
     metric Low 2 1, metric Low 2 1, metric Low 2 1, metric Mid 3 1, metric Mid 3 1, metric
     Special 2 1, metric Low 2 1, metric Invalid 0 0, metric Invalid 0 0, metric Invalid 0 0,
     metric Invalid 0 0, metric VeryLow 2 1, metric VeryLow 2 1, metric VeryLow 2 1, metric
     VeryLow 2 1, metric VeryLow 2 1, metric VeryLow 1 1, metric VeryLow 2 1, metric VeryLow 2
     1, metric VeryLow 2 1, metric VeryLow 1 1, metric VeryLow 2 1, metric VeryLow 2 1, metric
     VeryLow 2 1, metric VeryLow 2 1, metric Invalid 0 0, metric Invalid 0 0, metric Special 2
     1, metric Invalid 0 0, metric Invalid 0 0, metric Invalid 0 0, metric Invalid 0 0, metric
     Invalid 0 0, metric Invalid 0 0, metric Invalid 0 0, metric Invalid 0 0, metric Invalid 0
     0, metric Invalid 0 0, metric Invalid 0 0, metric Invalid 0 0, metric Invalid 0 0, metric
     Invalid 0 0, metric Invalid 0 0, metric Base 0 1, metric Special 1 1, metric Base 0 1,
     metric Base 0 1, metric Base 0 1, metric VeryLow 1 1, metric Base 0 1, metric VeryLow 3 0,
     metric Base 0 1, metric VeryLow 3 0, metric Base 0 1, metric Special 1 1, metric Special 4
     0, metric Base 0 1, metric VeryLow 3 0, metric Invalid 0 0, metric Special 1 1, metric
     Base 0 1, metric Base 0 1, metric Base 0 1, metric Base 0 1, metric Base 0 1, metric
     Invalid 0 0, metric Invalid 0 0, metric Invalid 0 0, metric Invalid 0 0, metric Invalid 0
     0, metric Invalid 0 0, metric Invalid 0 0, metric Invalid 0 0, metric Invalid 0 0, metric
     Invalid 0 0, metric Base 1 0, metric VeryLow 1 1, metric VeryLow 2 0, metric VeryLow 2 0,
     metric Special 1 1, metric Special 2 0, metric Mid 1 0, metric High 2 0, metric Base 0 1,
     metric Base 0 1, metric Base 0 1, metric Special 0 0, metric Invalid 0 0, metric Invalid 0
     0, metric Invalid 0 0, metric Invalid 0 0, metric VeryLow 0 1, metric VeryLow 0 1, metric
     VeryLow 0 1, metric VeryLow 0 1, metric VeryLow 0 1, metric VeryLow 0 1, metric VeryLow 0
     1, metric VeryLow 0 1, metric VeryLow 0 1, metric VeryLow 0 1, metric VeryLow 0 1, metric
     VeryLow 0 1, metric VeryLow 0 1, metric VeryLow 0 1, metric VeryLow 0 1, metric VeryLow 0
     1, metric VeryLow 0 1, metric VeryLow 0 1, metric VeryLow 0 1, metric VeryLow 0 1, metric
     VeryLow 0 1, metric VeryLow 0 1, metric VeryLow 0 1, metric VeryLow 0 1, metric VeryLow 0
     1, metric VeryLow 0 1, metric VeryLow 0 1, metric VeryLow 0 1, metric VeryLow 0 1, metric
     VeryLow 0 1, metric VeryLow 0 1, metric VeryLow 0 1, metric VeryLow 1 2, metric VeryLow 2
     3, metric VeryLow 3 4, metric VeryLow 4 5, metric VeryLow 5 6, metric VeryLow 6 7, metric
     VeryLow 7 8, metric VeryLow 8 9, metric VeryLow 9 10, metric VeryLow 10 11, metric VeryLow
     11 12, metric VeryLow 12 13, metric VeryLow 13 14, metric VeryLow 14 15, metric VeryLow 15
     16, metric VeryLow 16 17, metric VeryLow 2 2, metric VeryLow 3 3, metric VeryLow 4 4,
     metric VeryLow 5 5, metric VeryLow 6 6, metric VeryLow 7 7, metric VeryLow 8 8, metric
     VeryLow 9 9, metric VeryLow 10 10, metric VeryLow 11 11, metric VeryLow 12 12, metric
     VeryLow 13 13, metric VeryLow 14 14, metric VeryLow 15 15, metric VeryLow 16 16, metric
     VeryLow 17 17, metric Special 2 0, metric Special 3 0, metric Special 4 0, metric Special
     5 0, metric Special 6 0, metric Invalid 0 0, metric Invalid 0 0, metric Invalid 0 0,
     metric Invalid 0 0, metric Invalid 0 0, metric Invalid 0 0, metric Invalid 0 0, metric
     VeryLow 0 1, metric Mid 1 0, metric High 2 0, metric Invalid 0 0, metric VeryLow 1 0,
     metric Low 2 0, metric Low 1 0, metric Mid 1 0, metric Mid 1 0, metric Special 0 0, metric
     Special 0 0, metric Mid 1 0, metric VeryLow 1 0, metric VeryLow 0 1, metric Invalid 0 0,
     metric Invalid 0 0, metric Invalid 0 0, metric Invalid 0 0, metric Invalid 0 0, metric
     Invalid 0 0, metric Invalid 0 0, metric Special 0 0, metric Special 2 1, metric Special 2
     1, metric Special 2 1, metric Special 2 1, metric Special 2 1, metric Special 2 1, metric
     Invalid 0 0, metric Invalid 0 0, metric Invalid 0 0, metric Invalid 0 0, metric Invalid 0
     0, metric Invalid 0 0, metric Invalid 0 0, metric Invalid 0 0, metric Special 2 1, metric
     Special 2 1, metric Special 2 1, metric Special 2 1, metric Special 2 1, metric Special 2
     1, metric Special 1 1, metric Invalid 0 0, metric Special 2 1, metric Special 2 1, metric
     Invalid 0 0, metric Special 2 1, metric Special 2 1, metric Special 2 1, metric Special 2
     1, metric Special 2 1, metric VeryLow 1 1, metric VeryLow 1 1, metric VeryLow 2 0, metric
     Invalid 0 0, metric Special 1 1, metric Special 2 0, metric VeryLow 1 1, metric VeryLow 1
     1, metric Special 2 1, metric Special 3 1, metric Special 2 1, metric Special 3 1, metric
     Invalid 0 0, metric Invalid 0 0, metric Invalid 0 0, metric Invalid 0 0, metric Special 3
     1, metric Special 7 1, metric Special 7 1, metric Zero 2 0, metric Special 6 1, metric
     Invalid 0 0, metric Invalid 0 0, metric Invalid 0 0, metric Invalid 0 0, metric Invalid 0
     0, metric Special 6 1, metric Special 4 1, metric Invalid 0 0, metric Special 2 0, metric
     Zero 0 0, metric Special 1 0]"
  unfolding c_metrics_def metric_lookup_eq
  by (simp add: upt_256)

end
