(* ===== verification/VMState.thy ===== *)
theory VMState
  imports Instruction CommonData
begin

text \<open>
  The state of the interpreter \<^verbatim>\<open>dev::eth::VM\<close> (\<^verbatim>\<open>src/contract/libtvm/VM.h\<close>), the structures of
  its host interface (\<^verbatim>\<open>src/contract/tvmc/include/tvmc/tvmc.h\<close>) and the helpers that all
  instructions share: gas metering, memory growth, stack adjustment and instruction fetch
  (\<^verbatim>\<open>VM.cpp\<close>).

  An operation returns \<open>Inr\<close> the new state or \<open>Inl\<close> the exception with the state at the throw.
  The operand stack is the array \<^verbatim>\<open>m_stack\<close> with the pointers \<^verbatim>\<open>m_SP\<close> and \<^verbatim>\<open>m_SPP\<close> as
  indices.  An access outside an array, which the C++ code does not check, is the exception
  \<open>Undefined\<close>.  Sizes and offsets that the code holds in \<^verbatim>\<open>uint64_t\<close> are 64-bit words where they
  take part in gas arithmetic; \<^verbatim>\<open>m_PC\<close> and lengths are natural numbers.
\<close>

unbundle bit_operations_syntax

section \<open>Definitions: the host interface\<close>

datatype tvmc_revision = TVMC_FRONTIER | TVMC_HOMESTEAD | TVMC_TANGERINE_WHISTLE
  | TVMC_SPURIOUS_DRAGON | TVMC_BYZANTIUM | TVMC_CONSTANTINOPLE

fun revision_number :: "tvmc_revision \<Rightarrow> nat" where
  "revision_number TVMC_FRONTIER = 0"
| "revision_number TVMC_HOMESTEAD = 1"
| "revision_number TVMC_TANGERINE_WHISTLE = 2"
| "revision_number TVMC_SPURIOUS_DRAGON = 3"
| "revision_number TVMC_BYZANTIUM = 4"
| "revision_number TVMC_CONSTANTINOPLE = 5"

instantiation tvmc_revision :: linorder
begin

definition less_eq_tvmc_revision :: "tvmc_revision \<Rightarrow> tvmc_revision \<Rightarrow> bool" where
  "less_eq_tvmc_revision a b = (revision_number a \<le> revision_number b)"

definition less_tvmc_revision :: "tvmc_revision \<Rightarrow> tvmc_revision \<Rightarrow> bool" where
  "less_tvmc_revision a b = (revision_number a < revision_number b)"

instance
proof
  fix a b :: tvmc_revision
  assume "a \<le> b" and "b \<le> a"
  then have "revision_number a = revision_number b"
    by (simp add: less_eq_tvmc_revision_def)
  then show "a = b"
    by (cases a; cases b) simp_all
qed (auto simp: less_eq_tvmc_revision_def less_tvmc_revision_def)

end

datatype tvmc_call_kind = TVMC_CALL | TVMC_DELEGATECALL | TVMC_CALLCODE | TVMC_CREATE

datatype tvmc_status_code = TVMC_SUCCESS | TVMC_FAILURE | TVMC_REVERT | TVMC_OUT_OF_GAS
  | TVMC_INVALID_INSTRUCTION | TVMC_UNDEFINED_INSTRUCTION | TVMC_STACK_OVERFLOW
  | TVMC_STACK_UNDERFLOW | TVMC_BAD_JUMP_DESTINATION | TVMC_INVALID_MEMORY_ACCESS
  | TVMC_CALL_DEPTH_EXCEEDED | TVMC_STATIC_MODE_VIOLATION | TVMC_PRECOMPILE_FAILURE
  | TVMC_CONTRACT_VALIDATION_FAILURE | TVMC_INTERNAL_ERROR | TVMC_REJECTED

text \<open>\<open>TVMC_STATIC\<close> is bit 0 of the flags.\<close>

abbreviation (input) TVMC_STATIC :: u32 where "TVMC_STATIC \<equiv> 1"

record tvmc_message =
  msg_destination :: h160
  msg_sender :: h160
  msg_value :: h256
  msg_input_data :: bytes
  msg_code_hash :: h256
  msg_gas :: int
  msg_depth :: int
  msg_kind :: tvmc_call_kind
  msg_flags :: u32

record tvmc_tx_context =
  tx_gas_price :: h256
  tx_origin :: h160
  block_coinbase :: h160
  block_number :: int
  block_timestamp :: int
  block_gas_limit :: int
  block_difficulty :: h256

record tvmc_result =
  res_status_code :: tvmc_status_code
  res_gas_left :: int
  res_output_data :: bytes
  res_create_address :: h160

text \<open>
  The callbacks of \<^verbatim>\<open>tvmc_context_fn_table\<close> on a host state \<open>'h\<close>.  Queries return their value,
  the others the new host state; \<open>copy_code\<close> returns the bytes written to the buffer.
\<close>

record 'h tvmc_fn_table =
  account_exists :: "'h \<Rightarrow> h160 \<Rightarrow> bool"
  get_storage :: "'h \<Rightarrow> h160 \<Rightarrow> h256 \<Rightarrow> h256"
  set_storage :: "'h \<Rightarrow> h160 \<Rightarrow> h256 \<Rightarrow> h256 \<Rightarrow> 'h"
  get_balance :: "'h \<Rightarrow> h160 \<Rightarrow> h256"
  get_code_size :: "'h \<Rightarrow> h160 \<Rightarrow> nat"
  copy_code :: "'h \<Rightarrow> h160 \<Rightarrow> nat \<Rightarrow> nat \<Rightarrow> bytes"
  selfdestruct :: "'h \<Rightarrow> h160 \<Rightarrow> h160 \<Rightarrow> 'h"
  call_host :: "'h \<Rightarrow> tvmc_message \<Rightarrow> tvmc_result \<times> 'h"
  get_tx_context :: "'h \<Rightarrow> tvmc_tx_context"
  get_block_hash :: "'h \<Rightarrow> int \<Rightarrow> h256"
  emit_log :: "'h \<Rightarrow> h160 \<Rightarrow> bytes \<Rightarrow> h256 list \<Rightarrow> 'h"

definition toTvmC :: "u256 \<Rightarrow> h256" where
  "toTvmC x = toBigEndian256 x"

definition fromTvmC :: "h256 \<Rightarrow> u256" where
  "fromTvmC h = fromBigEndian h"

definition right160 :: "h256 \<Rightarrow> h160" where
  "right160 t = take 20 (drop 12 t)"

definition asAddress :: "u256 \<Rightarrow> h160" where
  "asAddress x = right160 (toBigEndian256 x)"

definition fromAddress :: "h160 \<Rightarrow> u256" where
  "fromAddress a = ucast (fromBigEndian a :: u160)"

section \<open>Definitions: the machine\<close>

datatype vm_exception = BadInstruction | BadJumpDestination | OutOfGas | OutOfStack
  | StackUnderflow | DisallowedStateChange | BufferOverrun | RevertInstruction bytes
  | Undefined

text \<open>The member function that \<^verbatim>\<open>m_bounce\<close> points to.\<close>

datatype bounce = B_null | B_initEntry | B_interpretCases | B_caseCreate | B_caseCall

record 'h vm =
  m_io_gas :: u64
  m_context :: 'h
  m_rev :: tvmc_revision
  m_message :: tvmc_message
  m_tx_context :: "tvmc_tx_context option"
  m_bounce :: bounce
  m_output :: bytes
  m_mem :: bytes
  m_pCode :: bytes
  m_code :: bytes
  m_returnData :: bytes
  m_stack :: "u256 list"
  m_OP :: Instruction
  m_PC :: nat
  m_SP :: nat
  m_SPP :: nat
  m_runGas :: u64
  m_newMemSize :: u64
  m_copyMemSize :: u64
  m_jumpDests :: "nat list"

type_synonym 'h exn = "vm_exception \<times> 'h vm"
type_synonym 'h res = "'h exn + 'h vm"

definition throw :: "vm_exception \<Rightarrow> 'h vm \<Rightarrow> 'h exn + 'a" where
  "throw e v = Inl (e, v)"

subsection \<open>The schedule\<close>

definition stackLimit :: nat where "stackLimit = 1024"

definition tierStepGas :: "Tier \<Rightarrow> u64" where
  "tierStepGas t = (case t of Zero \<Rightarrow> 0 | Base \<Rightarrow> 2 | VeryLow \<Rightarrow> 3 | Low \<Rightarrow> 5 | Mid \<Rightarrow> 8
    | High \<Rightarrow> 10 | Ext \<Rightarrow> 20 | Special \<Rightarrow> 0 | Invalid \<Rightarrow> 0)"

abbreviation (input) stepGas5 :: nat where "stepGas5 \<equiv> 10"
abbreviation (input) stepGas6 :: u64 where "stepGas6 \<equiv> 20"
abbreviation (input) sha3Gas :: u512 where "sha3Gas \<equiv> 30"
abbreviation (input) sha3WordGas :: u512 where "sha3WordGas \<equiv> 6"
abbreviation (input) sstoreSetGas :: u64 where "sstoreSetGas \<equiv> 20000"
abbreviation (input) sstoreResetGas :: u64 where "sstoreResetGas \<equiv> 5000"
abbreviation (input) jumpdestGas :: u64 where "jumpdestGas \<equiv> 1"
abbreviation (input) logGas :: u512 where "logGas \<equiv> 375"
abbreviation (input) logDataGas :: u512 where "logDataGas \<equiv> 8"
abbreviation (input) logTopicGas :: u512 where "logTopicGas \<equiv> 375"
abbreviation (input) createGas :: u64 where "createGas \<equiv> 32000"
abbreviation (input) memoryGas :: u512 where "memoryGas \<equiv> 3"
abbreviation (input) quadCoeffDiv :: u512 where "quadCoeffDiv \<equiv> 512"
abbreviation (input) copyGas :: u64 where "copyGas \<equiv> 3"
abbreviation (input) valueTransferGas :: u64 where "valueTransferGas \<equiv> 9000"
abbreviation (input) callStipend :: int where "callStipend \<equiv> 2300"
abbreviation (input) callNewAccount :: u64 where "callNewAccount \<equiv> 25000"

subsection \<open>Raw accesses\<close>

text \<open>\<open>peek n\<close> reads \<^verbatim>\<open>m_SP[0]\<close> to \<^verbatim>\<open>m_SP[n - 1]\<close>; \<open>setSPP\<close> assigns \<^verbatim>\<open>m_SPP[0]\<close>, \<open>setSP i\<close> \<^verbatim>\<open>m_SP[i]\<close>.\<close>

definition peek :: "nat \<Rightarrow> 'h vm \<Rightarrow> 'h exn + u256 list" where
  "peek n v =
    (if m_SP v + n \<le> length (m_stack v) then Inr (take n (drop (m_SP v) (m_stack v)))
     else throw Undefined v)"

definition setSPP :: "u256 \<Rightarrow> 'h vm \<Rightarrow> 'h res" where
  "setSPP x v =
    (if m_SPP v < length (m_stack v) then Inr (v\<lparr>m_stack := (m_stack v)[m_SPP v := x]\<rparr>)
     else throw Undefined v)"

definition setSP :: "nat \<Rightarrow> u256 \<Rightarrow> 'h vm \<Rightarrow> 'h res" where
  "setSP i x v =
    (if m_SP v + i < length (m_stack v) then Inr (v\<lparr>m_stack := (m_stack v)[m_SP v + i := x]\<rparr>)
     else throw Undefined v)"

definition mem_read :: "nat \<Rightarrow> nat \<Rightarrow> 'h vm \<Rightarrow> 'h exn + bytes" where
  "mem_read off n v =
    (if n = 0 then Inr []
     else if off + n \<le> length (m_mem v) then Inr (take n (drop off (m_mem v)))
     else throw Undefined v)"

definition mem_write :: "nat \<Rightarrow> bytes \<Rightarrow> 'h vm \<Rightarrow> 'h res" where
  "mem_write off bs v =
    (if bs = [] then Inr v
     else if off + length bs \<le> length (m_mem v) then Inr (v\<lparr>m_mem := overwrite (m_mem v) off bs\<rparr>)
     else throw Undefined v)"

definition code_read :: "nat \<Rightarrow> 'h vm \<Rightarrow> 'h exn + byte" where
  "code_read pc v = (if pc < length (m_code v) then Inr (m_code v ! pc) else throw Undefined v)"

text \<open>
  Reads of a buffer that the machine does not own (the input, the code, the return data): a
  \<^verbatim>\<open>memcpy\<close> of \<open>n\<close> bytes and a read of one byte.
\<close>

definition buf_read :: "bytes \<Rightarrow> nat \<Rightarrow> nat \<Rightarrow> 'h vm \<Rightarrow> 'h exn + bytes" where
  "buf_read data off n v =
    (if off + n \<le> length data then Inr (take n (drop off data)) else throw Undefined v)"

definition buf_at :: "bytes \<Rightarrow> nat \<Rightarrow> 'h vm \<Rightarrow> 'h exn + byte" where
  "buf_at data i v = (if i < length data then Inr (data ! i) else throw Undefined v)"

subsection \<open>Metering\<close>

definition toInt63 :: "nat \<Rightarrow> 'h vm \<Rightarrow> 'h exn + u64" where
  "toInt63 x v = (if x > 0x7FFFFFFFFFFFFFFF then throw OutOfGas v else Inr (of_nat x))"

definition memNeed :: "u256 \<Rightarrow> u256 \<Rightarrow> 'h vm \<Rightarrow> 'h exn + u64" where
  "memNeed offset sz v =
    toInt63 (unat (if sz \<noteq> 0 then ucast offset + ucast sz else 0 :: u512)) v"

definition gasForMem :: "u512 \<Rightarrow> 'h vm \<Rightarrow> 'h exn + u64" where
  "gasForMem sz v =
    (let s = sz div 32 in toInt63 (unat (memoryGas * s + s * s div quadCoeffDiv)) v)"

definition updateIOGas :: "'h vm \<Rightarrow> 'h res" where
  "updateIOGas v =
    (if m_io_gas v < m_runGas v then throw OutOfGas v
     else Inr (v\<lparr>m_io_gas := m_io_gas v - m_runGas v\<rparr>))"

definition updateGas :: "'h vm \<Rightarrow> 'h res" where
  "updateGas v =
    bindE (if m_newMemSize v > of_nat (length (m_mem v))
           then bindE (gasForMem (ucast (m_newMemSize v)) v) (\<lambda>a.
                bindE (gasForMem (of_nat (length (m_mem v))) v) (\<lambda>b.
                bindE (toInt63 (unat (a - b)) v) (\<lambda>g.
                Inr (v\<lparr>m_runGas := m_runGas v + g\<rparr>))))
           else Inr v) (\<lambda>v.
    let v = v\<lparr>m_runGas := m_runGas v + copyGas * ((m_copyMemSize v + 31) div 32)\<rparr> in
    if m_io_gas v < m_runGas v then throw OutOfGas v else Inr v)"

definition updateMem :: "u64 \<Rightarrow> 'h vm \<Rightarrow> 'h res" where
  "updateMem newMem v =
    (let v = v\<lparr>m_newMemSize := (newMem + 31) div 32 * 32\<rparr> in
     bindE (updateGas v) (\<lambda>v.
     Inr (if m_newMemSize v > of_nat (length (m_mem v))
          then v\<lparr>m_mem := m_mem v @ replicate (unat (m_newMemSize v) - length (m_mem v)) 0\<rparr>
          else v)))"

definition logGasMem :: "'h vm \<Rightarrow> 'h res" where
  "logGasMem v =
    (let n = nat (m_OP v - I_LOG0) in
     bindE (peek 2 v) (\<lambda>s.
     bindE (toInt63 (unat (logGas + logTopicGas * of_nat n + logDataGas * ucast (s ! 1))) v) (\<lambda>g.
     let v = v\<lparr>m_runGas := g\<rparr> in
     bindE (memNeed (s ! 0) (s ! 1) v) (\<lambda>need.
     updateMem need v))))"

definition updateSSGas :: "'h tvmc_fn_table \<Rightarrow> 'h vm \<Rightarrow> 'h res" where
  "updateSSGas H v =
    bindE (peek 2 v) (\<lambda>s.
    let value = fromTvmC (get_storage H (m_context v) (msg_destination (m_message v)) (toTvmC (s ! 0)))
    in Inr (v\<lparr>m_runGas := (if value = 0 \<and> s ! 1 \<noteq> 0 then sstoreSetGas else sstoreResetGas)\<rparr>))"

subsection \<open>Stack adjustment and fetch\<close>

definition throwBadStack :: "nat \<Rightarrow> nat \<Rightarrow> int \<Rightarrow> 'h vm \<Rightarrow> 'h res" where
  "throwBadStack removed added SPP v =
    (let sz = int stackLimit - SPP in
     if sz < int removed then throw StackUnderflow v else throw OutOfStack v)"

definition adjustStack :: "nat \<Rightarrow> nat \<Rightarrow> 'h vm \<Rightarrow> 'h res" where
  "adjustStack removed added v =
    (let v = v\<lparr>m_SP := m_SPP v\<rparr>;
         SPP = m_SPP v + removed in
     if stackLimit < SPP then throwBadStack removed added (int SPP) v
     else if int SPP - int added < 0 then throwBadStack removed added (int SPP - int added) v
     else Inr (v\<lparr>m_SPP := SPP - added\<rparr>))"

definition fetchInstruction :: "'h vm \<Rightarrow> 'h res" where
  "fetchInstruction v =
    bindE (code_read (m_PC v) v) (\<lambda>b.
    let v = v\<lparr>m_OP := uint b\<rparr>;
        mt = c_metrics ! nat (uint b) in
    bindE (adjustStack (args mt) (ret mt) v) (\<lambda>v.
    Inr (v\<lparr>m_runGas := tierStepGas (gasPriceTier mt),
           m_newMemSize := of_nat (length (m_mem v)),
           m_copyMemSize := 0\<rparr>)))"

definition getTxContext :: "'h tvmc_fn_table \<Rightarrow> 'h vm \<Rightarrow> tvmc_tx_context \<times> 'h vm" where
  "getTxContext H v =
    (case m_tx_context v of
      Some tx \<Rightarrow> (tx, v)
    | None \<Rightarrow> (let tx = get_tx_context H (m_context v) in (tx, v\<lparr>m_tx_context := Some tx\<rparr>)))"

subsection \<open>Control flow of the cases\<close>

text \<open>
  What follows a case of \<^verbatim>\<open>interpretCases\<close>: the macros of \<^verbatim>\<open>VMConfig.h\<close>.  \<open>Fetch\<close>: fetch the
  instruction at \<^verbatim>\<open>m_PC\<close> and go to its case; \<open>Leave\<close>: return to the trampoline.
\<close>

datatype flow = Fetch | Leave

type_synonym 'h outcome = "'h exn + flow \<times> 'h vm"
type_synonym 'h case_block = "'h vm \<Rightarrow> 'h outcome"

definition NEXT :: "'h case_block" where
  "NEXT v = Inr (Fetch, v\<lparr>m_PC := m_PC v + 1\<rparr>)"

definition CONTINUE :: "'h case_block" where
  "CONTINUE v = Inr (Fetch, v)"

definition BREAK :: "'h case_block" where
  "BREAK v = Inr (Leave, v)"

section \<open>Lemmas: metering\<close>

text \<open>The price of \<open>n\<close> bytes of memory, and a size rounded up to whole words.\<close>

definition mem_cost :: "nat \<Rightarrow> nat" where
  "mem_cost n = (let s = n div 32 in 3 * s + s * s div 512)"

definition mem_round :: "nat \<Rightarrow> nat" where
  "mem_round n = (n + 31) div 32 * 32"

definition copy_cost :: "nat \<Rightarrow> nat" where
  "copy_cost n = 3 * ((n + 31) div 32)"

lemma mem_cost_mono: "m \<le> n \<Longrightarrow> mem_cost m \<le> mem_cost n"
  unfolding mem_cost_def Let_def by (intro add_mono mult_le_mono div_le_mono) auto

lemma mem_round_bounds: "n \<le> mem_round n" "mem_round n < n + 32" "32 dvd mem_round n"
  unfolding mem_round_def by presburger+

lemma toInt63_cases:
  obtains "x < 2 ^ 63" "toInt63 x v = Inr (of_nat x)" "unat (of_nat x :: u64) = x"
  | "2 ^ 63 \<le> x" "toInt63 x v = Inl (OutOfGas, v)"
  by (cases "x < 2 ^ 63") (auto simp: toInt63_def throw_def unat_of_nat)

lemma memNeed_cases:
  obtains need where "memNeed off sz v = Inr need" "unat need < 2 ^ 63"
    "unat need = (if sz = 0 then 0 else unat off + unat sz)"
  | "memNeed off sz v = Inl (OutOfGas, v)"
proof -
  let ?n = "if sz = 0 then 0 else unat off + unat sz"
  have b: "unat off < 2 ^ 256" "unat sz < 2 ^ 256"
    using unsigned_less [of off, where ?'a = nat] unsigned_less [of sz, where ?'a = nat] by simp_all
  then have c: "unat (ucast off :: u512) = unat off" "unat (ucast sz :: u512) = unat sz"
    by (simp_all add: unsigned_ucast_eq take_bit_nat_eq_self)
  have "unat (ucast off + ucast sz :: u512) = unat off + unat sz"
    using b by (subst unat_add_small) (auto simp: c)
  then have "memNeed off sz v = toInt63 ?n v"
    by (simp add: memNeed_def)
  then show ?thesis
    using that by (rule_tac toInt63_cases [where x = ?n and v = v]) auto
qed

lemma gasForMem_eq:
  assumes "unat sz < 2 ^ 64"
  shows "gasForMem sz v = toInt63 (mem_cost (unat sz)) v"
proof -
  let ?s = "sz div 32" and ?m = "unat sz div 32"
  have s: "unat ?s = ?m"
    by (simp add: unat_div)
  have m: "?m < 2 ^ 59"
    using assms by (simp add: div_less_iff_less_mult)
  then have mm: "?m * ?m < 2 ^ 118"
    using mult_strict_mono' [OF m m] by simp
  then have ss: "unat (?s * ?s) = ?m * ?m"
    by (subst unat_mult_small) (auto simp: s)
  have "unat (3 * ?s) = 3 * ?m"
    using m by (subst unat_mult_small) (auto simp: s)
  moreover have "?m * ?m div 512 < 2 ^ 118"
    using mm by (rule le_less_trans [OF div_le_dividend])
  ultimately have "unat (3 * ?s + ?s * ?s div 512) = 3 * ?m + ?m * ?m div 512"
    using m by (subst unat_add_small) (auto simp: unat_div ss)
  then show ?thesis
    by (simp add: gasForMem_def mem_cost_def Let_def)
qed

lemma u64_round: "unat n < 2 ^ 64 - 31 \<Longrightarrow> unat ((n + 31) div 32 * 32 :: u64) = mem_round (unat n)"
proof -
  assume n: "unat n < 2 ^ 64 - 31"
  then have a: "unat (n + 31) = unat n + 31"
    by (subst unat_add_small) auto
  have "(unat n + 31) div 32 * 32 \<le> unat n + 31"
    by (rule div_times_less_eq_dividend)
  then show ?thesis
    using n by (subst unat_mult_small) (auto simp: unat_div a mem_round_def)
qed

lemma u64_copy: "unat n < 2 ^ 63 \<Longrightarrow> unat (3 * ((n + 31) div 32) :: u64) = copy_cost (unat n)"
proof -
  assume n: "unat n < 2 ^ 63"
  then have a: "unat (n + 31) = unat n + 31"
    by (subst unat_add_small) auto
  have "(unat n + 31) div 32 \<le> (2 ^ 63 + 31) div 32"
    using n by (intro div_le_mono) simp
  then have "3 * ((unat n + 31) div 32) < 2 ^ 64"
    by simp
  then show ?thesis
    by (subst unat_mult_small) (auto simp: unat_div a copy_cost_def)
qed

text \<open>The price of growing the memory from \<open>old\<close> to \<open>n\<close> bytes.\<close>

definition expansion_cost :: "nat \<Rightarrow> nat \<Rightarrow> nat" where
  "expansion_cost old n = mem_cost (max n old) - mem_cost old"

lemma expansion_gas:
  assumes "old < n" and "n < 2 ^ 64" and "unat w = n"
  shows "bindE (gasForMem w v) (\<lambda>a. bindE (gasForMem (of_nat old) v) (\<lambda>b.
      bindE (toInt63 (unat (a - b)) v) f))
    = (if mem_cost n < 2 ^ 63 then f (of_nat (expansion_cost old n)) else Inl (OutOfGas, v))"
proof -
  have c: "unat (of_nat old :: u512) = old"
    using assms by (auto simp: unat_of_nat)
  have le: "mem_cost old \<le> mem_cost n"
    using assms by (intro mem_cost_mono) simp
  have ec: "expansion_cost old n = mem_cost n - mem_cost old"
    using assms(1) by (simp add: expansion_cost_def)
  have G: "gasForMem w v = toInt63 (mem_cost n) v" "gasForMem (of_nat old) v = toInt63 (mem_cost old) v"
    using assms gasForMem_eq [of w v] gasForMem_eq [of "of_nat old" v] by (simp_all add: c)
  have T: "x < 2 ^ 63 \<Longrightarrow> toInt63 x v = Inr (of_nat x)" for x
    by (simp add: toInt63_def)
  show ?thesis
  proof (cases "mem_cost n < 2 ^ 63")
    case True
    then have "unat (of_nat (mem_cost n) - of_nat (mem_cost old) :: u64) = expansion_cost old n"
      using le by (simp add: unat_sub_if_size unat_of_nat word_size ec)
    with True le show ?thesis
      by (simp add: G T ec)
  qed (simp add: G toInt63_def throw_def)
qed

text \<open>
  What the metering functions do, given that the gas accumulated so far leaves room: the total
  is the accumulated gas, the price difference of the memory and the price of the copied words,
  and they throw \<open>OutOfGas\<close> when it is not affordable.
\<close>

definition total_gas :: "nat \<Rightarrow> 'h vm \<Rightarrow> nat" where
  "total_gas n v = unat (m_runGas v) + expansion_cost (length (m_mem v)) n + copy_cost (unat (m_copyMemSize v))"

definition affordable :: "nat \<Rightarrow> 'h vm \<Rightarrow> bool" where
  "affordable n v \<longleftrightarrow> (length (m_mem v) < n \<longrightarrow> mem_cost n < 2 ^ 63) \<and> total_gas n v \<le> unat (m_io_gas v)"

lemma updateGas_eq:
  assumes mem: "length (m_mem v) < 2 ^ 64"
    and copy: "unat (m_copyMemSize v) < 2 ^ 63"
    and run: "unat (m_runGas v) + copy_cost (unat (m_copyMemSize v)) \<le> 2 ^ 63"
  defines "n \<equiv> unat (m_newMemSize v)"
  shows "updateGas v =
    (if affordable n v then Inr (v\<lparr>m_runGas := of_nat (total_gas n v)\<rparr>)
     else Inl (OutOfGas, if length (m_mem v) < n \<and> \<not> mem_cost n < 2 ^ 63 then v
       else v\<lparr>m_runGas := of_nat (total_gas n v)\<rparr>))"
proof -
  let ?old = "length (m_mem v)"
  let ?d = "expansion_cost ?old n"
  have nb: "n < 2 ^ 64"
    using unsigned_less [of "m_newMemSize v", where ?'a = nat] by (simp add: n_def)
  have gt: "of_nat ?old < m_newMemSize v \<longleftrightarrow> ?old < n"
    using mem by (simp add: word_less_nat_alt unat_of_nat n_def)
  have uc: "unat (ucast (m_newMemSize v) :: u512) = n"
    using nb by (simp add: unsigned_ucast_eq take_bit_nat_eq_self n_def)
  have d: "?old < n \<Longrightarrow> ?d \<le> mem_cost n" "\<not> ?old < n \<Longrightarrow> ?d = 0"
    by (auto simp: expansion_cost_def max_def)
  have upd: "updateGas v =
    (if ?old < n \<and> \<not> mem_cost n < 2 ^ 63 then Inl (OutOfGas, v)
     else let w = v\<lparr>m_runGas := m_runGas v + of_nat ?d + copyGas * ((m_copyMemSize v + 31) div 32)\<rparr> in
       if m_io_gas w < m_runGas w then Inl (OutOfGas, w) else Inr w)"
    unfolding updateGas_def gt
    using d by (cases "?old < n") (simp_all add: expansion_gas [OF _ nb uc] Let_def throw_def)
  show ?thesis
  proof (cases "?old < n \<and> \<not> mem_cost n < 2 ^ 63")
    case True
    then show ?thesis
      using upd by (simp add: affordable_def)
  next
    case False
    then have d63: "?d < 2 ^ 63"
      using d by (cases "?old < n") auto
    then have g: "total_gas n v < 2 ^ 64"
      using run by (simp add: total_gas_def)
    then have u: "unat (m_runGas v + of_nat ?d + copyGas * ((m_copyMemSize v + 31) div 32)) = total_gas n v"
      using u64_copy [OF copy] d63 by (simp add: unat_add_small unat_of_nat total_gas_def)
    then have e: "m_runGas v + of_nat ?d + copyGas * ((m_copyMemSize v + 31) div 32) = of_nat (total_gas n v)"
      by (rule of_nat_unat_eq)
    have "m_io_gas v < of_nat (total_gas n v) \<longleftrightarrow> \<not> affordable n v"
      using u False unfolding e by (auto simp: word_less_nat_alt affordable_def)
    moreover have "updateGas v = (if m_io_gas v < of_nat (total_gas n v)
        then Inl (OutOfGas, v\<lparr>m_runGas := of_nat (total_gas n v)\<rparr>)
        else Inr (v\<lparr>m_runGas := of_nat (total_gas n v)\<rparr>))"
      using False unfolding upd e by (auto simp: Let_def)
    ultimately show ?thesis
      using False by (simp only: if_False) simp
  qed
qed

text \<open>\<open>updateMem\<close> rounds the request up to words and appends zeros.\<close>

lemma updateMem_eq:
  assumes mem: "length (m_mem v) < 2 ^ 64" and new: "unat newMem < 2 ^ 64 - 31"
    and copy: "unat (m_copyMemSize v) < 2 ^ 63"
    and run: "unat (m_runGas v) + copy_cost (unat (m_copyMemSize v)) \<le> 2 ^ 63"
  defines "n \<equiv> mem_round (unat newMem)"
  shows "\<exists>v'. m_io_gas v' = m_io_gas v \<and> m_context v' = m_context v \<and> updateMem newMem v =
    (if affordable n v
     then Inr (v\<lparr>m_newMemSize := of_nat n, m_runGas := of_nat (total_gas n v),
       m_mem := m_mem v @ replicate (n - length (m_mem v)) 0\<rparr>)
     else Inl (OutOfGas, v'))"
proof -
  let ?w = "(newMem + 31) div 32 * 32 :: u64"
  let ?v = "v\<lparr>m_newMemSize := ?w\<rparr>"
  have w: "unat ?w = n"
    using new unfolding n_def by (rule u64_round)
  then have wn: "?w = of_nat n"
    by (rule of_nat_unat_eq)
  have gt: "of_nat (length (m_mem v)) < ?w \<longleftrightarrow> length (m_mem v) < n"
    using mem by (simp add: word_less_nat_alt unat_of_nat w)
  have a: "total_gas n ?v = total_gas n v" "affordable n ?v = affordable n v"
    by (simp_all add: affordable_def total_gas_def)
  have "length (m_mem ?v) < 2 ^ 64" "unat (m_copyMemSize ?v) < 2 ^ 63"
    "unat (m_runGas ?v) + copy_cost (unat (m_copyMemSize ?v)) \<le> 2 ^ 63"
    using mem copy run by simp_all
  then have u: "updateGas ?v = (if affordable n v then Inr (?v\<lparr>m_runGas := of_nat (total_gas n v)\<rparr>)
     else Inl (OutOfGas, if length (m_mem v) < n \<and> \<not> mem_cost n < 2 ^ 63 then ?v
       else ?v\<lparr>m_runGas := of_nat (total_gas n v)\<rparr>))"
    by (subst updateGas_eq) (simp_all add: w a)
  show ?thesis
  proof (cases "affordable n v")
    case True
    then have "updateMem newMem v = Inr (v\<lparr>m_newMemSize := ?w, m_runGas := of_nat (total_gas n v),
        m_mem := m_mem v @ replicate (n - length (m_mem v)) 0\<rparr>)"
      using u gt by (simp add: updateMem_def w)
    then show ?thesis
      using True by (intro exI [of _ v]) (simp add: wn)
  next
    case False
    then show ?thesis
      using u by (intro exI [of _ "if length (m_mem v) < n \<and> \<not> mem_cost n < 2 ^ 63 then ?v
        else ?v\<lparr>m_runGas := of_nat (total_gas n v)\<rparr>"]) (simp add: updateMem_def)
  qed
qed

lemma updateMem_cases:
  assumes mem: "length (m_mem v) < 2 ^ 64" and new: "unat newMem < 2 ^ 64 - 31"
    and copy: "unat (m_copyMemSize v) < 2 ^ 63"
    and run: "unat (m_runGas v) + copy_cost (unat (m_copyMemSize v)) \<le> 2 ^ 63"
  obtains v' where "updateMem newMem v = Inl (OutOfGas, v')" "m_io_gas v' = m_io_gas v"
      "m_context v' = m_context v"
  | n g where "n = mem_round (unat newMem)"
      "g = unat (m_runGas v) + expansion_cost (length (m_mem v)) n + copy_cost (unat (m_copyMemSize v))"
      "g < 2 ^ 64" "of_nat g \<le> m_io_gas v" "n < 2 ^ 64"
      "updateMem newMem v = Inr (v\<lparr>m_newMemSize := of_nat n, m_runGas := of_nat g,
         m_mem := m_mem v @ replicate (n - length (m_mem v)) 0\<rparr>)"
proof -
  let ?n = "mem_round (unat newMem)"
  have "?n < 2 ^ 64"
    using u64_round [OF new] unsigned_less [of "(newMem + 31) div 32 * 32", where ?'a = nat] by simp
  moreover have "total_gas ?n v < 2 ^ 64 \<and> of_nat (total_gas ?n v) \<le> m_io_gas v" if "affordable ?n v"
  proof -
    have "total_gas ?n v < 2 ^ 64"
      using that unsigned_less [of "m_io_gas v", where ?'a = nat] unfolding affordable_def
      by (intro le_less_trans [of "total_gas ?n v" "unat (m_io_gas v)"]) simp_all
    then show ?thesis
      using that by (simp add: word_le_nat_alt unat_of_nat_small affordable_def)
  qed
  ultimately show ?thesis
    using updateMem_eq [OF assms] that unfolding total_gas_def by (cases "affordable ?n v") auto
qed

end
