(* ===== verification/VMArith.thy ===== *)
theory VMArith
  imports CommonData "HOL-Library.Signed_Division"
begin

text \<open>
  The values that the arithmetic, comparison and bit instructions compute: the right-hand
  sides of the assignments to \<^verbatim>\<open>m_SPP[0]\<close> in \<^verbatim>\<open>src/contract/libtvm/VM.cpp\<close>, the exponentiation
  of \<^verbatim>\<open>VMOpt.cpp\<close> and \<^verbatim>\<open>FixedHash::firstBitSet\<close>.  Signed 256- and 512-bit integers of the
  multiprecision library are signed-magnitude numbers, so they are \<open>int\<close> here, and their
  division truncates towards zero.
\<close>

unbundle bit_operations_syntax

section \<open>Definitions\<close>

definition divWorkaround :: "int \<Rightarrow> int \<Rightarrow> int" where
  "divWorkaround a b = a sdiv b"

definition modWorkaround :: "int \<Rightarrow> int \<Rightarrow> int" where
  "modWorkaround a b = a smod b"

definition val_DIV :: "u256 \<Rightarrow> u256 \<Rightarrow> u256" where
  "val_DIV a b = (if b \<noteq> 0 then of_int (divWorkaround (uint a) (uint b)) else 0)"

definition val_SDIV :: "u256 \<Rightarrow> u256 \<Rightarrow> u256" where
  "val_SDIV a b = (if b \<noteq> 0 then s2u (divWorkaround (u2s a) (u2s b)) else 0)"

definition val_MOD :: "u256 \<Rightarrow> u256 \<Rightarrow> u256" where
  "val_MOD a b = (if b \<noteq> 0 then of_int (modWorkaround (uint a) (uint b)) else 0)"

definition val_SMOD :: "u256 \<Rightarrow> u256 \<Rightarrow> u256" where
  "val_SMOD a b = (if b \<noteq> 0 then s2u (modWorkaround (u2s a) (u2s b)) else 0)"

definition val_ADDMOD :: "u256 \<Rightarrow> u256 \<Rightarrow> u256 \<Rightarrow> u256" where
  "val_ADDMOD a b n = (if n \<noteq> 0 then ucast (((ucast a :: u512) + ucast b) mod ucast n) else 0)"

definition val_MULMOD :: "u256 \<Rightarrow> u256 \<Rightarrow> u256 \<Rightarrow> u256" where
  "val_MULMOD a b n = (if n \<noteq> 0 then ucast (((ucast a :: u512) * ucast b) mod ucast n) else 0)"

definition val_BYTE :: "u256 \<Rightarrow> u256 \<Rightarrow> u256" where
  "val_BYTE i x = (if i < 32 then drop_bit (unat (8 * (31 - i))) x AND 0xff else 0)"

definition val_SHL :: "u256 \<Rightarrow> u256 \<Rightarrow> u256" where
  "val_SHL n x = (if n \<ge> 256 then 0 else push_bit (unat n) x)"

definition val_SHR :: "u256 \<Rightarrow> u256 \<Rightarrow> u256" where
  "val_SHR n x = (if n \<ge> 256 then 0 else drop_bit (unat n) x)"

definition val_SAR :: "u256 \<Rightarrow> u256 \<Rightarrow> u256" where
  "val_SAR n shiftee =
    (let hibit = push_bit 255 (1 :: u256); allbits = - 1 in
     if n \<ge> 256 then (if shiftee AND hibit \<noteq> 0 then allbits else 0)
     else (let amount = unat n; r = drop_bit amount shiftee in
       if shiftee AND hibit \<noteq> 0 then r OR push_bit (256 - amount) allbits else r))"

definition val_SIGNEXTEND :: "u256 \<Rightarrow> u256 \<Rightarrow> u256" where
  "val_SIGNEXTEND k number =
    (if k < 31
     then (let testBit = unat k * 8 + 7; mask = push_bit testBit 1 - 1 in
           if bit number testBit then number OR NOT mask else number AND mask)
     else number)"

text \<open>\<^verbatim>\<open>VM::exp256\<close>: square and multiply.\<close>

function exp256_loop :: "u256 \<Rightarrow> u256 \<Rightarrow> u256 \<Rightarrow> u256" where
  "exp256_loop result base exponent =
    (if exponent \<noteq> 0
     then exp256_loop (if exponent AND 1 \<noteq> 0 then result * base else result) (base * base)
       (drop_bit 1 exponent)
     else result)"
  by pat_completeness auto
termination
  by (relation "measure (\<lambda>(r, b, e). unat e)") (auto simp: drop_bit_eq_div unat_div unat_gt_0)

declare exp256_loop.simps [simp del]

definition exp256 :: "u256 \<Rightarrow> u256 \<Rightarrow> u256" where
  "exp256 base exponent = exp256_loop 1 base exponent"

text \<open>
  \<^verbatim>\<open>FixedHash::firstBitSet\<close>: the index of the first set bit, or the number of bits.  The inner
  loop runs only on a non-zero byte, so eight rounds find its top bit.
\<close>

fun firstBit_loop :: "nat \<Rightarrow> byte \<Rightarrow> nat \<Rightarrow> nat" where
  "firstBit_loop 0 d r = r"
| "firstBit_loop (Suc k) d r =
    (if d AND 0x80 \<noteq> 0 then r else firstBit_loop k (push_bit 1 d) (r + 1))"

fun firstBitSet_loop :: "bytes \<Rightarrow> nat \<Rightarrow> nat" where
  "firstBitSet_loop [] r = r"
| "firstBitSet_loop (d # ds) r =
    (if d \<noteq> 0 then firstBit_loop 8 d r else firstBitSet_loop ds (r + 8))"

definition firstBitSet :: "bytes \<Rightarrow> nat" where
  "firstBitSet bs = firstBitSet_loop bs 0"

section \<open>Lemmas\<close>

lemma exp256_loop_eq: "exp256_loop r b e = r * b ^ unat e"
proof (induction r b e rule: exp256_loop.induct)
  case (1 r b e)
  show ?case
  proof (cases "e = 0")
    case True
    then show ?thesis
      by (simp add: exp256_loop.simps)
  next
    case False
    let ?h = "unat e div 2"
    have h: "unat (drop_bit (Suc 0) e) = ?h"
      by (simp add: drop_bit_eq_div unat_div)
    have "odd e = odd (unat e)"
      using bit_unsigned_iff [where ?'a = nat, of e 0] by (simp add: bit_0)
    then have odd: "e AND 1 \<noteq> 0 \<longleftrightarrow> odd (unat e)"
      by (simp add: and_one_eq mod_2_eq_odd)
    have "exp256_loop r b e = (if odd (unat e) then r * b else r) * (b * b) ^ ?h"
      using 1 [OF False] False by (subst exp256_loop.simps) (simp add: h odd)
    also have "\<dots> = r * b ^ (2 * ?h + (if odd (unat e) then 1 else 0))"
      by (simp add: power_add power_mult power2_eq_square ac_simps)
    also have "2 * ?h + (if odd (unat e) then 1 else 0) = unat e"
      by (simp add: odd_two_times_div_two_succ even_two_times_div_two)
    finally show ?thesis .
  qed
qed

lemma unat_less_256: "unat (a :: u256) < 2 ^ 256"
  using unsigned_less [of a, where ?'a = nat] by simp

lemma unat_ucast_512: "unat (ucast (a :: u256) :: u512) = unat a"
proof -
  have "unat a < 2 ^ 512"
    using unat_less_256 [of a] by simp
  then show ?thesis
    by (simp add: unsigned_ucast_eq take_bit_nat_eq_self)
qed

lemma unat_ucast_down: "unat (x :: u512) < 2 ^ 256 \<Longrightarrow> unat (ucast x :: u256) = unat x"
  by (simp add: unsigned_ucast_eq take_bit_nat_eq_self)

lemma unat_ADDMOD: "unat (val_ADDMOD a b n) = (if n = 0 then 0 else (unat a + unat b) mod unat n)"
proof -
  have "unat a + unat b < 2 ^ 512"
    using unat_less_256 [of a] unat_less_256 [of b] by simp
  then have s: "unat ((ucast a :: u512) + ucast b) = unat a + unat b"
    by (simp add: unat_word_ariths unat_ucast_512)
  show ?thesis
  proof (cases "n = 0")
    case False
    then have "(unat a + unat b) mod unat n < 2 ^ 256"
      using unat_less_256 [of n] by (intro less_trans [OF mod_less_divisor]) (auto simp: unat_gt_0)
    then show ?thesis
      using False by (simp add: val_ADDMOD_def unat_ucast_down unat_mod s unat_ucast_512)
  qed (simp add: val_ADDMOD_def)
qed

lemma unat_MULMOD: "unat (val_MULMOD a b n) = (if n = 0 then 0 else (unat a * unat b) mod unat n)"
proof -
  have "unat a * unat b < 2 ^ 256 * 2 ^ 256"
    using unat_less_256 [of a] unat_less_256 [of b] by (intro mult_strict_mono') auto
  then have s: "unat ((ucast a :: u512) * ucast b) = unat a * unat b"
    by (simp add: unat_word_ariths unat_ucast_512)
  show ?thesis
  proof (cases "n = 0")
    case False
    then have "(unat a * unat b) mod unat n < 2 ^ 256"
      using unat_less_256 [of n] by (intro less_trans [OF mod_less_divisor]) (auto simp: unat_gt_0)
    then show ?thesis
      using False by (simp add: val_MULMOD_def unat_ucast_down unat_mod s unat_ucast_512)
  qed (simp add: val_MULMOD_def)
qed

lemma hibit_test: "(x AND push_bit 255 1 = (0 :: u256)) = (\<not> bit x 255)"
proof -
  have hb: "bit (push_bit 255 (1 :: u256)) n \<longleftrightarrow> n = 255" for n
    by (auto simp only: bit_push_bit_iff bit_1_iff possible_bit_word) simp
  show ?thesis
  proof
    assume "x AND push_bit 255 1 = 0"
    then have "\<not> bit (x AND push_bit 255 1) 255"
      by (simp only: bit_0_eq bot_apply bot_bool_def simp_thms)
    then show "\<not> bit x 255"
      by (simp only: bit_and_iff hb simp_thms)
  next
    assume "\<not> bit x 255"
    then show "x AND push_bit 255 1 = 0"
      by (intro bit_eqI) (auto simp only: bit_and_iff hb bit_0_eq bot_apply bot_bool_def)
  qed
qed

lemma val_SAR_eq: "val_SAR n x = signed_drop_bit (unat n) x"
proof (rule bit_word_eqI)
  fix k
  assume k: "k < LENGTH(256)"
  have n: "(n \<ge> 256) = (unat n \<ge> 256)"
    by (simp add: word_le_nat_alt)
  show "bit (val_SAR n x) k = bit (signed_drop_bit (unat n) x) k"
    using k
    by (auto simp: val_SAR_def Let_def hibit_test [simplified] n bit_signed_drop_bit_iff bit_simps
        dest: bit_imp_le_length)
qed

lemma val_SIGNEXTEND_eq:
  "val_SIGNEXTEND k x = (if k < 31 then signed_take_bit (unat k * 8 + 7) x else x)"
proof (cases "k < 31")
  case True
  let ?t = "unat k * 8 + 7"
  have "unat k < 31"
    using True by (simp add: word_less_nat_alt)
  then have t: "?t < 256"
    by simp
  show ?thesis
    using True t
    by (intro bit_word_eqI) (auto simp: val_SIGNEXTEND_def Let_def bit_signed_take_bit_iff bit_simps min_def simp flip: mask_eq_exp_minus_1)
qed (simp add: val_SIGNEXTEND_def)

lemma val_SDIV_eq: "val_SDIV a b = (if b = 0 then 0 else word_of_int (sint a sdiv sint b))"
  by (simp add: val_SDIV_def divWorkaround_def u2s_eq_sint s2u_eq)

lemma val_SMOD_eq: "val_SMOD a b = (if b = 0 then 0 else word_of_int (sint a smod sint b))"
  by (simp add: val_SMOD_def modWorkaround_def u2s_eq_sint s2u_eq)

lemma val_DIV_eq: "val_DIV a b = a div b"
  by (simp add: val_DIV_def divWorkaround_def word_div_def signed_divide_int_def)

lemma val_MOD_eq: "val_MOD a b = (if b = 0 then 0 else a mod b)"
  by (simp add: val_MOD_def modWorkaround_def word_mod_def signed_modulo_int_def signed_divide_int_def)

lemma sdiv_smod_word:
  assumes "b \<noteq> 0" shows "val_SDIV a b * b + val_SMOD a b = a"
proof -
  let ?q = "sint a sdiv sint b" and ?r = "sint a smod sint b"
  have "val_SDIV a b * b + val_SMOD a b = word_of_int (?q * sint b + ?r)"
    using assms by (simp add: val_SDIV_eq val_SMOD_eq)
  also have "?q * sint b + ?r = sint a"
    by (rule sdiv_mult_smod_eq)
  finally show ?thesis
    by simp
qed

lemma sint_bounds_256: "- (2 ^ 255) \<le> sint (a :: u256)" "sint (a :: u256) < 2 ^ 255"
  using sint_greater_eq [of a] sint_less [of a] by simp_all

lemma sint_word_of_int_256:
  "- (2 ^ 255) \<le> i \<Longrightarrow> i < 2 ^ 255 \<Longrightarrow> sint (word_of_int i :: u256) = i"
  by (simp add: sint_sbintrunc' signed_take_bit_int_eq_self)

lemma abs_sdiv_le: "\<bar>a sdiv b\<bar> \<le> \<bar>a :: int\<bar>"
  using sdiv_int_range [of a b] by auto

lemma sint_SDIV:
  assumes "b \<noteq> 0" and "\<not> (sint a = - (2 ^ 255) \<and> sint b = - 1)"
  shows "sint (val_SDIV a b) = sint a sdiv sint b"
proof -
  let ?q = "sint a sdiv sint b"
  have q: "\<bar>?q\<bar> \<le> \<bar>sint a\<bar>"
    by (rule abs_sdiv_le)
  have "?q \<noteq> 2 ^ 255"
  proof
    assume e: "?q = 2 ^ 255"
    then have a: "sint a = - (2 ^ 255)"
      using q sint_bounds_256 [of a] by auto
    have b0: "sint b \<noteq> 0"
      using assms(1) by (simp add: signed_eq_0_iff)
    have "sgn (sint a) * sgn (sint b) * (2 ^ 255 div \<bar>sint b\<bar>) = 2 ^ 255"
      using e a by (simp add: signed_divide_int_def)
    then have "sgn (sint b) = - 1" "(2 ^ 255 :: int) div \<bar>sint b\<bar> = 2 ^ 255"
      using a b0 pos_imp_zdiv_nonneg_iff [of "\<bar>sint b\<bar>" "2 ^ 255"]
      by (auto simp: sgn_if split: if_splits)
    moreover have "\<bar>sint b\<bar> \<ge> 2 \<Longrightarrow> (2 ^ 255 :: int) div \<bar>sint b\<bar> \<le> 2 ^ 255 div 2"
      by (intro zdiv_mono2) auto
    ultimately have "\<not> 2 \<le> \<bar>sint b\<bar>" and "sint b < 0"
      using b0 by (auto simp: sgn_if split: if_splits)
    then have "sint b = - 1"
      by linarith
    with a assms(2) show False
      by simp
  qed
  then have "- (2 ^ 255) \<le> ?q" "?q < 2 ^ 255"
    using q sint_bounds_256 [of a] by auto
  then show ?thesis
    using assms(1) by (simp only: val_SDIV_eq if_False sint_word_of_int_256)
qed

lemma firstBit_loop_bounds:
  "8 - k \<le> j \<Longrightarrow> j < 8 \<Longrightarrow> bit (d :: byte) j \<Longrightarrow> k \<le> 8 \<Longrightarrow>
    r \<le> firstBit_loop k d r \<and> firstBit_loop k d r < r + k"
proof (induction k arbitrary: d j r)
  case (Suc k)
  have m: "d AND 0x80 \<noteq> 0 \<longleftrightarrow> bit d 7"
  proof -
    have p: "(0x80 :: byte) = push_bit 7 1"
      by simp
    have "bit (push_bit 7 (1 :: byte)) n \<longleftrightarrow> n = 7" for n
      by (auto simp only: bit_push_bit_iff bit_1_iff possible_bit_word) simp
    then have "d AND push_bit 7 1 = (if bit d 7 then push_bit 7 1 else 0)"
      by (intro bit_eqI) (auto simp only: bit_and_iff if_True if_False bit_0_eq bot_apply bot_bool_def split: if_split)
    then show ?thesis
      unfolding p by simp
  qed
  show ?case
  proof (cases "bit d 7")
    case False
    then have j: "j < 7"
      using Suc(3,4) by (cases "j = 7") auto
    then have "bit (push_bit 1 d) (j + 1)"
      using Suc(4) by (simp only: bit_push_bit_iff possible_bit_word) simp
    then have "r + 1 \<le> firstBit_loop k (push_bit 1 d) (r + 1) \<and> firstBit_loop k (push_bit 1 d) (r + 1) < r + 1 + k"
      using Suc(2,5) j by (intro Suc(1)) auto
    then show ?thesis
      using False m by simp
  qed (use m in auto)
qed simp

lemma firstBitSet_loop_eq:
  "firstBitSet_loop bs r div 8 = r div 8 + length (takeWhile (\<lambda>b. b = 0) bs)" if "8 dvd r"
  using that
proof (induction bs arbitrary: r)
  case (Cons d ds)
  show ?case
  proof (cases "d = 0")
    case True
    then show ?thesis
      using Cons by simp
  next
    case False
    then obtain j where "bit d j"
      by (auto simp: bit_eq_iff)
    then have "r \<le> firstBit_loop 8 d r \<and> firstBit_loop 8 d r < r + 8"
      using bit_imp_le_length by (intro firstBit_loop_bounds [of 8 j]) fastforce+
    moreover obtain m where "r = 8 * m"
      using Cons(2) by (auto simp: dvd_def)
    ultimately have "firstBit_loop 8 d r div 8 = m"
      by (intro div_nat_eqI) auto
    with False \<open>r = 8 * m\<close> show ?thesis
      by (simp del: firstBit_loop.simps)
  qed
qed simp

lemma bytesRequired_takeWhile:
  "bytesRequired (fromBigEndian_bigint bs) = length bs - length (takeWhile (\<lambda>b. b = 0) bs)"
proof (induction bs)
  case (Cons b bs)
  show ?case
  proof (cases "b = 0")
    case True
    then show ?thesis
      using Cons by (simp add: fromBigEndian_bigint_Cons)
  next
    case False
    then show ?thesis
      using fromBigEndian_hd_pos [of "b # bs"] by simp
  qed
qed simp

lemma exponent_bytes: "32 - firstBitSet (toBigEndian256 e) div 8 = bytesRequired (unat e)"
proof -
  let ?bs = "toBigEndian256 e"
  have "unat e < 256 ^ 32"
    using unat_less_256 [of e] by simp
  then have "fromBigEndian_bigint ?bs = unat e" and "length ?bs = 32"
    by (simp_all add: toBigEndian256_def toBigEndian_eq)
  then show ?thesis
    using bytesRequired_takeWhile [of ?bs] by (simp add: firstBitSet_def firstBitSet_loop_eq)
qed

lemma val_BYTE_eq: "val_BYTE i x = (if i < 32 then ucast (toBigEndian256 x ! unat i) else 0)"
proof (cases "i < 32")
  case True
  then have i: "unat i < 32"
    by (simp add: word_less_nat_alt)
  have "unat (8 * (31 - i)) = 8 * (31 - unat i)"
    using i by (simp add: unat_word_ariths unat_sub word_le_nat_alt)
  then have "val_BYTE i x = drop_bit (8 * (31 - unat i)) x AND 0xff"
    using True by (simp add: val_BYTE_def)
  moreover have "(ucast (toBigEndian256 x ! unat i) :: u256) = drop_bit (8 * (31 - unat i)) x AND 0xff"
  proof (rule word_unat_eq_iff [THEN iffD2])
    have "unat x div 2 ^ (8 * (31 - unat i)) mod 256 < 2 ^ 256"
      by (rule less_trans [of _ 256]) auto
    moreover have "drop_bit (8 * (31 - unat i)) x AND 0xff = take_bit 8 (drop_bit (8 * (31 - unat i)) x)"
      by (simp add: take_bit_eq_mask mask_eq_exp_minus_1)
    moreover have "unat (take_bit 8 (drop_bit (8 * (31 - unat i)) x)) = unat x div 2 ^ (8 * (31 - unat i)) mod 256"
      by (simp only: unsigned_take_bit_eq unat_drop_bit_eq) (simp add: take_bit_eq_mod drop_bit_eq_div)
    ultimately show "unat (ucast (toBigEndian256 x ! unat i) :: u256) = unat (drop_bit (8 * (31 - unat i)) x AND 0xff)"
      using i
      by (simp add: toBigEndian256_def toBigEndian_eq be_digits_nth unsigned_ucast_eq unat_of_nat
          power_mult take_bit_nat_eq_self)
  qed
  ultimately show ?thesis
    using True by simp
qed (simp add: val_BYTE_def)

end
