(* ===== verification/VMOps.thy ===== *)
theory VMOps
  imports VMState VMArith
begin

text \<open>
  The cases of \<^verbatim>\<open>VM::interpretCases\<close> (\<^verbatim>\<open>src/contract/libtvm/VM.cpp\<close>), one definition per case
  with its closing macro, and the jump table of \<^verbatim>\<open>VMConfig.h\<close> that dispatches to them.  The
  build options are the defaults of the header: no EIP 615, no EIP 616, no constant pool, no
  constant jumps, dispatch by jump table.  \<open>H\<close> is the host's function table and \<open>K\<close> the
  Keccak function of the hashing library.
\<close>

unbundle bit_operations_syntax

section \<open>Definitions: helpers of the cases\<close>

text \<open>Pay the gas, read \<open>n\<close> operands and put one result: the body of the ordinary instructions.\<close>

definition compute :: "nat \<Rightarrow> (u256 list \<Rightarrow> u256) \<Rightarrow> 'h case_block" where
  "compute n f v =
    bindE (updateIOGas v) (\<lambda>v.
    bindE (peek n v) (\<lambda>s.
    bindE (setSPP (f s) v)
    NEXT))"

abbreviation (input) unary :: "(u256 \<Rightarrow> u256) \<Rightarrow> 'h case_block" where
  "unary f \<equiv> compute 1 (\<lambda>s. f (s ! 0))"

abbreviation (input) binary :: "(u256 \<Rightarrow> u256 \<Rightarrow> u256) \<Rightarrow> 'h case_block" where
  "binary f \<equiv> compute 2 (\<lambda>s. f (s ! 0) (s ! 1))"

abbreviation (input) ternary :: "(u256 \<Rightarrow> u256 \<Rightarrow> u256 \<Rightarrow> u256) \<Rightarrow> 'h case_block" where
  "ternary f \<equiv> compute 3 (\<lambda>s. f (s ! 0) (s ! 1) (s ! 2))"

definition is_static :: "'h vm \<Rightarrow> bool" where
  "is_static v = (msg_flags (m_message v) AND TVMC_STATIC \<noteq> 0)"

definition bool_word :: "bool \<Rightarrow> u256" where
  "bool_word b = (if b then 1 else 0)"

text \<open>\<^verbatim>\<open>VM::copyDataToMemory\<close> (\<^verbatim>\<open>VMCalls.cpp\<close>).\<close>

definition copyDataToMemory :: "bytes \<Rightarrow> u256 list \<Rightarrow> 'h vm \<Rightarrow> 'h res" where
  "copyDataToMemory data sp v =
    (let offset = unat (ucast (sp ! 0) :: u64);
         bigIndex = unat (sp ! 1);
         index = unat (ucast (sp ! 1) :: u64);
         sz = unat (ucast (sp ! 2) :: u64);
         sizeToBeCopied =
           (if bigIndex + sz > length data
            then (if length data < bigIndex then 0 else length data - index)
            else sz)
     in
     bindE (if sizeToBeCopied > 0
            then bindE (buf_read data index sizeToBeCopied v) (\<lambda>bs. mem_write offset bs v)
            else Inr v) (\<lambda>v.
     if sz > sizeToBeCopied
     then mem_write (offset + sizeToBeCopied) (replicate (sz - sizeToBeCopied) 0) v
     else Inr v))"

text \<open>
  The word that \<^verbatim>\<open>CALLDATALOAD\<close> reads at an offset of the input, by the three branches of the code.
  The third fills a zero word byte by byte for the 64-bit counter from \<^verbatim>\<open>i\<close> to below \<^verbatim>\<open>e\<close>.
\<close>

primrec calldata_loop :: "bytes \<Rightarrow> nat list \<Rightarrow> 'h vm \<Rightarrow> 'h exn + bytes" where
  "calldata_loop data [] v = Inr []"
| "calldata_loop data (i # is) v =
    bindE (if i < length data then buf_at data i v else Inr 0) (\<lambda>b.
    bindE (calldata_loop data is v) (\<lambda>r. Inr (b # r)))"

definition calldataload :: "bytes \<Rightarrow> u256 \<Rightarrow> 'h vm \<Rightarrow> 'h exn + u256" where
  "calldataload data sp0 v =
    (let dataSize = length data in
     if unat sp0 + 31 < dataSize
     then bindE (buf_read data (unat (ucast sp0 :: u64)) 32 v) (\<lambda>r. Inr (fromBigEndian r))
     else if unat sp0 \<ge> dataSize then Inr 0
     else
       (let i = (ucast sp0 :: u64); e = i + 32 in
        bindE (calldata_loop data [unat i..<unat e] v) (\<lambda>r.
        Inr (fromBigEndian (overwrite (replicate 32 0) 0 r)))))"

text \<open>
  \<^verbatim>\<open>std::binary_search\<close> on the sorted table of jump destinations: the halving loop of
  \<^verbatim>\<open>std::lower_bound\<close>, then one comparison.
\<close>

function lower_bound :: "nat list \<Rightarrow> nat \<Rightarrow> nat \<Rightarrow> nat \<Rightarrow> nat" where
  "lower_bound xs x first len =
    (if len > 0
     then (let half = len div 2; middle = first + half in
           if xs ! middle < x then lower_bound xs x (middle + 1) (len - half - 1)
           else lower_bound xs x first half)
     else first)"
  by pat_completeness auto
termination
  by (relation "measure (\<lambda>(xs, x, first, len). len)") auto

declare lower_bound.simps [simp del]

definition binary_search :: "nat list \<Rightarrow> nat \<Rightarrow> bool" where
  "binary_search xs x =
    (let i = lower_bound xs x 0 (length xs) in i \<noteq> length xs \<and> \<not> x < xs ! i)"

definition verifyJumpDest :: "u256 \<Rightarrow> 'h vm \<Rightarrow> 'h exn + nat" where
  "verifyJumpDest dest v =
    (if dest \<le> 0x7FFFFFFFFFFFFFFF \<and> binary_search (m_jumpDests v) (unat (ucast dest :: u64))
     then Inr (unat (ucast dest :: u64))
     else throw BadJumpDestination v)"

section \<open>Definitions: call-related cases\<close>

definition op_CREATE2 :: "'h case_block" where
  "op_CREATE2 v = throw BadInstruction v"

definition op_CREATE :: "'h case_block" where
  "op_CREATE v =
    (if is_static v then throw DisallowedStateChange v
     else BREAK (v\<lparr>m_bounce := B_caseCreate\<rparr>))"

definition op_CALLS :: "'h case_block" where
  "op_CALLS v =
    (if m_OP v = I_DELEGATECALL \<and> m_rev v < TVMC_HOMESTEAD then throw BadInstruction v
     else if m_OP v = I_STATICCALL \<and> m_rev v < TVMC_BYZANTIUM then throw BadInstruction v
     else bindE (peek 3 v) (\<lambda>s.
       if m_OP v = I_CALL \<and> is_static v \<and> s ! 2 \<noteq> 0 then throw DisallowedStateChange v
       else BREAK (v\<lparr>m_bounce := B_caseCall\<rparr>)))"

text \<open>The memory slice that \<^verbatim>\<open>RETURN\<close> and \<^verbatim>\<open>REVERT\<close> hand out; the buffer is moved away.\<close>

definition output_slice :: "'h vm \<Rightarrow> 'h exn + bytes \<times> 'h vm" where
  "output_slice v =
    (let v = v\<lparr>m_copyMemSize := 0\<rparr> in
     bindE (peek 2 v) (\<lambda>s.
     bindE (memNeed (s ! 0) (s ! 1) v) (\<lambda>need.
     bindE (updateMem need v) (\<lambda>v.
     bindE (updateIOGas v) (\<lambda>v.
     bindE (mem_read (unat (ucast (s ! 0) :: u64)) (unat (ucast (s ! 1) :: u64)) v) (\<lambda>out.
     Inr (out, v\<lparr>m_mem := []\<rparr>)))))))"

definition op_RETURN :: "'h case_block" where
  "op_RETURN v =
    bindE (output_slice v) (\<lambda>(out, v).
    BREAK (v\<lparr>m_output := out, m_bounce := B_null\<rparr>))"

definition op_REVERT :: "'h case_block" where
  "op_REVERT v =
    (if m_rev v < TVMC_BYZANTIUM then throw BadInstruction v
     else bindE (output_slice v) (\<lambda>(out, v). throw (RevertInstruction out) v))"

definition op_SUICIDE :: "'h tvmc_fn_table \<Rightarrow> 'h case_block" where
  "op_SUICIDE H v =
    (if is_static v then throw DisallowedStateChange v
     else bindE (peek 1 v) (\<lambda>s.
       let v = v\<lparr>m_runGas := (if m_rev v \<ge> TVMC_TANGERINE_WHISTLE then 5000 else 0)\<rparr>;
           me = msg_destination (m_message v);
           destination = asAddress (s ! 0);
           balance = fromTvmC (get_balance H (m_context v) me);
           v = (if balance > 0 \<or> m_rev v < TVMC_SPURIOUS_DRAGON
                then (if m_rev v \<ge> TVMC_TANGERINE_WHISTLE
                         \<and> \<not> account_exists H (m_context v) destination
                      then v\<lparr>m_runGas := m_runGas v + callNewAccount\<rparr> else v)
                else v)
       in
       bindE (updateIOGas v) (\<lambda>v.
       BREAK (v\<lparr>m_context := selfdestruct H (m_context v) me destination, m_bounce := B_null\<rparr>))))"

definition op_STOP :: "'h case_block" where
  "op_STOP v = bindE (updateIOGas v) (\<lambda>v. BREAK (v\<lparr>m_bounce := B_null\<rparr>))"

section \<open>Definitions: cases that may expand memory\<close>

text \<open>The code narrows the offset with a cast to \<^verbatim>\<open>unsigned\<close>, 32 bits wide.\<close>

definition op_MLOAD :: "'h case_block" where
  "op_MLOAD v =
    bindE (peek 1 v) (\<lambda>s.
    bindE (toInt63 (unat (s ! 0)) v) (\<lambda>off.
    bindE (updateMem (off + 32) v) (\<lambda>v.
    bindE (updateIOGas v) (\<lambda>v.
    bindE (mem_read (unat (ucast (s ! 0) :: u32)) 32 v) (\<lambda>w.
    bindE (setSPP (fromBigEndian w) v)
    NEXT)))))"

definition op_MSTORE :: "'h case_block" where
  "op_MSTORE v =
    bindE (peek 2 v) (\<lambda>s.
    bindE (toInt63 (unat (s ! 0)) v) (\<lambda>off.
    bindE (updateMem (off + 32) v) (\<lambda>v.
    bindE (updateIOGas v) (\<lambda>v.
    bindE (mem_write (unat (ucast (s ! 0) :: u32)) (toBigEndian256 (s ! 1)) v)
    NEXT))))"

definition op_MSTORE8 :: "'h case_block" where
  "op_MSTORE8 v =
    bindE (peek 2 v) (\<lambda>s.
    bindE (toInt63 (unat (s ! 0)) v) (\<lambda>off.
    bindE (updateMem (off + 1) v) (\<lambda>v.
    bindE (updateIOGas v) (\<lambda>v.
    bindE (mem_write (unat (ucast (s ! 0) :: u32)) [ucast (s ! 1 AND 0xff)] v)
    NEXT))))"

definition op_SHA3 :: "(bytes \<Rightarrow> h256) \<Rightarrow> 'h case_block" where
  "op_SHA3 K v =
    bindE (peek 2 v) (\<lambda>s.
    bindE (toInt63 (unat (sha3Gas + (ucast (s ! 1) + 31) div 32 * sha3WordGas)) v) (\<lambda>g.
    let v = v\<lparr>m_runGas := g\<rparr> in
    bindE (memNeed (s ! 0) (s ! 1) v) (\<lambda>need.
    bindE (updateMem need v) (\<lambda>v.
    bindE (updateIOGas v) (\<lambda>v.
    bindE (mem_read (unat (ucast (s ! 0) :: u64)) (unat (ucast (s ! 1) :: u64)) v) (\<lambda>d.
    bindE (setSPP (fromBigEndian (K d)) v)
    NEXT))))))"

text \<open>The five log cases differ in the number of topics.\<close>

definition log_case :: "'h tvmc_fn_table \<Rightarrow> nat \<Rightarrow> 'h case_block" where
  "log_case H n v =
    (if is_static v then throw DisallowedStateChange v
     else
       bindE (logGasMem v) (\<lambda>v.
       bindE (updateIOGas v) (\<lambda>v.
       bindE (peek (2 + n) v) (\<lambda>s.
       bindE (mem_read (unat (ucast (s ! 0) :: u64)) (unat (ucast (s ! 1) :: u64)) v) (\<lambda>data.
       NEXT (v\<lparr>m_context := emit_log H (m_context v) (msg_destination (m_message v)) data
          (map toTvmC (drop 2 s))\<rparr>))))))"

definition op_LOG0 :: "'h tvmc_fn_table \<Rightarrow> 'h case_block" where "op_LOG0 H = log_case H 0"
definition op_LOG1 :: "'h tvmc_fn_table \<Rightarrow> 'h case_block" where "op_LOG1 H = log_case H 1"
definition op_LOG2 :: "'h tvmc_fn_table \<Rightarrow> 'h case_block" where "op_LOG2 H = log_case H 2"
definition op_LOG3 :: "'h tvmc_fn_table \<Rightarrow> 'h case_block" where "op_LOG3 H = log_case H 3"
definition op_LOG4 :: "'h tvmc_fn_table \<Rightarrow> 'h case_block" where "op_LOG4 H = log_case H 4"

section \<open>Definitions: arithmetic, comparison and bit cases\<close>

definition op_EXP :: "'h case_block" where
  "op_EXP v =
    bindE (peek 2 v) (\<lambda>s.
    let expon = s ! 1;
        byteCost = (if m_rev v \<ge> TVMC_SPURIOUS_DRAGON then 50 else 10) in
    bindE (toInt63 (stepGas5 + byteCost * (32 - firstBitSet (toBigEndian256 expon) div 8)) v) (\<lambda>g.
    bindE (updateIOGas (v\<lparr>m_runGas := g\<rparr>)) (\<lambda>v.
    bindE (setSPP (exp256 (s ! 0) expon) v)
    NEXT)))"

definition op_ADD :: "'h case_block" where "op_ADD = binary (\<lambda>a b. a + b)"
definition op_MUL :: "'h case_block" where "op_MUL = binary (\<lambda>a b. a * b)"
definition op_SUB :: "'h case_block" where "op_SUB = binary (\<lambda>a b. a - b)"
definition op_DIV :: "'h case_block" where "op_DIV = binary val_DIV"

text \<open>
  \<^verbatim>\<open>SDIV\<close> and \<^verbatim>\<open>POP\<close> also decrement \<^verbatim>\<open>m_SP\<close>, which the next fetch overwrites.
\<close>

definition op_SDIV :: "'h case_block" where
  "op_SDIV v =
    bindE (updateIOGas v) (\<lambda>v.
    bindE (peek 2 v) (\<lambda>s.
    bindE (setSPP (val_SDIV (s ! 0) (s ! 1)) v) (\<lambda>v.
    NEXT (v\<lparr>m_SP := m_SP v - 1\<rparr>))))"

definition op_MOD :: "'h case_block" where "op_MOD = binary val_MOD"
definition op_SMOD :: "'h case_block" where "op_SMOD = binary val_SMOD"
definition op_NOT :: "'h case_block" where "op_NOT = unary (\<lambda>a. NOT a)"
definition op_LT :: "'h case_block" where "op_LT = binary (\<lambda>a b. bool_word (a < b))"
definition op_GT :: "'h case_block" where "op_GT = binary (\<lambda>a b. bool_word (a > b))"
definition op_SLT :: "'h case_block" where "op_SLT = binary (\<lambda>a b. bool_word (u2s a < u2s b))"
definition op_SGT :: "'h case_block" where "op_SGT = binary (\<lambda>a b. bool_word (u2s a > u2s b))"
definition op_EQ :: "'h case_block" where "op_EQ = binary (\<lambda>a b. bool_word (a = b))"
definition op_ISZERO :: "'h case_block" where "op_ISZERO = unary (\<lambda>a. if a \<noteq> 0 then 0 else 1)"
definition op_AND :: "'h case_block" where "op_AND = binary (\<lambda>a b. a AND b)"
definition op_OR :: "'h case_block" where "op_OR = binary (\<lambda>a b. a OR b)"
definition op_XOR :: "'h case_block" where "op_XOR = binary (\<lambda>a b. a XOR b)"
definition op_BYTE :: "'h case_block" where "op_BYTE = binary val_BYTE"

definition op_SHL :: "'h case_block" where
  "op_SHL v = (if m_rev v < TVMC_CONSTANTINOPLE then throw BadInstruction v else binary val_SHL v)"

definition op_SHR :: "'h case_block" where
  "op_SHR v = (if m_rev v < TVMC_CONSTANTINOPLE then throw BadInstruction v else binary val_SHR v)"

definition op_SAR :: "'h case_block" where
  "op_SAR v = (if m_rev v < TVMC_CONSTANTINOPLE then throw BadInstruction v else binary val_SAR v)"

definition op_ADDMOD :: "'h case_block" where "op_ADDMOD = ternary val_ADDMOD"
definition op_MULMOD :: "'h case_block" where "op_MULMOD = ternary val_MULMOD"

text \<open>\<^verbatim>\<open>SIGNEXTEND\<close> works on \<^verbatim>\<open>m_SP[1]\<close> in place.\<close>

definition op_SIGNEXTEND :: "'h case_block" where
  "op_SIGNEXTEND v =
    bindE (updateIOGas v) (\<lambda>v.
    bindE (peek 2 v) (\<lambda>s.
    bindE (if s ! 0 < 31 then setSP 1 (val_SIGNEXTEND (s ! 0) (s ! 1)) v else Inr v)
    NEXT))"

text \<open>The instructions of EIP 615 and EIP 616, which this build rejects.\<close>

definition op_EIP615 :: "'h case_block" where
  "op_EIP615 v = throw BadInstruction v"

definition op_EIP616 :: "'h case_block" where
  "op_EIP616 v = throw BadInstruction v"

section \<open>Definitions: environment cases\<close>

definition op_ADDRESS :: "'h case_block" where
  "op_ADDRESS v = compute 0 (\<lambda>_. fromAddress (msg_destination (m_message v))) v"

text \<open>The cases that read the transaction context cache it in \<^verbatim>\<open>m_tx_context\<close>.\<close>

definition compute_tx :: "'h tvmc_fn_table \<Rightarrow> (tvmc_tx_context \<Rightarrow> u256) \<Rightarrow> 'h case_block" where
  "compute_tx H f v =
    bindE (updateIOGas v) (\<lambda>v.
    let (tx, v) = getTxContext H v in
    bindE (setSPP (f tx) v)
    NEXT)"

definition op_ORIGIN :: "'h tvmc_fn_table \<Rightarrow> 'h case_block" where
  "op_ORIGIN H = compute_tx H (\<lambda>tx. fromAddress (tx_origin tx))"

definition op_BALANCE :: "'h tvmc_fn_table \<Rightarrow> 'h case_block" where
  "op_BALANCE H v =
    (let v = v\<lparr>m_runGas := (if m_rev v \<ge> TVMC_TANGERINE_WHISTLE then 400 else 20)\<rparr> in
     unary (\<lambda>a. fromTvmC (get_balance H (m_context v) (asAddress a))) v)"

definition op_CALLER :: "'h case_block" where
  "op_CALLER v = compute 0 (\<lambda>_. fromAddress (msg_sender (m_message v))) v"

definition op_CALLVALUE :: "'h case_block" where
  "op_CALLVALUE v = compute 0 (\<lambda>_. fromTvmC (msg_value (m_message v))) v"

definition op_CALLDATALOAD :: "'h case_block" where
  "op_CALLDATALOAD v =
    bindE (updateIOGas v) (\<lambda>v.
    bindE (peek 1 v) (\<lambda>s.
    bindE (calldataload (msg_input_data (m_message v)) (s ! 0) v) (\<lambda>x.
    bindE (setSP 0 x v)
    NEXT)))"

definition op_CALLDATASIZE :: "'h case_block" where
  "op_CALLDATASIZE v = compute 0 (\<lambda>_. of_nat (length (msg_input_data (m_message v)))) v"

definition op_RETURNDATASIZE :: "'h case_block" where
  "op_RETURNDATASIZE v =
    (if m_rev v < TVMC_BYZANTIUM then throw BadInstruction v
     else compute 0 (\<lambda>_. of_nat (length (m_returnData v))) v)"

definition op_CODESIZE :: "'h case_block" where
  "op_CODESIZE v = compute 0 (\<lambda>_. of_nat (length (m_pCode v))) v"

definition op_EXTCODESIZE :: "'h tvmc_fn_table \<Rightarrow> 'h case_block" where
  "op_EXTCODESIZE H v =
    (let v = v\<lparr>m_runGas := (if m_rev v \<ge> TVMC_TANGERINE_WHISTLE then 700 else 20)\<rparr> in
     unary (\<lambda>a. of_nat (get_code_size H (m_context v) (asAddress a))) v)"

text \<open>The part shared by the copy instructions: meter \<^verbatim>\<open>m_SP[2]\<close> bytes, then copy.\<close>

definition copy_case :: "bytes \<Rightarrow> 'h case_block" where
  "copy_case data v =
    bindE (peek 3 v) (\<lambda>s.
    bindE (toInt63 (unat (s ! 2)) v) (\<lambda>n.
    let v = v\<lparr>m_copyMemSize := n\<rparr> in
    bindE (memNeed (s ! 0) (s ! 2) v) (\<lambda>need.
    bindE (updateMem need v) (\<lambda>v.
    bindE (updateIOGas v) (\<lambda>v.
    bindE (copyDataToMemory data s v)
    NEXT)))))"

definition op_CALLDATACOPY :: "'h case_block" where
  "op_CALLDATACOPY v = copy_case (msg_input_data (m_message v)) v"

definition op_RETURNDATACOPY :: "'h case_block" where
  "op_RETURNDATACOPY v =
    (if m_rev v < TVMC_BYZANTIUM then throw BadInstruction v
     else bindE (peek 3 v) (\<lambda>s.
       if length (m_returnData v) < unat (s ! 1) + unat (s ! 2) then throw BufferOverrun v
       else copy_case (m_returnData v) v))"

definition op_CODECOPY :: "'h case_block" where
  "op_CODECOPY v = copy_case (m_pCode v) v"

definition op_EXTCODECOPY :: "'h tvmc_fn_table \<Rightarrow> 'h case_block" where
  "op_EXTCODECOPY H v =
    (let v = v\<lparr>m_runGas := (if m_rev v \<ge> TVMC_TANGERINE_WHISTLE then 700 else 20)\<rparr> in
     bindE (peek 4 v) (\<lambda>s.
     bindE (toInt63 (unat (s ! 3)) v) (\<lambda>copyMemSize.
     let v = v\<lparr>m_copyMemSize := copyMemSize\<rparr> in
     bindE (memNeed (s ! 1) (s ! 3) v) (\<lambda>need.
     bindE (updateMem need v) (\<lambda>v.
     bindE (updateIOGas v) (\<lambda>v.
     let memoryOffset = unat (ucast (s ! 1) :: u64);
         codeOffset = (if unat (s ! 2) > 2 ^ 64 - 1 then 2 ^ 64 - 1 else unat (s ! 2));
         sz = unat copyMemSize;
         copied = copy_code H (m_context v) (asAddress (s ! 0)) codeOffset sz
     in
     if sz < length copied then throw Undefined v
     else
       bindE (mem_write memoryOffset copied v) (\<lambda>v.
       bindE (mem_write (memoryOffset + length copied) (replicate (sz - length copied) 0) v)
       NEXT)))))))"

definition op_GASPRICE :: "'h tvmc_fn_table \<Rightarrow> 'h case_block" where
  "op_GASPRICE H = compute_tx H (\<lambda>tx. fromTvmC (tx_gas_price tx))"

definition op_BLOCKHASH :: "'h tvmc_fn_table \<Rightarrow> 'h case_block" where
  "op_BLOCKHASH H v =
    bindE (updateIOGas (v\<lparr>m_runGas := stepGas6\<rparr>)) (\<lambda>v.
    let (tx, v) = getTxContext H v; blockNumber = block_number tx in
    bindE (peek 1 v) (\<lambda>s.
    let number = s ! 0 in
    bindE (setSPP
      (if uint number < blockNumber \<and> uint number \<ge> max 256 blockNumber - 256
       then fromTvmC (get_block_hash H (m_context v) (uint number)) else 0) v)
    NEXT))"

definition op_COINBASE :: "'h tvmc_fn_table \<Rightarrow> 'h case_block" where
  "op_COINBASE H = compute_tx H (\<lambda>tx. fromAddress (block_coinbase tx))"

definition op_TIMESTAMP :: "'h tvmc_fn_table \<Rightarrow> 'h case_block" where
  "op_TIMESTAMP H = compute_tx H (\<lambda>tx. of_int (block_timestamp tx))"

definition op_NUMBER :: "'h tvmc_fn_table \<Rightarrow> 'h case_block" where
  "op_NUMBER H = compute_tx H (\<lambda>tx. of_int (block_number tx))"

definition op_DIFFICULTY :: "'h tvmc_fn_table \<Rightarrow> 'h case_block" where
  "op_DIFFICULTY H = compute_tx H (\<lambda>tx. fromTvmC (block_difficulty tx))"

definition op_GASLIMIT :: "'h tvmc_fn_table \<Rightarrow> 'h case_block" where
  "op_GASLIMIT H = compute_tx H (\<lambda>tx. of_int (block_gas_limit tx))"

section \<open>Definitions: stack, code and storage cases\<close>

definition op_POP :: "'h case_block" where
  "op_POP v = bindE (updateIOGas v) (\<lambda>v. NEXT (v\<lparr>m_SP := m_SP v - 1\<rparr>))"

definition op_PUSHC :: "'h case_block" where
  "op_PUSHC v = throw BadInstruction v"

definition op_PUSH1 :: "'h case_block" where
  "op_PUSH1 v =
    bindE (updateIOGas v) (\<lambda>v.
    let v = v\<lparr>m_PC := m_PC v + 1\<rparr> in
    bindE (code_read (m_PC v) v) (\<lambda>b.
    bindE (setSPP (ucast b) v) (\<lambda>v.
    CONTINUE (v\<lparr>m_PC := m_PC v + 1\<rparr>))))"

text \<open>The loop of the longer pushes: shift the value and append the code byte at \<^verbatim>\<open>m_PC\<close>.\<close>

fun push_loop :: "nat \<Rightarrow> u256 \<Rightarrow> 'h vm \<Rightarrow> 'h exn + u256 \<times> 'h vm" where
  "push_loop 0 val v = Inr (val, v)"
| "push_loop (Suc n) val v =
    bindE (code_read (m_PC v) v) (\<lambda>b.
    push_loop n (push_bit 8 val OR ucast b) (v\<lparr>m_PC := m_PC v + 1\<rparr>))"

definition op_PUSHN :: "'h case_block" where
  "op_PUSHN v =
    bindE (updateIOGas v) (\<lambda>v.
    let numBytes = nat (m_OP v - I_PUSH1 + 1) in
    bindE (push_loop numBytes 0 (v\<lparr>m_PC := m_PC v + 1\<rparr>)) (\<lambda>(val, v).
    bindE (setSPP val v)
    CONTINUE))"

definition op_JUMP :: "'h case_block" where
  "op_JUMP v =
    bindE (updateIOGas v) (\<lambda>v.
    bindE (peek 1 v) (\<lambda>s.
    bindE (verifyJumpDest (s ! 0) v) (\<lambda>pc.
    CONTINUE (v\<lparr>m_PC := pc\<rparr>))))"

definition op_JUMPI :: "'h case_block" where
  "op_JUMPI v =
    bindE (updateIOGas v) (\<lambda>v.
    bindE (peek 2 v) (\<lambda>s.
    if s ! 1 \<noteq> 0
    then bindE (verifyJumpDest (s ! 0) v) (\<lambda>pc. CONTINUE (v\<lparr>m_PC := pc\<rparr>))
    else CONTINUE (v\<lparr>m_PC := m_PC v + 1\<rparr>)))"

definition op_JUMPC :: "'h case_block" where
  "op_JUMPC v = throw BadInstruction v"

definition op_JUMPCI :: "'h case_block" where
  "op_JUMPCI v = throw BadInstruction v"

definition op_DUP :: "'h case_block" where
  "op_DUP v =
    bindE (updateIOGas v) (\<lambda>v.
    let n = nat (m_OP v - I_DUP1) in
    bindE (peek (n + 1) v) (\<lambda>s.
    bindE (setSPP (s ! n) v)
    NEXT))"

definition op_SWAP :: "'h case_block" where
  "op_SWAP v =
    bindE (updateIOGas v) (\<lambda>v.
    let n = nat (m_OP v - I_SWAP1 + 1) in
    bindE (peek (n + 1) v) (\<lambda>s.
    bindE (setSP 0 (s ! n) v) (\<lambda>v.
    bindE (setSP n (s ! 0) v)
    NEXT)))"

definition op_SLOAD :: "'h tvmc_fn_table \<Rightarrow> 'h case_block" where
  "op_SLOAD H v =
    (let v = v\<lparr>m_runGas := (if m_rev v \<ge> TVMC_TANGERINE_WHISTLE then 200 else 50)\<rparr> in
     unary (\<lambda>k. fromTvmC (get_storage H (m_context v) (msg_destination (m_message v)) (toTvmC k))) v)"

definition op_SSTORE :: "'h tvmc_fn_table \<Rightarrow> 'h case_block" where
  "op_SSTORE H v =
    (if is_static v then throw DisallowedStateChange v
     else
       bindE (updateSSGas H v) (\<lambda>v.
       bindE (updateIOGas v) (\<lambda>v.
       bindE (peek 2 v) (\<lambda>s.
       NEXT (v\<lparr>m_context := set_storage H (m_context v) (msg_destination (m_message v))
         (toTvmC (s ! 0)) (toTvmC (s ! 1))\<rparr>)))))"

definition op_PC :: "'h case_block" where
  "op_PC v = compute 0 (\<lambda>_. of_nat (m_PC v)) v"

definition op_MSIZE :: "'h case_block" where
  "op_MSIZE v = compute 0 (\<lambda>_. of_nat (length (m_mem v))) v"

definition op_GAS :: "'h case_block" where
  "op_GAS v =
    bindE (updateIOGas v) (\<lambda>v.
    bindE (setSPP (ucast (m_io_gas v)) v)
    NEXT)"

definition op_JUMPDEST :: "'h case_block" where
  "op_JUMPDEST v = bindE (updateIOGas (v\<lparr>m_runGas := jumpdestGas\<rparr>)) NEXT"

definition op_INVALID :: "'h case_block" where
  "op_INVALID v = throw BadInstruction v"

section \<open>Definitions: dispatch\<close>

text \<open>
  The jump table, eight entries a line.  The labels of one case share its block, so
  \<^verbatim>\<open>&&PUSH2\<close> to \<^verbatim>\<open>&&PUSH32\<close> are all \<open>op_PUSHN\<close>.
\<close>

definition jumpTable_low :: "(bytes \<Rightarrow> h256) \<Rightarrow> 'h tvmc_fn_table \<Rightarrow> 'h case_block list" where
  "jumpTable_low K H = [
    op_STOP, op_ADD, op_MUL, op_SUB, op_DIV, op_SDIV, op_MOD, op_SMOD,
    op_ADDMOD, op_MULMOD, op_EXP, op_SIGNEXTEND, op_INVALID, op_INVALID, op_INVALID, op_INVALID,
    op_LT, op_GT, op_SLT, op_SGT, op_EQ, op_ISZERO, op_AND, op_OR,
    op_XOR, op_NOT, op_BYTE, op_SHL, op_SHR, op_SAR, op_INVALID, op_INVALID,
    op_SHA3 K, op_INVALID, op_INVALID, op_INVALID, op_INVALID, op_INVALID, op_INVALID, op_INVALID,
    op_INVALID, op_INVALID, op_INVALID, op_INVALID, op_INVALID, op_INVALID, op_INVALID, op_INVALID,
    op_ADDRESS, op_BALANCE H, op_ORIGIN H, op_CALLER, op_CALLVALUE, op_CALLDATALOAD, op_CALLDATASIZE, op_CALLDATACOPY,
    op_CODESIZE, op_CODECOPY, op_GASPRICE H, op_EXTCODESIZE H, op_EXTCODECOPY H, op_RETURNDATASIZE, op_RETURNDATACOPY, op_INVALID,
    op_BLOCKHASH H, op_COINBASE H, op_TIMESTAMP H, op_NUMBER H, op_DIFFICULTY H, op_GASLIMIT H, op_INVALID, op_INVALID,
    op_INVALID, op_INVALID, op_INVALID, op_INVALID, op_INVALID, op_INVALID, op_INVALID, op_INVALID,
    op_POP, op_MLOAD, op_MSTORE, op_MSTORE8, op_SLOAD H, op_SSTORE H, op_JUMP, op_JUMPI,
    op_PC, op_MSIZE, op_GAS, op_JUMPDEST, op_EIP615, op_EIP615, op_INVALID, op_INVALID,
    op_PUSH1, op_PUSHN, op_PUSHN, op_PUSHN, op_PUSHN, op_PUSHN, op_PUSHN, op_PUSHN,
    op_PUSHN, op_PUSHN, op_PUSHN, op_PUSHN, op_PUSHN, op_PUSHN, op_PUSHN, op_PUSHN,
    op_PUSHN, op_PUSHN, op_PUSHN, op_PUSHN, op_PUSHN, op_PUSHN, op_PUSHN, op_PUSHN,
    op_PUSHN, op_PUSHN, op_PUSHN, op_PUSHN, op_PUSHN, op_PUSHN, op_PUSHN, op_PUSHN]"

definition jumpTable_high :: "(bytes \<Rightarrow> h256) \<Rightarrow> 'h tvmc_fn_table \<Rightarrow> 'h case_block list" where
  "jumpTable_high K H = [
    op_DUP, op_DUP, op_DUP, op_DUP, op_DUP, op_DUP, op_DUP, op_DUP,
    op_DUP, op_DUP, op_DUP, op_DUP, op_DUP, op_DUP, op_DUP, op_DUP,
    op_SWAP, op_SWAP, op_SWAP, op_SWAP, op_SWAP, op_SWAP, op_SWAP, op_SWAP,
    op_SWAP, op_SWAP, op_SWAP, op_SWAP, op_SWAP, op_SWAP, op_SWAP, op_SWAP,
    op_LOG0 H, op_LOG1 H, op_LOG2 H, op_LOG3 H, op_LOG4 H, op_INVALID, op_INVALID, op_INVALID,
    op_INVALID, op_INVALID, op_INVALID, op_INVALID, op_PUSHC, op_JUMPC, op_JUMPCI, op_INVALID,
    op_EIP615, op_EIP615, op_EIP615, op_EIP615, op_EIP615, op_EIP615, op_EIP615, op_EIP615,
    op_EIP615, op_EIP615, op_INVALID, op_INVALID, op_INVALID, op_INVALID, op_INVALID, op_INVALID,
    op_INVALID, op_EIP616, op_EIP616, op_EIP616, op_EIP616, op_EIP616, op_EIP616, op_EIP616,
    op_INVALID, op_INVALID, op_INVALID, op_INVALID, op_INVALID, op_INVALID, op_INVALID, op_INVALID,
    op_EIP616, op_EIP616, op_EIP616, op_EIP616, op_EIP616, op_EIP616, op_EIP616, op_EIP616,
    op_EIP616, op_EIP616, op_INVALID, op_EIP616, op_EIP616, op_EIP616, op_EIP616, op_EIP616,
    op_EIP616, op_EIP616, op_EIP616, op_INVALID, op_EIP616, op_EIP616, op_EIP616, op_EIP616,
    op_EIP616, op_EIP616, op_EIP616, op_EIP616, op_INVALID, op_INVALID, op_INVALID, op_INVALID,
    op_CREATE, op_CALLS, op_CALLS, op_RETURN, op_CALLS, op_INVALID, op_INVALID, op_INVALID,
    op_INVALID, op_INVALID, op_CALLS, op_CREATE2, op_INVALID, op_REVERT, op_INVALID, op_SUICIDE H]"

definition jumpTable :: "(bytes \<Rightarrow> h256) \<Rightarrow> 'h tvmc_fn_table \<Rightarrow> 'h case_block list" where
  "jumpTable K H = jumpTable_low K H @ jumpTable_high K H"

text \<open>
  The same cases under \<^verbatim>\<open>switch\<close> dispatch (the configuration without the jump table): the
  enumerator of each case label, in the order of the source, then the default.
\<close>

definition case_labels :: "(bytes \<Rightarrow> h256) \<Rightarrow> 'h tvmc_fn_table \<Rightarrow> (Instruction \<times> 'h case_block) list" where
  "case_labels K H = [
    (I_CREATE2, op_CREATE2), (I_CREATE, op_CREATE), (I_DELEGATECALL, op_CALLS), (I_STATICCALL, op_CALLS),
    (I_CALL, op_CALLS), (I_CALLCODE, op_CALLS), (I_RETURN, op_RETURN), (I_REVERT, op_REVERT),
    (I_SUICIDE, op_SUICIDE H), (I_STOP, op_STOP), (I_MLOAD, op_MLOAD), (I_MSTORE, op_MSTORE),
    (I_MSTORE8, op_MSTORE8), (I_SHA3, op_SHA3 K), (I_LOG0, op_LOG0 H), (I_LOG1, op_LOG1 H),
    (I_LOG2, op_LOG2 H), (I_LOG3, op_LOG3 H), (I_LOG4, op_LOG4 H), (I_EXP, op_EXP),
    (I_ADD, op_ADD), (I_MUL, op_MUL), (I_SUB, op_SUB), (I_DIV, op_DIV),
    (I_SDIV, op_SDIV), (I_MOD, op_MOD), (I_SMOD, op_SMOD), (I_NOT, op_NOT),
    (I_LT, op_LT), (I_GT, op_GT), (I_SLT, op_SLT), (I_SGT, op_SGT),
    (I_EQ, op_EQ), (I_ISZERO, op_ISZERO), (I_AND, op_AND), (I_OR, op_OR),
    (I_XOR, op_XOR), (I_BYTE, op_BYTE), (I_SHL, op_SHL), (I_SHR, op_SHR),
    (I_SAR, op_SAR), (I_ADDMOD, op_ADDMOD), (I_MULMOD, op_MULMOD), (I_SIGNEXTEND, op_SIGNEXTEND),
    (I_JUMPTO, op_EIP615), (I_JUMPIF, op_EIP615), (I_JUMPV, op_EIP615), (I_JUMPSUB, op_EIP615),
    (I_JUMPSUBV, op_EIP615), (I_RETURNSUB, op_EIP615), (I_BEGINSUB, op_EIP615), (I_BEGINDATA, op_EIP615),
    (I_GETLOCAL, op_EIP615), (I_PUTLOCAL, op_EIP615), (I_XADD, op_EIP616), (I_XMUL, op_EIP616),
    (I_XSUB, op_EIP616), (I_XDIV, op_EIP616), (I_XSDIV, op_EIP616), (I_XMOD, op_EIP616),
    (I_XSMOD, op_EIP616), (I_XLT, op_EIP616), (I_XGT, op_EIP616), (I_XSLT, op_EIP616),
    (I_XSGT, op_EIP616), (I_XEQ, op_EIP616), (I_XISZERO, op_EIP616), (I_XAND, op_EIP616),
    (I_XOOR, op_EIP616), (I_XXOR, op_EIP616), (I_XNOT, op_EIP616), (I_XSHL, op_EIP616),
    (I_XSHR, op_EIP616), (I_XSAR, op_EIP616), (I_XROL, op_EIP616), (I_XROR, op_EIP616),
    (I_XMLOAD, op_EIP616), (I_XMSTORE, op_EIP616), (I_XSLOAD, op_EIP616), (I_XSSTORE, op_EIP616),
    (I_XVTOWIDE, op_EIP616), (I_XWIDETOV, op_EIP616), (I_XPUSH, op_EIP616), (I_XPUT, op_EIP616),
    (I_XGET, op_EIP616), (I_XSWIZZLE, op_EIP616), (I_XSHUFFLE, op_EIP616), (I_ADDRESS, op_ADDRESS),
    (I_ORIGIN, op_ORIGIN H), (I_BALANCE, op_BALANCE H), (I_CALLER, op_CALLER), (I_CALLVALUE, op_CALLVALUE),
    (I_CALLDATALOAD, op_CALLDATALOAD), (I_CALLDATASIZE, op_CALLDATASIZE), (I_RETURNDATASIZE, op_RETURNDATASIZE), (I_CODESIZE, op_CODESIZE),
    (I_EXTCODESIZE, op_EXTCODESIZE H), (I_CALLDATACOPY, op_CALLDATACOPY), (I_RETURNDATACOPY, op_RETURNDATACOPY), (I_CODECOPY, op_CODECOPY),
    (I_EXTCODECOPY, op_EXTCODECOPY H), (I_GASPRICE, op_GASPRICE H), (I_BLOCKHASH, op_BLOCKHASH H), (I_COINBASE, op_COINBASE H),
    (I_TIMESTAMP, op_TIMESTAMP H), (I_NUMBER, op_NUMBER H), (I_DIFFICULTY, op_DIFFICULTY H), (I_GASLIMIT, op_GASLIMIT H),
    (I_POP, op_POP), (I_PUSHC, op_PUSHC), (I_PUSH1, op_PUSH1), (I_PUSH2, op_PUSHN),
    (I_PUSH3, op_PUSHN), (I_PUSH4, op_PUSHN), (I_PUSH5, op_PUSHN), (I_PUSH6, op_PUSHN),
    (I_PUSH7, op_PUSHN), (I_PUSH8, op_PUSHN), (I_PUSH9, op_PUSHN), (I_PUSH10, op_PUSHN),
    (I_PUSH11, op_PUSHN), (I_PUSH12, op_PUSHN), (I_PUSH13, op_PUSHN), (I_PUSH14, op_PUSHN),
    (I_PUSH15, op_PUSHN), (I_PUSH16, op_PUSHN), (I_PUSH17, op_PUSHN), (I_PUSH18, op_PUSHN),
    (I_PUSH19, op_PUSHN), (I_PUSH20, op_PUSHN), (I_PUSH21, op_PUSHN), (I_PUSH22, op_PUSHN),
    (I_PUSH23, op_PUSHN), (I_PUSH24, op_PUSHN), (I_PUSH25, op_PUSHN), (I_PUSH26, op_PUSHN),
    (I_PUSH27, op_PUSHN), (I_PUSH28, op_PUSHN), (I_PUSH29, op_PUSHN), (I_PUSH30, op_PUSHN),
    (I_PUSH31, op_PUSHN), (I_PUSH32, op_PUSHN), (I_JUMP, op_JUMP), (I_JUMPI, op_JUMPI),
    (I_JUMPC, op_JUMPC), (I_JUMPCI, op_JUMPCI), (I_DUP1, op_DUP), (I_DUP2, op_DUP),
    (I_DUP3, op_DUP), (I_DUP4, op_DUP), (I_DUP5, op_DUP), (I_DUP6, op_DUP),
    (I_DUP7, op_DUP), (I_DUP8, op_DUP), (I_DUP9, op_DUP), (I_DUP10, op_DUP),
    (I_DUP11, op_DUP), (I_DUP12, op_DUP), (I_DUP13, op_DUP), (I_DUP14, op_DUP),
    (I_DUP15, op_DUP), (I_DUP16, op_DUP), (I_SWAP1, op_SWAP), (I_SWAP2, op_SWAP),
    (I_SWAP3, op_SWAP), (I_SWAP4, op_SWAP), (I_SWAP5, op_SWAP), (I_SWAP6, op_SWAP),
    (I_SWAP7, op_SWAP), (I_SWAP8, op_SWAP), (I_SWAP9, op_SWAP), (I_SWAP10, op_SWAP),
    (I_SWAP11, op_SWAP), (I_SWAP12, op_SWAP), (I_SWAP13, op_SWAP), (I_SWAP14, op_SWAP),
    (I_SWAP15, op_SWAP), (I_SWAP16, op_SWAP), (I_SLOAD, op_SLOAD H), (I_SSTORE, op_SSTORE H),
    (I_PC, op_PC), (I_MSIZE, op_MSIZE), (I_GAS, op_GAS), (I_JUMPDEST, op_JUMPDEST),
    (I_INVALID, op_INVALID)]"

definition switch_dispatch :: "(bytes \<Rightarrow> h256) \<Rightarrow> 'h tvmc_fn_table \<Rightarrow> 'h case_block" where
  "switch_dispatch K H v =
    (case map_of (case_labels K H) (m_OP v) of Some b \<Rightarrow> b v | None \<Rightarrow> op_INVALID v)"

definition jump_dispatch :: "(bytes \<Rightarrow> h256) \<Rightarrow> 'h tvmc_fn_table \<Rightarrow> 'h case_block" where
  "jump_dispatch K H v = (jumpTable K H ! nat (m_OP v)) v"

end
