(* ===== verification/VMExec.thy ===== *)
theory VMExec
  imports VMOps
begin

text \<open>
  The rest of the interpreter: the cases that call out (\<^verbatim>\<open>src/contract/libtvm/VMCalls.cpp\<close>),
  the preparation of the code (\<^verbatim>\<open>VMOpt.cpp\<close>), the interpreter loop and the entry points
  \<^verbatim>\<open>VM::exec\<close> and \<^verbatim>\<open>execute\<close> (\<^verbatim>\<open>VM.cpp\<close>).  The loops take fuel; running out of it is \<open>None\<close>.
\<close>

unbundle bit_operations_syntax

section \<open>Definitions: calling out\<close>

text \<open>The message initialised by \<^verbatim>\<open>tvmc_message msg = {}\<close>.\<close>

definition empty_message :: tvmc_message where
  "empty_message = \<lparr>msg_destination = replicate 20 0, msg_sender = replicate 20 0,
    msg_value = replicate 32 0, msg_input_data = [], msg_code_hash = replicate 32 0,
    msg_gas = 0, msg_depth = 0, msg_kind = TVMC_CALL, msg_flags = 0\<rparr>"

text \<open>The call to the host that \<^verbatim>\<open>caseCreate\<close> makes when the balance and the depth allow it.\<close>

definition create_call :: "'h tvmc_fn_table \<Rightarrow> u256 \<Rightarrow> u256 \<Rightarrow> u256 \<Rightarrow> 'h vm \<Rightarrow> 'h res" where
  "create_call H endowment initOff initSize v =
    (let g = sint (m_io_gas v);
         g = (if m_rev v \<ge> TVMC_TANGERINE_WHISTLE then g - g sdiv 64 else g) in
     bindE (mem_read (unat (ucast initOff :: u64)) (unat (ucast initSize :: u64)) v) (\<lambda>init.
     let msg = empty_message\<lparr>msg_gas := g, msg_input_data := init,
           msg_sender := msg_destination (m_message v),
           msg_depth := msg_depth (m_message v) + 1, msg_kind := TVMC_CREATE,
           msg_value := toTvmC endowment\<rparr>;
         (result, h) = call_host H (m_context v) msg;
         v = v\<lparr>m_context := h\<rparr> in
     bindE (setSPP (if res_status_code result = TVMC_SUCCESS
                    then fromAddress (res_create_address result) else 0) v) (\<lambda>v.
     Inr (v\<lparr>m_returnData := res_output_data result,
            m_io_gas := m_io_gas v - of_int (msg_gas msg - res_gas_left result)\<rparr>))))"

definition caseCreate :: "'h tvmc_fn_table \<Rightarrow> 'h vm \<Rightarrow> 'h res" where
  "caseCreate H v =
    (let v = v\<lparr>m_bounce := B_interpretCases, m_runGas := createGas\<rparr> in
     bindE (peek (if m_OP v = I_CREATE then 3 else 4) v) (\<lambda>s.
     let endowment = s ! 0;
         initOff = (if m_OP v = I_CREATE then s ! 1 else s ! 2);
         initSize = (if m_OP v = I_CREATE then s ! 2 else s ! 3) in
     bindE (memNeed initOff initSize v) (\<lambda>need.
     bindE (updateMem need v) (\<lambda>v.
     bindE (updateIOGas v) (\<lambda>v.
     let v = v\<lparr>m_returnData := []\<rparr>;
         balance = fromTvmC (get_balance H (m_context v) (msg_destination (m_message v))) in
     bindE (if balance \<ge> endowment \<and> msg_depth (m_message v) < 1024
       then create_call H endowment initOff initSize v
       else setSPP 0 v) (\<lambda>v.
     Inr (v\<lparr>m_PC := m_PC v + 1\<rparr>)))))))"

text \<open>
  The parts of \<^verbatim>\<open>caseCallSetup\<close>: the kind and flags of the message, the gas before memory and call
  gas, and the value or the delegated sender of the message with the balance check.
\<close>

definition haveValueArg :: "'h vm \<Rightarrow> bool" where
  "haveValueArg v = (m_OP v = I_CALL \<or> m_OP v = I_CALLCODE)"

definition call_kind_flags :: "'h vm \<Rightarrow> tvmc_message" where
  "call_kind_flags v =
    (let msg = empty_message\<lparr>msg_kind :=
           (if m_OP v = I_CALLCODE then TVMC_CALLCODE
            else if m_OP v = I_DELEGATECALL then TVMC_DELEGATECALL else TVMC_CALL)\<rparr>
     in if m_OP v = I_STATICCALL \<or> is_static v then msg\<lparr>msg_flags := TVMC_STATIC\<rparr> else msg)"

definition call_base_gas :: "'h tvmc_fn_table \<Rightarrow> u256 list \<Rightarrow> 'h vm \<Rightarrow> u64" where
  "call_base_gas H s v =
    (let g = (if m_rev v \<ge> TVMC_TANGERINE_WHISTLE then 700 else 40);
         destinationExists = account_exists H (m_context v) (asAddress (s ! 1));
         g = (if m_OP v = I_CALL \<and> \<not> destinationExists
                \<and> (s ! 2 > 0 \<or> m_rev v < TVMC_SPURIOUS_DRAGON)
              then g + callNewAccount else g)
     in if haveValueArg v \<and> s ! 2 > 0 then g + valueTransferGas else g)"

definition call_value :: "'h tvmc_fn_table \<Rightarrow> u256 list \<Rightarrow> 'h vm \<Rightarrow> tvmc_message \<Rightarrow> bool \<times> tvmc_message" where
  "call_value H s v msg =
    (if haveValueArg v
     then (if s ! 2 > 0
           then (fromTvmC (get_balance H (m_context v) (msg_destination (m_message v))) \<ge> s ! 2,
                 msg\<lparr>msg_value := toTvmC (s ! 2), msg_gas := msg_gas msg + callStipend\<rparr>)
           else (True, msg))
     else if m_OP v = I_DELEGATECALL
     then (True, msg\<lparr>msg_sender := msg_sender (m_message v), msg_value := msg_value (m_message v)\<rparr>)
     else (True, msg))"

text \<open>
  \<^verbatim>\<open>caseCallSetup\<close> returns whether to make the call, the message, and where in memory the output
  goes (offset and size).
\<close>

definition caseCallSetup ::
    "'h tvmc_fn_table \<Rightarrow> 'h vm \<Rightarrow> 'h exn + (bool \<times> tvmc_message \<times> nat \<times> nat) \<times> 'h vm" where
  "caseCallSetup H v =
    bindE (peek (if haveValueArg v then 7 else 6) v) (\<lambda>s.
    let msg = call_kind_flags v;
        v = v\<lparr>m_runGas := call_base_gas H s v\<rparr>;
        sizesOffset = (if haveValueArg v then 3 else 2);
        inputOffset = s ! sizesOffset;
        inputSize = s ! (sizesOffset + 1);
        outputOffset = s ! (sizesOffset + 2);
        outputSize = s ! (sizesOffset + 3) in
    bindE (memNeed inputOffset inputSize v) (\<lambda>inputMemNeed.
    bindE (memNeed outputOffset outputSize v) (\<lambda>outputMemNeed.
    let v = v\<lparr>m_newMemSize := max inputMemNeed outputMemNeed\<rparr> in
    bindE (updateMem (m_newMemSize v) v) (\<lambda>v.
    bindE (updateIOGas v) (\<lambda>v.
    let callGas = (if m_rev v \<ge> TVMC_TANGERINE_WHISTLE
          then min (s ! 0) (ucast (m_io_gas v - m_io_gas v div 64)) else s ! 0) in
    bindE (toInt63 (unat callGas) v) (\<lambda>g.
    bindE (updateIOGas (v\<lparr>m_runGas := g\<rparr>)) (\<lambda>v.
    bindE (mem_read (unat (ucast inputOffset :: u64)) (unat (ucast inputSize :: u64)) v) (\<lambda>input.
    let (balanceOk, msg) = call_value H s v (msg\<lparr>msg_gas := uint g,
          msg_destination := asAddress (s ! 1), msg_sender := msg_destination (m_message v),
          msg_input_data := input\<rparr>) in
    Inr ((balanceOk \<and> msg_depth (m_message v) < 1024, msg,
      unat (ucast outputOffset :: u64), unat (ucast outputSize :: u64)), v)))))))))"

text \<open>Make the call, or put 0 and give the gas back.\<close>

definition make_call :: "'h tvmc_fn_table \<Rightarrow> bool \<Rightarrow> tvmc_message \<Rightarrow> nat \<Rightarrow> nat \<Rightarrow> 'h vm \<Rightarrow> 'h res" where
  "make_call H ok msg outOff outSize v =
    (if ok
     then
       (let (result, h) = call_host H (m_context v) msg;
            v = v\<lparr>m_context := h, m_returnData := res_output_data result\<rparr> in
        bindE (mem_write outOff (take outSize (res_output_data result)) v) (\<lambda>v.
        bindE (setSPP (if res_status_code result = TVMC_SUCCESS then 1 else 0) v) (\<lambda>v.
        Inr (v\<lparr>m_io_gas := m_io_gas v + of_int (res_gas_left result)\<rparr>))))
     else
       bindE (setSPP 0 v) (\<lambda>v.
       Inr (v\<lparr>m_io_gas := m_io_gas v + of_int (msg_gas msg)\<rparr>)))"

definition caseCall :: "'h tvmc_fn_table \<Rightarrow> 'h vm \<Rightarrow> 'h res" where
  "caseCall H v =
    (let v = v\<lparr>m_bounce := B_interpretCases, m_returnData := []\<rparr> in
     bindE (caseCallSetup H v) (\<lambda>((ok, msg, outOff, outSize), v).
     bindE (make_call H ok msg outOff outSize v) (\<lambda>v.
     Inr (v\<lparr>m_PC := m_PC v + 1\<rparr>))))"

section \<open>Definitions: preparing the code\<close>

definition copyCode :: "nat \<Rightarrow> 'h vm \<Rightarrow> 'h vm" where
  "copyCode extraBytes v = v\<lparr>m_code := m_pCode v @ replicate extraBytes 0\<rparr>"

text \<open>
  The scan that builds the jump table: at each position the opcode decides whether the byte is
  replaced, whether it is a destination, and how far the scan moves.
\<close>

function scan_loop :: "nat \<Rightarrow> nat \<Rightarrow> bytes \<Rightarrow> nat list \<Rightarrow> bytes \<times> nat list" where
  "scan_loop nBytes pc code dests =
    (if pc < nBytes
     then (let op = uint (code ! pc);
               code' = (if op = I_PUSHC \<or> op = I_JUMPC \<or> op = I_JUMPCI
                        then code[pc := of_int I_INVALID] else code)
           in
           if op = I_JUMPDEST then scan_loop nBytes (pc + 1) code' (dests @ [pc])
           else if I_PUSH1 \<le> op \<and> op \<le> I_PUSH32
           then scan_loop nBytes (pc + nat (op - I_PUSH1 + 1) + 1) code' dests
           else scan_loop nBytes (pc + 1) code' dests)
     else (code, dests))"
  by pat_completeness auto
termination
  by (relation "measure (\<lambda>(nBytes, pc, code, dests). nBytes - pc)") auto

declare scan_loop.simps [simp del]

definition optimize :: "'h vm \<Rightarrow> 'h vm" where
  "optimize v =
    (let v = copyCode 33 v;
         (code, dests) = scan_loop (length (m_pCode v)) 0 (m_code v) (m_jumpDests v)
     in v\<lparr>m_code := code, m_jumpDests := dests\<rparr>)"

definition initEntry :: "'h vm \<Rightarrow> 'h vm" where
  "initEntry v = optimize (v\<lparr>m_bounce := B_interpretCases\<rparr>)"

section \<open>Definitions: the interpreter loop\<close>

text \<open>
  One turn of the indirect-threaded interpreter: the case of the fetched instruction, then, if
  the case does not return, the fetch of the next one.
\<close>

fun cases_loop :: "(bytes \<Rightarrow> h256) \<Rightarrow> 'h tvmc_fn_table \<Rightarrow> nat \<Rightarrow> 'h vm \<Rightarrow> 'h res option" where
  "cases_loop K H 0 v = None"
| "cases_loop K H (Suc fuel) v =
    (case jump_dispatch K H v of
      Inl e \<Rightarrow> Some (Inl e)
    | Inr (Leave, v) \<Rightarrow> Some (Inr v)
    | Inr (Fetch, v) \<Rightarrow>
        (case fetchInstruction v of
          Inl e \<Rightarrow> Some (Inl e)
        | Inr v \<Rightarrow> cases_loop K H fuel v))"

definition interpretCases :: "(bytes \<Rightarrow> h256) \<Rightarrow> 'h tvmc_fn_table \<Rightarrow> nat \<Rightarrow> 'h vm \<Rightarrow> 'h res option" where
  "interpretCases K H fuel v =
    (case fetchInstruction v of
      Inl e \<Rightarrow> Some (Inl e)
    | Inr v \<Rightarrow> cases_loop K H fuel v)"

text \<open>The trampoline \<^verbatim>\<open>do (this->*m_bounce)(); while (m_bounce)\<close>; it starts at \<^verbatim>\<open>initEntry\<close>.\<close>

fun bounce_loop :: "(bytes \<Rightarrow> h256) \<Rightarrow> 'h tvmc_fn_table \<Rightarrow> nat \<Rightarrow> 'h vm \<Rightarrow> 'h res option" where
  "bounce_loop K H 0 v = None"
| "bounce_loop K H (Suc fuel) v =
    (case m_bounce v of
      B_null \<Rightarrow> Some (Inr v)
    | B_initEntry \<Rightarrow> bounce_loop K H fuel (initEntry v)
    | B_interpretCases \<Rightarrow>
        (case interpretCases K H fuel v of
          None \<Rightarrow> None
        | Some (Inl e) \<Rightarrow> Some (Inl e)
        | Some (Inr v) \<Rightarrow> bounce_loop K H fuel v)
    | B_caseCreate \<Rightarrow>
        (case caseCreate H v of Inl e \<Rightarrow> Some (Inl e) | Inr v \<Rightarrow> bounce_loop K H fuel v)
    | B_caseCall \<Rightarrow>
        (case caseCall H v of Inl e \<Rightarrow> Some (Inl e) | Inr v \<Rightarrow> bounce_loop K H fuel v))"

text \<open>A fresh machine: the member initialisers of \<^verbatim>\<open>VM.h\<close>.\<close>

definition new_vm :: "'h \<Rightarrow> tvmc_revision \<Rightarrow> tvmc_message \<Rightarrow> bytes \<Rightarrow> 'h vm" where
  "new_vm h rv msg code =
    \<lparr>m_io_gas = 0, m_context = h, m_rev = rv, m_message = msg, m_tx_context = None,
     m_bounce = B_null, m_output = [], m_mem = [], m_pCode = code, m_code = [], m_returnData = [],
     m_stack = replicate stackLimit 0, m_OP = 0, m_PC = 0, m_SP = stackLimit, m_SPP = stackLimit,
     m_runGas = 0, m_newMemSize = 0, m_copyMemSize = 0, m_jumpDests = []\<rparr>"

definition exec :: "(bytes \<Rightarrow> h256) \<Rightarrow> 'h tvmc_fn_table \<Rightarrow> nat \<Rightarrow> 'h \<Rightarrow> tvmc_revision \<Rightarrow>
    tvmc_message \<Rightarrow> bytes \<Rightarrow> 'h vm \<Rightarrow> 'h res option" where
  "exec K H fuel h rv msg code v =
    bounce_loop K H fuel (v\<lparr>m_context := h, m_rev := rv, m_message := msg,
      m_io_gas := of_int (msg_gas msg), m_PC := 0, m_pCode := code, m_bounce := B_initEntry\<rparr>)"

text \<open>
  The C entry point on an instance of the machine: the result starts out zeroed, the handlers
  turn an exception into a status code in the order of the source, and only success and revert set
  gas and output.  The exceptions of the interpreter are all derived from \<^verbatim>\<open>VMException\<close>; the
  handler \<^verbatim>\<open>catch (...)\<close> is left with \<open>Undefined\<close>.  The host state at the end comes along.
\<close>

definition is_VMException :: "vm_exception \<Rightarrow> bool" where
  "is_VMException e = (e \<noteq> Undefined)"

definition execute :: "(bytes \<Rightarrow> h256) \<Rightarrow> 'h tvmc_fn_table \<Rightarrow> nat \<Rightarrow> 'h vm \<Rightarrow> 'h \<Rightarrow> tvmc_revision \<Rightarrow>
    tvmc_message \<Rightarrow> bytes \<Rightarrow> (tvmc_result \<times> 'h) option" where
  "execute K H fuel vm h rv msg code =
    (let empty = \<lparr>res_status_code = TVMC_SUCCESS, res_gas_left = 0, res_output_data = [],
           res_create_address = replicate 20 0\<rparr> in
     case exec K H fuel h rv msg code vm of
       None \<Rightarrow> None
     | Some (Inr v) \<Rightarrow> Some (empty\<lparr>res_gas_left := sint (m_io_gas v), res_output_data := m_output v\<rparr>,
         m_context v)
     | Some (Inl (RevertInstruction out, v)) \<Rightarrow> Some (empty\<lparr>res_status_code := TVMC_REVERT,
         res_gas_left := sint (m_io_gas v), res_output_data := out\<rparr>, m_context v)
     | Some (Inl (e, v)) \<Rightarrow> Some (empty\<lparr>res_status_code :=
         (if is_VMException e then TVMC_FAILURE else TVMC_INTERNAL_ERROR)\<rparr>, m_context v))"

end
