(* ===== verification/VMSafety.thy ===== *)
theory VMSafety
  imports VMExec
begin

text \<open>
  What every case of the interpreter keeps: the machine's arrays are never accessed outside
  their bounds, gas only decreases, and strictly before each further fetch, and a static call
  leaves the host state alone.  The facts are proved case by case with a small calculus of
  postconditions and then collected over the jump table.
\<close>

unbundle bit_operations_syntax

section \<open>Invariants\<close>

text \<open>The machine between two instructions; buffers are shorter than the 64-bit address space.\<close>

definition wf :: "'h vm \<Rightarrow> bool" where
  "wf v \<longleftrightarrow>
    length (m_stack v) = stackLimit \<and> m_SPP v \<le> stackLimit
    \<and> length (m_code v) = length (m_pCode v) + 33
    \<and> (\<forall>i. length (m_pCode v) \<le> i \<longrightarrow> i < length (m_code v) \<longrightarrow> m_code v ! i = 0)
    \<and> m_PC v < length (m_code v)
    \<and> (\<forall>d. d \<in> set (m_jumpDests v) \<longrightarrow> d < length (m_pCode v)) \<and> sorted (m_jumpDests v)
    \<and> length (m_mem v) < 2 ^ 64 \<and> length (m_pCode v) < 2 ^ 64
    \<and> length (msg_input_data (m_message v)) < 2 ^ 64 \<and> length (m_returnData v) < 2 ^ 64
    \<and> unat (m_io_gas v) < 2 ^ 63"

text \<open>The machine after a successful fetch of an instruction with the given metric.\<close>

definition fetched :: "Instruction \<Rightarrow> InstructionMetric \<Rightarrow> 'h vm \<Rightarrow> bool" where
  "fetched op mt v \<longleftrightarrow>
    m_OP v = op \<and> op = uint (m_code v ! m_PC v)
    \<and> m_SP v + args mt \<le> stackLimit \<and> ret mt \<le> m_SP v + args mt
    \<and> m_SPP v = m_SP v + args mt - ret mt
    \<and> m_runGas v = tierStepGas (gasPriceTier mt) \<and> m_copyMemSize v = 0
    \<and> m_bounce v = B_interpretCases"

text \<open>From \<open>v0\<close> on, gas has not grown and, in a static call, the host state is the same.\<close>

definition spent :: "'h vm \<Rightarrow> 'h vm \<Rightarrow> bool" where
  "spent v0 v \<longleftrightarrow> m_io_gas v \<le> m_io_gas v0 \<and> (is_static v0 \<longrightarrow> m_context v = m_context v0)"

definition same_frame :: "'h vm \<Rightarrow> 'h vm \<Rightarrow> bool" where
  "same_frame v0 v \<longleftrightarrow>
    m_pCode v = m_pCode v0 \<and> m_code v = m_code v0 \<and> m_jumpDests v = m_jumpDests v0
    \<and> m_message v = m_message v0 \<and> m_rev v = m_rev v0 \<and> m_SPP v = m_SPP v0
    \<and> length (m_stack v) = length (m_stack v0) \<and> length (m_mem v) < 2 ^ 64
    \<and> length (m_returnData v) < 2 ^ 64"

text \<open>
  The exceptions that may end a run: none is an access outside an array, and a revert needs the
  Byzantium revision.
\<close>

definition allowed :: "tvmc_revision \<Rightarrow> vm_exception \<Rightarrow> bool" where
  "allowed rv e \<longleftrightarrow>
    (case e of Undefined \<Rightarrow> False | RevertInstruction _ \<Rightarrow> TVMC_BYZANTIUM \<le> rv | _ \<Rightarrow> True)"

lemma allowed_simps [simp]:
  "allowed rv BadInstruction" "allowed rv BadJumpDestination" "allowed rv OutOfGas" "allowed rv OutOfStack"
  "allowed rv StackUnderflow" "allowed rv DisallowedStateChange" "allowed rv BufferOverrun"
  "allowed rv (RevertInstruction out) \<longleftrightarrow> TVMC_BYZANTIUM \<le> rv" "\<not> allowed rv Undefined"
  by (simp_all add: allowed_def)

definition post :: "'h vm \<Rightarrow> 'h outcome \<Rightarrow> bool" where
  "post v0 r \<longleftrightarrow>
    (case r of
      Inl (e, v) \<Rightarrow> allowed (m_rev v0) e \<and> spent v0 v
    | Inr (Fetch, v) \<Rightarrow> same_frame v0 v \<and> spent v0 v \<and> m_io_gas v < m_io_gas v0
        \<and> m_PC v < length (m_code v0) \<and> m_bounce v = B_interpretCases
    | Inr (Leave, v) \<Rightarrow> same_frame v0 v \<and> spent v0 v \<and> m_PC v = m_PC v0
        \<and> (m_bounce v = B_null
           \<or> v = v0\<lparr>m_bounce := B_caseCall\<rparr>
             \<and> m_OP v0 \<in> {I_CALL, I_CALLCODE, I_DELEGATECALL, I_STATICCALL}
           \<or> v = v0\<lparr>m_bounce := B_caseCreate\<rparr> \<and> m_OP v0 = I_CREATE \<and> \<not> is_static v0))"

text \<open>A case is good for an opcode and its metric if it establishes the postcondition.\<close>

definition good :: "Instruction \<Rightarrow> InstructionMetric \<Rightarrow> 'h case_block \<Rightarrow> bool" where
  "good op mt b \<longleftrightarrow> (\<forall>v. wf v \<longrightarrow> fetched op mt v \<longrightarrow> post v (b v))"

text \<open>
  What the machine relies on in a host: \<open>copy_code\<close> writes no more than the buffer holds, and
  a call returns no more gas than it was given and an output that fits the address space, and
  with the static flag leaves the host state alone.
\<close>

definition host_ok :: "'h tvmc_fn_table \<Rightarrow> bool" where
  "host_ok H \<longleftrightarrow>
    (\<forall>h a off n. length (copy_code H h a off n) \<le> n)
    \<and> (\<forall>h m. 0 \<le> msg_gas m \<longrightarrow> 0 \<le> res_gas_left (fst (call_host H h m))
          \<and> res_gas_left (fst (call_host H h m)) \<le> msg_gas m)
    \<and> (\<forall>h m. length (res_output_data (fst (call_host H h m))) < 2 ^ 64)
    \<and> (\<forall>h m. msg_flags m AND TVMC_STATIC \<noteq> 0 \<longrightarrow> snd (call_host H h m) = h)"

text \<open>
  A host without state: the answers of the null implementation of \<^verbatim>\<open>ExtVMFace\<close>, and calls fail.
  It shows that the contract can be kept and serves the examples.
\<close>

definition null_host :: "'h tvmc_fn_table" where
  "null_host = \<lparr>account_exists = (\<lambda>_ _. False), get_storage = (\<lambda>_ _ _. replicate 32 0),
    set_storage = (\<lambda>h _ _ _. h), get_balance = (\<lambda>_ _. replicate 32 0), get_code_size = (\<lambda>_ _. 0),
    copy_code = (\<lambda>_ _ _ _. []), selfdestruct = (\<lambda>h _ _. h),
    call_host = (\<lambda>h _. (\<lparr>res_status_code = TVMC_FAILURE, res_gas_left = 0, res_output_data = [],
      res_create_address = replicate 20 0\<rparr>, h)),
    get_tx_context = (\<lambda>_. \<lparr>tx_gas_price = replicate 32 0, tx_origin = replicate 20 0,
      block_coinbase = replicate 20 0, block_number = 0, block_timestamp = 0, block_gas_limit = 0,
      block_difficulty = replicate 32 0\<rparr>),
    get_block_hash = (\<lambda>_ _. replicate 32 0), emit_log = (\<lambda>h _ _ _. h)\<rparr>"

lemma host_ok_null: "host_ok null_host"
  by (simp add: host_ok_def null_host_def)

section \<open>A calculus of postconditions\<close>

lemma post_throw [intro]: "allowed (m_rev v0) e \<Longrightarrow> spent v0 v \<Longrightarrow> post v0 (throw e v)"
  by (simp add: post_def throw_def)

lemma word_sub_le_self: "(b :: u64) \<le> a \<Longrightarrow> a - b \<le> a"
  by (simp add: word_le_nat_alt unat_sub)

lemma word_sub_less_self: "(b :: u64) \<le> a \<Longrightarrow> 0 < b \<Longrightarrow> a - b < a"
  by (simp add: word_le_nat_alt word_less_nat_alt unat_sub)

lemma post_updateIOGas:
  assumes "spent v0 v"
    and "m_runGas v \<le> m_io_gas v \<Longrightarrow> post v0 (f (v\<lparr>m_io_gas := m_io_gas v - m_runGas v\<rparr>))"
  shows "post v0 (bindE (updateIOGas v) f)"
  using assms by (auto simp: updateIOGas_def post_def throw_def not_less)

lemma post_peek:
  assumes "m_SP v + n \<le> length (m_stack v)"
    and "\<And>s. length s = n \<Longrightarrow> post v0 (f s)"
  shows "post v0 (bindE (peek n v) f)"
  using assms by (simp add: peek_def)

lemma post_setSPP:
  assumes "m_SPP v < length (m_stack v)"
    and "post v0 (f (v\<lparr>m_stack := (m_stack v)[m_SPP v := x]\<rparr>))"
  shows "post v0 (bindE (setSPP x v) f)"
  using assms by (simp add: setSPP_def)

lemma post_setSP:
  assumes "m_SP v + i < length (m_stack v)"
    and "post v0 (f (v\<lparr>m_stack := (m_stack v)[m_SP v + i := x]\<rparr>))"
  shows "post v0 (bindE (setSP i x v) f)"
  using assms by (simp add: setSP_def)

lemma post_toInt63:
  assumes "spent v0 v"
    and "x < 2 ^ 63 \<Longrightarrow> unat (of_nat x :: u64) = x \<Longrightarrow> post v0 (f (of_nat x))"
  shows "post v0 (bindE (toInt63 x v) f)"
  by (cases rule: toInt63_cases [where x = x and v = v]) (use assms in \<open>auto simp: post_def\<close>)

lemma post_memNeed:
  assumes "spent v0 v"
    and "\<And>need. unat need < 2 ^ 63 \<Longrightarrow> unat need = (if sz = 0 then 0 else unat off + unat sz) \<Longrightarrow>
      post v0 (f need)"
  shows "post v0 (bindE (memNeed off sz v) f)"
  by (cases rule: memNeed_cases [where off = off and sz = sz and v = v])
    (use assms in \<open>auto simp: post_def\<close>)

lemma mem_grown:
  "m \<le> length xs + (mem_round m - length xs)"
  using mem_round_bounds(1) [of m] by linarith

lemma post_updateMem:
  assumes "spent v0 v" and "length (m_mem v) < 2 ^ 64" and "unat need < 2 ^ 64 - 31"
    and "unat (m_copyMemSize v) < 2 ^ 63"
    and "unat (m_runGas v) + copy_cost (unat (m_copyMemSize v)) \<le> 2 ^ 63"
    and "\<And>nm g mem. m_runGas v \<le> g \<Longrightarrow> unat need \<le> length mem \<Longrightarrow> length mem < 2 ^ 64 \<Longrightarrow>
      post v0 (f (v\<lparr>m_newMemSize := nm, m_runGas := g, m_mem := mem\<rparr>))"
  shows "post v0 (bindE (updateMem need v) f)"
  using assms(2-5)
proof (cases rule: updateMem_cases)
  case (1 v')
  then show ?thesis
    using assms(1) by (simp add: post_def spent_def)
next
  case (2 n g)
  have "unat (of_nat g :: u64) = g"
    using 2(3) by (simp add: unat_of_nat)
  then have "m_runGas v \<le> of_nat g"
    using 2(2) by (simp add: word_le_nat_alt)
  moreover have "unat need \<le> length (m_mem v @ replicate (n - length (m_mem v)) 0)"
    using mem_grown [of "unat need" "m_mem v"] 2(1) by simp
  moreover have "length (m_mem v @ replicate (n - length (m_mem v)) 0) < 2 ^ 64"
    using 2(5) assms(2) by simp
  ultimately show ?thesis
    using assms(6) 2(6) by simp
qed

lemma post_mem_read:
  assumes "n = 0 \<or> off + n \<le> length (m_mem v)" and "\<And>d. post v0 (f d)"
  shows "post v0 (bindE (mem_read off n v) f)"
  using assms by (auto simp: mem_read_def)

lemma post_mem_write:
  assumes "bs = [] \<or> off + length bs \<le> length (m_mem v)"
    and "\<And>mem. length mem = length (m_mem v) \<Longrightarrow> post v0 (f (v\<lparr>m_mem := mem\<rparr>))"
  shows "post v0 (bindE (mem_write off bs v) f)"
proof (cases "bs = []")
  case True
  then show ?thesis
    using assms(2) [of "m_mem v"] by (simp add: mem_write_def)
next
  case False
  then show ?thesis
    using assms by (simp add: mem_write_def)
qed

lemma post_code_read:
  assumes "pc < length (m_code v)" and "\<And>b. post v0 (f b)"
  shows "post v0 (bindE (code_read pc v) f)"
  using assms by (simp add: code_read_def)

lemma post_if:
  assumes "c \<Longrightarrow> post v0 a" and "\<not> c \<Longrightarrow> post v0 b"
  shows "post v0 (if c then a else b)"
  using assms by simp

lemma post_bind_if:
  assumes "c \<Longrightarrow> post v0 (bindE a f)" and "\<not> c \<Longrightarrow> post v0 (bindE b f)"
  shows "post v0 (bindE (if c then a else b) f)"
  using assms by simp

lemma post_Inr: "post v0 (f x) \<Longrightarrow> post v0 (bindE (Inr x) f)"
  by simp

lemma post_assoc:
  "post v0 (bindE a (\<lambda>x. bindE (f x) g)) \<Longrightarrow> post v0 (bindE (bindE a f) g)"
  by (cases a) simp_all

lemma ucast_le: "unat (ucast (x :: u256) :: u64) \<le> unat x"
  by (simp add: unsigned_ucast_eq take_bit_eq_mod)

text \<open>A load from the input stays inside it, whatever the offset; it is the word at the offset of
  the input padded with zeros.\<close>

definition padded_word :: "bytes \<Rightarrow> nat \<Rightarrow> bytes" where
  "padded_word data i = map (\<lambda>k. if k < length data then data ! k else 0) [i..<i + 32]"

lemma calldata_loop_eq:
  "calldata_loop d is v = Inr (map (\<lambda>k. if k < length d then d ! k else 0) is)"
  by (induction "is") (auto simp: buf_at_def)

lemma calldataload_Inr: "\<exists>x. calldataload d i v = Inr x"
proof (cases "unat i + 31 < length d")
  case True
  then show ?thesis
    using ucast_le [of i] by (simp add: calldataload_def buf_read_def)
next
  case False
  then show ?thesis
    by (cases "length d \<le> unat i") (simp_all add: calldataload_def Let_def calldata_loop_eq)
qed

lemma calldataload_eq:
  assumes "length d + 32 \<le> 2 ^ 64"
  shows "calldataload d i v = Inr (fromBigEndian (padded_word d (unat i)))"
proof -
  have u: "unat (ucast i :: u64) = unat i" if "unat i < length d"
    using that assms by (simp add: unsigned_ucast_eq take_bit_nat_eq_self)
  have e: "unat ((ucast i :: u64) + 32) = unat i + 32" if "unat i < length d"
    using that assms u by (subst unat_add_lem [THEN iffD1]) simp_all
  have "unat i + 31 < length d \<Longrightarrow> take 32 (drop (unat i) d) = padded_word d (unat i)"
    by (intro nth_equalityI) (auto simp: padded_word_def)
  moreover have "unat i \<ge> length d \<Longrightarrow> padded_word d (unat i) = replicate 32 0"
    by (intro nth_equalityI) (auto simp: padded_word_def)
  then have "unat i \<ge> length d \<Longrightarrow> (fromBigEndian (padded_word d (unat i)) :: u256) = 0"
    by (simp add: fromBigEndian_eq)
  moreover have "overwrite (replicate 32 0) 0 (padded_word d (unat i)) = padded_word d (unat i)"
    by (simp add: overwrite_def padded_word_def)
  ultimately show ?thesis
    using u e
    by (auto simp: calldataload_def Let_def buf_read_def calldata_loop_eq padded_word_def [symmetric])
qed

lemma post_calldataload:
  "(\<And>x. post v0 (f x)) \<Longrightarrow> post v0 (bindE (calldataload d i v) f)"
  using calldataload_Inr [of d i v] by auto

lemmas post_rules = post_calldataload post_if post_bind_if post_Inr post_assoc post_updateIOGas post_peek post_setSPP post_setSP post_toInt63 post_memNeed
  post_updateMem post_mem_read post_mem_write post_code_read

lemma post_NEXT:
  "same_frame v0 v \<Longrightarrow> spent v0 v \<Longrightarrow> m_io_gas v < m_io_gas v0 \<Longrightarrow>
    m_PC v + 1 < length (m_code v0) \<Longrightarrow> m_bounce v = B_interpretCases \<Longrightarrow> post v0 (NEXT v)"
  by (simp add: post_def NEXT_def spent_def same_frame_def)

lemma post_CONTINUE:
  "same_frame v0 v \<Longrightarrow> spent v0 v \<Longrightarrow> m_io_gas v < m_io_gas v0 \<Longrightarrow>
    m_PC v < length (m_code v0) \<Longrightarrow> m_bounce v = B_interpretCases \<Longrightarrow> post v0 (CONTINUE v)"
  by (simp add: post_def CONTINUE_def)

lemma post_BREAK_null:
  "same_frame v0 v \<Longrightarrow> spent v0 v \<Longrightarrow> m_PC v = m_PC v0 \<Longrightarrow> m_bounce v = B_null \<Longrightarrow>
    post v0 (BREAK v)"
  by (simp add: post_def BREAK_def)

text \<open>An instruction other than \<^verbatim>\<open>STOP\<close> lies inside the user's code.\<close>

lemma fetched_inside:
  assumes "wf v" and "fetched op mt v" and "op \<noteq> 0"
  shows "m_PC v < length (m_pCode v)"
  using assms by (auto simp: wf_def fetched_def not_le[symmetric])

lemma good_throw: "(\<And>rv. allowed rv e) \<Longrightarrow> good op mt (throw e)"
  by (auto simp: good_def spent_def)

lemma goodI:
  assumes "\<And>v. wf v \<Longrightarrow> fetched op mt v \<Longrightarrow> (op \<noteq> 0 \<Longrightarrow> m_PC v < length (m_pCode v)) \<Longrightarrow> post v (b v)"
  shows "good op mt b"
  using assms fetched_inside by (auto simp: good_def)

lemmas frame_simps = wf_def fetched_def metric_def spent_def same_frame_def

lemma good_compute_set:
  assumes "n \<le> a" and "0 < r" and "op \<noteq> 0" and "\<And>v. 0 < g v"
  shows "good op (metric t a r) (\<lambda>v. compute n (f v) (v\<lparr>m_runGas := g v\<rparr>))"
  unfolding compute_def using assms
  by (intro goodI post_rules post_NEXT)
    (auto simp: frame_simps intro: word_sub_le_self word_sub_less_self)

lemma good_compute:
  assumes "n \<le> a" and "0 < r" and "op \<noteq> 0" and "0 < tierStepGas t"
  shows "good op (metric t a r) (\<lambda>v. compute n (f v) v)"
  unfolding compute_def using assms
  by (intro goodI post_rules post_NEXT)
    (auto simp: frame_simps intro: word_sub_le_self word_sub_less_self)

lemma good_guard:
  assumes "good op mt b" and "\<And>rv. allowed rv e"
  shows "good op mt (\<lambda>v. if c v then throw e v else b v)"
  using assms by (auto simp: good_def spent_def)

lemma tier_pos [simp]:
  "0 < tierStepGas Base" "0 < tierStepGas VeryLow" "0 < tierStepGas Low" "0 < tierStepGas Mid"
  "0 < tierStepGas High"
  by (simp_all add: tierStepGas_def)

section \<open>The cases one by one\<close>

subsection \<open>Ordinary instructions\<close>

lemma good_binary:
  "good 0x01 (metric VeryLow 2 1) op_ADD" "good 0x02 (metric Low 2 1) op_MUL"
  "good 0x03 (metric VeryLow 2 1) op_SUB" "good 0x04 (metric Low 2 1) op_DIV"
  "good 0x06 (metric Low 2 1) op_MOD" "good 0x07 (metric Low 2 1) op_SMOD"
  "good 0x08 (metric Mid 3 1) op_ADDMOD" "good 0x09 (metric Mid 3 1) op_MULMOD"
  "good 0x10 (metric VeryLow 2 1) op_LT" "good 0x11 (metric VeryLow 2 1) op_GT"
  "good 0x12 (metric VeryLow 2 1) op_SLT" "good 0x13 (metric VeryLow 2 1) op_SGT"
  "good 0x14 (metric VeryLow 2 1) op_EQ" "good 0x15 (metric VeryLow 1 1) op_ISZERO"
  "good 0x16 (metric VeryLow 2 1) op_AND" "good 0x17 (metric VeryLow 2 1) op_OR"
  "good 0x18 (metric VeryLow 2 1) op_XOR" "good 0x19 (metric VeryLow 1 1) op_NOT"
  "good 0x1a (metric VeryLow 2 1) op_BYTE"
  unfolding op_ADD_def op_MUL_def op_SUB_def op_DIV_def op_MOD_def op_SMOD_def op_ADDMOD_def
    op_MULMOD_def op_LT_def op_GT_def op_SLT_def op_SGT_def op_EQ_def op_ISZERO_def op_AND_def
    op_OR_def op_XOR_def op_NOT_def op_BYTE_def
  by (rule good_compute; simp)+

lemma good_shifts:
  "good 0x1b (metric VeryLow 2 1) op_SHL" "good 0x1c (metric VeryLow 2 1) op_SHR"
  "good 0x1d (metric VeryLow 2 1) op_SAR"
  unfolding op_SHL_def [abs_def] op_SHR_def [abs_def] op_SAR_def [abs_def]
  by (rule good_guard [OF good_compute]; simp)+

lemma good_fields:
  "good 0x30 (metric Base 0 1) op_ADDRESS" "good 0x33 (metric Base 0 1) op_CALLER"
  "good 0x34 (metric Base 0 1) op_CALLVALUE" "good 0x36 (metric Base 0 1) op_CALLDATASIZE"
  "good 0x38 (metric Base 0 1) op_CODESIZE" "good 0x58 (metric Base 0 1) op_PC"
  "good 0x59 (metric Base 0 1) op_MSIZE"
  unfolding op_ADDRESS_def [abs_def] op_CALLER_def [abs_def] op_CALLVALUE_def [abs_def]
    op_CALLDATASIZE_def [abs_def] op_CODESIZE_def [abs_def] op_PC_def [abs_def] op_MSIZE_def [abs_def]
  by (rule good_compute; simp)+

lemma good_RETURNDATASIZE: "good 0x3d (metric Base 0 1) op_RETURNDATASIZE"
  unfolding op_RETURNDATASIZE_def [abs_def] by (rule good_guard [OF good_compute]; simp)

lemma good_queries:
  "good 0x31 (metric Special 1 1) (op_BALANCE H)" "good 0x3b (metric Special 1 1) (op_EXTCODESIZE H)"
  "good 0x54 (metric Special 1 1) (op_SLOAD H)"
  unfolding op_BALANCE_def [abs_def] op_EXTCODESIZE_def [abs_def] op_SLOAD_def [abs_def] Let_def
  by (rule good_compute_set; simp)+

subsection \<open>Transaction context\<close>

lemma getTxContext_frame:
  obtains tx c where "getTxContext H v = (tx, v\<lparr>m_tx_context := c\<rparr>)"
  by (cases "m_tx_context v") (auto simp: getTxContext_def Let_def intro: that [of _ "m_tx_context v"])

lemma post_getTxContext:
  assumes "\<And>tx c. post v0 (f tx (v\<lparr>m_tx_context := c\<rparr>))"
  shows "post v0 (case getTxContext H v of (tx, v) \<Rightarrow> f tx v)"
  by (rule getTxContext_frame [of H v]) (use assms in simp)

lemma good_compute_tx:
  assumes "op \<noteq> 0" and "0 < tierStepGas t"
  shows "good op (metric t 0 1) (compute_tx H f)"
  unfolding compute_tx_def Let_def using assms
  by (intro goodI post_rules post_getTxContext post_NEXT)
    (auto simp: frame_simps intro: word_sub_le_self word_sub_less_self)

lemma good_tx:
  "good 0x32 (metric Base 0 1) (op_ORIGIN H)" "good 0x3a (metric Base 0 1) (op_GASPRICE H)"
  "good 0x41 (metric Base 0 1) (op_COINBASE H)" "good 0x42 (metric Base 0 1) (op_TIMESTAMP H)"
  "good 0x43 (metric Base 0 1) (op_NUMBER H)" "good 0x44 (metric Base 0 1) (op_DIFFICULTY H)"
  "good 0x45 (metric Base 0 1) (op_GASLIMIT H)"
  unfolding op_ORIGIN_def op_GASPRICE_def op_COINBASE_def op_TIMESTAMP_def op_NUMBER_def
    op_DIFFICULTY_def op_GASLIMIT_def
  by (rule good_compute_tx; simp)+

lemma good_BLOCKHASH: "good 0x40 (metric Special 1 1) (op_BLOCKHASH H)"
  unfolding op_BLOCKHASH_def Let_def
  by (intro goodI post_rules post_getTxContext post_NEXT)
    (auto simp: frame_simps intro: word_sub_le_self word_sub_less_self)

subsection \<open>Stack and code\<close>

lemma good_stack:
  "good 0x05 (metric Low 2 1) op_SDIV" "good 0x0b (metric Low 2 1) op_SIGNEXTEND"
  "good 0x35 (metric VeryLow 1 1) op_CALLDATALOAD" "good 0x50 (metric Base 1 0) op_POP"
  "good 0x5a (metric Base 0 1) op_GAS" "good 0x5b (metric Special 0 0) op_JUMPDEST"
  unfolding op_SDIV_def op_SIGNEXTEND_def op_CALLDATALOAD_def op_POP_def op_GAS_def op_JUMPDEST_def
  by (intro goodI post_rules post_NEXT;
    auto simp: frame_simps intro: word_sub_le_self word_sub_less_self)+

lemma good_DUP:
  assumes "op = 0x80 + int n" and "a = n + 1" and "r = n + 2"
  shows "good op (metric VeryLow a r) op_DUP"
  unfolding op_DUP_def Let_def using assms
  by (intro goodI post_rules post_NEXT)
    (auto simp: frame_simps intro: word_sub_le_self word_sub_less_self)

lemma good_SWAP:
  assumes "op = 0x90 + int n" and "a = n + 2"
  shows "good op (metric VeryLow a a) op_SWAP"
  unfolding op_SWAP_def Let_def using assms
  by (intro goodI post_rules post_NEXT)
    (auto simp: frame_simps nat_add_distrib intro: word_sub_le_self word_sub_less_self)

lemma good_PUSH1: "good 0x60 (metric VeryLow 0 1) op_PUSH1"
  unfolding op_PUSH1_def Let_def
  by (intro goodI post_rules post_CONTINUE)
    (auto simp: frame_simps intro: word_sub_le_self word_sub_less_self)

lemma push_loop_frame:
  assumes "m_PC v + n \<le> length (m_code v)"
  obtains x where "push_loop n val v = Inr (x, v\<lparr>m_PC := m_PC v + n\<rparr>)"
  using assms
proof (induction n arbitrary: val v thesis)
  case (Suc n)
  show ?case
    by (rule Suc.IH [where v = "v\<lparr>m_PC := m_PC v + 1\<rparr>"
          and val = "push_bit 8 val OR ucast (m_code v ! m_PC v)"])
      (use Suc.prems in \<open>auto simp: code_read_def\<close>)
qed simp

lemma post_push_loop:
  assumes "m_PC v + n \<le> length (m_code v)" and "\<And>x. post v0 (f x (v\<lparr>m_PC := m_PC v + n\<rparr>))"
  shows "post v0 (bindE (push_loop n val v) (\<lambda>(x, v). f x v))"
  by (rule push_loop_frame [OF assms(1), of val]) (use assms(2) in simp)

lemma good_PUSHN:
  assumes "op = 0x60 + int n" and "n < 32"
  shows "good op (metric VeryLow 0 1) op_PUSHN"
  unfolding op_PUSHN_def Let_def using assms
  by (intro goodI post_rules post_push_loop post_CONTINUE)
    (auto simp: frame_simps nat_add_distrib intro: word_sub_le_self word_sub_less_self)

subsection \<open>Jumps\<close>

text \<open>\<open>lower_bound\<close> splits a sorted list: everything before is smaller, nothing after is.\<close>

lemma lower_bound_spec:
  assumes "sorted xs" and "first + len \<le> length xs"
    and "\<And>i. i < first \<Longrightarrow> xs ! i < x" and "\<And>i. first + len \<le> i \<Longrightarrow> i < length xs \<Longrightarrow> x \<le> xs ! i"
  shows "lower_bound xs x first len \<le> length xs
    \<and> (\<forall>i. i < lower_bound xs x first len \<longrightarrow> xs ! i < x)
    \<and> (\<forall>i. lower_bound xs x first len \<le> i \<longrightarrow> i < length xs \<longrightarrow> x \<le> xs ! i)"
  using assms
proof (induction xs x first len rule: lower_bound.induct)
  case (1 xs x first len)
  let ?h = "len div 2" and ?m = "first + len div 2"
  show ?case
  proof (cases "len = 0")
    case True
    then show ?thesis
      using 1(4-6) by (simp add: lower_bound.simps)
  next
    case False
    then have m: "?m < length xs" "?m < first + len"
      using 1(4) by linarith+
    show ?thesis
    proof (cases "xs ! ?m < x")
      case True
      have lo: "xs ! i < x" if "i < ?m + 1" for i
        using sorted_nth_mono [OF 1(3), of i ?m] that m True by force
      have e: "?m + 1 + (len - ?h - 1) = first + len"
        using False by linarith
      show ?thesis
        using 1(1) [OF _ refl refl True 1(3)] 1(4,6) lo False True
        by (simp add: lower_bound.simps [of xs x first len] Let_def e)
    next
      case nl: False
      have hi: "x \<le> xs ! i" if "?m \<le> i" "i < length xs" for i
        using sorted_nth_mono [OF 1(3) that] nl by linarith
      show ?thesis
        using 1(2) [OF _ refl refl nl 1(3)] 1(5) hi False nl m
        by (simp add: lower_bound.simps [of xs x first len] Let_def)
    qed
  qed
qed

lemma binary_search_eq:
  assumes "sorted xs"
  shows "binary_search xs x \<longleftrightarrow> x \<in> set xs"
proof -
  let ?i = "lower_bound xs x 0 (length xs)"
  have s: "?i \<le> length xs" "\<And>j. j < ?i \<Longrightarrow> xs ! j < x"
      "\<And>j. ?i \<le> j \<Longrightarrow> j < length xs \<Longrightarrow> x \<le> xs ! j"
    using lower_bound_spec [OF assms, of 0 "length xs" x] by auto
  show ?thesis
  proof
    assume "binary_search xs x"
    then have "?i < length xs" "xs ! ?i = x"
      using s(1) s(3) [of ?i] by (auto simp: binary_search_def Let_def)
    then show "x \<in> set xs"
      by (metis nth_mem)
  next
    assume "x \<in> set xs"
    then obtain j where j: "j < length xs" "xs ! j = x"
      by (metis in_set_conv_nth)
    then have "?i \<le> j"
      using s(2) [of j] by force
    then have "xs ! ?i \<le> x"
      using sorted_nth_mono [OF assms, of ?i j] j by simp
    then show "binary_search xs x"
      using \<open>?i \<le> j\<close> j by (simp add: binary_search_def Let_def)
  qed
qed

lemma verifyJumpDest_eq:
  assumes "sorted (m_jumpDests v)"
  shows "verifyJumpDest dest v =
    (if unat dest < 2 ^ 63 \<and> unat dest \<in> set (m_jumpDests v) then Inr (unat dest)
     else Inl (BadJumpDestination, v))"
proof -
  have "unat (0x7FFFFFFFFFFFFFFF :: u256) = 2 ^ 63 - 1"
    by simp
  then have "dest \<le> 0x7FFFFFFFFFFFFFFF \<longleftrightarrow> unat dest \<le> 2 ^ 63 - 1"
    by (simp only: word_le_nat_alt)
  also have "\<dots> \<longleftrightarrow> unat dest < 2 ^ 63"
    by auto
  finally have d: "dest \<le> 0x7FFFFFFFFFFFFFFF \<longleftrightarrow> unat dest < 2 ^ 63" .
  have u: "unat (ucast dest :: u64) = unat dest" if "unat dest < 2 ^ 63"
    using that by (simp add: unsigned_ucast_eq take_bit_nat_eq_self)
  show ?thesis
    unfolding verifyJumpDest_def throw_def d binary_search_eq [OF assms] by (simp only: u cong: conj_cong if_cong)
qed

lemma post_verifyJumpDest:
  assumes "sorted (m_jumpDests v)" and "spent v0 v"
    and "unat dest \<in> set (m_jumpDests v) \<Longrightarrow> post v0 (f (unat dest))"
  shows "post v0 (bindE (verifyJumpDest dest v) f)"
  using assms by (auto simp: verifyJumpDest_eq post_def)

lemma good_jumps:
  "good 0x56 (metric Mid 1 0) op_JUMP" "good 0x57 (metric High 2 0) op_JUMPI"
  unfolding op_JUMP_def op_JUMPI_def
  by (intro goodI post_rules post_verifyJumpDest post_CONTINUE;
    auto simp: frame_simps intro: word_sub_le_self word_sub_less_self)+

end
