(* ===== verification/VMDispatch.thy ===== *)
theory VMDispatch
  imports VMSafety
begin

text \<open>
  The two ways to build the interpreter of \<^verbatim>\<open>VMConfig.h\<close>: with a jump table of label addresses and
  with a \<^verbatim>\<open>switch\<close> over the enumerators.
\<close>

section \<open>Lemmas\<close>

text \<open>The instructions that this build rejects share their behaviour with \<^verbatim>\<open>INVALID\<close>.\<close>

lemma rejected_eq:
  "op_CREATE2 = op_INVALID" "op_EIP615 = op_INVALID" "op_EIP616 = op_INVALID" "op_PUSHC = op_INVALID"
  "op_JUMPC = op_INVALID" "op_JUMPCI = op_INVALID"
  by (simp_all add: fun_eq_iff op_CREATE2_def op_EIP615_def op_EIP616_def op_PUSHC_def op_JUMPC_def
      op_JUMPCI_def op_INVALID_def)

text \<open>Looking up a label as a chain of comparisons.\<close>

fun case_lookup :: "(Instruction \<times> 'h case_block) list \<Rightarrow> 'h case_block \<Rightarrow> Instruction \<Rightarrow> 'h case_block" where
  "case_lookup [] d x = d"
| "case_lookup ((k, b) # xs) d x = (if x = k then b else case_lookup xs d x)"

lemma case_lookup_eq: "(case map_of t x of Some b \<Rightarrow> b | None \<Rightarrow> d) = case_lookup t d x"
  by (induction t d x rule: case_lookup.induct) auto

lemmas case_lookup_labels = case_lookup_eq [where t = "case_labels K H" and d = op_INVALID for K H,
  unfolded case_labels_def rejected_eq case_lookup.simps]

lemma switch_low:
  "map (\<lambda>i. case map_of (case_labels K H) (int i) of Some b \<Rightarrow> b | None \<Rightarrow> op_INVALID) [0..<128]
    = jumpTable_low K H"
  unfolding case_labels_def jumpTable_low_def upt_128 rejected_eq case_lookup_labels
  by (simp del: One_nat_def)

lemma switch_high:
  "map (\<lambda>i. case map_of (case_labels K H) (int i) of Some b \<Rightarrow> b | None \<Rightarrow> op_INVALID) [128..<256]
    = jumpTable_high K H"
  unfolding case_labels_def jumpTable_high_def rejected_eq case_lookup_labels
  by simp

lemma jumpTable_nth:
  assumes "i < 256"
  shows "jumpTable K H ! i = (case map_of (case_labels K H) (int i) of Some b \<Rightarrow> b | None \<Rightarrow> op_INVALID)"
proof -
  let ?f = "\<lambda>i. case map_of (case_labels K H) (int i) of Some b \<Rightarrow> b | None \<Rightarrow> op_INVALID"
  have "[0..<256] = [0..<128] @ [128..<256]"
    using upt_add_eq_append [of 0 128 128] by simp
  then have "map ?f [0..<256] = map ?f [0..<128] @ map ?f [128..<256]"
    by (simp only: map_append)
  then have "jumpTable K H = map ?f [0..<256]"
    by (simp only: switch_low switch_high jumpTable_def)
  then show ?thesis
    using assms by simp
qed

section \<open>Properties\<close>

text \<open>
  Claim C7. Dispatch through the jump table and dispatch through the \<^verbatim>\<open>switch\<close> run the same case
  with the same effect for each of the 256 opcodes, so the interpreter does not depend on the
  compiler that chooses between them.
\<close>
theorem dispatch_agrees:
  assumes "0 \<le> m_OP v" and "m_OP v < 256"
  shows "jump_dispatch K H v = switch_dispatch K H v"
proof -
  have "nat (m_OP v) < 256" "int (nat (m_OP v)) = m_OP v"
    using assms by simp_all
  then show ?thesis
    using jumpTable_nth [of "nat (m_OP v)" K H]
    by (simp add: jump_dispatch_def switch_dispatch_def split: option.splits)
qed

theorem dispatch_agrees_witness:
  "m_OP ((new_vm () TVMC_BYZANTIUM empty_message [0x5c])\<lparr>m_OP := 0x5c\<rparr>) = 0x5c
    \<and> jump_dispatch (\<lambda>_. []) null_host ((new_vm () TVMC_BYZANTIUM empty_message [0x5c])\<lparr>m_OP := 0x5c\<rparr>)
      = switch_dispatch (\<lambda>_. []) null_host ((new_vm () TVMC_BYZANTIUM empty_message [0x5c])\<lparr>m_OP := 0x5c\<rparr>)"
  using dispatch_agrees [of "(new_vm () TVMC_BYZANTIUM empty_message [0x5c])\<lparr>m_OP := 0x5c\<rparr>" "\<lambda>_. []" null_host]
  by simp

end
