(* ===== verification/VMCases.thy ===== *)
theory VMCases
  imports VMSafety
begin

text \<open>
  The safety of the remaining cases: those that grow memory, copy, log, write storage or leave
  the interpreter, and the collection of all cases over the jump table.
\<close>

unbundle bit_operations_syntax

section \<open>Cases that may expand memory\<close>

lemma unat_ucast64: "unat (x :: u256) < 2 ^ 64 \<Longrightarrow> unat (ucast x :: u64) = unat x"
  by (simp add: unsigned_ucast_eq take_bit_nat_eq_self)

lemma unat_ucast32_le: "unat (ucast (x :: u256) :: u32) \<le> unat x"
  by (simp add: unsigned_ucast_eq take_bit_nat_less_eq_self)

text \<open>A slice whose need was computed by \<open>memNeed\<close> survives the narrowing to 64 bits.\<close>

lemma slice_ok:
  assumes "unat need < 2 ^ 63" and "unat need = (if sz = 0 then 0 else unat off + unat sz)"
    and "unat need \<le> n"
  shows "unat (ucast (sz :: u256) :: u64) = 0
    \<or> unat (ucast (off :: u256) :: u64) + unat (ucast sz :: u64) \<le> n"
proof (cases "sz = 0")
  case False
  then have "unat off + unat sz < 2 ^ 63"
    using assms by simp
  then have "unat off < 2 ^ 64" "unat sz < 2 ^ 64"
    by simp_all
  then show ?thesis
    using assms False by (simp only: unat_ucast64) simp
qed simp

lemma copy_cost_le: "n < 2 ^ 63 \<Longrightarrow> copy_cost n \<le> 2 ^ 60"
proof -
  assume "n < 2 ^ 63"
  then have "(n + 31) div 32 \<le> (2 ^ 63 + 31) div 32"
    by (intro div_le_mono) simp
  then show ?thesis
    by (simp add: copy_cost_def)
qed

lemma copy_cost_0 [simp]: "copy_cost 0 = 0"
  by (simp add: copy_cost_def)

lemma word_sub_less_trans: "(r :: u64) \<le> g \<Longrightarrow> 0 < r \<Longrightarrow> g \<le> a \<Longrightarrow> a - g < a"
  by (rule word_sub_less_self) auto

lemma post_updateMem_word:
  assumes "x < 2 ^ 63" and "unat c \<le> 32"
    and "spent v0 v" and "length (m_mem v) < 2 ^ 64" and "m_copyMemSize v = 0"
    and "unat (m_runGas v) \<le> 2 ^ 63"
    and "\<And>nm g mem. m_runGas v \<le> g \<Longrightarrow> x + unat c \<le> length mem \<Longrightarrow> length mem < 2 ^ 64 \<Longrightarrow>
      post v0 (f (v\<lparr>m_newMemSize := nm, m_runGas := g, m_mem := mem\<rparr>))"
  shows "post v0 (bindE (updateMem (of_nat x + c) v) f)"
proof -
  have "unat (of_nat x + c :: u64) = x + unat c"
    using assms(1,2) by (subst unat_add_small) (auto simp: unat_of_nat)
  then show ?thesis
    using assms by (intro post_updateMem) auto
qed

lemma tier_small [simp]: "unat (tierStepGas t) \<le> 9223372036854775808"
  by (cases t) (simp_all add: tierStepGas_def)

lemma word_sub_less_tier: "tierStepGas t \<le> g \<Longrightarrow> 0 < tierStepGas t \<Longrightarrow> g \<le> a \<Longrightarrow> a - g < a"
  by (rule word_sub_less_trans)

lemma length_toBigEndian256 [simp]: "length (toBigEndian256 x) = 32"
  by (simp add: toBigEndian256_def toBigEndian_eq)

lemma ucast32_inside:
  assumes "unat (x :: u256) + k \<le> n"
  shows "unat (ucast x :: u32) + k \<le> n"
  using assms unat_ucast32_le [of x] by linarith

lemma good_memory_word:
  "good 0x51 (metric VeryLow 1 1) op_MLOAD" "good 0x52 (metric VeryLow 2 0) op_MSTORE"
  "good 0x53 (metric VeryLow 2 0) op_MSTORE8"
  unfolding op_MLOAD_def op_MSTORE_def op_MSTORE8_def
  by (intro goodI post_peek post_toInt63 post_updateMem_word post_updateIOGas post_mem_read
      post_mem_write post_setSPP post_NEXT;
    auto simp: frame_simps
      intro: word_sub_le_self word_sub_less_tier ucast32_inside ucast32_inside [where k = 1, simplified])+

text \<open>A slice of the operand stack's making, narrowed to 64 bits, lies inside the memory.\<close>

definition covered :: "u256 \<Rightarrow> u256 \<Rightarrow> bytes \<Rightarrow> bool" where
  "covered off sz mem \<longleftrightarrow> unat (ucast sz :: u64) = 0
    \<or> unat (ucast off :: u64) + unat (ucast sz :: u64) \<le> length mem"

lemma post_toInt63_word:
  assumes "spent v0 v" and "\<And>w. unat w = x \<Longrightarrow> unat w < 2 ^ 63 \<Longrightarrow> post v0 (f w)"
  shows "post v0 (bindE (toInt63 x v) f)"
  using assms by (intro post_toInt63) auto

lemma post_slice:
  assumes "spent v0 v" and "length (m_mem v) < 2 ^ 64"
    and "unat (m_copyMemSize v) < 2 ^ 63"
    and "unat (m_runGas v) + copy_cost (unat (m_copyMemSize v)) \<le> 2 ^ 63"
    and "\<And>nm g mem. m_runGas v \<le> g \<Longrightarrow> covered off sz mem \<Longrightarrow> length mem < 2 ^ 64 \<Longrightarrow>
      post v0 (f (v\<lparr>m_newMemSize := nm, m_runGas := g, m_mem := mem\<rparr>))"
  shows "post v0 (bindE (memNeed off sz v) (\<lambda>need. bindE (updateMem need v) f))"
proof (rule post_memNeed [OF assms(1)])
  fix need :: u64
  assume need: "unat need < 2 ^ 63" "unat need = (if sz = 0 then 0 else unat off + unat sz)"
  show "post v0 (bindE (updateMem need v) f)"
  proof (rule post_updateMem [OF assms(1,2) _ assms(3,4)])
    fix nm g :: u64 and mem :: bytes
    assume "m_runGas v \<le> g" "unat need \<le> length mem" "length mem < 2 ^ 64"
    then show "post v0 (f (v\<lparr>m_newMemSize := nm, m_runGas := g, m_mem := mem\<rparr>))"
      using slice_ok [OF need] by (intro assms(5)) (auto simp: covered_def)
  qed (use need in auto)
qed

lemma post_mem_read_covered:
  assumes "covered off sz (m_mem v)" and "\<And>d. post v0 (f d)"
  shows "post v0 (bindE (mem_read (unat (ucast off :: u64)) (unat (ucast sz :: u64)) v) f)"
  using assms by (intro post_mem_read) (auto simp: covered_def)

lemma unat_ucast512: "unat (ucast (x :: u256) :: u512) = unat x" "unat x < 2 ^ 256"
  using unsigned_less [of x, where ?'a = nat] by (simp_all add: unsigned_ucast_eq take_bit_nat_eq_self)

text \<open>The variable part of the gas of \<^verbatim>\<open>SHA3\<close> and the logs does not wrap around in 512 bits.\<close>

lemma sha3_gas:
  "unat (30 + (ucast (s :: u256) + 31) div 32 * 6 :: u512) = 30 + (unat s + 31) div 32 * 6"
proof -
  have "unat (ucast s + 31 :: u512) = unat s + 31"
    using unat_ucast512 [of s] by (subst unat_add_small) auto
  moreover have "(unat s + 31) div 32 \<le> unat s + 31"
    by (rule div_le_dividend)
  ultimately show ?thesis
    using unat_ucast512(2) [of s] by (subst unat_add_small unat_mult_small, auto simp: unat_div)+
qed

lemma log_gas:
  assumes "n \<le> 4"
  shows "unat (375 + 375 * of_nat n + 8 * ucast (s :: u256) :: u512) = 375 + 375 * n + 8 * unat s"
proof -
  have n: "unat (of_nat n :: u512) = n"
    using assms by (simp add: unat_of_nat)
  then have "unat (375 * of_nat n :: u512) = 375 * n"
    using assms by (subst unat_mult_small) auto
  then have "unat (375 + 375 * of_nat n :: u512) = 375 + 375 * n"
    using assms by (subst unat_add_small) auto
  moreover have "unat (8 * ucast s :: u512) = 8 * unat s"
    using unat_ucast512 [of s] by (subst unat_mult_small) auto
  ultimately show ?thesis
    using unat_ucast512(2) [of s] assms by (subst unat_add_small) auto
qed

lemma unat_pos: "unat (w :: u64) = numeral k + n \<Longrightarrow> 0 < w"
  by (simp add: word_less_nat_alt)

lemma good_SHA3: "good 0x20 (metric Special 2 1) (op_SHA3 K)"
  unfolding op_SHA3_def Let_def
  by (intro goodI post_peek post_toInt63_word post_slice post_updateIOGas post_mem_read_covered
      post_setSPP post_NEXT)
    (auto simp: frame_simps sha3_gas intro: word_sub_le_self word_sub_less_trans unat_pos)

text \<open>\<open>logGasMem\<close> leaves the slice covered and the gas positive.\<close>

lemma post_peek_nth:
  assumes "m_SP v + n \<le> length (m_stack v)"
    and "\<And>s. length s = n \<Longrightarrow> (\<And>i. i < n \<Longrightarrow> s ! i = m_stack v ! (m_SP v + i)) \<Longrightarrow> post v0 (f s)"
  shows "post v0 (bindE (peek n v) f)"
  using assms by (simp add: peek_def)

lemma post_logGasMem:
  assumes "spent v0 v" and "length (m_mem v) < 2 ^ 64" and "m_SP v + 2 \<le> length (m_stack v)"
    and "m_copyMemSize v = 0" and "m_OP v = 0xa0 + int n" and "n \<le> 4"
    and "\<And>nm g mem. 0 < g \<Longrightarrow> covered (m_stack v ! m_SP v) (m_stack v ! (m_SP v + 1)) mem \<Longrightarrow>
      length mem < 2 ^ 64 \<Longrightarrow> post v0 (f (v\<lparr>m_newMemSize := nm, m_runGas := g, m_mem := mem\<rparr>))"
  shows "post v0 (bindE (logGasMem v) f)"
proof -
  have n: "nat (m_OP v - 0xa0) = n"
    using assms(5) by simp
  have pos: "0 < g" if "unat w = 375 + 375 * n + 8 * unat x" "w \<le> g" for w g :: u64 and x :: u256
    using that by (simp add: word_less_nat_alt word_le_nat_alt)
  show ?thesis
    unfolding logGasMem_def Let_def n using assms(1-6)
    by (intro post_assoc post_peek_nth post_toInt63_word post_slice)
      (auto simp: spent_def log_gas intro!: assms(7) intro: pos)
qed

lemma good_LOG:
  assumes "op = 0xa0 + int n" and "n \<le> 4" and "a = n + 2"
  shows "good op (metric Special a 0) (log_case H n)"
  unfolding log_case_def
  by (intro goodI post_if post_throw post_logGasMem [where n = n] post_updateIOGas post_peek_nth
      post_mem_read_covered post_NEXT)
    (use assms in \<open>auto simp: frame_simps intro: word_sub_le_self word_sub_less_self\<close>)

lemma good_logs:
  "good 0xa0 (metric Special 2 0) (op_LOG0 H)" "good 0xa1 (metric Special 3 0) (op_LOG1 H)"
  "good 0xa2 (metric Special 4 0) (op_LOG2 H)" "good 0xa3 (metric Special 5 0) (op_LOG3 H)"
  "good 0xa4 (metric Special 6 0) (op_LOG4 H)"
  unfolding op_LOG0_def op_LOG1_def op_LOG2_def op_LOG3_def op_LOG4_def by (rule good_LOG; simp)+

section \<open>Copies\<close>

lemma post_buf_read:
  assumes "off + n \<le> length d" and "post v0 (f (take n (drop off d)))"
  shows "post v0 (bindE (buf_read d off n v) f)"
  using assms by (simp add: buf_read_def)

lemma post_copyDataToMemory:
  assumes "covered (s ! 0) (s ! 2) (m_mem v)" and "length d < 2 ^ 64"
    and "\<And>mem. length mem = length (m_mem v) \<Longrightarrow> post v0 (f (v\<lparr>m_mem := mem\<rparr>))"
  shows "post v0 (bindE (copyDataToMemory d s v) f)"
proof -
  let ?off = "unat (ucast (s ! 0) :: u64)" and ?sz = "unat (ucast (s ! 2) :: u64)"
    and ?ix = "unat (ucast (s ! 1) :: u64)"
  let ?k = "if unat (s ! 1) + ?sz > length d then if length d < unat (s ! 1) then 0 else length d - ?ix else ?sz"
  have k: "?k \<le> ?sz"
    using assms(2) unat_ucast64 [of "s ! 1"] by auto
  have c: "?sz = 0 \<or> ?off + ?sz \<le> length (m_mem v)"
    using assms(1) by (simp add: covered_def)
  have w: "take ?k (drop ?ix d) = [] \<or> ?off + length (take ?k (drop ?ix d)) \<le> length (m_mem v)"
    using k c by (auto simp: min_def)
  have r: "?ix + ?k \<le> length d" if "0 < ?k"
    using that ucast_le [of "s ! 1"] by (auto split: if_splits)
  have f: "post v0 (f v)"
    using assms(3) [of "m_mem v"] by simp
  show ?thesis
    unfolding copyDataToMemory_def Let_def
    by (intro post_assoc post_bind_if post_Inr post_buf_read post_mem_write [OF w] post_mem_write r)
      (use k c f in \<open>auto intro: assms(3)\<close>)
qed

lemma copy_gas_room:
  "n < 9223372036854775808 \<Longrightarrow> unat g \<le> 1000 \<Longrightarrow> unat g + copy_cost n \<le> 9223372036854775808"
  using copy_cost_le [of n] by simp

lemma copy_cost_room:
  "n < 9223372036854775808 \<Longrightarrow> 1152921504606846976 \<le> k \<Longrightarrow> copy_cost n \<le> k"
  using copy_cost_le [of n] by simp

lemma tier_tiny [simp]: "unat (tierStepGas t) \<le> 1000"
  by (cases t) (simp_all add: tierStepGas_def)

lemma good_copy_case:
  assumes "op \<noteq> 0"
    and "\<And>v. wf v \<Longrightarrow> length (d v) < 2 ^ 64"
  shows "good op (metric VeryLow 3 0) (\<lambda>v. copy_case (d v) v)"
  unfolding copy_case_def Let_def
  by (intro goodI post_peek post_toInt63_word post_slice post_updateIOGas post_copyDataToMemory post_NEXT assms(2))
    (use assms(1) in \<open>auto simp: frame_simps intro: word_sub_le_self word_sub_less_tier copy_gas_room\<close>)

lemma good_copies:
  "good 0x37 (metric VeryLow 3 0) op_CALLDATACOPY" "good 0x39 (metric VeryLow 3 0) op_CODECOPY"
  unfolding op_CALLDATACOPY_def [abs_def] op_CODECOPY_def [abs_def]
  by (rule good_copy_case; simp add: wf_def)+

lemma good_RETURNDATACOPY: "good 0x3e (metric VeryLow 3 0) op_RETURNDATACOPY"
proof -
  have "good 0x3e (metric VeryLow 3 0) (\<lambda>v. copy_case (m_returnData v) v)"
    by (rule good_copy_case) (simp_all add: wf_def)
  then show ?thesis
    unfolding op_RETURNDATACOPY_def good_def
    by (auto simp: frame_simps intro!: post_if post_throw post_peek)
qed

text \<open>Write the copied bytes and fill the rest of the slice with zeros.\<close>

lemma post_fill:
  assumes "covered off sz (m_mem v)" and "unat (n :: u64) = unat sz" and "unat sz < 2 ^ 63"
    and "length copied \<le> unat n"
    and "\<And>mem. length mem = length (m_mem v) \<Longrightarrow> post v0 (f (v\<lparr>m_mem := mem\<rparr>))"
  shows "post v0 (if unat n < length copied then throw Undefined v
    else bindE (mem_write (unat (ucast off :: u64)) copied v) (\<lambda>v.
      bindE (mem_write (unat (ucast off :: u64) + length copied) (replicate (unat n - length copied) 0) v) f))"
proof -
  have "unat n = 0 \<or> unat (ucast off :: u64) + unat n \<le> length (m_mem v)"
    using assms(1-3) unat_ucast64 [of sz] by (simp add: covered_def)
  then have "copied = [] \<or> unat (ucast off :: u64) + length copied \<le> length (m_mem v)"
    and "unat n = length copied \<or> unat (ucast off :: u64) + unat n \<le> length (m_mem v)"
    using assms(4) by auto
  then show ?thesis
    using assms(4) by (intro post_if post_mem_write) (auto intro: assms(5))
qed

lemma good_EXTCODECOPY:
  assumes "host_ok H"
  shows "good 0x3c (metric Special 4 0) (op_EXTCODECOPY H)"
proof -
  have c: "length (copy_code H h a off n) \<le> n" for h a off n
    using assms by (simp add: host_ok_def)
  have pos: "0 < (if b then 700 else 20 :: u64)" "unat (if b then 700 else 20 :: u64) \<le> 1000" for b
    by simp_all
  show ?thesis
    unfolding op_EXTCODECOPY_def Let_def
    by (intro goodI post_peek post_toInt63_word post_slice post_updateIOGas post_fill post_NEXT c)
      (use pos in \<open>auto simp: frame_simps intro: word_sub_le_self word_sub_less_trans copy_cost_room\<close>)
qed

section \<open>Storage, exponentiation and termination\<close>

lemma good_SSTORE: "good 0x55 (metric Special 2 0) (op_SSTORE H)"
  unfolding op_SSTORE_def updateSSGas_def Let_def
  by (intro goodI post_rules post_throw post_NEXT)
    (auto simp: frame_simps intro: word_sub_le_self word_sub_less_self)

lemma good_EXP: "good 0x0a (metric Special 2 1) op_EXP"
  unfolding op_EXP_def Let_def
  by (intro goodI post_peek post_toInt63_word post_updateIOGas post_setSPP post_NEXT)
    (auto simp: frame_simps intro: word_sub_le_self word_sub_less_self unat_pos)

lemma post_output_slice:
  assumes "wf v" and "fetched op (metric t 2 0) v"
    and "\<And>out nm g. g \<le> m_io_gas v \<Longrightarrow>
      post v (f (out, v\<lparr>m_copyMemSize := 0, m_newMemSize := nm, m_runGas := g,
        m_io_gas := m_io_gas v - g, m_mem := []\<rparr>))"
  shows "post v (bindE (output_slice v) f)"
  unfolding output_slice_def Let_def bindE_assoc using assms(1,2)
  by (intro post_peek post_slice post_updateIOGas post_mem_read_covered post_Inr)
    (auto simp: frame_simps intro: assms(3))

lemma good_RETURN: "good 0xf3 (metric Zero 2 0) op_RETURN"
  unfolding op_RETURN_def
  by (intro goodI post_output_slice)
    (auto simp: frame_simps intro!: post_BREAK_null intro: word_sub_le_self)

lemma good_REVERT: "good 0xfd (metric Special 2 0) op_REVERT"
  unfolding op_REVERT_def
  by (intro goodI post_if post_throw post_output_slice)
    (auto simp: frame_simps intro!: post_throw intro: word_sub_le_self)

lemma good_STOP: "good 0 (metric Zero 0 0) op_STOP"
  unfolding op_STOP_def
  by (intro goodI post_updateIOGas post_BREAK_null) (auto simp: frame_simps intro: word_sub_le_self)

lemma good_SUICIDE: "good 0xff (metric Special 1 0) (op_SUICIDE H)"
  unfolding op_SUICIDE_def Let_def
  by (intro goodI post_if post_throw post_peek post_updateIOGas post_BREAK_null)
    (auto simp: frame_simps intro: word_sub_le_self)

section \<open>Leaving for a call or a creation\<close>

lemma good_CREATE: "good 0xf0 (metric Special 3 1) op_CREATE"
  unfolding op_CREATE_def
  by (intro goodI post_if post_throw) (auto simp: post_def BREAK_def frame_simps)

lemma good_CALLS:
  assumes "op \<in> {I_CALL, I_CALLCODE, I_DELEGATECALL, I_STATICCALL}" and "3 \<le> a"
  shows "good op (metric t a 1) op_CALLS"
  unfolding op_CALLS_def
  by (intro goodI post_if post_throw post_peek)
    (use assms in \<open>auto simp: post_def BREAK_def frame_simps\<close>)

section \<open>All cases\<close>

lemma good_rejected:
  "good op mt op_INVALID" "good op mt op_CREATE2" "good op mt op_EIP615" "good op mt op_EIP616"
  "good op mt op_PUSHC" "good op mt op_JUMPC" "good op mt op_JUMPCI"
  unfolding op_INVALID_def [abs_def] op_CREATE2_def [abs_def] op_EIP615_def [abs_def]
    op_EIP616_def [abs_def] op_PUSHC_def [abs_def] op_JUMPC_def [abs_def] op_JUMPCI_def [abs_def]
  by (rule good_throw, simp)+

lemma good_ranges:
  "0x61 \<le> op \<Longrightarrow> op \<le> 0x7f \<Longrightarrow> good op (metric VeryLow 0 1) op_PUSHN"
  "0x80 \<le> op \<Longrightarrow> int a = op - 0x7f \<Longrightarrow> int r = op - 0x7e \<Longrightarrow> good op (metric VeryLow a r) op_DUP"
  "0x90 \<le> op \<Longrightarrow> int a = op - 0x8e \<Longrightarrow> good op (metric VeryLow a a) op_SWAP"
  by (rule good_PUSHN [of op "nat (op - 0x60)"] good_DUP [of op "nat (op - 0x80)"]
      good_SWAP [of op "nat (op - 0x90)"]; simp add: nat_less_iff; linarith?)+

lemmas good_cases = good_binary good_shifts good_fields good_RETURNDATASIZE good_queries good_tx
  good_BLOCKHASH good_stack good_PUSH1 good_jumps good_memory_word good_SHA3 good_logs good_copies
  good_RETURNDATACOPY good_EXTCODECOPY good_SSTORE good_EXP good_RETURN good_REVERT good_STOP
  good_SUICIDE good_CREATE good_CALLS good_rejected good_ranges

lemma good_table_low:
  assumes "host_ok H"
  shows "list_all2 (\<lambda>i b. good (int i) (c_metrics ! i) b) [0..<128] (jumpTable_low K H)"
  unfolding jumpTable_low_def upt_128
  using assms by (simp add: c_metrics_eq good_cases del: One_nat_def)

lemma good_table_high:
  assumes "host_ok H"
  shows "list_all2 (\<lambda>i b. good (int i) (c_metrics ! i) b) [128..<256] (jumpTable_high K H)"
  unfolding jumpTable_high_def
  using assms by (simp add: c_metrics_eq good_cases del: One_nat_def)

lemma good_dispatch:
  assumes "host_ok H" and "i < 256"
  shows "good (int i) (c_metrics ! i) (jumpTable K H ! i)"
proof -
  have "list_all2 (\<lambda>i b. good (int i) (c_metrics ! i) b) ([0..<128] @ [128..<256]) (jumpTable K H)"
    unfolding jumpTable_def using good_table_low [OF assms(1)] good_table_high [OF assms(1)]
    by (rule list_all2_appendI)
  moreover have "[0..<128] @ [128..<256] = [0..<256]"
    using upt_add_eq_append [of 0 128 128] by simp
  ultimately have "list_all2 (\<lambda>i b. good (int i) (c_metrics ! i) b) [0..<256] (jumpTable K H)"
    by simp
  then show ?thesis
    using assms(2) by (auto dest: list_all2_nthD [where p = i])
qed

end
