(* ===== verification/VMRun.thy ===== *)
theory VMRun
  imports VMCases
begin

text \<open>
  From single cases to the interpreter loop, and the cases that call out.  With a host that keeps
  its contract every part of a run stays inside the machine's arrays, ends, spends gas before
  each further fetch, and leaves the host state alone when the call is static.
\<close>

unbundle bit_operations_syntax

section \<open>Fetch\<close>

text \<open>A fetched machine: ready to run the case of its instruction.\<close>

definition ready :: "'h vm \<Rightarrow> bool" where
  "ready v \<longleftrightarrow> wf v \<and> fetched (m_OP v) (c_metrics ! nat (m_OP v)) v"

lemma byte_index: "nat (uint (b :: byte)) = unat b" "unat b < 256"
  using unsigned_less [of b, where ?'a = nat] by simp_all

lemma adjustStack_cases:
  assumes "m_SPP v \<le> stackLimit"
  obtains e where "adjustStack a r v = Inl (e, v\<lparr>m_SP := m_SPP v\<rparr>)" "\<And>rv. allowed rv e"
  | "adjustStack a r v = Inr (v\<lparr>m_SP := m_SPP v, m_SPP := m_SPP v + a - r\<rparr>)"
    "m_SPP v + a \<le> stackLimit" "r \<le> m_SPP v + a"
proof -
  let ?v = "v\<lparr>m_SP := m_SPP v\<rparr>"
  have bad: "\<exists>e. throwBadStack a r n ?v = Inl (e, ?v) \<and> (\<forall>rv. allowed rv e)" for n
    by (simp add: throwBadStack_def Let_def throw_def)
  consider "stackLimit < m_SPP v + a" | "\<not> stackLimit < m_SPP v + a" "m_SPP v + a < r"
    | "m_SPP v + a \<le> stackLimit" "r \<le> m_SPP v + a"
    by linarith
  then show ?thesis
  proof cases
    case 1
    then show ?thesis
      using that(1) bad [of "int (m_SPP v + a)"] by (auto simp: adjustStack_def Let_def)
  next
    case 2
    then show ?thesis
      using that(1) bad [of "int (m_SPP v + a) - int r"] by (auto simp: adjustStack_def Let_def)
  next
    case 3
    then show ?thesis
      using that(2) by (simp add: adjustStack_def Let_def)
  qed
qed

lemma fetch_cases:
  assumes "wf v" and "m_bounce v = B_interpretCases"
  obtains e v' where "fetchInstruction v = Inl (e, v')" "allowed (m_rev v) e" "spent v v'"
  | v' where "fetchInstruction v = Inr v'" "ready v'" "m_io_gas v' = m_io_gas v"
      "m_context v' = m_context v" "m_message v' = m_message v" "m_rev v' = m_rev v"
proof -
  let ?b = "m_code v ! m_PC v"
  let ?v = "v\<lparr>m_OP := uint ?b\<rparr>" and ?mt = "c_metrics ! nat (uint ?b)"
  have c: "code_read (m_PC v) v = Inr ?b"
    using assms by (simp add: code_read_def wf_def)
  have "m_SPP ?v \<le> stackLimit"
    using assms by (simp add: wf_def)
  then show ?thesis
  proof (cases rule: adjustStack_cases [where v = ?v and a = "args ?mt" and r = "ret ?mt"])
    case (1 e)
    show ?thesis
      by (rule that(1) [of e]) (use 1 in \<open>auto simp: fetchInstruction_def c Let_def spent_def\<close>)
  next
    case 2
    let ?w = "v\<lparr>m_OP := uint ?b, m_SP := m_SPP v, m_SPP := m_SPP v + args ?mt - ret ?mt,
      m_runGas := tierStepGas (gasPriceTier ?mt), m_newMemSize := of_nat (length (m_mem v)),
      m_copyMemSize := 0\<rparr>"
    have "fetchInstruction v = Inr ?w"
      using 2(1) by (simp add: fetchInstruction_def c Let_def)
    moreover have "wf ?w"
      using 2(2,3) assms(1) by (simp add: wf_def)
    moreover have "fetched (m_OP ?w) (c_metrics ! nat (m_OP ?w)) ?w"
      using 2(2,3) assms(2) by (simp add: fetched_def)
    ultimately show ?thesis
      using that(2) [of ?w] by (simp add: ready_def)
  qed
qed

section \<open>The interpreter loop\<close>

lemma dispatch_post:
  assumes "host_ok H" and "ready v"
  shows "post v (jump_dispatch K H v)"
proof -
  let ?i = "unat (m_code v ! m_PC v)"
  have op: "m_OP v = int ?i" "?i < 256"
    using assms(2) byte_index [of "m_code v ! m_PC v"] by (simp_all add: ready_def fetched_def)
  have "good (int ?i) (c_metrics ! ?i) (jumpTable K H ! ?i)"
    using good_dispatch [OF assms(1) op(2)] .
  then show ?thesis
    using assms(2) op by (simp add: good_def jump_dispatch_def ready_def)
qed

lemma wf_step:
  assumes "wf v0" and "same_frame v0 v" and "m_io_gas v \<le> m_io_gas v0" and "m_PC v < length (m_code v0)"
  shows "wf v"
  using assms by (auto simp: wf_def same_frame_def word_le_nat_alt)

text \<open>How the loop is left: for good, or to make a call or a creation.\<close>

definition leaving :: "'h vm \<Rightarrow> bool" where
  "leaving v \<longleftrightarrow> m_bounce v = B_null
    \<or> (\<exists>w. ready w \<and> v = w\<lparr>m_bounce := B_caseCall\<rparr>
        \<and> m_OP w \<in> {I_CALL, I_CALLCODE, I_DELEGATECALL, I_STATICCALL})
    \<or> (\<exists>w. ready w \<and> v = w\<lparr>m_bounce := B_caseCreate\<rparr> \<and> m_OP w = I_CREATE \<and> \<not> is_static w)"

text \<open>What a part of a run establishes: an exception is an allowed one, the gas is at
  most that at the start, and a static call leaves the host state alone.\<close>

definition ran :: "'h vm \<Rightarrow> ('h vm \<Rightarrow> bool) \<Rightarrow> 'h res \<Rightarrow> bool" where
  "ran v0 Q r \<longleftrightarrow>
    (case r of Inl (e, v) \<Rightarrow> allowed (m_rev v0) e \<and> spent v0 v
     | Inr v \<Rightarrow> spent v0 v \<and> m_message v = m_message v0 \<and> m_rev v = m_rev v0 \<and> Q v)"

lemma spent_refl [simp]: "spent v v"
  by (simp add: spent_def)

lemma spent_trans: "spent a b \<Longrightarrow> m_message b = m_message a \<Longrightarrow> spent b c \<Longrightarrow> spent a c"
  by (auto simp: spent_def is_static_def)

lemma ran_trans: "spent a b \<Longrightarrow> m_message b = m_message a \<Longrightarrow> m_rev b = m_rev a \<Longrightarrow> ran b Q r \<Longrightarrow> ran a Q r"
  by (auto simp: ran_def split: sum.splits dest: spent_trans)

lemma cases_loop_runs:
  assumes "host_ok H" and "ready v" and "unat (m_io_gas v) < fuel"
  shows "\<exists>r. cases_loop K H fuel v = Some r \<and> ran v leaving r"
  using assms(2,3)
proof (induction fuel arbitrary: v)
  case (Suc fuel)
  have p: "post v (jump_dispatch K H v)"
    using dispatch_post [OF assms(1) Suc.prems(1)] .
  show ?case
  proof (cases "jump_dispatch K H v")
    case (Inl a)
    then show ?thesis
      using p by (cases a) (simp add: post_def ran_def)
  next
    case (Inr b)
    then obtain fl w where b: "jump_dispatch K H v = Inr (fl, w)"
      by (cases b) simp
    show ?thesis
    proof (cases fl)
      case Leave
      then have "leaving w" "spent v w" "m_message w = m_message v" "m_rev w = m_rev v"
        using p b Suc.prems(1) by (auto simp: post_def leaving_def same_frame_def)
      then show ?thesis
        using b Leave by (simp add: ran_def)
    next
      case Fetch
      then have w: "same_frame v w" "spent v w" "m_io_gas w < m_io_gas v" "m_PC w < length (m_code v)"
          "m_bounce w = B_interpretCases"
        using p b by (simp_all add: post_def)
      then have "wf w"
        using wf_step [of v w] Suc.prems(1) by (simp add: ready_def)
      then show ?thesis
        using w(5)
      proof (cases rule: fetch_cases)
        case (1 e w')
        then show ?thesis
          using b Fetch w by (auto simp: ran_def same_frame_def dest: spent_trans)
      next
        case (2 w')
        have "unat (m_io_gas w') < fuel"
          using 2 w(3) Suc.prems(2) by (simp add: word_less_nat_alt)
        then obtain r where "cases_loop K H fuel w' = Some r" "ran w' leaving r"
          using Suc.IH [OF 2(2)] by blast
        moreover have "spent v w'" "m_message w' = m_message v" "m_rev w' = m_rev v"
          using 2 w by (simp_all add: spent_def same_frame_def)
        ultimately show ?thesis
          using b Fetch 2 by (auto dest: ran_trans)
      qed
    qed
  qed
qed simp

lemma interpretCases_runs:
  assumes "host_ok H" and "wf v" and "m_bounce v = B_interpretCases" and "unat (m_io_gas v) < fuel"
  shows "\<exists>r. interpretCases K H fuel v = Some r \<and> ran v leaving r"
  using assms(2,3)
proof (cases rule: fetch_cases)
  case (1 e v')
  then show ?thesis
    by (simp add: interpretCases_def ran_def)
next
  case (2 v')
  then obtain r where "cases_loop K H fuel v' = Some r" "ran v' leaving r"
    using cases_loop_runs [OF assms(1), of v' fuel K] assms(4) by auto
  moreover have "spent v v'"
    using 2 by (simp add: spent_def)
  ultimately show ?thesis
    using 2 by (auto simp: interpretCases_def dest: ran_trans)
qed

section \<open>Calls and creations\<close>

lemma call_base_gas_bounds:
  "0 < call_base_gas H s v" "unat (call_base_gas H s v) \<le> 40000"
  "haveValueArg v \<Longrightarrow> s ! 2 > 0 \<Longrightarrow> 2300 < unat (call_base_gas H s v)"
  by (simp_all add: call_base_gas_def Let_def)

lemma haveValueArg_upd: "haveValueArg (v\<lparr>m_runGas := x\<rparr>) = haveValueArg v"
  by (simp add: haveValueArg_def)

lemma call_value_fields:
  assumes "call_value H s v msg = (ok, msg')"
  shows "msg_gas msg' = msg_gas msg + (if haveValueArg v \<and> s ! 2 > 0 then 2300 else 0)"
    "msg_flags msg' = msg_flags msg"
  using assms by (auto simp: call_value_def split: if_splits)

text \<open>A message for the host: its gas is less than what was taken, and static mode is passed on.\<close>

definition sane_message :: "'h vm \<Rightarrow> nat \<Rightarrow> tvmc_message \<Rightarrow> bool" where
  "sane_message v gas msg \<longleftrightarrow> 0 \<le> msg_gas msg \<and> nat (msg_gas msg) < gas
    \<and> (is_static v \<longrightarrow> msg_flags msg AND TVMC_STATIC \<noteq> 0)"

lemma post_two_slices:
  assumes "spent v0 v" and "length (m_mem v) < 2 ^ 64" and "m_copyMemSize v = 0"
    and "unat (m_runGas v) \<le> 40000"
    and cont: "\<And>nm g mem. m_runGas v \<le> g \<Longrightarrow> covered a b mem \<Longrightarrow> covered c d mem \<Longrightarrow>
      length mem < 2 ^ 64 \<Longrightarrow> post v0 (f (v\<lparr>m_newMemSize := nm, m_runGas := g, m_mem := mem\<rparr>))"
  shows "post v0 (bindE (memNeed a b v) (\<lambda>x. bindE (memNeed c d v) (\<lambda>y.
      bindE (updateMem (m_newMemSize (v\<lparr>m_newMemSize := max x y\<rparr>)) (v\<lparr>m_newMemSize := max x y\<rparr>)) f)))"
proof (rule post_memNeed [OF assms(1)], rule post_memNeed [OF assms(1)])
  fix x y :: u64
  assume x: "unat x < 2 ^ 63" "unat x = (if b = 0 then 0 else unat a + unat b)"
    and y: "unat y < 2 ^ 63" "unat y = (if d = 0 then 0 else unat c + unat d)"
  have m: "unat (max x y) = max (unat x) (unat y)"
    by (simp add: max_def word_le_nat_alt)
  let ?v = "v\<lparr>m_newMemSize := max x y\<rparr>"
  show "post v0 (bindE (updateMem (m_newMemSize ?v) ?v) f)"
  proof (rule post_updateMem)
    fix nm g :: u64 and mem :: bytes
    assume g: "m_runGas ?v \<le> g" "unat (m_newMemSize ?v) \<le> length mem" "length mem < 2 ^ 64"
    then have "unat x \<le> length mem" "unat y \<le> length mem"
      by (simp_all add: m)
    then have "covered a b mem" "covered c d mem"
      using slice_ok [OF x] slice_ok [OF y] by (simp_all add: covered_def)
    then show "post v0 (f (?v\<lparr>m_newMemSize := nm, m_runGas := g, m_mem := mem\<rparr>))"
      using cont [of g mem nm] g by simp
  qed (use assms(1-4) x y in \<open>simp_all add: spent_def m\<close>)
qed

lemma post_bind_prod:
  assumes "\<And>b m. t = (b, m) \<Longrightarrow> post v0 (bindE (g b m) f)"
  shows "post v0 (bindE (case t of (b, m) \<Rightarrow> g b m) f)"
  using assms by (cases t) simp

lemma call_message_sane:
  assumes "call_value H s v' (call_kind_flags v\<lparr>msg_gas := uint w, msg_destination := d, msg_sender := se,
      msg_input_data := inp\<rparr>) = (ok, msg)"
    and "call_base_gas H s v \<le> g" and "m_OP v' = m_OP v"
  shows "sane_message v (unat g + unat w) msg"
proof -
  let ?st = "if haveValueArg v \<and> s ! 2 > 0 then 2300 else 0 :: int"
  have hv: "haveValueArg v' = haveValueArg v"
    using assms(3) by (simp add: haveValueArg_def)
  have g: "msg_gas msg = uint w + ?st" and fl: "msg_flags msg = msg_flags (call_kind_flags v)"
    using call_value_fields [OF assms(1)] by (simp_all add: hv)
  have "unat (call_base_gas H s v) \<le> unat g"
    using assms(2) by (simp add: word_le_nat_alt)
  then have "nat ?st < unat g"
    using call_base_gas_bounds [where H = H and s = s and v = v] by (auto simp: word_less_nat_alt)
  then have "nat (msg_gas msg) < unat g + unat w"
    by (simp add: g nat_add_distrib)
  moreover have "is_static v \<Longrightarrow> msg_flags msg AND TVMC_STATIC \<noteq> 0"
    by (simp add: fl call_kind_flags_def Let_def)
  ultimately show ?thesis
    by (simp add: sane_message_def g)
qed

lemma post_caseCallSetup:
  assumes "spent v0 v" and "length (m_mem v) < 2 ^ 64" and "m_copyMemSize v = 0"
    and "m_SP v + (if haveValueArg v then 7 else 6) \<le> length (m_stack v)"
    and cont: "\<And>ok msg outOff outSize nm g1 g2 mem.
      g1 \<le> m_io_gas v \<Longrightarrow> g2 \<le> m_io_gas v - g1 \<Longrightarrow> sane_message v (unat g1 + unat g2) msg \<Longrightarrow>
      covered outOff outSize mem \<Longrightarrow> length mem < 2 ^ 64 \<Longrightarrow>
      post v0 (f ((ok, msg, unat (ucast outOff :: u64), unat (ucast outSize :: u64)),
        v\<lparr>m_newMemSize := nm, m_mem := mem, m_runGas := g2, m_io_gas := m_io_gas v - g1 - g2\<rparr>))"
  shows "post v0 (bindE (caseCallSetup H v) f)"
  unfolding caseCallSetup_def Let_def bindE_assoc
  by (intro post_peek post_two_slices post_updateIOGas post_toInt63_word post_mem_read_covered
      post_bind_prod post_Inr)
    (use assms(1-4) in \<open>auto simp: spent_def haveValueArg_upd call_base_gas_bounds
      intro!: cont intro: call_message_sane order_trans [OF word_sub_le_self]\<close>)

lemma refund_less:
  assumes "g1 \<le> a" and "g2 \<le> a - g1" and "0 \<le> left" and "nat left < unat g1 + unat g2"
  shows "a - g1 - g2 + of_int left < (a :: u64)"
proof -
  have u: "unat (a - g1) = unat a - unat g1" "unat g1 \<le> unat a"
    using assms(1) by (simp_all add: word_le_nat_alt unat_sub)
  then have u2: "unat (a - g1 - g2) = unat a - unat g1 - unat g2" "unat g2 \<le> unat a - unat g1"
    using assms(2) unat_sub [of g2 "a - g1"] by (simp_all add: word_le_nat_alt)
  have a: "unat a < 2 ^ 64"
    using unsigned_less [of a, where ?'a = nat] by simp
  have "of_int left = (of_nat (nat left) :: u64)"
    using assms(3) by (metis int_nat_eq of_int_of_nat_eq)
  then have l: "unat (of_int left :: u64) = nat left"
    using assms(4) u(2) u2(2) a by (simp add: unat_of_nat_small)
  have "unat (a - g1 - g2 + of_int left) = unat a - unat g1 - unat g2 + nat left"
    using assms(4) u(2) u2 a by (subst unat_add_small) (simp_all add: l)
  then show ?thesis
    using assms(4) u(2) u2(2) by (simp add: word_less_nat_alt)
qed

lemma call_metrics:
  "c_metrics ! 0xf1 = metric Special 7 1" "c_metrics ! 0xf2 = metric Special 7 1"
  "c_metrics ! 0xf4 = metric Special 6 1" "c_metrics ! 0xfa = metric Special 6 1"
  "c_metrics ! 0xf0 = metric Special 3 1"
  by (simp_all add: c_metrics_eq)

lemma ready_call:
  assumes "ready w" and "m_OP w \<in> {I_CALL, I_CALLCODE, I_DELEGATECALL, I_STATICCALL}"
  shows "m_SP w + (if haveValueArg w then 7 else 6) \<le> stackLimit" "m_SPP w < stackLimit"
proof -
  have "m_SP w + args (c_metrics ! nat (m_OP w)) \<le> stackLimit"
    "m_SPP w = m_SP w + args (c_metrics ! nat (m_OP w)) - ret (c_metrics ! nat (m_OP w))"
    using assms(1) unfolding ready_def fetched_def by blast+
  then show "m_SP w + (if haveValueArg w then 7 else 6) \<le> stackLimit" "m_SPP w < stackLimit"
    using assms(2) by (auto simp: call_metrics metric_def haveValueArg_def)
qed

lemma ready_inside:
  assumes "ready w" and "m_OP w \<noteq> 0"
  shows "m_PC w + 1 < length (m_code w)"
proof -
  have "m_PC w < length (m_pCode w)" and "length (m_code w) = length (m_pCode w) + 33"
    using assms fetched_inside [of w "m_OP w"] by (auto simp: ready_def wf_def)
  then show ?thesis
    by simp
qed

lemma host_call:
  assumes "host_ok H" and "call_host H h msg = (result, h')" and "0 \<le> msg_gas msg"
  shows "0 \<le> res_gas_left result" "res_gas_left result \<le> msg_gas msg"
    "length (res_output_data result) < 2 ^ 64" "msg_flags msg AND TVMC_STATIC \<noteq> 0 \<Longrightarrow> h' = h"
proof -
  have "0 \<le> res_gas_left (fst (call_host H h msg)) \<and> res_gas_left (fst (call_host H h msg)) \<le> msg_gas msg"
    and "length (res_output_data (fst (call_host H h msg))) < 2 ^ 64"
    and "msg_flags msg AND TVMC_STATIC \<noteq> 0 \<longrightarrow> snd (call_host H h msg) = h"
    using assms(1,3) unfolding host_ok_def by blast+
  then show "0 \<le> res_gas_left result" "res_gas_left result \<le> msg_gas msg"
    "length (res_output_data result) < 2 ^ 64" "msg_flags msg AND TVMC_STATIC \<noteq> 0 \<Longrightarrow> h' = h"
    by (simp_all add: assms(2))
qed

lemma post_make_call:
  assumes "host_ok H" and "sane_message w (unat g1 + unat g2) msg"
    and "g1 \<le> m_io_gas w" and "g2 \<le> m_io_gas w - g1"
    and v: "v = w\<lparr>m_bounce := B_interpretCases, m_returnData := [], m_newMemSize := nm, m_mem := mem,
      m_runGas := g2, m_io_gas := m_io_gas w - g1 - g2\<rparr>"
    and mem: "covered outOff outSize mem" "length mem < 2 ^ 64" "m_SPP w < length (m_stack w)"
    and cont: "\<And>st io h rd mem. length st = length (m_stack w) \<Longrightarrow> io < m_io_gas w \<Longrightarrow>
      (is_static w \<Longrightarrow> h = m_context w) \<Longrightarrow> length rd < 2 ^ 64 \<Longrightarrow> length mem < 2 ^ 64 \<Longrightarrow>
      post w (f (v\<lparr>m_context := h, m_returnData := rd, m_mem := mem, m_stack := st, m_io_gas := io\<rparr>))"
  shows "post w (bindE (make_call H ok msg (unat (ucast outOff :: u64)) (unat (ucast outSize :: u64)) v) f)"
proof -
  have gas: "0 \<le> msg_gas msg" "nat (msg_gas msg) < unat g1 + unat g2"
      "is_static w \<Longrightarrow> msg_flags msg AND TVMC_STATIC \<noteq> 0"
    using assms(2) by (simp_all add: sane_message_def)
  have less: "m_io_gas v + of_int left < m_io_gas w" if "0 \<le> left" "left \<le> msg_gas msg" for left
    using refund_less [OF assms(3,4) that(1)] that gas(2) by (simp add: v)
  obtain result h where r: "call_host H (m_context v) msg = (result, h)"
    by (cases "call_host H (m_context v) msg")
  note hc = host_call [OF assms(1) r gas(1)]
  have mv: "m_mem v = mem" "m_stack v = m_stack w" "m_SPP v = m_SPP w" "m_context v = m_context w"
      "m_returnData v = []"
    by (simp_all add: v)
  have lt: "m_io_gas v + of_int (res_gas_left result) < m_io_gas w" "m_io_gas v + of_int (msg_gas msg) < m_io_gas w"
    using less hc(1,2) gas(1) by blast+
  have h: "is_static w \<Longrightarrow> h = m_context w"
    using hc(4) gas(3) by (simp add: mv)
  show ?thesis
  proof (cases ok)
    case True
    have "post w (bindE (mem_write (unat (ucast outOff :: u64))
        (take (unat (ucast outSize :: u64)) (res_output_data result))
        (v\<lparr>m_context := h, m_returnData := res_output_data result\<rparr>)) (\<lambda>v.
      bindE (setSPP (if res_status_code result = TVMC_SUCCESS then 1 else 0) v) (\<lambda>v.
      bindE (Inr (v\<lparr>m_io_gas := m_io_gas v + of_int (res_gas_left result)\<rparr>)) f)))"
      by (intro post_mem_write post_setSPP post_Inr)
        (use mem mv lt(1) h hc(3) in \<open>auto simp: covered_def intro!: cont\<close>)
    then show ?thesis
      using True by (simp add: make_call_def r Let_def bindE_assoc)
  next
    case False
    have e: "v\<lparr>m_stack := st, m_io_gas := io\<rparr> = v\<lparr>m_context := m_context w, m_returnData := [],
        m_mem := mem, m_stack := st, m_io_gas := io\<rparr>" for st io
      by (simp add: v)
    have "post w (f (v\<lparr>m_stack := (m_stack w)[m_SPP w := 0],
        m_io_gas := m_io_gas v + of_int (msg_gas msg)\<rparr>))"
      unfolding e using lt(2) mem by (intro cont) simp_all
    then have "post w (bindE (setSPP 0 v) (\<lambda>v.
      bindE (Inr (v\<lparr>m_io_gas := m_io_gas v + of_int (msg_gas msg)\<rparr>)) f))"
      using mem mv by (intro post_setSPP post_Inr) simp_all
    then show ?thesis
      using False by (simp add: make_call_def bindE_assoc)
  qed
qed

lemma post_caseCall:
  assumes "host_ok H" and "ready w" and "m_OP w \<in> {I_CALL, I_CALLCODE, I_DELEGATECALL, I_STATICCALL}"
  shows "post w (bindE (caseCall H (w\<lparr>m_bounce := B_caseCall\<rparr>)) CONTINUE)"
proof -
  let ?v = "w\<lparr>m_bounce := B_interpretCases, m_returnData := []\<rparr>"
  have hv: "haveValueArg ?v = haveValueArg w"
    by (simp add: haveValueArg_def)
  have w: "wf w" "m_copyMemSize w = 0" "m_PC w + 1 < length (m_code w)"
    using assms(2,3) ready_inside [OF assms(2)] by (auto simp: ready_def fetched_def)
  show ?thesis
    unfolding caseCall_def Let_def bindE_assoc
    apply (rule post_caseCallSetup)
        apply (use w ready_call [OF assms(2,3)] in \<open>simp_all add: wf_def hv spent_def\<close>)[4]
    apply (unfold prod.case bindE_assoc)
    apply (rule post_make_call [OF assms(1)])
          apply (assumption | rule refl | simp add: sane_message_def is_static_def)+
    apply (use w ready_call [OF assms(2,3)] in \<open>auto simp: wf_def spent_def same_frame_def intro!: post_Inr post_CONTINUE\<close>)
    done
qed

lemma sint_small:
  assumes "unat (io :: u64) < 2 ^ 63"
  shows "sint io = int (unat io)"
proof -
  have "int (unat io) < int (2 ^ 63)"
    using assms by (simp only: of_nat_less_iff)
  then have "uint io < 2 ^ 63"
    by simp
  then have "signed_take_bit 63 (uint io) = uint io"
    using order_trans [of "- (2 ^ 63)" 0 "uint io"] by (intro signed_take_bit_int_eq_self) simp_all
  then show ?thesis
    by (simp add: sint_uint)
qed

lemma create_gas:
  fixes c :: bool and io :: u64 and left :: int
  assumes "unat io < 2 ^ 63"
  defines "g \<equiv> if c then sint io - sint io sdiv 64 else sint io"
  shows "0 \<le> g" and "0 \<le> left \<Longrightarrow> left \<le> g \<Longrightarrow> io - of_int (g - left) \<le> io"
proof -
  note s = sint_small [OF assms(1)]
  show g: "0 \<le> g"
    by (auto simp: g_def s signed_divide_int_def sgn_if)
  show "io - of_int (g - left) \<le> io" if "0 \<le> left" "left \<le> g"
  proof -
    have "g \<le> int (unat io)"
      by (auto simp: g_def s signed_divide_int_def sgn_if)
    then have n: "nat (g - left) \<le> unat io" "0 \<le> g - left"
      using that by linarith+
    then have "of_int (g - left) = (of_nat (nat (g - left)) :: u64)"
      by (metis int_nat_eq of_int_of_nat_eq)
    then have "unat (of_int (g - left) :: u64) = nat (g - left)"
      using n(1) assms(1) by (simp add: unat_of_nat_small)
    then show ?thesis
      using n(1) by (intro word_sub_le_self) (simp add: word_le_nat_alt)
  qed
qed

lemma post_create_call:
  assumes "host_ok H" and "unat (m_io_gas v) < 2 ^ 63" and "covered initOff initSize (m_mem v)"
    and "m_SPP v < length (m_stack v)"
    and cont: "\<And>st io h rd. length st = length (m_stack v) \<Longrightarrow> io \<le> m_io_gas v \<Longrightarrow> length rd < 2 ^ 64 \<Longrightarrow>
      post w (f (v\<lparr>m_context := h, m_stack := st, m_returnData := rd, m_io_gas := io\<rparr>))"
  shows "post w (bindE (create_call H endowment initOff initSize v) f)"
proof -
  let ?g = "if m_rev v \<ge> TVMC_TANGERINE_WHISTLE then sint (m_io_gas v) - sint (m_io_gas v) sdiv 64
    else sint (m_io_gas v)"
  note g = create_gas [OF assms(2), where c = "m_rev v \<ge> TVMC_TANGERINE_WHISTLE"]
  have k: "post w (bindE (case call_host H (m_context v) msg of (result, h) \<Rightarrow>
      bindE (setSPP (x result) (v\<lparr>m_context := h\<rparr>)) (\<lambda>v.
      Inr (v\<lparr>m_returnData := res_output_data result,
        m_io_gas := m_io_gas v - of_int (msg_gas msg - res_gas_left result)\<rparr>))) f)"
    if "msg_gas msg = ?g" for msg x
  proof (rule post_bind_prod)
    fix result h
    assume r: "call_host H (m_context v) msg = (result, h)"
    have hc: "0 \<le> res_gas_left result" "res_gas_left result \<le> ?g" "length (res_output_data result) < 2 ^ 64"
      using host_call [OF assms(1) r] that g(1) by (simp_all only:)
    have "m_io_gas v - of_int (msg_gas msg - res_gas_left result) \<le> m_io_gas v"
      unfolding that using g(2) [OF hc(1,2)] .
    then show "post w (bindE (bindE (setSPP (x result) (v\<lparr>m_context := h\<rparr>)) (\<lambda>v.
      Inr (v\<lparr>m_returnData := res_output_data result,
        m_io_gas := m_io_gas v - of_int (msg_gas msg - res_gas_left result)\<rparr>))) f)"
      unfolding bindE_assoc using assms(4) hc(3)
      by (intro post_setSPP post_Inr) (simp_all add: cont del: of_int_diff)
  qed
  show ?thesis
    unfolding create_call_def Let_def bindE_assoc
    by (intro post_mem_read_covered assms(3) k) simp
qed

lemma post_caseCreate:
  assumes "host_ok H" and "ready w" and "m_OP w = I_CREATE" and "\<not> is_static w"
  shows "post w (bindE (caseCreate H (w\<lparr>m_bounce := B_caseCreate\<rparr>)) CONTINUE)"
proof -
  have "m_SP w + args (c_metrics ! nat (m_OP w)) \<le> stackLimit"
    "m_SPP w = m_SP w + args (c_metrics ! nat (m_OP w)) - ret (c_metrics ! nat (m_OP w))"
    using assms(2) unfolding ready_def fetched_def by blast+
  then have f: "m_SP w + 3 \<le> stackLimit" "m_SPP w < stackLimit"
    using assms(3) by (simp_all add: call_metrics metric_def)
  have w: "wf w" "m_copyMemSize w = 0" "m_PC w + 1 < length (m_code w)"
    using assms(2,3) ready_inside [OF assms(2)] by (auto simp: ready_def fetched_def)
  have less: "io < m_io_gas w" if "io \<le> m_io_gas w - g" "32000 \<le> g" "g \<le> m_io_gas w" for io g
    using that word_sub_less_trans [of 32000 g "m_io_gas w"] by auto
  have small: "unat (m_io_gas w - g) < 9223372036854775808" if "g \<le> m_io_gas w" for g
    using that w(1) le_less_trans [OF diff_le_self [of "unat (m_io_gas w)" "unat g"]]
    by (auto simp: wf_def unat_sub)
  show ?thesis
    unfolding caseCreate_def Let_def bindE_assoc
    by (intro post_peek post_slice post_updateIOGas post_bind_if post_create_call [OF assms(1)]
        post_setSPP post_Inr post_CONTINUE)
      (use f w assms(3,4) in \<open>auto simp: wf_def spent_def same_frame_def small
        intro: less word_sub_le_self order_less_imp_le\<close>)
qed

end
