(* ===== verification/VMCode.thy ===== *)
theory VMCode
  imports VMExec
begin

text \<open>
  The preparation of the code: what \<^verbatim>\<open>VM::optimize\<close> computes.  The specification is the set of
  instruction boundaries, the positions that a reader reaches from the start of the code when
  it steps over the operands of the pushes.
\<close>

section \<open>Instruction boundaries\<close>

definition push_size :: "byte \<Rightarrow> nat" where
  "push_size b = (if 0x60 \<le> uint b \<and> uint b \<le> 0x7f then nat (uint b - 0x5f) else 0)"

inductive boundary :: "bytes \<Rightarrow> nat \<Rightarrow> nat \<Rightarrow> bool" for code where
  here: "boundary code i i"
| step: "i < length code \<Longrightarrow> boundary code (i + 1 + push_size (code ! i)) j \<Longrightarrow> boundary code i j"

inductive_simps boundary_unfold: "boundary code i j"

lemma boundary_mono: "boundary code i j \<Longrightarrow> i \<le> j"
  by (induction rule: boundary.induct) simp_all

definition dests_from :: "bytes \<Rightarrow> nat \<Rightarrow> nat set" where
  "dests_from code i = {j. boundary code i j \<and> j < length code \<and> uint (code ! j) = I_JUMPDEST}"

lemma dests_from_end: "length code \<le> i \<Longrightarrow> dests_from code i = {}"
  by (auto simp: dests_from_def dest: boundary_mono)

lemma dests_from_step:
  assumes "i < length code"
  shows "dests_from code i = (if uint (code ! i) = I_JUMPDEST then {i} else {})
    \<union> dests_from code (i + 1 + push_size (code ! i))"
  unfolding dests_from_def
  by (subst boundary_unfold) (use assms in auto)

section \<open>The scan\<close>

lemma scan_loop_spec:
  assumes "scan_loop (length P) pc code dests = (code', dests')"
    and "length P \<le> length code" and "\<And>k. pc \<le> k \<Longrightarrow> k < length P \<Longrightarrow> code ! k = P ! k"
    and "sorted dests" and "\<And>d. d \<in> set dests \<Longrightarrow> d < pc"
  shows "set dests' = set dests \<union> dests_from P pc \<and> sorted dests' \<and> length code' = length code
    \<and> (\<forall>i. length P \<le> i \<longrightarrow> code' ! i = code ! i)"
  using assms
proof (induction "length P - pc" arbitrary: pc code dests rule: less_induct)
  case less
  show ?case
  proof (cases "pc < length P")
    case False
    then show ?thesis
      using less.prems by (simp add: scan_loop.simps dests_from_end)
  next
    case True
    let ?op = "uint (code ! pc)"
    let ?c = "if ?op = I_PUSHC \<or> ?op = I_JUMPC \<or> ?op = I_JUMPCI then code[pc := of_int I_INVALID] else code"
    let ?pc = "pc + 1 + push_size (code ! pc)"
    let ?d = "if ?op = I_JUMPDEST then dests @ [pc] else dests"
    have "scan_loop (length P) pc code dests = scan_loop (length P) ?pc ?c ?d"
      using True by (subst scan_loop.simps) (auto simp: Let_def push_size_def nat_add_distrib)
    then have "length P - ?pc < length P - pc" "scan_loop (length P) ?pc ?c ?d = (code', dests')"
      using True less.prems(1) by simp_all
    moreover have "length P \<le> length ?c"
      using less.prems(2) by simp
    moreover have "?c ! k = P ! k" if "?pc \<le> k" "k < length P" for k
      using less.prems(3) [of k] that by auto
    moreover have "sorted ?d"
      using less.prems(4,5) by (auto simp: sorted_append order_less_imp_le)
    moreover have "d < ?pc" if "d \<in> set ?d" for d
      using less.prems(5) [of d] that by (auto split: if_splits)
    ultimately have "set dests' = set ?d \<union> dests_from P ?pc \<and> sorted dests' \<and> length code' = length ?c
        \<and> (\<forall>i. length P \<le> i \<longrightarrow> code' ! i = ?c ! i)"
      by (rule less.hyps)
    moreover have "dests_from P pc = (if ?op = I_JUMPDEST then {pc} else {}) \<union> dests_from P ?pc"
      using dests_from_step [OF True] less.prems(3) True by simp
    ultimately show ?thesis
      using True by auto
  qed
qed

text \<open>
  After \<^verbatim>\<open>initEntry\<close> the code is the user's code followed by 33 zero bytes, with the synthetic
  instructions masked, and the table holds the boundaries with a \<^verbatim>\<open>JUMPDEST\<close>.
\<close>

lemma initEntry_spec:
  assumes "m_jumpDests v = []"
  obtains code dests where "initEntry v = v\<lparr>m_bounce := B_interpretCases, m_code := code, m_jumpDests := dests\<rparr>"
    "set dests = dests_from (m_pCode v) 0" "sorted dests" "length code = length (m_pCode v) + 33"
    "\<And>i. length (m_pCode v) \<le> i \<Longrightarrow> i < length code \<Longrightarrow> code ! i = 0"
proof -
  let ?c = "m_pCode v @ replicate 33 0"
  obtain code dests where s: "scan_loop (length (m_pCode v)) 0 ?c [] = (code, dests)"
    by (cases "scan_loop (length (m_pCode v)) 0 ?c []")
  have "set dests = set [] \<union> dests_from (m_pCode v) 0 \<and> sorted dests \<and> length code = length ?c
    \<and> (\<forall>i. length (m_pCode v) \<le> i \<longrightarrow> code ! i = ?c ! i)"
    by (rule scan_loop_spec [OF s]) (simp_all add: nth_append)
  moreover have "initEntry v = v\<lparr>m_bounce := B_interpretCases, m_code := code, m_jumpDests := dests\<rparr>"
    using s assms by (simp add: initEntry_def optimize_def copyCode_def)
  ultimately show ?thesis
    by (intro that [of dests code]) (auto simp: nth_append)
qed

end
