(* ===== verification/VMCorrect.thy ===== *)
theory VMCorrect
  imports VMRun VMCode
begin

text \<open>
  The interpreter as a whole: the trampoline of \<^verbatim>\<open>VM::exec\<close> and the entry point \<^verbatim>\<open>execute\<close>, and
  the properties of the machine.
\<close>

unbundle bit_operations_syntax

section \<open>The trampoline\<close>

lemma bounced:
  assumes "wf w" and "post w (bindE r CONTINUE)"
  obtains e v where "r = Inl (e, v)" "allowed (m_rev w) e" "spent w v"
  | v where "r = Inr v" "wf v" "m_bounce v = B_interpretCases" "spent w v" "m_io_gas v < m_io_gas w"
      "m_message v = m_message w" "m_rev v = m_rev w"
proof (cases r)
  case (Inl a)
  then show ?thesis
    using that(1) assms(2) by (cases a) (simp add: post_def)
next
  case (Inr v)
  then show ?thesis
    using that(2) [of v] assms wf_step [of w v]
    by (simp add: post_def CONTINUE_def same_frame_def)
qed

text \<open>The trampoline ends when it has two units of fuel per unit of gas.\<close>

lemma bounce_loop_runs:
  assumes "host_ok H" and "wf v" and "m_bounce v = B_interpretCases" and "2 * unat (m_io_gas v) + 4 \<le> fuel"
  shows "\<exists>r. bounce_loop K H fuel v = Some r \<and> ran v (\<lambda>v. m_bounce v = B_null) r"
  using assms(2-4)
proof (induction "unat (m_io_gas v)" arbitrary: v fuel rule: less_induct)
  case less
  obtain f where f: "fuel = Suc (Suc f)"
    using less.prems(3) by (metis Suc_eq_plus1 add_leE not0_implies_Suc not_less_eq_eq
        numeral_2_eq_2 numeral_Bit0 one_add_one zero_le)
  obtain r where r: "interpretCases K H (Suc f) v = Some r" "ran v leaving r"
    using interpretCases_runs [OF assms(1) less.prems(1,2), of "Suc f" K] less.prems(3) f by auto
  show ?case
  proof (cases r)
    case (Inl e)
    then show ?thesis
      using r f less.prems(2) by (cases e) (simp add: ran_def)
  next
    case (Inr v')
    then have v': "spent v v'" "m_message v' = m_message v" "leaving v'" "m_rev v' = m_rev v"
      using r(2) by (simp_all add: ran_def)
    have again: "\<exists>r. bounce_loop K H (Suc f) v' = Some r \<and> ran v (\<lambda>v. m_bounce v = B_null) r"
      if "ready w" "post w (bindE q CONTINUE)" "m_io_gas w = m_io_gas v'" "m_message w = m_message v'"
        "m_context w = m_context v'" "m_rev w = m_rev v'"
        "bounce_loop K H (Suc f) v' = (case q of Inl e \<Rightarrow> Some (Inl e) | Inr v \<Rightarrow> bounce_loop K H f v)"
      for w q
    proof -
      have s: "spent v w" "m_message w = m_message v" "m_rev w = m_rev v"
        using v' that by (simp_all add: spent_def)
      have "wf w"
        using that(1) by (simp add: ready_def)
      then show ?thesis
        using that(2)
      proof (cases rule: bounced)
        case (1 e u)
        then show ?thesis
          using that(7) s by (auto simp: ran_def dest: spent_trans)
      next
        case (2 u)
        have l: "unat (m_io_gas u) < unat (m_io_gas v)"
          using 2(5) s(1) by (simp add: spent_def word_less_nat_alt word_le_nat_alt)
        then have "2 * unat (m_io_gas u) + 4 \<le> f"
          using less.prems(3) f by simp
        then obtain r where "bounce_loop K H f u = Some r" "ran u (\<lambda>v. m_bounce v = B_null) r"
          using less.hyps [OF l 2(2,3)] by blast
        moreover have "spent v u" "m_message u = m_message v" "m_rev u = m_rev v"
          using s 2 by (auto dest: spent_trans)
        ultimately show ?thesis
          using that(7) 2(1) by (auto dest: ran_trans)
      qed
    qed
    consider "m_bounce v' = B_null"
      | w where "ready w" "v' = w\<lparr>m_bounce := B_caseCall\<rparr>" "m_OP w \<in> {I_CALL, I_CALLCODE, I_DELEGATECALL, I_STATICCALL}"
      | w where "ready w" "v' = w\<lparr>m_bounce := B_caseCreate\<rparr>" "m_OP w = I_CREATE" "\<not> is_static w"
      using v'(3) unfolding leaving_def by blast
    then have "\<exists>r. bounce_loop K H (Suc f) v' = Some r \<and> ran v (\<lambda>v. m_bounce v = B_null) r"
    proof cases
      case 1
      then show ?thesis
        using v' by (simp add: ran_def)
    next
      case (2 w)
      then show ?thesis
        using post_caseCall [OF assms(1) 2(1,3)] by (intro again [of w]) simp_all
    next
      case (3 w)
      then show ?thesis
        using post_caseCreate [OF assms(1) 3(1,3,4)] by (intro again [of w]) simp_all
    qed
    then show ?thesis
      using r(1) Inr f less.prems(2) by simp
  qed
qed

section \<open>The entry point\<close>

text \<open>What the C types of the interface guarantee: the gas is a non-negative 63-bit number and the
  buffers are shorter than the address space.\<close>

definition valid_call :: "tvmc_message \<Rightarrow> bytes \<Rightarrow> bool" where
  "valid_call msg code \<longleftrightarrow> 0 \<le> msg_gas msg \<and> msg_gas msg < 2 ^ 63
    \<and> length code < 2 ^ 64 \<and> length (msg_input_data msg) < 2 ^ 64"

lemma gas_word:
  assumes "0 \<le> g" and "g < 2 ^ 63"
  shows "unat (of_int g :: u64) = nat g"
proof -
  have e: "of_int g = (of_nat (nat g) :: u64)"
    using assms(1) by (metis int_nat_eq of_int_of_nat_eq)
  have "unat (of_nat (nat g) :: u64) = nat g"
    using assms by (intro unat_of_nat_small) (simp add: nat_less_iff)
  then show ?thesis
    by (simp only: e)
qed

lemma ran_cong:
  assumes "ran a Q r" and "m_io_gas a = m_io_gas b" and "m_context a = m_context b"
    and "m_message a = m_message b" and "m_rev a = m_rev b"
  shows "ran b Q r"
  using assms by (auto simp: ran_def spent_def is_static_def split: sum.splits)

lemma exec_runs:
  assumes "host_ok H" and "valid_call msg code" and "2 * nat (msg_gas msg) + 5 \<le> fuel"
  shows "\<exists>r. exec K H fuel h rv msg code (new_vm h rv msg code) = Some r
    \<and> ran ((new_vm h rv msg code)\<lparr>m_io_gas := of_int (msg_gas msg)\<rparr>) (\<lambda>v. m_bounce v = B_null) r"
proof -
  let ?v = "(new_vm h rv msg code)\<lparr>m_context := h, m_rev := rv, m_message := msg,
      m_io_gas := of_int (msg_gas msg), m_PC := 0, m_pCode := code, m_bounce := B_initEntry\<rparr>"
  have g: "unat (of_int (msg_gas msg) :: u64) = nat (msg_gas msg)"
    using assms(2) by (intro gas_word) (simp_all add: valid_call_def)
  obtain f where f: "fuel = Suc f"
    using assms(3) by (cases fuel) auto
  obtain c d where i: "initEntry ?v = ?v\<lparr>m_bounce := B_interpretCases, m_code := c, m_jumpDests := d\<rparr>"
      "set d = dests_from code 0" "sorted d" "length c = length code + 33"
      "\<And>i. length code \<le> i \<Longrightarrow> i < length c \<Longrightarrow> c ! i = 0"
    by (rule initEntry_spec [of ?v]) (simp_all add: new_vm_def)
  let ?w = "?v\<lparr>m_bounce := B_interpretCases, m_code := c, m_jumpDests := d\<rparr>"
  have "nat (msg_gas msg) < 9223372036854775808"
    using assms(2) by (simp add: valid_call_def nat_less_iff)
  then have "wf ?w"
    using assms(2) i(2-5) g by (auto simp: wf_def new_vm_def valid_call_def dests_from_def)
  then obtain r where "bounce_loop K H f ?w = Some r" "ran ?w (\<lambda>v. m_bounce v = B_null) r"
    using bounce_loop_runs [OF assms(1), of ?w f K] assms(3) f g by auto
  moreover have "exec K H fuel h rv msg code (new_vm h rv msg code) = bounce_loop K H f ?w"
    using i(1) f by (simp add: exec_def)
  ultimately show ?thesis
    by (auto elim: ran_cong simp: new_vm_def)
qed

text \<open>The result that \<^verbatim>\<open>execute\<close> makes of a run.\<close>

lemma execute_result:
  assumes "host_ok H" and "valid_call msg code" and "2 * nat (msg_gas msg) + 5 \<le> fuel"
  obtains res h' where "execute K H fuel (new_vm h rv msg code) h rv msg code = Some (res, h')"
    "0 \<le> res_gas_left res" "res_gas_left res \<le> msg_gas msg" "msg_flags msg AND TVMC_STATIC \<noteq> 0 \<Longrightarrow> h' = h"
    "res_status_code res \<in> {TVMC_SUCCESS, TVMC_REVERT, TVMC_FAILURE}"
    "res_status_code res = TVMC_REVERT \<Longrightarrow> TVMC_BYZANTIUM \<le> rv"
    "res_status_code res = TVMC_FAILURE \<Longrightarrow> res_gas_left res = 0 \<and> res_output_data res = []"
proof -
  obtain r where r: "exec K H fuel h rv msg code (new_vm h rv msg code) = Some r"
      "ran ((new_vm h rv msg code)\<lparr>m_io_gas := of_int (msg_gas msg)\<rparr>) (\<lambda>v. m_bounce v = B_null) r"
    using exec_runs [OF assms] by blast
  define v where "v = (case r of Inl (e, v) \<Rightarrow> v | Inr v \<Rightarrow> v)"
  have s: "m_io_gas v \<le> of_int (msg_gas msg)" "msg_flags msg AND TVMC_STATIC \<noteq> 0 \<Longrightarrow> m_context v = h"
    using r(2) by (auto simp: ran_def spent_def is_static_def new_vm_def v_def split: sum.splits)
  have "unat (m_io_gas v) \<le> nat (msg_gas msg)"
    using s(1) gas_word [of "msg_gas msg"] assms(2) by (simp add: word_le_nat_alt valid_call_def)
  moreover have m: "nat (msg_gas msg) < 2 ^ 63" "0 \<le> msg_gas msg"
    using assms(2) by (simp_all add: valid_call_def nat_less_iff)
  ultimately have g: "sint (m_io_gas v) = int (unat (m_io_gas v))" "int (unat (m_io_gas v)) \<le> msg_gas msg"
    using sint_small [of "m_io_gas v"] by linarith+
  show ?thesis
  proof (cases r)
    case (Inl a)
    then obtain e where e: "r = Inl (e, v)"
      by (cases a) (simp add: v_def)
    have "allowed rv e"
      using r(2) e by (simp add: ran_def new_vm_def)
    then show ?thesis
      using that r(1) s(2) g m e
      by (cases e) (auto simp: execute_def Let_def is_VMException_def)
  next
    case (Inr w)
    then have "r = Inr v"
      by (simp add: v_def)
    then show ?thesis
      using that r(1) s(2) g by (auto simp: execute_def Let_def)
  qed
qed

text \<open>A static call of \<^verbatim>\<open>PUSH1 5, PUSH1 0, SSTORE\<close>, on which the properties are exercised.\<close>

definition example_message :: tvmc_message where
  "example_message = empty_message\<lparr>msg_gas := 100000, msg_flags := TVMC_STATIC\<rparr>"

text \<open>A host that counts the changes it is asked for.\<close>

definition counting_host :: "nat tvmc_fn_table" where
  "counting_host = null_host\<lparr>set_storage := (\<lambda>h _ _ _. h + 1), selfdestruct := (\<lambda>h _ _. h + 1),
    emit_log := (\<lambda>h _ _ _. h + 1)\<rparr>"

lemma host_ok_counting: "host_ok counting_host"
  using host_ok_null by (simp add: host_ok_def counting_host_def)

lemma valid_example: "length code < 2 ^ 32 \<Longrightarrow> valid_call example_message code"
  by (simp add: valid_call_def example_message_def empty_message_def)

lemma example_gas: "msg_gas example_message = 100000"
  by (simp add: example_message_def)

lemma example_static: "msg_flags example_message AND TVMC_STATIC \<noteq> 0"
  by (simp add: example_message_def)


text \<open>The message of a call, and what its preparation keeps.\<close>

lemma if_throw_Inr: "(if b then throw e v else Inr x) = Inr y \<longleftrightarrow> \<not> b \<and> x = y"
  by (simp add: throw_def)

lemma updateGas_keeps:
  assumes "updateGas v = Inr v'"
  shows "m_rev v' = m_rev v \<and> m_OP v' = m_OP v \<and> m_message v' = m_message v"
  using assms unfolding updateGas_def Let_def
  by (elim bindE_InrE) (auto simp: if_throw_Inr elim!: bindE_InrE split: if_split_asm)

lemma updateMem_keeps:
  assumes "updateMem n v = Inr v'"
  shows "m_rev v' = m_rev v" "m_OP v' = m_OP v" "m_message v' = m_message v"
proof -
  obtain w where "updateGas (v\<lparr>m_newMemSize := (n + 31) div 32 * 32\<rparr>) = Inr w"
      "m_rev v' = m_rev w \<and> m_OP v' = m_OP w \<and> m_message v' = m_message w"
    using assms unfolding updateMem_def Let_def by (elim bindE_InrE) (auto split: if_split_asm)
  then show "m_rev v' = m_rev v" "m_OP v' = m_OP v" "m_message v' = m_message v"
    using updateGas_keeps by fastforce+
qed

lemma updateIOGas_Inr: "updateIOGas v = Inr v' \<longleftrightarrow> m_runGas v \<le> m_io_gas v \<and> v' = v\<lparr>m_io_gas := m_io_gas v - m_runGas v\<rparr>"
  by (auto simp: updateIOGas_def throw_def not_less)

lemma toInt63_Inr: "toInt63 x v = Inr g \<longleftrightarrow> x < 2 ^ 63 \<and> g = of_nat x"
  by (auto simp: toInt63_def throw_def)

lemma call_value_depth: "call_value H s v msg = (ok, msg') \<Longrightarrow> msg_depth msg' = msg_depth msg"
  by (auto simp: call_value_def split: if_splits)

lemma all_but_one_64th:
  fixes G g :: u64
  assumes "unat c \<le> unat (ucast (G - G div 64) :: u256)" and "g = of_nat (unat c)"
  shows "uint g \<le> 63 * uint (G - g) + 63"
proof -
  have d: "G div 64 \<le> G"
    by (simp add: word_le_nat_alt unat_div)
  have u: "unat (ucast (G - G div 64) :: u256) = unat G - unat G div 64"
    using d unsigned_less [of "G - G div 64", where ?'a = nat]
    by (simp add: unsigned_ucast_eq take_bit_nat_eq_self unat_sub unat_div)
  have c: "unat c < 2 ^ 64"
    using assms(1) u unsigned_less [of G, where ?'a = nat] by simp
  then have g: "unat g = unat c"
    using assms(2) unat_of_nat_small [where n = "unat c" and 'a = 64] by simp
  then have le: "g \<le> G" "unat g \<le> unat G - unat G div 64"
    using assms(1) u by (simp_all add: word_le_nat_alt)
  then have "unat (G - g) = unat G - unat g"
    by (simp add: unat_sub)
  then have "int (unat g) \<le> 63 * int (unat (G - g)) + 63"
    using le(2) by linarith
  then show ?thesis
    by (simp only: uint_nat)
qed

section \<open>Properties\<close>

text \<open>
  Claim C1. With a host that keeps its contract, running any code on any message returns, and it
  never reads or writes outside the operand stack or the memory, never fetches an instruction or
  the operand of a push outside the code, and never copies or loads from outside the input, the
  code or the return data: of the exceptions that end a run none is such an access.  Two steps
  of the trampoline per unit of gas and five more are enough.
\<close>
theorem exec_stays_in_bounds:
  assumes "host_ok H" and "valid_call msg code" and "2 * nat (msg_gas msg) + 5 \<le> fuel"
  shows "\<exists>r. exec K H fuel h rv msg code (new_vm h rv msg code) = Some r
    \<and> (\<forall>v. r \<noteq> Inl (Undefined, v))"
  using exec_runs [OF assms, of K h rv] by (auto simp: ran_def)

theorem exec_stays_in_bounds_witness:
  "\<exists>r. exec (\<lambda>_. replicate 32 0) counting_host 200005 3 TVMC_CONSTANTINOPLE example_message [0x60, 5, 0x60, 0, 0x55]
      (new_vm 3 TVMC_CONSTANTINOPLE example_message [0x60, 5, 0x60, 0, 0x55]) = Some r
    \<and> (\<forall>v. r \<noteq> Inl (Undefined, v))"
  by (rule exec_stays_in_bounds [OF host_ok_counting valid_example]) (simp_all add: example_gas)

text \<open>
  Claim C2. \<^verbatim>\<open>execute\<close> always returns, and the gas it reports as left is between zero and the
  gas of the message, whatever the code does.
\<close>
theorem execute_returns_gas:
  assumes "host_ok H" and "valid_call msg code" and "2 * nat (msg_gas msg) + 5 \<le> fuel"
  shows "\<exists>res h'. execute K H fuel (new_vm h rv msg code) h rv msg code = Some (res, h')
    \<and> 0 \<le> res_gas_left res \<and> res_gas_left res \<le> msg_gas msg"
  using execute_result [OF assms] by metis

theorem execute_returns_gas_witness:
  "\<exists>res h'. execute (\<lambda>_. replicate 32 0) counting_host 200005
        (new_vm 3 TVMC_CONSTANTINOPLE example_message [0x60, 5, 0x60, 0, 0x55]) 3 TVMC_CONSTANTINOPLE example_message [0x60, 5, 0x60, 0, 0x55]
      = Some (res, h') \<and> 0 \<le> res_gas_left res \<and> res_gas_left res \<le> 100000"
  using execute_returns_gas [OF host_ok_counting valid_example, of "[0x60, 5, 0x60, 0, 0x55]" 200005]
  by (simp add: example_gas)

text \<open>
  Claim C3. A run whose message carries the static flag leaves the host state as it was.
\<close>
theorem static_call_keeps_host:
  assumes "host_ok H" and "valid_call msg code" and "2 * nat (msg_gas msg) + 5 \<le> fuel"
    and "msg_flags msg AND TVMC_STATIC \<noteq> 0"
  shows "\<exists>res. execute K H fuel (new_vm h rv msg code) h rv msg code = Some (res, h)"
  using execute_result [OF assms(1-3)] assms(4) by metis

theorem static_call_keeps_host_witness:
  "\<exists>res. execute (\<lambda>_. replicate 32 0) counting_host 200005
        (new_vm 3 TVMC_CONSTANTINOPLE example_message [0x60, 5, 0x60, 0, 0x55]) 3 TVMC_CONSTANTINOPLE example_message [0x60, 5, 0x60, 0, 0x55]
      = Some (res, 3)"
  by (rule static_call_keeps_host [OF host_ok_counting valid_example _ example_static]) (simp_all add: example_gas)



text \<open>
  Claim C25. The message that a call instruction sends to the host: a static frame and
  \<^verbatim>\<open>STATICCALL\<close> mark it static; from Tangerine Whistle on it carries at most 63 of 64 parts of the
  gas, besides the stipend of 2300; and its depth is always 0, where \<^verbatim>\<open>CREATE\<close> sends the depth of the
  frame plus one.
\<close>
theorem call_message:
  assumes "caseCallSetup H v = Inr ((ok, msg, off, n), v')"
  shows "(m_OP v = I_STATICCALL \<or> is_static v \<longrightarrow> msg_flags msg = TVMC_STATIC)
    \<and> (TVMC_TANGERINE_WHISTLE \<le> m_rev v \<longrightarrow> msg_gas msg \<le> 63 * uint (m_io_gas v') + 63 + 2300)
    \<and> msg_depth msg = 0 \<and> (ok \<longrightarrow> msg_depth (m_message v) < 1024)"
proof -
  let ?k = "if haveValueArg v then 3 else 2"
  obtain s need1 need2 v1 v2 g input ok' where
      m: "updateMem (max need1 need2) (v\<lparr>m_runGas := call_base_gas H s v, m_newMemSize := max need1 need2\<rparr>) = Inr v1"
    and v2: "updateIOGas v1 = Inr v2"
    and g: "toInt63 (unat (if TVMC_TANGERINE_WHISTLE \<le> m_rev v2
        then min (s ! 0) (ucast (m_io_gas v2 - m_io_gas v2 div 64)) else s ! 0)) v2 = Inr g"
    and v': "updateIOGas (v2\<lparr>m_runGas := g\<rparr>) = Inr v'"
    and c: "call_value H s v' (call_kind_flags v\<lparr>msg_gas := uint g, msg_destination := asAddress (s ! 1),
        msg_sender := msg_destination (m_message v'), msg_input_data := input\<rparr>) = (ok', msg)"
    and ok: "ok \<longleftrightarrow> ok' \<and> msg_depth (m_message v') < 1024"
    using assms unfolding caseCallSetup_def Let_def bindE_eq_Inr
    by (elim exE conjE) (auto split: prod.split_asm)
  have k: "m_rev v2 = m_rev v" "m_message v' = m_message v" "m_io_gas v' = m_io_gas v2 - g"
    using updateMem_keeps [OF m] v2 v' by (auto simp: updateIOGas_Inr)
  have "TVMC_TANGERINE_WHISTLE \<le> m_rev v \<Longrightarrow> uint g \<le> 63 * uint (m_io_gas v') + 63"
    using g unfolding k(1,3) toInt63_Inr
    by (intro all_but_one_64th [where c = "min (s ! 0) (ucast (m_io_gas v2 - m_io_gas v2 div 64))"])
      (auto simp: min_def word_le_nat_alt)
  moreover have "msg_gas msg \<le> uint g + 2300"
    using call_value_fields [OF c] by simp
  moreover have "msg_depth msg = 0"
    using call_value_depth [OF c] by (simp add: call_kind_flags_def Let_def empty_message_def)
  ultimately show ?thesis
    using call_value_fields [OF c] ok k(2) by (auto simp: call_kind_flags_def Let_def)
qed

theorem call_message_witness:
  "\<exists>ok msg off n v'. caseCallSetup counting_host ((new_vm 3 TVMC_CONSTANTINOPLE example_message [])\<lparr>m_OP := I_CALL,
      m_SP := stackLimit - 7, m_stack := replicate stackLimit 0, m_io_gas := 100000\<rparr>) = Inr ((ok, msg, off, n), v')
    \<and> msg_flags msg = TVMC_STATIC \<and> msg_gas msg \<le> 63 * uint (m_io_gas v') + 2363 \<and> msg_depth msg = 0"
proof -
  let ?v = "(new_vm 3 TVMC_CONSTANTINOPLE example_message [])\<lparr>m_OP := I_CALL,
      m_SP := stackLimit - 7, m_stack := replicate stackLimit 0, m_io_gas := 100000\<rparr>"
  have s: "is_static ?v" "TVMC_TANGERINE_WHISTLE \<le> m_rev ?v"
    using example_static by (simp_all add: is_static_def new_vm_def less_eq_tvmc_revision_def)
  have "\<exists>r. caseCallSetup counting_host ?v = Inr r"
    by (simp add: caseCallSetup_def peek_def memNeed_def toInt63_def updateMem_def updateGas_def updateIOGas_def
      Let_def call_base_gas_def haveValueArg_def call_value_def mem_read_def counting_host_def null_host_def
      new_vm_def less_eq_tvmc_revision_def less_tvmc_revision_def stackLimit_def)
  then obtain ok msg off n v' where c: "caseCallSetup counting_host ?v = Inr ((ok, msg, off, n), v')"
    by (metis prod.exhaust)
  then show ?thesis
    using call_message [OF c] s by auto
qed

end
