(* ===== verification/VMStack.thy ===== *)
theory VMStack
  imports VMRun VMCode
begin

text \<open>
  The instructions seen from outside: what one turn of the interpreter, fetch and case, does to
  the operand stack as a list with the top first.
\<close>

unbundle bit_operations_syntax

section \<open>Specification\<close>

definition operands :: "'h vm \<Rightarrow> u256 list" where
  "operands v = drop (m_SPP v) (m_stack v)"

definition turn :: "(bytes \<Rightarrow> h256) \<Rightarrow> 'h tvmc_fn_table \<Rightarrow> 'h case_block" where
  "turn K H v = bindE (fetchInstruction v) (jump_dispatch K H)"

text \<open>
  The arithmetic, comparison and bit instructions of the Yellow Paper: opcode, number of
  operands and value, with the mathematical operations on unsigned and signed numbers.
\<close>

definition alu_spec :: "(Instruction \<times> nat \<times> (u256 list \<Rightarrow> u256)) list" where
  "alu_spec = [
    (0x01, 2, \<lambda>s. s ! 0 + s ! 1),
    (0x02, 2, \<lambda>s. s ! 0 * s ! 1),
    (0x03, 2, \<lambda>s. s ! 0 - s ! 1),
    (0x04, 2, \<lambda>s. s ! 0 div s ! 1),
    (0x05, 2, \<lambda>s. if s ! 1 = 0 then 0 else word_of_int (sint (s ! 0) sdiv sint (s ! 1))),
    (0x06, 2, \<lambda>s. if s ! 1 = 0 then 0 else s ! 0 mod s ! 1),
    (0x07, 2, \<lambda>s. if s ! 1 = 0 then 0 else word_of_int (sint (s ! 0) smod sint (s ! 1))),
    (0x08, 3, \<lambda>s. if s ! 2 = 0 then 0 else of_nat ((unat (s ! 0) + unat (s ! 1)) mod unat (s ! 2))),
    (0x09, 3, \<lambda>s. if s ! 2 = 0 then 0 else of_nat ((unat (s ! 0) * unat (s ! 1)) mod unat (s ! 2))),
    (0x0b, 2, \<lambda>s. if s ! 0 < 31 then signed_take_bit (unat (s ! 0) * 8 + 7) (s ! 1) else s ! 1),
    (0x10, 2, \<lambda>s. bool_word (s ! 0 < s ! 1)),
    (0x11, 2, \<lambda>s. bool_word (s ! 0 > s ! 1)),
    (0x12, 2, \<lambda>s. bool_word (sint (s ! 0) < sint (s ! 1))),
    (0x13, 2, \<lambda>s. bool_word (sint (s ! 0) > sint (s ! 1))),
    (0x14, 2, \<lambda>s. bool_word (s ! 0 = s ! 1)),
    (0x15, 1, \<lambda>s. bool_word (s ! 0 = 0)),
    (0x16, 2, \<lambda>s. s ! 0 AND s ! 1),
    (0x17, 2, \<lambda>s. s ! 0 OR s ! 1),
    (0x18, 2, \<lambda>s. s ! 0 XOR s ! 1),
    (0x19, 1, \<lambda>s. NOT (s ! 0)),
    (0x1a, 2, \<lambda>s. if s ! 0 < 32 then ucast (toBigEndian256 (s ! 1) ! unat (s ! 0)) else 0),
    (0x1b, 2, \<lambda>s. push_bit (unat (s ! 0)) (s ! 1)),
    (0x1c, 2, \<lambda>s. drop_bit (unat (s ! 0)) (s ! 1)),
    (0x1d, 2, \<lambda>s. signed_drop_bit (unat (s ! 0)) (s ! 1))]"

section \<open>Lemmas\<close>

text \<open>A block computes \<open>f\<close> of \<open>n\<close> operands and leaves everything else but \<^verbatim>\<open>m_SP\<close> alone.\<close>

definition computes :: "nat \<Rightarrow> (u256 list \<Rightarrow> u256) \<Rightarrow> 'h case_block \<Rightarrow> bool" where
  "computes n f b \<longleftrightarrow> (\<forall>v. TVMC_CONSTANTINOPLE \<le> m_rev v \<longrightarrow> m_runGas v \<le> m_io_gas v \<longrightarrow>
    m_SP v + n \<le> length (m_stack v) \<longrightarrow> 1 \<le> n \<longrightarrow> m_SPP v = m_SP v + n - 1 \<longrightarrow>
    (\<exists>sp. b v = Inr (Fetch, v\<lparr>m_io_gas := m_io_gas v - m_runGas v,
      m_stack := (m_stack v)[m_SPP v := f (take n (drop (m_SP v) (m_stack v)))],
      m_PC := m_PC v + 1, m_SP := sp\<rparr>)))"

lemma access_ok:
  "m_runGas v \<le> m_io_gas v \<Longrightarrow> updateIOGas v = Inr (v\<lparr>m_io_gas := m_io_gas v - m_runGas v\<rparr>)"
  "m_SP v + n \<le> length (m_stack v) \<Longrightarrow> peek n v = Inr (take n (drop (m_SP v) (m_stack v)))"
  "m_SPP v < length (m_stack v) \<Longrightarrow> setSPP x v = Inr (v\<lparr>m_stack := (m_stack v)[m_SPP v := x]\<rparr>)"
  "m_SP v + i < length (m_stack v) \<Longrightarrow> setSP i x v = Inr (v\<lparr>m_stack := (m_stack v)[m_SP v + i := x]\<rparr>)"
  by (auto simp: updateIOGas_def not_less peek_def setSPP_def setSP_def)

lemma computes_compute: "computes n f (compute n f)"
  unfolding computes_def
proof (intro allI impI)
  fix v :: "'a vm"
  assume "m_runGas v \<le> m_io_gas v" "m_SP v + n \<le> length (m_stack v)" "1 \<le> n" "m_SPP v = m_SP v + n - 1"
  moreover from this have "m_SPP v < length (m_stack v)"
    by linarith
  ultimately show "\<exists>sp. compute n f v = Inr (Fetch, v\<lparr>m_io_gas := m_io_gas v - m_runGas v,
      m_stack := (m_stack v)[m_SPP v := f (take n (drop (m_SP v) (m_stack v)))],
      m_PC := m_PC v + 1, m_SP := sp\<rparr>)"
    by (intro exI [of _ "m_SP v"]) (simp add: compute_def access_ok NEXT_def)
qed

lemma computes_guard:
  assumes "computes n f b"
  shows "computes n f (\<lambda>v. if m_rev v < TVMC_CONSTANTINOPLE then throw e v else b v)"
proof -
  have "TVMC_CONSTANTINOPLE \<le> m_rev v \<Longrightarrow> (if m_rev v < TVMC_CONSTANTINOPLE then throw e v else b v) = b v" for v
    by (simp add: leD)
  then show ?thesis
    using assms unfolding computes_def by metis
qed

lemma unat_eq_of_nat: "unat (w :: u256) = n \<Longrightarrow> w = of_nat n"
  by auto

lemma val_ADDMOD_eq: "val_ADDMOD a b n = (if n = 0 then 0 else of_nat ((unat a + unat b) mod unat n))"
  using unat_ADDMOD [of a b n] by (auto dest: unat_eq_of_nat simp: val_ADDMOD_def)

lemma val_MULMOD_eq: "val_MULMOD a b n = (if n = 0 then 0 else of_nat ((unat a * unat b) mod unat n))"
  using unat_MULMOD [of a b n] by (auto dest: unat_eq_of_nat simp: val_MULMOD_def)

lemma val_shift_eq: "val_SHL n x = push_bit (unat n) x" "val_SHR n x = drop_bit (unat n) x"
proof -
  have "(n \<ge> 256) = (unat n \<ge> 256)"
    by (simp add: word_le_nat_alt)
  then show "val_SHL n x = push_bit (unat n) x" "val_SHR n x = drop_bit (unat n) x"
    by (auto simp: val_SHL_def val_SHR_def bit_eq_iff bit_push_bit_iff bit_drop_bit_eq dest: bit_imp_le_length)
qed

lemma computes_SDIV:
  "computes 2 (\<lambda>s. if s ! 1 = 0 then 0 else word_of_int (sint (s ! 0) sdiv sint (s ! 1))) op_SDIV"
  unfolding computes_def op_SDIV_def
  by (intro allI impI, rule_tac x = "m_SP v - 1" in exI) (simp add: access_ok NEXT_def val_SDIV_eq)

lemma computes_SIGNEXTEND:
  "computes 2 (\<lambda>s. if s ! 0 < 31 then signed_take_bit (unat (s ! 0) * 8 + 7) (s ! 1) else s ! 1) op_SIGNEXTEND"
  unfolding computes_def op_SIGNEXTEND_def
  by (intro allI impI, rule_tac x = "m_SP v" in exI) (simp add: access_ok NEXT_def val_SIGNEXTEND_eq)

lemma computes_ISZERO: "computes 1 (\<lambda>s. bool_word (s ! 0 = 0)) op_ISZERO"
proof -
  have "(\<lambda>s. if s ! 0 \<noteq> 0 then 0 else 1 :: u256) = (\<lambda>s. bool_word (s ! 0 = (0 :: u256)))"
    by (simp add: bool_word_def fun_eq_iff)
  then show ?thesis
    unfolding op_ISZERO_def by (simp only: computes_compute)
qed

lemma computes_binary:
  "computes 2 (\<lambda>s. s ! 0 + s ! 1) op_ADD"
  "computes 2 (\<lambda>s. s ! 0 * s ! 1) op_MUL"
  "computes 2 (\<lambda>s. s ! 0 - s ! 1) op_SUB"
  "computes 2 (\<lambda>s. s ! 0 div s ! 1) op_DIV"
  "computes 2 (\<lambda>s. if s ! 1 = 0 then 0 else s ! 0 mod s ! 1) op_MOD"
  "computes 2 (\<lambda>s. if s ! 1 = 0 then 0 else word_of_int (sint (s ! 0) smod sint (s ! 1))) op_SMOD"
  "computes 3 (\<lambda>s. if s ! 2 = 0 then 0 else of_nat ((unat (s ! 0) + unat (s ! 1)) mod unat (s ! 2))) op_ADDMOD"
  "computes 3 (\<lambda>s. if s ! 2 = 0 then 0 else of_nat ((unat (s ! 0) * unat (s ! 1)) mod unat (s ! 2))) op_MULMOD"
  "computes 2 (\<lambda>s. bool_word (s ! 0 < s ! 1)) op_LT"
  "computes 2 (\<lambda>s. bool_word (s ! 0 > s ! 1)) op_GT"
  "computes 2 (\<lambda>s. bool_word (sint (s ! 0) < sint (s ! 1))) op_SLT"
  "computes 2 (\<lambda>s. bool_word (sint (s ! 0) > sint (s ! 1))) op_SGT"
  "computes 2 (\<lambda>s. bool_word (s ! 0 = s ! 1)) op_EQ"
  "computes 2 (\<lambda>s. s ! 0 AND s ! 1) op_AND"
  "computes 2 (\<lambda>s. s ! 0 OR s ! 1) op_OR"
  "computes 2 (\<lambda>s. s ! 0 XOR s ! 1) op_XOR"
  "computes 1 (\<lambda>s. NOT (s ! 0)) op_NOT"
  "computes 2 (\<lambda>s. if s ! 0 < 32 then ucast (toBigEndian256 (s ! 1) ! unat (s ! 0)) else 0) op_BYTE"
  unfolding op_ADD_def op_MUL_def op_SUB_def op_DIV_def op_MOD_def op_SMOD_def
    op_ADDMOD_def op_MULMOD_def op_LT_def op_GT_def op_SLT_def op_SGT_def op_EQ_def
    op_AND_def op_OR_def op_XOR_def op_NOT_def op_BYTE_def
    val_DIV_eq val_MOD_eq val_SMOD_eq val_ADDMOD_eq val_MULMOD_eq val_BYTE_eq u2s_eq_sint
  by (rule computes_compute)+

lemma computes_shifts:
  "computes 2 (\<lambda>s. push_bit (unat (s ! 0)) (s ! 1)) op_SHL"
  "computes 2 (\<lambda>s. drop_bit (unat (s ! 0)) (s ! 1)) op_SHR"
  "computes 2 (\<lambda>s. signed_drop_bit (unat (s ! 0)) (s ! 1)) op_SAR"
  unfolding op_SHL_def [abs_def] op_SHR_def [abs_def] op_SAR_def [abs_def] val_shift_eq val_SAR_eq
  by (rule computes_guard, rule computes_compute)+

lemma alu_computes:
  assumes "(op, n, f) \<in> set alu_spec"
  shows "computes n f (jumpTable K H ! nat op)"
proof -
  have "list_all (\<lambda>(op, n, f). computes n f (jumpTable K H ! nat op)) alu_spec"
    unfolding alu_spec_def jumpTable_def jumpTable_low_def
    by (simp add: computes_SDIV computes_SIGNEXTEND computes_ISZERO computes_binary computes_shifts nth_append
        del: One_nat_def)
  then show ?thesis
    using assms by (auto simp: list_all_iff)
qed

lemma alu_metrics:
  assumes "(op, n, f) \<in> set alu_spec"
  shows "args (c_metrics ! nat op) = n" "ret (c_metrics ! nat op) = 1" "1 \<le> n"
proof -
  have "list_all (\<lambda>(op, n, f). args (c_metrics ! nat op) = n \<and> ret (c_metrics ! nat op) = 1 \<and> 1 \<le> n) alu_spec"
    unfolding alu_spec_def c_metrics_eq by (simp add: metric_def)
  then show "args (c_metrics ! nat op) = n" "ret (c_metrics ! nat op) = 1" "1 \<le> n"
    using assms by (auto simp: list_all_iff)
qed

text \<open>A fetch with enough operands and enough room.\<close>

lemma fetch_ok:
  assumes "wf v" and "mt = c_metrics ! unat (m_code v ! m_PC v)"
    and "m_SPP v + args mt \<le> stackLimit" and "ret mt \<le> m_SPP v + args mt"
  shows "fetchInstruction v = Inr (v\<lparr>m_OP := uint (m_code v ! m_PC v), m_SP := m_SPP v,
    m_SPP := m_SPP v + args mt - ret mt, m_runGas := tierStepGas (gasPriceTier mt),
    m_newMemSize := of_nat (length (m_mem v)), m_copyMemSize := 0\<rparr>)"
  using assms by (simp add: fetchInstruction_def code_read_def wf_def adjustStack_def Let_def)

lemma drop_update_hd: "i < length xs \<Longrightarrow> drop i (xs[i := x]) = x # drop (Suc i) xs"
  by (simp add: drop_update_swap Cons_nth_drop_Suc [symmetric])

lemma push_loop_value:
  assumes "m_PC v + n \<le> length (m_code v)"
  shows "push_loop n val v = Inr (foldl (\<lambda>r b. push_bit 8 r OR ucast b) val (take n (drop (m_PC v) (m_code v))),
    v\<lparr>m_PC := m_PC v + n\<rparr>)"
  using assms
proof (induction n arbitrary: val v)
  case (Suc n)
  have "take (Suc n) (drop (m_PC v) (m_code v)) = m_code v ! m_PC v # take n (drop (Suc (m_PC v)) (m_code v))"
    using Suc.prems by (subst Cons_nth_drop_Suc [symmetric]) simp_all
  then show ?case
    using Suc.prems Suc.IH [of "v\<lparr>m_PC := m_PC v + 1\<rparr>"] by (simp add: code_read_def)
qed simp

lemma push_metrics:
  assumes "n < 32"
  shows "c_metrics ! (0x60 + n) = metric VeryLow 0 1"
    "jumpTable K H ! (0x60 + n) = (if n = 0 then op_PUSH1 else op_PUSHN)"
proof -
  have "list_all (\<lambda>n. c_metrics ! (0x60 + n) = metric VeryLow 0 1) [0..<32]"
    by (simp add: c_metrics_eq upt_rec)
  then show "c_metrics ! (0x60 + n) = metric VeryLow 0 1"
    using assms by (simp add: list_all_iff)
  have "list_all (\<lambda>n. jumpTable K H ! (0x60 + n) = (if n = 0 then op_PUSH1 else op_PUSHN)) [0..<32]"
    by (simp add: jumpTable_def jumpTable_low_def nth_append upt_rec)
  then show "jumpTable K H ! (0x60 + n) = (if n = 0 then op_PUSH1 else op_PUSHN)"
    using assms by (simp add: list_all_iff)
qed

lemma push_case:
  assumes "m_runGas w \<le> m_io_gas w" and "m_OP w = 0x60 + int n" and "m_SPP w < length (m_stack w)"
    and c: "m_PC w + 1 + (n + 1) \<le> length (m_code w)"
  shows "(if n = 0 then op_PUSH1 else op_PUSHN) w = Inr (Fetch, w\<lparr>m_io_gas := m_io_gas w - m_runGas w,
    m_stack := (m_stack w)[m_SPP w := fromBigEndian (take (n + 1) (drop (m_PC w + 1) (m_code w)))],
    m_PC := m_PC w + n + 2\<rparr>)"
proof (cases "n = 0")
  case True
  have "take 1 (drop (m_PC w + 1) (m_code w)) = [m_code w ! (m_PC w + 1)]"
    using c by (simp add: take_Suc_conv_app_nth)
  then show ?thesis
    using True assms by (simp add: op_PUSH1_def access_ok code_read_def CONTINUE_def fromBigEndian_def Let_def)
next
  case False
  let ?u = "w\<lparr>m_io_gas := m_io_gas w - m_runGas w, m_PC := m_PC w + 1\<rparr>"
  have "nat (m_OP w - 0x60 + 1) = n + 1"
    using assms(2) by simp
  moreover have "push_loop (n + 1) 0 ?u = Inr (fromBigEndian (take (n + 1) (drop (m_PC w + 1) (m_code w))),
      ?u\<lparr>m_PC := m_PC w + n + 2\<rparr>)"
    using push_loop_value [of ?u "n + 1" 0] c by (simp add: fromBigEndian_def del: push_loop.simps)
  ultimately have "bindE (push_loop (nat (m_OP w - 0x60 + 1)) 0 ?u) (\<lambda>(x, v). bindE (setSPP x v) CONTINUE)
    = bindE (setSPP (fromBigEndian (take (n + 1) (drop (m_PC w + 1) (m_code w)))) (?u\<lparr>m_PC := m_PC w + n + 2\<rparr>)) CONTINUE"
    by (simp only: bindE_Inr prod.case)
  then show ?thesis
    using False assms(1,3) by (simp add: op_PUSHN_def access_ok CONTINUE_def Let_def del: push_loop.simps)
qed

lemma turn_eq:
  assumes "wf v" and "unat (m_code v ! m_PC v) = i" and "c_metrics ! i = metric t a r"
    and "a \<le> length (operands v)" and "r \<le> m_SPP v + a"
  shows "turn K H v = (jumpTable K H ! i) (v\<lparr>m_OP := int i, m_SP := m_SPP v, m_SPP := m_SPP v + a - r,
    m_runGas := tierStepGas t, m_newMemSize := of_nat (length (m_mem v)), m_copyMemSize := 0\<rparr>)"
proof -
  have "uint (m_code v ! m_PC v) = int i"
    using assms(2) by (metis uint_nat)
  moreover have "m_SPP v + a \<le> stackLimit"
    using assms(1,4) by (auto simp: wf_def operands_def)
  ultimately show ?thesis
    using fetch_ok [OF assms(1) refl] assms(2,3,5) by (simp add: turn_def jump_dispatch_def metric_def)
qed

lemma table_entries:
  "jumpTable K H ! 0x0a = op_EXP" "c_metrics ! 0x0a = metric Special 2 1"
  "jumpTable K H ! 0x52 = op_MSTORE" "c_metrics ! 0x52 = metric VeryLow 2 0"
  "jumpTable K H ! 0x56 = op_JUMP" "c_metrics ! 0x56 = metric Mid 1 0"
  by (simp_all add: jumpTable_def jumpTable_low_def nth_append c_metrics_eq)

lemma operands_take:
  assumes "wf v" and "n \<le> length (operands v)"
  shows "take n (drop (m_SPP v) (m_stack v)) = take n (operands v)" "m_SPP v + n \<le> stackLimit"
    "length (m_stack v) = stackLimit" "drop (m_SPP v + n) (m_stack v) = drop n (operands v)"
  using assms by (auto simp: operands_def wf_def add.commute)

lemma mem_round_le:
  assumes "m \<le> n" and "32 dvd n"
  shows "mem_round m \<le> n"
proof -
  obtain k where k: "n = 32 * k"
    using assms(2) by (elim dvdE)
  then have "(m + 31) div 32 \<le> (32 * k + 31) div 32"
    using assms(1) by (intro div_le_mono) simp
  also have "\<dots> = k"
    by simp
  finally show ?thesis
    using k by (simp add: mem_round_def)
qed

text \<open>Memory that is large enough is not touched.\<close>

lemma updateMem_inside:
  assumes "unat newMem \<le> length (m_mem v)" and "32 dvd length (m_mem v)" and "length (m_mem v) < 2 ^ 64"
    and "m_copyMemSize v = 0" and "m_runGas v \<le> m_io_gas v" and "unat newMem < 2 ^ 64 - 31"
  shows "updateMem newMem v = Inr (v\<lparr>m_newMemSize := (newMem + 31) div 32 * 32\<rparr>)"
proof -
  have "unat ((newMem + 31) div 32 * 32) \<le> length (m_mem v)"
    using u64_round [OF assms(6)] mem_round_le [OF assms(1,2)] by simp
  then have "(of_nat (length (m_mem v)) < (newMem + 31) div 32 * 32) = False"
    using assms(3) by (simp add: word_less_nat_alt unat_of_nat_small)
  moreover have "(m_io_gas v < m_runGas v) = False"
    using assms(5) by simp
  ultimately show ?thesis
    using assms(4) by (simp add: updateMem_def updateGas_def Let_def)
qed

lemma metric_args:
  assumes "i < 256"
  shows "args (c_metrics ! i) \<le> stackLimit"
proof -
  have "list_all (\<lambda>m. args m \<le> 17) c_metrics"
    by (simp add: c_metrics_eq metric_def)
  moreover have "c_metrics ! i \<in> set c_metrics"
    using assms by (intro nth_mem) (simp add: c_metrics_def)
  ultimately show ?thesis
    by (auto simp: list_all_iff stackLimit_def)
qed

text \<open>A small machine for examples.\<close>

definition example_vm :: "bytes \<Rightarrow> u256 list \<Rightarrow> unit vm" where
  "example_vm code ops = (new_vm () TVMC_CONSTANTINOPLE empty_message code)\<lparr>m_code := code @ replicate 33 0,
    m_stack := replicate (stackLimit - length ops) 0 @ ops, m_SPP := stackLimit - length ops,
    m_io_gas := 100000\<rparr>"

lemma wf_example: "length ops \<le> stackLimit \<Longrightarrow> length code < 2 ^ 64 \<Longrightarrow> wf (example_vm code ops)"
  by (auto simp: wf_def example_vm_def new_vm_def empty_message_def nth_append)

lemma example_fields:
  "length ops \<le> stackLimit \<Longrightarrow> operands (example_vm code ops) = ops"
  "m_PC (example_vm code ops) = 0" "m_code (example_vm code ops) = code @ replicate 33 0"
  "m_rev (example_vm code ops) = TVMC_CONSTANTINOPLE" "m_io_gas (example_vm code ops) = 100000"
  "m_SPP (example_vm code ops) = stackLimit - length ops" "m_mem (example_vm code ops) = []"
  by (simp_all add: operands_def example_vm_def new_vm_def)

section \<open>Properties\<close>

text \<open>
  Claim C6. One turn of the interpreter on an arithmetic, comparison or bit instruction with
  enough operands and gas replaces the operands on the stack by the value that the
  mathematical definition of the instruction gives, takes exactly the gas of its tier, moves to
  the next instruction, and changes neither memory nor host.  The shifts exist from Constantinople
  on, so the revision is that or a later one.
\<close>
theorem alu_refines:
  assumes "wf v" and "(uint (m_code v ! m_PC v), n, f) \<in> set alu_spec"
    and "TVMC_CONSTANTINOPLE \<le> m_rev v" and "n \<le> length (operands v)"
    and "tierStepGas (gasPriceTier (c_metrics ! unat (m_code v ! m_PC v))) \<le> m_io_gas v"
  shows "\<exists>v'. turn K H v = Inr (Fetch, v')
    \<and> operands v' = f (take n (operands v)) # drop n (operands v)
    \<and> m_io_gas v' = m_io_gas v - tierStepGas (gasPriceTier (c_metrics ! unat (m_code v ! m_PC v)))
    \<and> m_PC v' = m_PC v + 1 \<and> m_mem v' = m_mem v \<and> m_context v' = m_context v"
proof -
  let ?op = "uint (m_code v ! m_PC v)" and ?mt = "c_metrics ! unat (m_code v ! m_PC v)"
  have mt: "args ?mt = n" "ret ?mt = 1" "1 \<le> n"
    using alu_metrics [OF assms(2)] by simp_all
  have st: "length (m_stack v) = stackLimit" "m_SPP v + n \<le> stackLimit"
    using assms(1,4) by (auto simp: wf_def operands_def)
  let ?w = "v\<lparr>m_OP := ?op, m_SP := m_SPP v, m_SPP := m_SPP v + n - 1,
    m_runGas := tierStepGas (gasPriceTier ?mt), m_newMemSize := of_nat (length (m_mem v)), m_copyMemSize := 0\<rparr>"
  have "fetchInstruction v = Inr ?w"
    using fetch_ok [OF assms(1) refl] mt st(2) by simp
  moreover obtain sp where "(jumpTable K H ! nat ?op) ?w = Inr (Fetch, ?w\<lparr>m_io_gas := m_io_gas ?w - m_runGas ?w,
      m_stack := (m_stack ?w)[m_SPP ?w := f (take n (drop (m_SP ?w) (m_stack ?w)))],
      m_PC := m_PC ?w + 1, m_SP := sp\<rparr>)"
    using alu_computes [OF assms(2), of K H, unfolded computes_def, rule_format, of ?w] assms(3,5) st mt(3)
    by auto
  ultimately have "turn K H v = Inr (Fetch, ?w\<lparr>m_io_gas := m_io_gas ?w - m_runGas ?w,
      m_stack := (m_stack ?w)[m_SPP ?w := f (take n (drop (m_SP ?w) (m_stack ?w)))],
      m_PC := m_PC ?w + 1, m_SP := sp\<rparr>)"
    by (simp add: turn_def jump_dispatch_def)
  then show ?thesis
    using st mt(3) by (auto simp: operands_def drop_update_hd add.commute)
qed

theorem alu_refines_witness:
  "wf (example_vm [0x05] [- 8, 3]) \<and> (\<exists>v'. turn (\<lambda>_. []) null_host (example_vm [0x05] [- 8, 3]) = Inr (Fetch, v')
    \<and> operands v' = [- 2] \<and> m_io_gas v' = 99995)"
proof -
  let ?v = "example_vm [0x05] [- 8, 3]"
  let ?f = "\<lambda>s :: u256 list. if s ! 1 = 0 then 0 else word_of_int (sint (s ! 0) sdiv sint (s ! 1)) :: u256"
  have w: "wf ?v"
    by (rule wf_example) (simp_all add: stackLimit_def)
  have m: "(uint (m_code ?v ! m_PC ?v), 2, ?f) \<in> set alu_spec"
    by (simp add: example_fields alu_spec_def)
  have t: "c_metrics ! 5 = metric Low 2 1"
    by (simp add: c_metrics_eq)
  have "?f [- 8, 3] = - 2"
    by (simp add: signed_divide_int_def)
  then show ?thesis
    using alu_refines [OF w m, of "\<lambda>_. []" null_host] w
    by (auto simp: example_fields t metric_def tierStepGas_def stackLimit_def)
qed

text \<open>
  Claim C10. One turn on \<^verbatim>\<open>PUSH1\<close> to \<^verbatim>\<open>PUSH32\<close> puts the big-endian number of the bytes that follow
  the opcode on the stack, with zeros in place of bytes past the end of the code, and moves
  behind them.
\<close>
theorem push_reads_operand:
  assumes "wf v" and "unat (m_code v ! m_PC v) = 0x60 + n" and "n < 32"
    and "length (operands v) < stackLimit" and "3 \<le> m_io_gas v"
  shows "\<exists>v'. turn K H v = Inr (Fetch, v')
    \<and> operands v' = fromBigEndian (take (n + 1) (drop (m_PC v + 1) (m_code v))) # operands v
    \<and> m_PC v' = m_PC v + n + 2 \<and> m_io_gas v' = m_io_gas v - 3"
proof -
  let ?b = "m_code v ! m_PC v"
  let ?w = "v\<lparr>m_OP := uint ?b, m_SP := m_SPP v, m_SPP := m_SPP v - 1,
    m_runGas := 3, m_newMemSize := of_nat (length (m_mem v)), m_copyMemSize := 0\<rparr>"
  have op: "uint ?b = 0x60 + int n"
    using assms(2) by (metis of_nat_add of_nat_numeral uint_nat)
  have mt: "c_metrics ! unat ?b = metric VeryLow 0 1"
    using push_metrics(1) [OF assms(3)] assms(2) by simp
  have st: "length (m_stack v) = stackLimit" "0 < m_SPP v" "m_SPP v \<le> stackLimit"
    using assms(1,4) by (auto simp: wf_def operands_def)
  have f: "fetchInstruction v = Inr ?w"
    using fetch_ok [OF assms(1) mt [symmetric]] st by (simp add: metric_def tierStepGas_def)
  have inside: "m_PC v < length (m_pCode v)" "length (m_code v) = length (m_pCode v) + 33"
    using assms(1,2) by (auto simp: wf_def not_le [symmetric])
  then have c: "m_PC v + 1 + (n + 1) \<le> length (m_code v)"
    using assms(3) by simp
  let ?x = "fromBigEndian (take (n + 1) (drop (m_PC v + 1) (m_code v))) :: u256"
  have "(jumpTable K H ! nat (uint ?b)) ?w = Inr (Fetch, ?w\<lparr>m_io_gas := m_io_gas v - 3,
      m_stack := (m_stack v)[m_SPP v - 1 := ?x], m_PC := m_PC v + n + 2\<rparr>)"
    using push_case [of ?w n] push_metrics(2) [OF assms(3), of K H] assms(5) op st c
    by (auto simp: nat_add_distrib)
  then have "turn K H v = Inr (Fetch, ?w\<lparr>m_io_gas := m_io_gas v - 3,
      m_stack := (m_stack v)[m_SPP v - 1 := ?x], m_PC := m_PC v + n + 2\<rparr>)"
    by (simp add: turn_def f jump_dispatch_def)
  then show ?thesis
    using st drop_update_hd [of "m_SPP v - 1" "m_stack v" ?x] by (simp add: operands_def)
qed

theorem push_reads_operand_witness:
  "wf (example_vm [0x61, 0x12] []) \<and> (\<exists>v'. turn (\<lambda>_. []) null_host (example_vm [0x61, 0x12] []) = Inr (Fetch, v')
    \<and> operands v' = [0x1200] \<and> m_PC v' = 3)"
proof -
  let ?v = "example_vm [0x61, 0x12] []"
  have w: "wf ?v"
    by (rule wf_example) (simp_all add: stackLimit_def)
  have t: "take 2 (0x12 # replicate 33 (0 :: byte)) = [0x12, 0]"
    by (simp add: eval_nat_numeral)
  have x: "take (1 + 1) (drop (m_PC ?v + 1) (m_code ?v)) = [0x12, 0]"
    using t by (simp add: example_fields)
  have "unat (m_code ?v ! m_PC ?v) = 0x60 + 1" "length (operands ?v) < stackLimit" "3 \<le> m_io_gas ?v"
    by (simp_all add: example_fields stackLimit_def)
  then obtain v' where v': "turn (\<lambda>_. []) null_host ?v = Inr (Fetch, v')"
      "operands v' = fromBigEndian [0x12, 0] # operands ?v" "m_PC v' = m_PC ?v + 1 + 2"
    using push_reads_operand [OF w, of 1 "\<lambda>_. []" null_host] unfolding x by auto
  have "fromBigEndian [0x12, 0] = (0x1200 :: u256)"
    by (simp add: fromBigEndian_def)
  then show ?thesis
    using v' w by (simp add: example_fields)
qed

text \<open>
  Claim C23. \<^verbatim>\<open>EXP\<close> puts the power of its operands modulo 2 to the 256 on the stack and takes 10 gas
  and, for each significant byte of the exponent, 50 gas (10 before Spurious Dragon).
\<close>
theorem exp_turn:
  assumes "wf v" and "unat (m_code v ! m_PC v) = 0x0a" and "operands v = b # e # rest"
    and "10 + (if m_rev v \<ge> TVMC_SPURIOUS_DRAGON then 50 else 10) * bytesRequired (unat e) \<le> unat (m_io_gas v)"
  shows "\<exists>v'. turn K H v = Inr (Fetch, v') \<and> operands v' = b ^ unat e # rest
    \<and> unat (m_io_gas v') = unat (m_io_gas v)
        - (10 + (if m_rev v \<ge> TVMC_SPURIOUS_DRAGON then 50 else 10) * bytesRequired (unat e))"
proof -
  let ?c = "10 + (if m_rev v \<ge> TVMC_SPURIOUS_DRAGON then 50 else 10) * bytesRequired (unat e)"
  let ?w = "v\<lparr>m_OP := int 0x0a, m_SP := m_SPP v, m_SPP := m_SPP v + 2 - 1,
    m_runGas := tierStepGas Special, m_newMemSize := of_nat (length (m_mem v)), m_copyMemSize := 0\<rparr>"
  have o: "take 2 (drop (m_SPP v) (m_stack v)) = [b, e]" "m_SPP v + 2 \<le> stackLimit" "length (m_stack v) = stackLimit"
      "drop (Suc (Suc (m_SPP v))) (m_stack v) = rest"
    using operands_take [OF assms(1), of 2] assms(3) by simp_all
  have t: "turn K H v = op_EXP ?w"
    using turn_eq [OF assms(1,2) table_entries(2)] assms(3) by (simp add: table_entries)
  have g: "unat (m_io_gas v) < 9223372036854775808"
    using assms(1) by (simp add: wf_def)
  have "unat (of_nat ?c :: u64) = ?c"
    using assms(4) g by (intro unat_of_nat_small) simp
  then have c: "of_nat ?c \<le> m_io_gas v" "unat (m_io_gas v - of_nat ?c) = unat (m_io_gas v) - ?c"
    using assms(4) by (simp_all add: word_le_nat_alt unat_sub)
  have i: "toInt63 ?c ?w = Inr (of_nat ?c)"
    using assms(4) g by (simp add: toInt63_def)
  have "op_EXP ?w = Inr (Fetch, ?w\<lparr>m_runGas := of_nat ?c, m_io_gas := m_io_gas v - of_nat ?c,
      m_stack := (m_stack v)[m_SPP v + 1 := b ^ unat e], m_PC := m_PC v + 1\<rparr>)"
    using o c i by (simp add: op_EXP_def access_ok exponent_bytes exp256_def exp256_loop_eq NEXT_def Let_def
        del: of_nat_add of_nat_mult)
  then show ?thesis
    using t o c(2) by (simp add: operands_def drop_update_hd del: of_nat_add of_nat_mult)
qed

theorem exp_turn_witness:
  "operands (example_vm [0x0a] [3, 5]) = [3, 5]
    \<and> (\<exists>v'. turn (\<lambda>_. []) null_host (example_vm [0x0a] [3, 5]) = Inr (Fetch, v')
      \<and> operands v' = [243] \<and> unat (m_io_gas v') = 99940)"
proof -
  let ?v = "example_vm [0x0a] [3, 5]"
  have w: "wf ?v" and o: "operands ?v = [3, 5]"
    by (rule wf_example) (simp_all add: stackLimit_def example_fields)
  have b: "bytesRequired 5 = 1"
    by (simp add: bytesRequired_pos)
  have r: "TVMC_SPURIOUS_DRAGON \<le> TVMC_CONSTANTINOPLE"
    by (simp add: less_eq_tvmc_revision_def)
  show ?thesis
    using exp_turn [OF w _ o, of "\<lambda>_. []" null_host] o r by (simp add: example_fields b)
qed

text \<open>
  Claim C24. \<^verbatim>\<open>MSTORE\<close> at an offset that the memory already covers writes the 32 big-endian bytes
  of the value and nothing else.  The place is the offset modulo 2 to the 32, because the code
  narrows the offset to 32 bits: for an offset of 4 GiB or more the write goes to a lower address.
\<close>
theorem mstore_turn:
  assumes "wf v" and "unat (m_code v ! m_PC v) = 0x52" and "operands v = x # y # rest"
    and "unat x + 32 \<le> length (m_mem v)" and "32 dvd length (m_mem v)" and "unat x < 2 ^ 63" and "3 \<le> m_io_gas v"
  shows "\<exists>v'. turn K H v = Inr (Fetch, v') \<and> operands v' = rest \<and> m_io_gas v' = m_io_gas v - 3
    \<and> m_mem v' = overwrite (m_mem v) (unat x mod 2 ^ 32) (toBigEndian256 y)"
proof -
  let ?w = "v\<lparr>m_OP := int 0x52, m_SP := m_SPP v, m_SPP := m_SPP v + 2 - 0,
    m_runGas := tierStepGas VeryLow, m_newMemSize := of_nat (length (m_mem v)), m_copyMemSize := 0\<rparr>"
  have o: "take 2 (drop (m_SPP v) (m_stack v)) = [x, y]" "m_SPP v + 2 \<le> stackLimit" "length (m_stack v) = stackLimit"
      "drop (Suc (Suc (m_SPP v))) (m_stack v) = rest"
    using operands_take [OF assms(1), of 2] assms(3) by simp_all
  have t: "turn K H v = op_MSTORE ?w"
    using turn_eq [OF assms(1,2) table_entries(4)] assms(3) by (simp add: table_entries)
  have m: "length (m_mem v) < 2 ^ 64"
    using assms(1) by (simp add: wf_def)
  have i: "toInt63 (unat x) ?w = Inr (of_nat (unat x))"
    using assms(6) by (simp add: toInt63_def)
  have n: "unat (of_nat (unat x) + 32 :: u64) = unat x + 32"
    using assms(6) unat_of_nat_small [where n = "unat x" and 'a = 64]
    by (subst unat_add_small) (simp_all del: of_nat_unat)
  let ?u = "?w\<lparr>m_newMemSize := (of_nat (unat x) + 32 + 31) div 32 * 32\<rparr>"
  have u: "updateMem (of_nat (unat x) + 32) ?w = Inr ?u"
    using assms(4-7) m n by (intro updateMem_inside) (simp_all add: tierStepGas_def)
  have x: "unat (ucast x :: u32) = unat x mod 2 ^ 32"
    by (simp add: unsigned_ucast_eq take_bit_eq_mod)
  have "unat x mod 2 ^ 32 + 32 \<le> length (m_mem v)"
    using assms(4) mod_less_eq_dividend [of "unat x" "2 ^ 32"] by linarith
  then have "mem_write (unat (ucast x :: u32)) (toBigEndian256 y) (?u\<lparr>m_io_gas := m_io_gas v - 3\<rparr>)
    = Inr (?u\<lparr>m_io_gas := m_io_gas v - 3, m_mem := overwrite (m_mem v) (unat x mod 2 ^ 32) (toBigEndian256 y)\<rparr>)"
    by (auto simp: mem_write_def x dest: arg_cong [where f = length])
  then have "op_MSTORE ?w = Inr (Fetch, ?u\<lparr>m_io_gas := m_io_gas v - 3,
      m_mem := overwrite (m_mem v) (unat x mod 2 ^ 32) (toBigEndian256 y), m_PC := m_PC v + 1\<rparr>)"
    using o i u assms(7) by (simp add: op_MSTORE_def access_ok NEXT_def tierStepGas_def)
  then show ?thesis
    using t o by (simp add: operands_def)
qed

theorem mstore_turn_witness:
  "m_mem (example_vm [0x52] [1, 0x102]\<lparr>m_mem := replicate 64 7\<rparr>) = replicate 64 7
    \<and> (\<exists>v'. turn (\<lambda>_. []) null_host (example_vm [0x52] [1, 0x102]\<lparr>m_mem := replicate 64 7\<rparr>) = Inr (Fetch, v')
      \<and> m_mem v' = replicate 1 7 @ replicate 30 0 @ [1, 2] @ replicate 31 7)"
proof -
  let ?v = "example_vm [0x52] [1, 0x102]\<lparr>m_mem := replicate 64 7\<rparr>"
  have o: "operands ?v = [1, 0x102]"
    using example_fields(1) [of "[1, 0x102]" "[0x52]"] by (simp add: operands_def stackLimit_def)
  have w: "wf ?v"
    by (auto simp: wf_def example_vm_def new_vm_def empty_message_def nth_append stackLimit_def)
  have b: "overwrite (replicate 64 7) 1 (toBigEndian256 0x102)
      = replicate 1 7 @ replicate 30 0 @ [1, 2] @ replicate 31 (7 :: byte)"
    by code_simp
  show ?thesis
    using mstore_turn [OF w _ o, of "\<lambda>_. []" null_host] b by (auto simp: example_fields)
qed

text \<open>
  Claim C8. \<^verbatim>\<open>JUMP\<close> goes to its operand exactly when the operand is the position of a \<^verbatim>\<open>JUMPDEST\<close>
  byte that is an instruction of the code and not part of the operand of a push; any other
  operand ends the run with \<^verbatim>\<open>BadJumpDestination\<close>.  The table it consults is the one that \<^verbatim>\<open>initEntry\<close>
  built from the code.
\<close>
theorem jump_turn:
  assumes "wf v" and "unat (m_code v ! m_PC v) = 0x56" and "operands v = d # rest" and "8 \<le> m_io_gas v"
    and "m_jumpDests u = []" and "length (m_pCode u) < 2 ^ 63" and "m_jumpDests v = m_jumpDests (initEntry u)"
  shows "if unat d \<in> dests_from (m_pCode u) 0
    then \<exists>v'. turn K H v = Inr (Fetch, v') \<and> m_PC v' = unat d \<and> operands v' = rest \<and> m_io_gas v' = m_io_gas v - 8
    else \<exists>v'. turn K H v = Inl (BadJumpDestination, v')"
proof -
  let ?w = "v\<lparr>m_OP := int 0x56, m_SP := m_SPP v, m_SPP := m_SPP v + 1 - 0,
    m_runGas := tierStepGas Mid, m_newMemSize := of_nat (length (m_mem v)), m_copyMemSize := 0\<rparr>"
  have o: "take 1 (drop (m_SPP v) (m_stack v)) = [d]" "m_SPP v + 1 \<le> stackLimit" "length (m_stack v) = stackLimit"
      "drop (Suc (m_SPP v)) (m_stack v) = rest"
    using operands_take [OF assms(1), of 1] assms(3) by simp_all
  have t: "turn K H v = op_JUMP ?w"
    using turn_eq [OF assms(1,2) table_entries(6)] assms(3) by (simp add: table_entries)
  obtain dests where i: "m_jumpDests v = dests" "set dests = dests_from (m_pCode u) 0" "sorted dests"
    using initEntry_spec [OF assms(5)] assms(7) by (metis vm.select_convs vm.update_convs vm.surjective)
  have "unat d \<in> dests_from (m_pCode u) 0 \<Longrightarrow> unat d < 2 ^ 63"
    using assms(6) by (simp add: dests_from_def)
  then have "op_JUMP ?w = (if unat d \<in> dests_from (m_pCode u) 0
      then Inr (Fetch, ?w\<lparr>m_io_gas := m_io_gas v - 8, m_PC := unat d\<rparr>)
      else Inl (BadJumpDestination, ?w\<lparr>m_io_gas := m_io_gas v - 8\<rparr>))"
    using o i assms(4) by (simp add: op_JUMP_def access_ok CONTINUE_def tierStepGas_def verifyJumpDest_eq)
  then show ?thesis
    using t o by (simp add: operands_def)
qed

theorem jump_turn_witness:
  "(\<exists>v'. turn (\<lambda>_. []) null_host (example_vm [0x56, 0x60, 0x5b, 0x5b] [3]\<lparr>m_jumpDests := [3]\<rparr>) = Inr (Fetch, v')
      \<and> m_PC v' = 3)
    \<and> (\<exists>v'. turn (\<lambda>_. []) null_host (example_vm [0x56, 0x60, 0x5b, 0x5b] [2]\<lparr>m_jumpDests := [3]\<rparr>)
      = Inl (BadJumpDestination, v'))"
proof -
  let ?c = "[0x56, 0x60, 0x5b, 0x5b] :: bytes"
  let ?v = "\<lambda>d. example_vm ?c [d]\<lparr>m_jumpDests := [3]\<rparr>" and ?u = "new_vm () TVMC_CONSTANTINOPLE empty_message ?c"
  have i: "m_jumpDests (initEntry ?u) = [3]" "m_jumpDests ?u = []" "m_pCode ?u = ?c"
    by (simp_all add: initEntry_def optimize_def copyCode_def new_vm_def scan_loop.simps Let_def)
  have d: "dests_from ?c 0 = {3}"
    by (simp add: dests_from_step dests_from_end push_size_def)
  have w: "wf (?v d)" for d
    by (auto simp: wf_def example_vm_def new_vm_def empty_message_def nth_append stackLimit_def)
  have o: "operands (?v d) = [d]" for d
    using example_fields(1) [of "[d]" ?c] by (simp add: operands_def stackLimit_def)
  show ?thesis
    using jump_turn [OF w _ o _ i(2), of 3 "\<lambda>_. []" null_host] jump_turn [OF w _ o _ i(2), of 2 "\<lambda>_. []" null_host]
    by (auto simp: i d example_fields)
qed

text \<open>
  Claim C9. \<^verbatim>\<open>updateMem\<close> charges for growing memory what the Yellow Paper says: with sizes in words
  rounded up, the difference of \<open>3 * w + w * w div 512\<close> before and after, besides the gas
  already accumulated and 3 per copied word.  When the gas left covers the total the memory has
  the rounded size, its old contents and zeros behind them; when it does not, the run is out of
  gas.
\<close>
theorem memory_growth:
  assumes "length (m_mem v) < 2 ^ 64" and "unat newMem < 2 ^ 64 - 31" and "unat (m_copyMemSize v) < 2 ^ 63"
    and "unat (m_runGas v) + 3 * ((unat (m_copyMemSize v) + 31) div 32) \<le> 2 ^ 63"
    and "w = (unat newMem + 31) div 32" and "length (m_mem v) = 32 * old" and "old < w"
    and "cost = unat (m_runGas v) + (3 * w + w * w div 512) - (3 * old + old * old div 512)
      + 3 * ((unat (m_copyMemSize v) + 31) div 32)"
    and "3 * w + w * w div 512 < 2 ^ 63"
  shows "if cost \<le> unat (m_io_gas v)
    then \<exists>v'. updateMem newMem v = Inr v' \<and> unat (m_runGas v') = cost
      \<and> m_mem v' = m_mem v @ replicate (32 * (w - old)) 0 \<and> m_io_gas v' = m_io_gas v
    else \<exists>v'. updateMem newMem v = Inl (OutOfGas, v')"
proof -
  let ?n = "mem_round (unat newMem)"
  have n: "?n = 32 * w"
    using assms(5) by (simp add: mem_round_def)
  have "3 * old \<le> 3 * w" "old * old div 512 \<le> w * w div 512"
    using assms(7) by (simp_all add: div_le_mono mult_le_mono)
  then have t: "total_gas ?n v = cost"
    unfolding n using assms(6-8)
    by (simp add: total_gas_def expansion_cost_def mem_cost_def copy_cost_def)
  have "mem_cost ?n < 2 ^ 63"
    unfolding n using assms(9) by (simp add: mem_cost_def)
  then have a: "affordable ?n v \<longleftrightarrow> cost \<le> unat (m_io_gas v)"
    using t by (simp add: affordable_def)
  have "cost \<le> unat (m_io_gas v) \<Longrightarrow> unat (of_nat cost :: u64) = cost"
    using unsigned_less [of "m_io_gas v", where ?'a = nat] by (intro unat_of_nat_small) simp
  moreover have "32 * w - length (m_mem v) = 32 * (w - old)"
    using assms(6) by simp
  ultimately show ?thesis
    using updateMem_eq [OF assms(1-3)] assms(4) a t unfolding n copy_cost_def by (auto split: if_splits)
qed

theorem memory_growth_witness:
  "\<exists>v'. updateMem 33 (example_vm [] []\<lparr>m_runGas := 3\<rparr>) = Inr v' \<and> unat (m_runGas v') = 9
    \<and> m_mem v' = replicate 64 0"
proof -
  let ?v = "example_vm [] []\<lparr>m_runGas := 3\<rparr>"
  have f: "m_mem ?v = []" "m_copyMemSize ?v = 0" "m_runGas ?v = 3" "m_io_gas ?v = 100000"
    by (simp_all add: example_vm_def new_vm_def)
  have "if 9 \<le> unat (m_io_gas ?v)
    then \<exists>v'. updateMem 33 ?v = Inr v' \<and> unat (m_runGas v') = 9
      \<and> m_mem v' = m_mem ?v @ replicate (32 * (2 - 0)) 0 \<and> m_io_gas v' = m_io_gas ?v
    else \<exists>v'. updateMem 33 ?v = Inl (OutOfGas, v')"
    by (rule memory_growth) (simp_all add: f)
  then show ?thesis
    by (simp add: f split: if_splits) blast
qed

text \<open>
  Claim C26. An instruction whose operands are not on the stack ends the run with
  \<^verbatim>\<open>StackUnderflow\<close>, and one that would leave more than 1024 values ends it with \<^verbatim>\<open>OutOfStack\<close>; in
  both cases no gas is taken and nothing else has changed.
\<close>
theorem stack_errors:
  assumes "wf v" and "mt = c_metrics ! unat (m_code v ! m_PC v)"
  shows "(length (operands v) < args mt \<longrightarrow> (\<exists>v'. turn K H v = Inl (StackUnderflow, v')
        \<and> m_io_gas v' = m_io_gas v \<and> m_context v' = m_context v \<and> m_stack v' = m_stack v))
    \<and> (args mt \<le> length (operands v) \<and> stackLimit < length (operands v) - args mt + ret mt \<longrightarrow>
      (\<exists>v'. turn K H v = Inl (OutOfStack, v')
        \<and> m_io_gas v' = m_io_gas v \<and> m_context v' = m_context v \<and> m_stack v' = m_stack v))"
proof -
  have "args mt \<le> stackLimit"
    using assms(2) unsigned_less [of "m_code v ! m_PC v", where ?'a = nat] by (simp add: metric_args)
  then show ?thesis
    using assms
    by (auto simp: turn_def fetchInstruction_def code_read_def wf_def adjustStack_def Let_def operands_def
      throwBadStack_def throw_def)
qed

theorem stack_errors_witness:
  "(\<exists>v'. turn (\<lambda>_. []) null_host (example_vm [0x01] [7]) = Inl (StackUnderflow, v'))
    \<and> (\<exists>v'. turn (\<lambda>_. []) null_host (example_vm [0x30] (replicate 1024 0)) = Inl (OutOfStack, v'))"
proof -
  have m: "c_metrics ! Suc 0 = metric VeryLow 2 1" "c_metrics ! 0x30 = metric Base 0 1"
    by (simp_all add: c_metrics_eq)
  have w: "wf (example_vm [0x01] [7])" "wf (example_vm [0x30] (replicate 1024 0))"
    by (rule wf_example; simp add: stackLimit_def)+
  show ?thesis
    using stack_errors [OF w(1) refl, of "\<lambda>_. []" null_host] stack_errors [OF w(2) refl, of "\<lambda>_. []" null_host]
    by (auto simp: example_fields m metric_def stackLimit_def)
qed

end
