(* ===== verification/Storage.thy ===== *)
theory Storage
  imports Prelude "HOL-Library.AList"
begin

text \<open>
  The node stores of \<^verbatim>\<open>src/toscore/storage\<close>: the in-memory table \<^verbatim>\<open>MemoryDB\<close> with its reference
  counts, the database interface \<^verbatim>\<open>DatabaseFace\<close> with its LevelDB implementation, and \<^verbatim>\<open>OverlayDB\<close>,
  which puts the first on top of the second.  The LevelDB engine is a parameter.

  An \<^verbatim>\<open>unordered_map\<close> is an association list; its order stands for the unspecified order of
  iteration.  Strings and byte vectors are byte lists.
\<close>

section \<open>Definitions: the in-memory store\<close>

record MemoryDB =
  m_main :: "(h256 \<times> bytes \<times> u32) list"
  m_aux :: "(h256 \<times> bytes \<times> bool) list"
  m_enforceRefs :: bool

definition MemoryDB_empty :: MemoryDB where
  "MemoryDB_empty = \<lparr>m_main = [], m_aux = [], m_enforceRefs = False\<rparr>"

definition MemoryDB_get :: "'a MemoryDB_scheme \<Rightarrow> (h256 \<times> bytes) list" where
  "MemoryDB_get db = map (\<lambda>(h, v, n). (h, v)) (filter (\<lambda>(h, v, n). \<not> m_enforceRefs db \<or> n > 0) (m_main db))"

definition MemoryDB_assign :: "'a MemoryDB_scheme \<Rightarrow> 'b MemoryDB_scheme \<Rightarrow> 'a MemoryDB_scheme" where
  "MemoryDB_assign db c = db\<lparr>m_main := m_main c, m_aux := m_aux c\<rparr>"

definition MemoryDB_clear :: "'a MemoryDB_scheme \<Rightarrow> 'a MemoryDB_scheme" where
  "MemoryDB_clear db = db\<lparr>m_main := [], m_aux := []\<rparr>"

definition MemoryDB_lookup :: "'a MemoryDB_scheme \<Rightarrow> h256 \<Rightarrow> bytes" where
  "MemoryDB_lookup db h =
    (case map_of (m_main db) h of
      Some (v, n) \<Rightarrow> if \<not> m_enforceRefs db \<or> n > 0 then v else []
    | None \<Rightarrow> [])"

definition MemoryDB_exists :: "'a MemoryDB_scheme \<Rightarrow> h256 \<Rightarrow> bool" where
  "MemoryDB_exists db h =
    (case map_of (m_main db) h of
      Some (v, n) \<Rightarrow> \<not> m_enforceRefs db \<or> n > 0
    | None \<Rightarrow> False)"

definition MemoryDB_insert :: "'a MemoryDB_scheme \<Rightarrow> h256 \<Rightarrow> bytes \<Rightarrow> 'a MemoryDB_scheme" where
  "MemoryDB_insert db h v =
    (case map_of (m_main db) h of
      Some (_, n) \<Rightarrow> db\<lparr>m_main := AList.update h (v, n + 1) (m_main db)\<rparr>
    | None \<Rightarrow> db\<lparr>m_main := AList.update h (v, 1) (m_main db)\<rparr>)"

definition MemoryDB_kill :: "'a MemoryDB_scheme \<Rightarrow> h256 \<Rightarrow> bool \<times> 'a MemoryDB_scheme" where
  "MemoryDB_kill db h =
    (case map_of (m_main db) h of
      Some (v, n) \<Rightarrow>
        if n > 0 then (True, db\<lparr>m_main := AList.update h (v, n - 1) (m_main db)\<rparr>) else (False, db)
    | None \<Rightarrow> (False, db))"

definition MemoryDB_lookupAux :: "'a MemoryDB_scheme \<Rightarrow> h256 \<Rightarrow> bytes" where
  "MemoryDB_lookupAux db h =
    (case map_of (m_aux db) h of
      Some (v, b) \<Rightarrow> if \<not> m_enforceRefs db \<or> b then v else []
    | None \<Rightarrow> [])"

definition MemoryDB_removeAux :: "'a MemoryDB_scheme \<Rightarrow> h256 \<Rightarrow> 'a MemoryDB_scheme" where
  "MemoryDB_removeAux db h =
    db\<lparr>m_aux := AList.update h (case map_of (m_aux db) h of Some (v, _) \<Rightarrow> (v, False) | None \<Rightarrow> ([], False)) (m_aux db)\<rparr>"

definition MemoryDB_insertAux :: "'a MemoryDB_scheme \<Rightarrow> h256 \<Rightarrow> bytes \<Rightarrow> 'a MemoryDB_scheme" where
  "MemoryDB_insertAux db h v = db\<lparr>m_aux := AList.update h (v, True) (m_aux db)\<rparr>"

definition MemoryDB_purge :: "'a MemoryDB_scheme \<Rightarrow> 'a MemoryDB_scheme" where
  "MemoryDB_purge db =
    db\<lparr>m_main := filter (\<lambda>(h, v, n). n \<noteq> 0) (m_main db), m_aux := filter (\<lambda>(h, v, b). b) (m_aux db)\<rparr>"

definition MemoryDB_keys :: "'a MemoryDB_scheme \<Rightarrow> h256 list" where
  "MemoryDB_keys db = map fst (filter (\<lambda>(h, v, n). n \<noteq> 0) (m_main db))"

text \<open>The scope guard \<^verbatim>\<open>EnforceRefs\<close>: its constructor saves the flag, its destructor restores it.\<close>

definition EnforceRefs_enter :: "'a MemoryDB_scheme \<Rightarrow> bool \<Rightarrow> bool \<times> 'a MemoryDB_scheme" where
  "EnforceRefs_enter db r = (m_enforceRefs db, db\<lparr>m_enforceRefs := r\<rparr>)"

definition EnforceRefs_leave :: "bool \<Rightarrow> 'a MemoryDB_scheme \<Rightarrow> 'a MemoryDB_scheme" where
  "EnforceRefs_leave r db = db\<lparr>m_enforceRefs := r\<rparr>"

section \<open>Definitions: the database interface and LevelDB\<close>

datatype DatabaseStatus = DB_Ok | DB_NotFound | DB_Corruption | DB_NotSupported | DB_InvalidArgument | DB_IOError | DB_Unknown

text \<open>A \<^verbatim>\<open>DatabaseError\<close> with its status code, or with a comment only.\<close>

datatype db_error = DatabaseError "DatabaseStatus option"

text \<open>A write batch is the list of its operations.\<close>

datatype batch_op = BatchPut bytes bytes | BatchDelete bytes

type_synonym WriteBatch = "batch_op list"

record 'd DatabaseFace =
  db_lookup :: "'d \<Rightarrow> bytes \<Rightarrow> db_error + bytes"
  db_exists :: "'d \<Rightarrow> bytes \<Rightarrow> db_error + bool"
  db_insert :: "'d \<Rightarrow> bytes \<Rightarrow> bytes \<Rightarrow> (db_error + unit) \<times> 'd"
  db_kill :: "'d \<Rightarrow> bytes \<Rightarrow> (db_error + unit) \<times> 'd"
  db_createWriteBatch :: "'d \<Rightarrow> WriteBatch"
  db_commit :: "'d \<Rightarrow> WriteBatch option \<Rightarrow> (db_error + unit) \<times> 'd"

text \<open>The engine: its status codes and the calls that \<^verbatim>\<open>LevelDB.cpp\<close> makes.\<close>

datatype ldb_Status = LS_Ok | LS_NotFound | LS_Corruption | LS_NotSupported | LS_InvalidArgument | LS_IOError

record 'l leveldb =
  ldb_Get :: "'l \<Rightarrow> bytes \<Rightarrow> ldb_Status \<times> bytes"
  ldb_Put :: "'l \<Rightarrow> bytes \<Rightarrow> bytes \<Rightarrow> ldb_Status \<times> 'l"
  ldb_Delete :: "'l \<Rightarrow> bytes \<Rightarrow> ldb_Status \<times> 'l"
  ldb_Write :: "'l \<Rightarrow> WriteBatch \<Rightarrow> ldb_Status \<times> 'l"
  ldb_Iterate :: "'l \<Rightarrow> (bytes \<times> bytes) list option"

fun toDatabaseStatus :: "ldb_Status \<Rightarrow> DatabaseStatus" where
  "toDatabaseStatus LS_Ok = DB_Ok"
| "toDatabaseStatus LS_IOError = DB_IOError"
| "toDatabaseStatus LS_Corruption = DB_Corruption"
| "toDatabaseStatus LS_NotFound = DB_NotFound"
| "toDatabaseStatus _ = DB_Unknown"

definition checkStatus :: "ldb_Status \<Rightarrow> db_error + unit" where
  "checkStatus s = (if s = LS_Ok then Inr () else Inl (DatabaseError (Some (toDatabaseStatus s))))"

definition LevelDBWriteBatch_insert :: "WriteBatch \<Rightarrow> bytes \<Rightarrow> bytes \<Rightarrow> WriteBatch" where
  "LevelDBWriteBatch_insert b k v = b @ [BatchPut k v]"

definition LevelDBWriteBatch_kill :: "WriteBatch \<Rightarrow> bytes \<Rightarrow> WriteBatch" where
  "LevelDBWriteBatch_kill b k = b @ [BatchDelete k]"

definition LevelDB_lookup :: "'l leveldb \<Rightarrow> 'l \<Rightarrow> bytes \<Rightarrow> db_error + bytes" where
  "LevelDB_lookup L l k =
    (let (status, v) = ldb_Get L l k in
     if status = LS_NotFound then Inr [] else bindE (checkStatus status) (\<lambda>_. Inr v))"

definition LevelDB_exists :: "'l leveldb \<Rightarrow> 'l \<Rightarrow> bytes \<Rightarrow> db_error + bool" where
  "LevelDB_exists L l k =
    (let (status, v) = ldb_Get L l k in
     if status = LS_NotFound then Inr False else bindE (checkStatus status) (\<lambda>_. Inr True))"

definition LevelDB_insert :: "'l leveldb \<Rightarrow> 'l \<Rightarrow> bytes \<Rightarrow> bytes \<Rightarrow> (db_error + unit) \<times> 'l" where
  "LevelDB_insert L l k v = (let (status, l) = ldb_Put L l k v in (checkStatus status, l))"

definition LevelDB_kill :: "'l leveldb \<Rightarrow> 'l \<Rightarrow> bytes \<Rightarrow> (db_error + unit) \<times> 'l" where
  "LevelDB_kill L l k = (let (status, l) = ldb_Delete L l k in (checkStatus status, l))"

definition LevelDB_createWriteBatch :: "'l \<Rightarrow> WriteBatch" where
  "LevelDB_createWriteBatch l = []"

definition LevelDB_commit :: "'l leveldb \<Rightarrow> 'l \<Rightarrow> WriteBatch option \<Rightarrow> (db_error + unit) \<times> 'l" where
  "LevelDB_commit L l batch =
    (case batch of
      None \<Rightarrow> (Inl (DatabaseError None), l)
    | Some b \<Rightarrow> (let (status, l) = ldb_Write L l b in (checkStatus status, l)))"

text \<open>\<^verbatim>\<open>forEach\<close> gives the records to \<open>f\<close>, which says whether to go on and carries a state of its own.\<close>

fun forEach_loop :: "('s \<Rightarrow> bytes \<Rightarrow> bytes \<Rightarrow> bool \<times> 's) \<Rightarrow> 's \<Rightarrow> (bytes \<times> bytes) list \<Rightarrow> 's" where
  "forEach_loop f s [] = s"
| "forEach_loop f s ((k, v) # r) = (let (go, s) = f s k v in if go then forEach_loop f s r else s)"

definition LevelDB_forEach ::
    "'l leveldb \<Rightarrow> 'l \<Rightarrow> ('s \<Rightarrow> bytes \<Rightarrow> bytes \<Rightarrow> bool \<times> 's) \<Rightarrow> 's \<Rightarrow> db_error + 's" where
  "LevelDB_forEach L l f s =
    (case ldb_Iterate L l of
      None \<Rightarrow> Inl (DatabaseError None)
    | Some rs \<Rightarrow> Inr (forEach_loop f s rs))"

definition LevelDB_face :: "'l leveldb \<Rightarrow> 'l DatabaseFace" where
  "LevelDB_face L = \<lparr>db_lookup = LevelDB_lookup L, db_exists = LevelDB_exists L, db_insert = LevelDB_insert L,
    db_kill = LevelDB_kill L, db_createWriteBatch = LevelDB_createWriteBatch, db_commit = LevelDB_commit L\<rparr>"

section \<open>Definitions: the overlay\<close>

record 'd OverlayDB = MemoryDB +
  m_db :: "'d option"

datatype overlay_exit = Exit

definition main_writes :: "(h256 \<times> bytes \<times> u32) list \<Rightarrow> WriteBatch \<Rightarrow> WriteBatch" where
  "main_writes mn b = foldl (\<lambda>b (h, v, n). if n \<noteq> 0 then LevelDBWriteBatch_insert b h v else b) b mn"

definition aux_writes :: "(h256 \<times> bytes \<times> bool) list \<Rightarrow> WriteBatch \<Rightarrow> WriteBatch" where
  "aux_writes ax b = foldl (\<lambda>b (h, v, f). if f then LevelDBWriteBatch_insert b (h @ [255]) v else b) b ax"

text \<open>
  The loop over the attempts to write.  The first attempt moves the batch into the call, so the
  later ones pass a null pointer.
\<close>

fun commit_loop :: "'d DatabaseFace \<Rightarrow> nat \<Rightarrow> WriteBatch option \<Rightarrow> 'd \<Rightarrow> bool \<times> 'd" where
  "commit_loop D 0 batch d = (False, d)"
| "commit_loop D (Suc n) batch d =
    (case db_commit D d batch of
      (Inr _, d) \<Rightarrow> (True, d)
    | (Inl _, d) \<Rightarrow> commit_loop D n None d)"

definition OverlayDB_commit :: "'d DatabaseFace \<Rightarrow> 'd OverlayDB \<Rightarrow> overlay_exit + 'd OverlayDB" where
  "OverlayDB_commit D ov =
    (case m_db ov of
      None \<Rightarrow> Inr ov
    | Some d \<Rightarrow>
      (let batch = aux_writes (m_aux ov) (main_writes (m_main ov) (db_createWriteBatch D d));
           (ok, d) = commit_loop D 10 (Some batch) d in
       if ok then Inr (ov\<lparr>m_aux := [], m_main := [], m_db := Some d\<rparr>) else Inl Exit))"

definition OverlayDB_lookupAux :: "'d DatabaseFace \<Rightarrow> 'd OverlayDB \<Rightarrow> h256 \<Rightarrow> db_error + bytes" where
  "OverlayDB_lookupAux D ov h =
    (let ret = MemoryDB_lookupAux ov h in
     case m_db ov of
       None \<Rightarrow> Inr ret
     | Some d \<Rightarrow> if ret \<noteq> [] then Inr ret else db_lookup D d (h @ [255]))"

definition OverlayDB_rollback :: "'d OverlayDB \<Rightarrow> 'd OverlayDB" where
  "OverlayDB_rollback ov = ov\<lparr>m_main := []\<rparr>"

definition OverlayDB_lookup :: "'d DatabaseFace \<Rightarrow> 'd OverlayDB \<Rightarrow> h256 \<Rightarrow> db_error + bytes" where
  "OverlayDB_lookup D ov h =
    (let ret = MemoryDB_lookup ov h in
     case m_db ov of
       None \<Rightarrow> Inr ret
     | Some d \<Rightarrow> if ret \<noteq> [] then Inr ret else db_lookup D d h)"

definition OverlayDB_exists :: "'d DatabaseFace \<Rightarrow> 'd OverlayDB \<Rightarrow> h256 \<Rightarrow> db_error + bool" where
  "OverlayDB_exists D ov h =
    (if MemoryDB_exists ov h then Inr True
     else case m_db ov of None \<Rightarrow> Inr False | Some d \<Rightarrow> db_exists D d h)"

text \<open>\<^verbatim>\<open>kill\<close> asks the database only to decide whether to write a log line.\<close>

definition OverlayDB_kill :: "'d DatabaseFace \<Rightarrow> 'd OverlayDB \<Rightarrow> h256 \<Rightarrow> db_error + 'd OverlayDB" where
  "OverlayDB_kill D ov h =
    (let (killed, ov) = MemoryDB_kill ov h in
     if killed then Inr ov
     else case m_db ov of None \<Rightarrow> Inr ov | Some d \<Rightarrow> bindE (db_exists D d h) (\<lambda>_. Inr ov))"

section \<open>Lemmas: the in-memory store\<close>

text \<open>The number of references to a key.\<close>

definition refs :: "'a MemoryDB_scheme \<Rightarrow> h256 \<Rightarrow> u32" where
  "refs db h = (case map_of (m_main db) h of Some (v, n) \<Rightarrow> n | None \<Rightarrow> 0)"

lemma refs_insert: "refs (MemoryDB_insert db h v) k = (if k = h then refs db h + 1 else refs db k)"
  by (simp add: refs_def MemoryDB_insert_def update_conv' split: option.splits)

lemma refs_kill: "refs (snd (MemoryDB_kill db h)) k = (if k = h \<and> refs db h > 0 then refs db h - 1 else refs db k)"
  by (auto simp: refs_def MemoryDB_kill_def update_conv' split: option.splits)

lemma kill_result: "fst (MemoryDB_kill db h) \<longleftrightarrow> refs db h > 0"
  by (auto simp: refs_def MemoryDB_kill_def split: option.splits)

lemma MemoryDB_lookup_insert:
  "\<not> m_enforceRefs db \<Longrightarrow> MemoryDB_lookup (MemoryDB_insert db h v) k = (if k = h then v else MemoryDB_lookup db k)"
  by (auto simp: MemoryDB_lookup_def MemoryDB_insert_def update_conv' split: option.splits)

lemma MemoryDB_lookup_kill:
  "\<not> m_enforceRefs db \<Longrightarrow> MemoryDB_lookup (snd (MemoryDB_kill db h)) k = MemoryDB_lookup db k"
  by (auto simp: MemoryDB_lookup_def MemoryDB_kill_def update_conv' split: option.splits)

lemma MemoryDB_fields [simp]:
  "m_enforceRefs (MemoryDB_insert db h v) = m_enforceRefs db" "m_aux (MemoryDB_insert db h v) = m_aux db"
  "m_enforceRefs (snd (MemoryDB_kill db h)) = m_enforceRefs db" "m_aux (snd (MemoryDB_kill db h)) = m_aux db"
  by (auto simp: MemoryDB_insert_def MemoryDB_kill_def split: option.splits)

lemma OverlayDB_fields [simp]:
  "m_db (MemoryDB_insert ov h v) = m_db ov" "m_db (snd (MemoryDB_kill ov h)) = m_db ov"
  by (auto simp: MemoryDB_insert_def MemoryDB_kill_def split: option.splits)

text \<open>The keys are distinct, whatever is inserted and killed.\<close>

lemma distinct_main:
  assumes "distinct (map fst (m_main db))"
  shows "distinct (map fst (m_main (MemoryDB_insert db h v)))" "distinct (map fst (m_main (snd (MemoryDB_kill db h))))"
  using assms by (auto simp: MemoryDB_insert_def MemoryDB_kill_def distinct_update split: option.splits)

lemma refs_pos: "refs db h > 0 \<longleftrightarrow> (\<exists>v n. map_of (m_main db) h = Some (v, n) \<and> n \<noteq> 0)"
  by (auto simp: refs_def word_gt_0 split: option.splits)

lemma keys_refs:
  assumes "distinct (map fst (m_main db))"
  shows "h \<in> set (MemoryDB_keys db) \<longleftrightarrow> refs db h > 0"
  using assms by (force simp: MemoryDB_keys_def refs_pos map_of_eq_Some_iff)

lemma purge_refs:
  assumes "distinct (map fst (m_main db))"
  shows "map_of (m_main (MemoryDB_purge db)) h = (if refs db h > 0 then map_of (m_main db) h else None)"
proof -
  let ?f = "filter (\<lambda>(h, v, n). n \<noteq> 0) (m_main db)"
  have "distinct (map fst ?f)"
    using assms by (rule distinct_map_filter)
  then have e: "map_of ?f h = Some (v, n) \<longleftrightarrow> map_of (m_main db) h = Some (v, n) \<and> n \<noteq> 0" for v n
    using assms by (auto simp: map_of_eq_Some_iff)
  have "map_of ?f h = (if refs db h > 0 then map_of (m_main db) h else None)"
  proof (cases "map_of ?f h")
    case None
    then show ?thesis
      using e by (auto simp: refs_pos)
  next
    case (Some y)
    then show ?thesis
      using e [of "fst y" "snd y"] by (cases y) (auto simp: refs_pos)
  qed
  then show ?thesis
    by (simp add: MemoryDB_purge_def)
qed

text \<open>A history of insertions and removals, and the count that it should leave.\<close>

datatype ref_op = Insert h256 bytes | Kill h256

fun store_run :: "MemoryDB \<Rightarrow> ref_op list \<Rightarrow> MemoryDB" where
  "store_run db [] = db"
| "store_run db (Insert h v # ops) = store_run (MemoryDB_insert db h v) ops"
| "store_run db (Kill h # ops) = store_run (snd (MemoryDB_kill db h)) ops"

fun ref_count :: "nat \<Rightarrow> h256 \<Rightarrow> ref_op list \<Rightarrow> nat" where
  "ref_count n h [] = n"
| "ref_count n h (Insert k v # ops) = ref_count (if k = h then n + 1 else n) h ops"
| "ref_count n h (Kill k # ops) = ref_count (if k = h then n - 1 else n) h ops"

text \<open>The value that the last insertion of a key has left.\<close>

fun last_value :: "bytes \<Rightarrow> h256 \<Rightarrow> ref_op list \<Rightarrow> bytes" where
  "last_value b h [] = b"
| "last_value b h (Insert k v # ops) = last_value (if k = h then v else b) h ops"
| "last_value b h (Kill k # ops) = last_value b h ops"

definition stored :: "'a MemoryDB_scheme \<Rightarrow> h256 \<Rightarrow> bytes" where
  "stored db h = (case map_of (m_main db) h of Some (v, n) \<Rightarrow> v | None \<Rightarrow> [])"

lemma stored_insert: "stored (MemoryDB_insert db h v) k = (if k = h then v else stored db k)"
  by (auto simp: stored_def MemoryDB_insert_def update_conv' split: option.splits)

lemma stored_kill: "stored (snd (MemoryDB_kill db h)) k = stored db k"
  by (auto simp: stored_def MemoryDB_kill_def update_conv' split: option.splits)

lemma store_run_stored: "stored (store_run db ops) h = last_value (stored db h) h ops"
  by (induction db ops rule: store_run.induct) (auto simp: stored_insert stored_kill)

lemma lookup_stored:
  "MemoryDB_lookup db h = (if \<not> m_enforceRefs db \<or> refs db h > 0 then stored db h else [])"
  by (auto simp: MemoryDB_lookup_def refs_def stored_def split: option.splits)

lemma store_run_refs:
  assumes "unat (refs db h) = n" and "n + length ops < 2 ^ 32"
  shows "unat (refs (store_run db ops) h) = ref_count n h ops"
  using assms
proof (induction db ops arbitrary: n rule: store_run.induct)
  case (2 db k v ops)
  have "k = h \<Longrightarrow> unat (refs db h + 1) = n + 1"
    using 2(2,3) by (subst unat_add_small) simp_all
  then show ?case
    using 2 by (auto simp: refs_insert)
next
  case (3 db k ops)
  have "k = h \<Longrightarrow> refs db h > 0 \<Longrightarrow> unat (refs db h - 1) = n - 1"
    using 3(2) by (simp add: unat_minus_one word_gt_0)
  moreover have "refs db h > 0 \<longleftrightarrow> n > 0"
    using 3(2) unat_eq_0 [of "refs db h"] by (auto simp: word_gt_0)
  ultimately show ?case
    using 3 by (auto simp: refs_kill)
qed simp

lemma store_run_distinct: "distinct (map fst (m_main db)) \<Longrightarrow> distinct (map fst (m_main (store_run db ops)))"
  by (induction db ops rule: store_run.induct) (simp_all add: distinct_main)

section \<open>Lemmas: the overlay\<close>

text \<open>The effect of a batch on a table.\<close>

fun apply_op :: "batch_op \<Rightarrow> (bytes \<rightharpoonup> bytes) \<Rightarrow> bytes \<rightharpoonup> bytes" where
  "apply_op (BatchPut k v) m = m(k \<mapsto> v)"
| "apply_op (BatchDelete k) m = m(k := None)"

definition apply_batch :: "WriteBatch \<Rightarrow> (bytes \<rightharpoonup> bytes) \<Rightarrow> bytes \<rightharpoonup> bytes" where
  "apply_batch b m = fold apply_op b m"

lemma apply_batch_Nil [simp]: "apply_batch [] m = m"
  by (simp add: apply_batch_def)

lemma apply_batch_append [simp]: "apply_batch (b @ [BatchPut k v]) m = (apply_batch b m)(k \<mapsto> v)"
  by (simp add: apply_batch_def)

lemma apply_main_writes:
  assumes "distinct (map fst mn)"
  shows "apply_batch (main_writes mn b) m k =
    (case map_of mn k of Some (v, n) \<Rightarrow> if n \<noteq> 0 then Some v else apply_batch b m k | None \<Rightarrow> apply_batch b m k)"
  using assms
proof (induction mn arbitrary: b)
  case (Cons x mn)
  obtain h v n where x: "x = (h, v, n)"
    by (cases x) auto
  have "map_of mn h = None"
    using Cons.prems by (simp add: x map_of_eq_None_iff)
  then show ?case
    using Cons.IH [of "if n \<noteq> 0 then LevelDBWriteBatch_insert b h v else b"] Cons.prems
    by (auto simp: x main_writes_def LevelDBWriteBatch_insert_def split: option.splits)
qed (simp add: main_writes_def)

lemma apply_aux_writes:
  assumes "\<And>h v f. (h, v, f) \<in> set ax \<Longrightarrow> h @ [255] \<noteq> k"
  shows "apply_batch (aux_writes ax b) m k = apply_batch b m k"
  using assms
proof (induction ax arbitrary: b)
  case (Cons x ax)
  obtain h v f where x: "x = (h, v, f)"
    by (cases x) auto
  have "h @ [255] \<noteq> k"
    using Cons.prems by (auto simp: x)
  moreover have "apply_batch (aux_writes ax b') m k = apply_batch b' m k" for b'
    using Cons.prems by (intro Cons.IH) auto
  ultimately show ?case
    by (simp add: x aux_writes_def LevelDBWriteBatch_insert_def)
qed (simp add: aux_writes_def)

text \<open>Keys are 32 bytes and distinct, and no node is the empty string.\<close>

definition overlay_ok :: "'d OverlayDB \<Rightarrow> bool" where
  "overlay_ok ov \<longleftrightarrow> distinct (map fst (m_main ov)) \<and> (\<forall>(h, v, n) \<in> set (m_main ov). v \<noteq> [])
    \<and> (\<forall>(h, v, f) \<in> set (m_aux ov). length h = 32)"

text \<open>
  What a client of \<^verbatim>\<open>DatabaseFace\<close> relies on.  \<open>good\<close> says that the storage below keeps its promises;
  every call may still fail.
\<close>

locale database =
  fixes D :: "'d DatabaseFace" and good :: "'d \<Rightarrow> bool" and content :: "'d \<Rightarrow> bytes \<rightharpoonup> bytes"
  assumes lookup_content: "good d \<Longrightarrow> db_lookup D d k = Inr v \<Longrightarrow> v = (case content d k of Some w \<Rightarrow> w | None \<Rightarrow> [])"
    and exists_content: "good d \<Longrightarrow> db_exists D d k = Inr x \<Longrightarrow> x \<longleftrightarrow> content d k \<noteq> None"
    and new_batch: "db_createWriteBatch D d = []"
    and commit_content: "good d \<Longrightarrow> db_commit D d (Some b) = (Inr u, d') \<Longrightarrow> good d' \<and> content d' = apply_batch b (content d)"
    and commit_null: "\<exists>e. db_commit D d None = (Inl e, d)"
begin

lemma null_retries: "commit_loop D n None d = (False, d)"
proof (induction n)
  case (Suc n)
  then show ?case
    using commit_null [of d] by auto
qed simp

lemma one_attempt:
  "commit_loop D 10 (Some b) d = (case db_commit D d (Some b) of (Inr u, d') \<Rightarrow> (True, d') | (Inl e, d') \<Rightarrow> (False, d'))"
proof -
  have "(10 :: nat) = Suc 9"
    by simp
  then have "commit_loop D 10 (Some b) d = commit_loop D (Suc 9) (Some b) d"
    by (rule arg_cong)
  also have "\<dots> = (case db_commit D d (Some b) of (Inr u, d') \<Rightarrow> (True, d') | (Inl e, d') \<Rightarrow> (False, d'))"
    unfolding commit_loop.simps null_retries ..
  finally show ?thesis .
qed

lemma overlay_commit_Inr:
  assumes "OverlayDB_commit D ov = Inr ov'" and "m_db ov = Some d"
  obtains u d' where "db_commit D d (Some (aux_writes (m_aux ov) (main_writes (m_main ov) []))) = (Inr u, d')"
    "ov' = ov\<lparr>m_aux := [], m_main := [], m_db := Some d'\<rparr>"
  using assms
  by (auto simp: OverlayDB_commit_def Let_def new_batch one_attempt split: prod.splits sum.splits if_splits)

lemma failed_commit_exits:
  assumes "m_db ov = Some d"
    and "db_commit D d (Some (aux_writes (m_aux ov) (main_writes (m_main ov) []))) = (Inl e, d')"
  shows "OverlayDB_commit D ov = Inl Exit"
  using assms by (simp add: OverlayDB_commit_def Let_def new_batch one_attempt)

lemma overlay_commit_lookup:
  assumes "good d" and "overlay_ok ov" and "m_db ov = Some d" and "length h = 32"
    and "OverlayDB_commit D ov = Inr ov'"
    and "OverlayDB_lookup D ov h = Inr v" and "OverlayDB_lookup D ov' h = Inr w"
    and "refs ov h = 0 \<Longrightarrow> map_of (m_main ov) h = None"
  shows "w = v"
proof -
  let ?b = "aux_writes (m_aux ov) (main_writes (m_main ov) [])"
  obtain u d' where c: "db_commit D d (Some ?b) = (Inr u, d')" "ov' = ov\<lparr>m_aux := [], m_main := [], m_db := Some d'\<rparr>"
    using overlay_commit_Inr [OF assms(5,3)] .
  have g: "good d'" "content d' = apply_batch ?b (content d)"
    using commit_content [OF assms(1) c(1)] by simp_all
  have "apply_batch ?b (content d) h = apply_batch (main_writes (m_main ov) []) (content d) h"
    using assms(2,4) by (intro apply_aux_writes) (auto simp: overlay_ok_def)
  also have "\<dots> = (case map_of (m_main ov) h of Some (v, n) \<Rightarrow> if n \<noteq> 0 then Some v else content d h | None \<Rightarrow> content d h)"
    using assms(2) by (subst apply_main_writes) (simp_all add: overlay_ok_def split: option.split)
  finally have h: "content d' h = \<dots>"
    by (simp add: g(2))
  have "w = (case content d' h of Some w \<Rightarrow> w | None \<Rightarrow> [])"
    using assms(7) by (intro lookup_content [OF g(1)]) (simp add: c(2) OverlayDB_lookup_def MemoryDB_lookup_def)
  show ?thesis
  proof (cases "map_of (m_main ov) h")
    case None
    then have "db_lookup D d h = Inr v"
      using assms(3,6) by (simp add: OverlayDB_lookup_def MemoryDB_lookup_def)
    then show ?thesis
      using lookup_content [OF assms(1)] None h \<open>w = _\<close> by simp
  next
    case (Some p)
    obtain x n where p: "p = (x, n)"
      by (cases p)
    have "x \<noteq> []" "n \<noteq> 0"
      using assms(2,8) Some map_of_SomeD [OF Some] by (auto simp: p overlay_ok_def refs_def)
    then show ?thesis
      using assms(3,6) Some h \<open>w = _\<close> by (simp add: p OverlayDB_lookup_def MemoryDB_lookup_def word_gt_0)
  qed
qed

end

text \<open>
  The engine behind LevelDB as its documentation describes it: a get returns what the table
  holds, and a write that reports success has applied the batch.
\<close>

definition engine_ok :: "'l leveldb \<Rightarrow> ('l \<Rightarrow> bytes \<rightharpoonup> bytes) \<Rightarrow> bool" where
  "engine_ok L content \<longleftrightarrow>
    (\<forall>l k v. ldb_Get L l k = (LS_Ok, v) \<longrightarrow> content l k = Some v)
    \<and> (\<forall>l k v. ldb_Get L l k = (LS_NotFound, v) \<longrightarrow> content l k = None)
    \<and> (\<forall>l b l'. ldb_Write L l b = (LS_Ok, l') \<longrightarrow> content l' = apply_batch b (content l))"

interpretation ldb: database "LevelDB_face L" "\<lambda>_. engine_ok L content" content
  for L :: "'l leveldb" and content :: "'l \<Rightarrow> bytes \<rightharpoonup> bytes"
  by unfold_locales
    (auto simp: LevelDB_face_def LevelDB_lookup_def LevelDB_exists_def LevelDB_createWriteBatch_def LevelDB_commit_def
      checkStatus_def engine_ok_def bindE_eq_Inr split: prod.splits if_splits)

text \<open>
  What the trie relies on in its store: nodes can be read back, insertion touches no other node,
  and a removal takes a reference away but leaves the bytes readable.
\<close>

locale node_store =
  fixes lookup :: "'s \<Rightarrow> h256 \<Rightarrow> db_error + bytes" and insert :: "'s \<Rightarrow> h256 \<Rightarrow> bytes \<Rightarrow> 's"
    and kill :: "'s \<Rightarrow> h256 \<Rightarrow> db_error + 's" and invar :: "'s \<Rightarrow> bool"
  assumes insert_invar: "invar s \<Longrightarrow> invar (insert s h v)"
    and kill_invar: "invar s \<Longrightarrow> kill s h = Inr s' \<Longrightarrow> invar s'"
    and lookup_insert: "invar s \<Longrightarrow> v \<noteq> [] \<Longrightarrow> lookup (insert s h v) k = (if k = h then Inr v else lookup s k)"
    and lookup_kill: "invar s \<Longrightarrow> kill s h = Inr s' \<Longrightarrow> lookup s' k = lookup s k"
begin

lemma insert_keeps:
  assumes "invar s" and "lookup s k = Inr w" and "v \<noteq> []" and "k = h \<Longrightarrow> w = v"
  shows "lookup (insert s h v) k = Inr w"
  using assms by (simp add: lookup_insert)

lemma reinsert:
  assumes "invar s" and "lookup s h = Inr v" and "v \<noteq> []"
  shows "lookup (insert s h v) k = lookup s k"
  using assms by (simp add: lookup_insert)

end

interpretation mdb: node_store "\<lambda>db h. Inr (MemoryDB_lookup db h)" MemoryDB_insert
    "\<lambda>db h. Inr (snd (MemoryDB_kill db h))" "\<lambda>db. \<not> m_enforceRefs db"
  by unfold_locales (auto simp: MemoryDB_lookup_insert MemoryDB_lookup_kill)

lemma OverlayDB_kill_Inr: "OverlayDB_kill D ov h = Inr ov' \<Longrightarrow> ov' = snd (MemoryDB_kill ov h)"
  by (auto simp: OverlayDB_kill_def bindE_eq_Inr split: prod.splits if_splits option.splits)

lemma OverlayDB_lookup_insert:
  assumes "\<not> m_enforceRefs ov" and "v \<noteq> []"
  shows "OverlayDB_lookup D (MemoryDB_insert ov h v) k = (if k = h then Inr v else OverlayDB_lookup D ov k)"
  using assms by (simp add: OverlayDB_lookup_def MemoryDB_lookup_insert split: option.split)

lemma OverlayDB_lookup_kill:
  "\<not> m_enforceRefs ov \<Longrightarrow> OverlayDB_lookup D (snd (MemoryDB_kill ov h)) k = OverlayDB_lookup D ov k"
  by (simp add: OverlayDB_lookup_def MemoryDB_lookup_kill)

interpretation odb: node_store "OverlayDB_lookup D" MemoryDB_insert "OverlayDB_kill D" "\<lambda>ov. \<not> m_enforceRefs ov"
  for D :: "'d DatabaseFace"
  by unfold_locales
    (auto simp: OverlayDB_lookup_insert OverlayDB_lookup_kill dest!: OverlayDB_kill_Inr)

text \<open>A reference engine: a table in memory on which no call fails.\<close>

definition table_engine :: "(bytes \<rightharpoonup> bytes) leveldb" where
  "table_engine = \<lparr>ldb_Get = (\<lambda>m k. case m k of Some v \<Rightarrow> (LS_Ok, v) | None \<Rightarrow> (LS_NotFound, [])),
    ldb_Put = (\<lambda>m k v. (LS_Ok, m(k \<mapsto> v))), ldb_Delete = (\<lambda>m k. (LS_Ok, m(k := None))),
    ldb_Write = (\<lambda>m b. (LS_Ok, apply_batch b m)), ldb_Iterate = (\<lambda>m. None)\<rparr>"

lemma table_engine_ok: "engine_ok table_engine (\<lambda>m. m)"
  by (auto simp: engine_ok_def table_engine_def split: option.splits)

lemma table_face:
  "db_commit (LevelDB_face table_engine) m (Some b) = (Inr (), apply_batch b m)"
  "db_lookup (LevelDB_face table_engine) m k = Inr (case m k of Some v \<Rightarrow> v | None \<Rightarrow> [])"
  by (auto simp: LevelDB_face_def LevelDB_commit_def LevelDB_lookup_def checkStatus_def table_engine_def split: option.split)

section \<open>Properties\<close>

text \<open>
  Claim C28. Committing the overlay to LevelDB does not change what a lookup returns, for every
  node that still has a reference or is not in memory; the memory is empty afterwards.
\<close>
theorem commit_keeps_lookups:
  assumes "engine_ok L content" and "overlay_ok ov" and "m_db ov = Some l" and "length h = 32"
    and "OverlayDB_commit (LevelDB_face L) ov = Inr ov'"
    and "OverlayDB_lookup (LevelDB_face L) ov h = Inr v" and "OverlayDB_lookup (LevelDB_face L) ov' h = Inr w"
    and "0 < refs ov h \<or> map_of (m_main ov) h = None"
  shows "w = v \<and> m_main ov' = []"
proof -
  have "w = v"
    using assms(8) by (intro ldb.overlay_commit_lookup [where L = L and content = content, OF assms(1-7)]) auto
  moreover have "m_main ov' = []"
    by (rule ldb.overlay_commit_Inr [OF assms(5,3)]) simp
  ultimately show ?thesis
    by simp
qed

theorem commit_keeps_lookups_witness:
  "\<exists>ov'. OverlayDB_commit (LevelDB_face table_engine)
      \<lparr>m_main = [(replicate 32 7, [1, 2], 1)], m_aux = [], m_enforceRefs = False, m_db = Some (\<lambda>_. None)\<rparr> = Inr ov'
    \<and> OverlayDB_lookup (LevelDB_face table_engine) ov' (replicate 32 7) = Inr [1, 2] \<and> m_main ov' = []"
proof -
  let ?h = "replicate 32 7 :: bytes"
  let ?ov = "\<lparr>m_main = [(?h, [1, 2], 1)], m_aux = [], m_enforceRefs = False, m_db = Some (\<lambda>_. None)\<rparr>"
  let ?D = "LevelDB_face table_engine"
  obtain ov' m where c: "OverlayDB_commit ?D ?ov = Inr ov'" "m_db ov' = Some m" "m_main ov' = []"
    by (simp add: OverlayDB_commit_def ldb.one_attempt table_face)
  have l: "OverlayDB_lookup ?D ?ov ?h = Inr [1, 2]"
    by (simp add: OverlayDB_lookup_def MemoryDB_lookup_def)
  obtain w where w: "OverlayDB_lookup ?D ov' ?h = Inr w"
    using c(2,3) by (simp add: OverlayDB_lookup_def MemoryDB_lookup_def table_face)
  have "w = [1, 2] \<and> m_main ov' = []"
    by (rule commit_keeps_lookups [OF table_engine_ok _ _ _ c(1) l w]) (simp_all add: overlay_ok_def refs_def)
  then show ?thesis
    using c(1) w by blast
qed

text \<open>
  Claim C31. When the first attempt to write the batch fails, the nine that follow cannot succeed:
  the batch was moved into the first call, the later ones pass a null pointer, which \<^verbatim>\<open>commit\<close> rejects,
  and the program exits.
\<close>
theorem failed_commit_never_retries:
  assumes "m_db ov = Some l"
    and "ldb_Write L l (aux_writes (m_aux ov) (main_writes (m_main ov) [])) = (status, l')" and "status \<noteq> LS_Ok"
  shows "OverlayDB_commit (LevelDB_face L) ov = Inl Exit"
  using assms
  by (intro ldb.failed_commit_exits [where e = "DatabaseError (Some (toDatabaseStatus status))"])
    (auto simp: LevelDB_face_def LevelDB_commit_def checkStatus_def)

theorem failed_commit_never_retries_witness:
  "OverlayDB_commit (LevelDB_face (table_engine\<lparr>ldb_Write := (\<lambda>m b. (if m [0] = None then LS_IOError else LS_Ok, m([0] \<mapsto> [])))\<rparr>))
      \<lparr>m_main = [], m_aux = [], m_enforceRefs = False, m_db = Some (\<lambda>_. None)\<rparr> = Inl Exit"
  by (rule failed_commit_never_retries) (auto simp: main_writes_def aux_writes_def)

text \<open>
  Claim C29. After any history of fewer than 2 to the 32 insertions and removals the reference
  count of a key is the number that the history leaves, counting down to zero at most; the key
  is listed, exists under enforced references, and is kept by \<^verbatim>\<open>purge\<close>, exactly when that number is
  positive.  \<^verbatim>\<open>lookup\<close> returns the value inserted last; under enforced references it does so exactly
  when that number is positive, and nothing otherwise.
\<close>
theorem reference_counting:
  assumes "length ops < 2 ^ 32" and "db = store_run MemoryDB_empty ops"
  shows "unat (refs db h) = ref_count 0 h ops
    \<and> (h \<in> set (MemoryDB_keys db) \<longleftrightarrow> 0 < ref_count 0 h ops)
    \<and> (MemoryDB_exists (snd (EnforceRefs_enter db True)) h \<longleftrightarrow> 0 < ref_count 0 h ops)
    \<and> MemoryDB_lookup (snd (EnforceRefs_enter db True)) h
        = (if 0 < ref_count 0 h ops then last_value [] h ops else [])
    \<and> MemoryDB_lookup (snd (EnforceRefs_enter db False)) h = last_value [] h ops
    \<and> (map_of (m_main (MemoryDB_purge db)) h \<noteq> None \<longleftrightarrow> 0 < ref_count 0 h ops)"
proof -
  have "unat (refs MemoryDB_empty h) = 0" "distinct (map fst (m_main MemoryDB_empty))"
    by (simp_all add: refs_def MemoryDB_empty_def)
  then have c: "unat (refs db h) = ref_count 0 h ops" and d: "distinct (map fst (m_main db))"
    using store_run_refs [of MemoryDB_empty h 0 ops] store_run_distinct assms by simp_all
  then have p: "0 < refs db h \<longleftrightarrow> 0 < ref_count 0 h ops"
    using unat_eq_0 [of "refs db h"] by (auto simp: word_gt_0)
  have "MemoryDB_exists (snd (EnforceRefs_enter db True)) h \<longleftrightarrow> 0 < refs db h"
    by (auto simp: EnforceRefs_enter_def MemoryDB_exists_def refs_def split: option.splits)
  moreover have "map_of (m_main (MemoryDB_purge db)) h \<noteq> None \<longleftrightarrow> 0 < refs db h"
    by (auto simp: purge_refs [OF d] refs_pos)
  moreover have "stored db h = last_value [] h ops"
    using store_run_stored [of MemoryDB_empty ops h] assms(2) by (simp add: stored_def MemoryDB_empty_def)
  moreover have "refs (db\<lparr>m_enforceRefs := e\<rparr>) h = refs db h" "stored (db\<lparr>m_enforceRefs := e\<rparr>) h = stored db h" for e
    by (simp_all add: refs_def stored_def)
  ultimately show ?thesis
    using c p keys_refs [OF d] by (simp add: lookup_stored EnforceRefs_enter_def)
qed

theorem reference_counting_witness:
  "(let db = store_run MemoryDB_empty [Insert [1] [5], Kill [1], Kill [1], Insert [1] [6], Insert [2] [7], Kill [2]] in
    unat (refs db [1]) = 1 \<and> [1] \<in> set (MemoryDB_keys db) \<and> [2] \<notin> set (MemoryDB_keys db)
    \<and> MemoryDB_lookup (snd (EnforceRefs_enter db True)) [1] = [6]
    \<and> MemoryDB_lookup (snd (EnforceRefs_enter db True)) [2] = []
    \<and> MemoryDB_lookup (snd (EnforceRefs_enter db False)) [2] = [7])"
  using reference_counting [of "[Insert [1] [5], Kill [1], Kill [1], Insert [1] [6], Insert [2] [7], Kill [2]]" _ "[1]", OF _ refl]
    reference_counting [of "[Insert [1] [5], Kill [1], Kill [1], Insert [1] [6], Insert [2] [7], Kill [2]]" _ "[2]", OF _ refl]
  by (simp add: Let_def)

end
