(* ===== verification/TrieCommon.thy ===== *)
theory TrieCommon
  imports RLP
begin

text \<open>
  Nibble paths and the hex-prefix encoding of \<^verbatim>\<open>src/toscore/storage/TrieCommon.h\<close> and
  \<^verbatim>\<open>TrieCommon.cpp\<close>.  A slice is its bytes and an offset in nibbles; the code indexes the bytes
  without a check, so a nibble past the end is the error \<open>OutOfBounds\<close>.  Sizes and offsets, which
  the code keeps in \<^verbatim>\<open>unsigned\<close>, are far below 2 to the 31 and are natural numbers here.
\<close>

unbundle bit_operations_syntax

section \<open>Definitions: nibbles\<close>

definition nibble :: "bytes \<Rightarrow> nat \<Rightarrow> rlp_error + byte" where
  "nibble d i =
    (if i div 2 < length d
     then Inr (if odd i then (d ! (i div 2)) AND 15 else drop_bit 4 (d ! (i div 2)))
     else Inl OutOfBounds)"

function sharedNibbles_loop :: "bytes \<Rightarrow> nat \<Rightarrow> nat \<Rightarrow> bytes \<Rightarrow> nat \<Rightarrow> nat \<Rightarrow> nat \<Rightarrow> rlp_error + nat" where
  "sharedNibbles_loop d1 b1 e1 d2 b2 e2 ret =
    (if b1 < e1 \<and> b2 < e2
     then bindE (nibble d1 b1) (\<lambda>x. bindE (nibble d2 b2) (\<lambda>y.
       if x = y then sharedNibbles_loop d1 (b1 + 1) e1 d2 (b2 + 1) e2 (ret + 1) else Inr ret))
     else Inr ret)"
  by pat_completeness auto
termination by (relation "measure (\<lambda>(d1, b1, e1, d2, b2, e2, ret). e1 - b1)") auto

declare sharedNibbles_loop.simps [simp del]

definition sharedNibbles :: "bytes \<Rightarrow> nat \<Rightarrow> nat \<Rightarrow> bytes \<Rightarrow> nat \<Rightarrow> nat \<Rightarrow> rlp_error + nat" where
  "sharedNibbles d1 b1 e1 d2 b2 e2 = sharedNibbles_loop d1 b1 e1 d2 b2 e2 0"

record NibbleSlice =
  ns_data :: bytes
  ns_offset :: nat

definition ns :: "bytes \<Rightarrow> nat \<Rightarrow> NibbleSlice" where
  "ns d off = \<lparr>ns_data = d, ns_offset = off\<rparr>"

definition ns_at :: "NibbleSlice \<Rightarrow> nat \<Rightarrow> rlp_error + byte" where
  "ns_at s i = nibble (ns_data s) (ns_offset s + i)"

definition ns_size :: "NibbleSlice \<Rightarrow> nat" where
  "ns_size s = length (ns_data s) * 2 - ns_offset s"

definition ns_empty :: "NibbleSlice \<Rightarrow> bool" where
  "ns_empty s = (ns_size s = 0)"

definition ns_mid :: "NibbleSlice \<Rightarrow> nat \<Rightarrow> NibbleSlice" where
  "ns_mid s i = ns (ns_data s) (ns_offset s + i)"

definition ns_clear :: "NibbleSlice \<Rightarrow> NibbleSlice" where
  "ns_clear s = ns [] 0"

definition ns_shared :: "NibbleSlice \<Rightarrow> NibbleSlice \<Rightarrow> rlp_error + nat" where
  "ns_shared s k =
    sharedNibbles (ns_data s) (ns_offset s) (ns_offset s + ns_size s) (ns_data k) (ns_offset k) (ns_offset k + ns_size k)"

definition ns_contains :: "NibbleSlice \<Rightarrow> NibbleSlice \<Rightarrow> rlp_error + bool" where
  "ns_contains s k = bindE (ns_shared s k) (\<lambda>n. Inr (n = ns_size k))"

definition ns_equal :: "NibbleSlice \<Rightarrow> NibbleSlice \<Rightarrow> rlp_error + bool" where
  "ns_equal s k =
    (if ns_size k = ns_size s then bindE (ns_shared s k) (\<lambda>n. Inr (n = ns_size k)) else Inr False)"

function isEarlierThan_loop :: "NibbleSlice \<Rightarrow> NibbleSlice \<Rightarrow> nat \<Rightarrow> rlp_error + bool" where
  "isEarlierThan_loop s k i =
    (if i < ns_size k \<and> i < ns_size s
     then bindE (ns_at s i) (\<lambda>x. bindE (ns_at k i) (\<lambda>y.
       if x < y then Inr True else if x > y then Inr False else isEarlierThan_loop s k (i + 1)))
     else if i \<ge> ns_size k then Inr False
     else Inr True)"
  by pat_completeness auto
termination by (relation "measure (\<lambda>(s, k, i). ns_size s - i)") auto

declare isEarlierThan_loop.simps [simp del]

definition isEarlierThan :: "NibbleSlice \<Rightarrow> NibbleSlice \<Rightarrow> rlp_error + bool" where
  "isEarlierThan s k = isEarlierThan_loop s k 0"

section \<open>Definitions: hex-prefix encoding\<close>

text \<open>The first byte: the flags for a leaf and for an odd number of nibbles.\<close>

definition hpe_first :: "bool \<Rightarrow> bool \<Rightarrow> byte" where
  "hpe_first leaf od = ((if leaf then 2 else 0) OR (if od then 1 else 0)) * 16"

text \<open>The encoder of a vector of nibbles; \<open>v ! i\<close> past the end is out of bounds.\<close>

function hexPrefix_pairs :: "bytes \<Rightarrow> nat \<Rightarrow> nat \<Rightarrow> bytes \<Rightarrow> rlp_error + bytes" where
  "hexPrefix_pairs v i e ret =
    (if i < e
     then (if i + 1 < length v then hexPrefix_pairs v (i + 2) e (ret @ [(v ! i) * 16 + v ! (i + 1)]) else Inl OutOfBounds)
     else Inr ret)"
  by pat_completeness auto
termination by (relation "measure (\<lambda>(v, i, e, ret). e - i)") auto

declare hexPrefix_pairs.simps [simp del]

definition hexPrefixEncode_vec :: "bytes \<Rightarrow> bool \<Rightarrow> nat \<Rightarrow> int \<Rightarrow> rlp_error + bytes" where
  "hexPrefixEncode_vec v leaf bgn en =
    (let e = (if en < 0 then nat (int (length v) + 1 + en) else nat en);
         od = odd (int e - int bgn) in
     if od
     then (if bgn < length v then hexPrefix_pairs v (bgn + 1) e [hpe_first leaf od OR v ! bgn] else Inl OutOfBounds)
     else hexPrefix_pairs v bgn e [hpe_first leaf od])"

text \<open>
  One nibble of the other encoders: \<open>d\<close> odd, put it into the last byte; even, start a byte with
  it.  The loop runs over \<open>n\<close> nibbles from position \<open>i\<close> and returns the counter as well.
\<close>

definition hexPrefix_put :: "nat \<Rightarrow> byte \<Rightarrow> bytes \<Rightarrow> bytes" where
  "hexPrefix_put d n ret = (if odd d then butlast ret @ [last ret OR n] else ret @ [push_bit 4 n])"

fun hexPrefix_loop :: "bytes \<Rightarrow> nat \<Rightarrow> nat \<Rightarrow> nat \<Rightarrow> bytes \<Rightarrow> rlp_error + nat \<times> bytes" where
  "hexPrefix_loop data i 0 d ret = Inr (d, ret)"
| "hexPrefix_loop data i (Suc n) d ret =
    bindE (nibble data i) (\<lambda>x. hexPrefix_loop data (i + 1) n (d + 1) (hexPrefix_put d x ret))"

definition hexPrefixEncode_ref :: "bytes \<Rightarrow> bool \<Rightarrow> int \<Rightarrow> int \<Rightarrow> nat \<Rightarrow> rlp_error + bytes" where
  "hexPrefixEncode_ref data leaf beginNibble endNibble off =
    (let bgn = nat (beginNibble + int off);
         en = nat ((if endNibble < 0 then int (length data * 2 - off) + 1 + endNibble else endNibble) + int off);
         od = odd (int en - int bgn) in
     bindE (hexPrefix_loop data bgn (en - bgn) (if od then 1 else 2) [hpe_first leaf od]) (\<lambda>(_, ret). Inr ret))"

definition hexPrefixEncode2_ref :: "bytes \<Rightarrow> nat \<Rightarrow> bytes \<Rightarrow> nat \<Rightarrow> bool \<Rightarrow> rlp_error + bytes" where
  "hexPrefixEncode2_ref d1 o1 d2 o2 leaf =
    (let e1 = length d1 * 2; e2 = length d2 * 2;
         od = odd (int e1 - int o1 + int e2 - int o2) in
     bindE (hexPrefix_loop d1 o1 (e1 - o1) (if od then 1 else 2) [hpe_first leaf od]) (\<lambda>(d, ret).
     bindE (hexPrefix_loop d2 o2 (e2 - o2) d ret) (\<lambda>(_, ret). Inr ret)))"

definition hexPrefixEncode :: "NibbleSlice \<Rightarrow> bool \<Rightarrow> int \<Rightarrow> int \<Rightarrow> rlp_error + bytes" where
  "hexPrefixEncode s leaf bgn en = hexPrefixEncode_ref (ns_data s) leaf bgn en (ns_offset s)"

definition hexPrefixEncode2 :: "NibbleSlice \<Rightarrow> NibbleSlice \<Rightarrow> bool \<Rightarrow> rlp_error + bytes" where
  "hexPrefixEncode2 s1 s2 leaf = hexPrefixEncode2_ref (ns_data s1) (ns_offset s1) (ns_data s2) (ns_offset s2) leaf"

section \<open>Definitions: nodes\<close>

text \<open>
  Subscript of an RLP object.  Its cache of the last position does not influence the result
  (theory \<^verbatim>\<open>RLP\<close>), so each subscript starts from a fresh object.
\<close>

definition rlp_at :: "bytes \<Rightarrow> nat \<Rightarrow> rlp_error + bytes" where
  "rlp_at d i = bindE (RLP_index (RLP_object d) i) (\<lambda>(x, _). Inr x)"

definition isLeaf :: "bytes \<Rightarrow> rlp_error + bool" where
  "isLeaf d = bindE (rlp_at d 0) (\<lambda>x. bindE (payload x) (\<lambda>pl. bindE (at_ref pl 0) (\<lambda>b. Inr (b AND 0x20 \<noteq> 0))))"

definition keyOf_hpe :: "bytes \<Rightarrow> NibbleSlice" where
  "keyOf_hpe hpe =
    (if length hpe = 0 then ns hpe 0
     else if hpe ! 0 AND 0x10 \<noteq> 0 then ns hpe 1
     else ns hpe 2)"

definition keyOf :: "bytes \<Rightarrow> rlp_error + NibbleSlice" where
  "keyOf d = bindE (rlp_at d 0) (\<lambda>x. bindE (payload x) (\<lambda>pl. Inr (keyOf_hpe pl)))"

fun uniqueInUse_loop :: "bytes \<Rightarrow> byte \<Rightarrow> nat \<Rightarrow> nat \<Rightarrow> byte \<Rightarrow> rlp_error + byte" where
  "uniqueInUse_loop d exc i 0 used = Inr used"
| "uniqueInUse_loop d exc i (Suc n) used =
    (if i \<noteq> unat exc
     then bindE (rlp_at d i) (\<lambda>x.
       if \<not> isEmpty x
       then (if used = 255 then uniqueInUse_loop d exc (i + 1) n (of_nat i) else Inr 255)
       else uniqueInUse_loop d exc (i + 1) n used)
     else uniqueInUse_loop d exc (i + 1) n used)"

definition uniqueInUse :: "bytes \<Rightarrow> byte \<Rightarrow> rlp_error + byte" where
  "uniqueInUse d exc = uniqueInUse_loop d exc 0 17 255"

section \<open>Specification\<close>

text \<open>The nibbles that a slice stands for, and the hex-prefix encoding of a nibble list.\<close>

definition nibs :: "NibbleSlice \<Rightarrow> bytes" where
  "nibs s = drop (ns_offset s) (asNibbles (ns_data s))"

definition nib :: "byte \<Rightarrow> bool" where
  "nib x \<longleftrightarrow> x < 16"

fun pack :: "bytes \<Rightarrow> bytes" where
  "pack (a # b # r) = (a * 16 + b) # pack r"
| "pack _ = []"

definition hp :: "bool \<Rightarrow> bytes \<Rightarrow> bytes" where
  "hp leaf xs =
    (if odd (length xs) then (hpe_first leaf True + hd xs) # pack (tl xs) else hpe_first leaf False # pack xs)"

section \<open>Lemmas: nibbles\<close>

lemma nib_table:
  "list_all (\<lambda>a. list_all (\<lambda>b. push_bit 4 (of_nat a) OR of_nat b = (of_nat a * 16 + of_nat b :: byte)
    \<and> (of_nat a * 16 + of_nat b :: byte) div 16 = of_nat a \<and> (of_nat a * 16 + of_nat b :: byte) mod 16 = of_nat b) [0..<16]) [0..<16]"
  by code_simp

lemma nib_arith:
  assumes "nib a" and "nib b"
  shows "push_bit 4 a OR b = a * 16 + b" "(a * 16 + b) div 16 = a" "(a * 16 + b) mod 16 = b"
proof -
  have "unat a \<in> set [0..<16]" "unat b \<in> set [0..<16]"
    using assms by (simp_all add: nib_def word_less_nat_alt)
  then have "push_bit 4 (of_nat (unat a)) OR of_nat (unat b) = (of_nat (unat a) * 16 + of_nat (unat b) :: byte)
    \<and> (of_nat (unat a) * 16 + of_nat (unat b) :: byte) div 16 = of_nat (unat a)
    \<and> (of_nat (unat a) * 16 + of_nat (unat b) :: byte) mod 16 = of_nat (unat b)"
    using nib_table unfolding list_all_iff by blast
  then show "push_bit 4 a OR b = a * 16 + b" "(a * 16 + b) div 16 = a" "(a * 16 + b) mod 16 = b"
    by simp_all
qed

lemma nibble_facts: "drop_bit 4 b = b div 16" "b AND 15 = b mod 16" "nib (b div 16)" "nib (b mod 16)" for b :: byte
proof -
  show "drop_bit 4 b = b div 16" "b AND 15 = b mod 16"
    using take_bit_eq_mask [of 4 b] by (simp_all add: drop_bit_eq_div take_bit_eq_mod mask_eq_exp_minus_1)
  show "nib (b div 16)" "nib (b mod 16)"
    using unat_lt_256 [of b] by (simp_all add: nib_def word_less_nat_alt unat_div unat_mod div_less_iff_less_mult del: unat_lt_256)
qed

lemma length_asNibbles [simp]: "length (asNibbles d) = 2 * length d"
  by (induction d) simp_all

lemma nib_asNibbles: "x \<in> set (asNibbles d) \<Longrightarrow> nib x"
  by (induction d) (auto simp: nibble_facts)

lemma asNibbles_nth: "i < 2 * length d \<Longrightarrow> asNibbles d ! i = (if odd i then d ! (i div 2) mod 16 else d ! (i div 2) div 16)"
proof (induction d arbitrary: i)
  case (Cons b d)
  show ?case
  proof (cases "i < 2")
    case True
    then have "i = 0 \<or> i = 1"
      by auto
    then show ?thesis
      by auto
  next
    case False
    then obtain j where j: "i = Suc (Suc j)"
      using add_2_eq_Suc le_Suc_ex not_less by metis
    then show ?thesis
      using Cons.IH [of j] Cons.prems by simp
  qed
qed simp

lemma nibble_eq: "i < 2 * length d \<Longrightarrow> nibble d i = Inr (asNibbles d ! i)"
  by (simp add: nibble_def asNibbles_nth nibble_facts) linarith

definition ns_ok :: "NibbleSlice \<Rightarrow> bool" where
  "ns_ok s \<longleftrightarrow> ns_offset s \<le> 2 * length (ns_data s)"

lemma ns_size_eq: "ns_size s = length (nibs s)"
  by (simp add: ns_size_def nibs_def)

lemma nib_nibs: "x \<in> set (nibs s) \<Longrightarrow> nib x"
  unfolding nibs_def by (meson in_set_dropD nib_asNibbles)

lemma ns_at_eq: "ns_ok s \<Longrightarrow> i < length (nibs s) \<Longrightarrow> ns_at s i = Inr (nibs s ! i)"
  by (simp add: ns_at_def nibs_def ns_ok_def nibble_eq)

lemma nibs_mid: "nibs (ns_mid s i) = drop i (nibs s)"
  by (simp add: nibs_def ns_mid_def ns_def add.commute)

lemma ns_ok_mid: "ns_ok s \<Longrightarrow> i \<le> length (nibs s) \<Longrightarrow> ns_ok (ns_mid s i)"
  by (simp add: nibs_def ns_mid_def ns_def ns_ok_def)

lemma nibs_ns: "nibs (ns d 0) = asNibbles d" "ns_ok (ns d 0)"
  by (simp_all add: nibs_def ns_def ns_ok_def)

lemma shared_loop_eq:
  "sharedNibbles_loop d1 b1 (2 * length d1) d2 b2 (2 * length d2) ret
    = Inr (ret + length (longest_common_prefix (drop b1 (asNibbles d1)) (drop b2 (asNibbles d2))))"
proof (induction "2 * length d1 - b1" arbitrary: b1 b2 ret)
  case 0
  then show ?case
    by (simp add: sharedNibbles_loop.simps)
next
  case (Suc n)
  show ?case
  proof (cases "b2 < 2 * length d2")
    case False
    then show ?thesis
      by (simp add: sharedNibbles_loop.simps)
  next
    case True
    have "b1 < 2 * length d1"
      using Suc(2) by simp
    then have "drop b1 (asNibbles d1) = asNibbles d1 ! b1 # drop (b1 + 1) (asNibbles d1)"
        "drop b2 (asNibbles d2) = asNibbles d2 ! b2 # drop (b2 + 1) (asNibbles d2)"
      using True by (simp_all add: Cons_nth_drop_Suc)
    then show ?thesis
      using Suc(1) [of "b1 + 1" "b2 + 1" "ret + 1"] Suc(2) True \<open>b1 < 2 * length d1\<close>
      by (subst sharedNibbles_loop.simps) (simp add: nibble_eq)
  qed
qed

lemma ns_shared_eq:
  assumes "ns_ok s" and "ns_ok k"
  shows "ns_shared s k = Inr (length (longest_common_prefix (nibs s) (nibs k)))"
  using assms shared_loop_eq [of "ns_data s" "ns_offset s" "ns_data k" "ns_offset k" 0]
  by (simp add: ns_shared_def sharedNibbles_def ns_ok_def ns_size_def nibs_def mult.commute)

lemma lcp_full: "length (longest_common_prefix xs ys) = length ys \<longleftrightarrow> prefix ys xs"
  by (metis longest_common_prefix_max_prefix longest_common_prefix_prefix1 longest_common_prefix_prefix2
    not_equal_is_parallel parallelE prefix_length_le prefix_order.antisym prefix_order.dual_order.refl order_antisym)

lemma ns_contains_eq: "ns_ok s \<Longrightarrow> ns_ok k \<Longrightarrow> ns_contains s k = Inr (prefix (nibs k) (nibs s))"
  by (simp add: ns_contains_def ns_shared_eq ns_size_eq lcp_full)

lemma ns_equal_eq:
  assumes "ns_ok s" and "ns_ok k"
  shows "ns_equal s k = Inr (nibs s = nibs k)"
proof -
  have "length (nibs k) = length (nibs s) \<Longrightarrow> prefix (nibs k) (nibs s) \<longleftrightarrow> nibs s = nibs k"
    by (auto simp: prefix_def)
  then show ?thesis
    unfolding ns_equal_def ns_shared_eq [OF assms] ns_size_eq bindE_Inr lcp_full
    by (cases "length (nibs k) = length (nibs s)") fastforce+
qed

section \<open>Lemmas: hex-prefix encoding\<close>

fun hp_fold :: "nat \<Rightarrow> bytes \<Rightarrow> bytes \<Rightarrow> bytes" where
  "hp_fold d [] ret = ret"
| "hp_fold d (x # xs) ret = hp_fold (d + 1) xs (hexPrefix_put d x ret)"

lemma hp_fold_append: "hp_fold d (xs @ ys) ret = hp_fold (d + length xs) ys (hp_fold d xs ret)"
  by (induction xs arbitrary: d ret) simp_all

lemma hexPrefix_loop_eq:
  "i + n \<le> 2 * length d \<Longrightarrow>
    hexPrefix_loop d i n c ret = Inr (c + n, hp_fold c (take n (drop i (asNibbles d))) ret)"
proof (induction n arbitrary: i c ret)
  case (Suc n)
  then have "drop i (asNibbles d) = asNibbles d ! i # drop (i + 1) (asNibbles d)"
    by (simp add: Cons_nth_drop_Suc)
  then show ?case
    using Suc by (simp add: nibble_eq)
qed simp

lemma hp_fold_even:
  assumes "even d" and "even (length xs)" and "\<forall>x \<in> set xs. nib x"
  shows "hp_fold d xs ret = ret @ pack xs"
  using assms
proof (induction xs arbitrary: d ret rule: pack.induct)
  case (1 a b r)
  have "hp_fold (d + 2) r (ret @ [push_bit 4 a OR b]) = (ret @ [push_bit 4 a OR b]) @ pack r"
    using 1(2-4) by (intro 1(1)) simp_all
  then show ?case
    using 1(2-4) by (simp add: hexPrefix_put_def nib_arith)
qed simp_all

lemma hpe_first_or: "nib x \<Longrightarrow> hpe_first leaf od OR x = hpe_first leaf od + x"
proof -
  assume x: "nib x"
  let ?f = "(if leaf then 2 else 0) OR (if od then 1 else 0) :: byte"
  have f: "nib ?f" "hpe_first leaf od = ?f * 16"
    by (simp_all add: nib_def hpe_first_def)
  have "push_bit 4 ?f = ?f * 16"
    by (simp add: push_bit_eq_mult)
  then show ?thesis
    using nib_arith(1) [OF f(1) x] f(2) by simp
qed

lemma hp_fold_hp:
  assumes "\<forall>x \<in> set xs. nib x"
  shows "hp_fold (if odd (length xs) then 1 else 2) xs [hpe_first leaf (odd (length xs))] = hp leaf xs"
proof (cases "odd (length xs)")
  case True
  then obtain y ys where xs: "xs = y # ys"
    by (cases xs) auto
  then have "hp_fold 2 ys [hpe_first leaf True + y] = [hpe_first leaf True + y] @ pack ys"
    using assms True by (intro hp_fold_even) simp_all
  then show ?thesis
    using True assms by (simp add: xs hp_def hexPrefix_put_def hpe_first_or numeral_2_eq_2)
next
  case False
  then show ?thesis
    using assms hp_fold_even [of 2 xs "[hpe_first leaf False]"] by (simp add: hp_def)
qed

lemma hexPrefixEncode_ref_eq:
  assumes "off + e \<le> 2 * length d" and "b \<le> e"
    and "(if en < 0 then int (length d * 2 - off) + 1 + en else en) = int e"
  shows "hexPrefixEncode_ref d leaf (int b) en off = Inr (hp leaf (take (e - b) (drop (off + b) (asNibbles d))))"
proof -
  let ?xs = "take (e - b) (drop (off + b) (asNibbles d))"
  have l: "length ?xs = e - b"
    using assms(1,2) by simp
  have p: "odd (int (off + e) - int (off + b)) \<longleftrightarrow> odd (length ?xs)"
    using assms(2) unfolding l by (simp add: even_diff_nat)
  have "\<forall>x \<in> set ?xs. nib x"
    by (meson in_set_dropD in_set_takeD nib_asNibbles)
  from hp_fold_hp [OF this, of leaf]
  have "hexPrefix_loop d (off + b) (e - b) (if odd (length ?xs) then 1 else 2) [hpe_first leaf (odd (length ?xs))]
    = Inr ((if odd (length ?xs) then 1 else 2) + (e - b), hp leaf ?xs)"
    using assms(1,2) by (subst hexPrefix_loop_eq) simp_all
  moreover have "nat (int b + int off) = off + b" "nat (int e + int off) = off + e" "off + e - (off + b) = e - b"
    by auto
  ultimately show ?thesis
    unfolding hexPrefixEncode_ref_def assms(3) Let_def using p by simp
qed

lemma hexPrefixEncode_from:
  assumes "ns_ok s" and "b \<le> length (nibs s)"
  shows "hexPrefixEncode s leaf (int b) (- 1) = Inr (hp leaf (drop b (nibs s)))"
  using assms hexPrefixEncode_ref_eq [of "ns_offset s" "length (nibs s)" "ns_data s" b "- 1" leaf]
  by (simp add: hexPrefixEncode_def nibs_def ns_ok_def add.commute)

lemma hexPrefixEncode_upto:
  assumes "ns_ok s" and "e \<le> length (nibs s)"
  shows "hexPrefixEncode s leaf 0 (int e) = Inr (hp leaf (take e (nibs s)))"
  using assms hexPrefixEncode_ref_eq [of "ns_offset s" e "ns_data s" 0 "int e" leaf]
  by (simp add: hexPrefixEncode_def nibs_def ns_ok_def)

lemma hexPrefix_loop_slice:
  assumes "ns_ok s"
  shows "hexPrefix_loop (ns_data s) (ns_offset s) (length (ns_data s) * 2 - ns_offset s) c ret
    = Inr (c + length (nibs s), hp_fold c (nibs s) ret)"
  using assms by (subst hexPrefix_loop_eq) (simp_all add: ns_ok_def nibs_def mult.commute)

lemma hexPrefixEncode2_eq:
  assumes "ns_ok s" and "ns_ok t"
  shows "hexPrefixEncode2 s t leaf = Inr (hp leaf (nibs s @ nibs t))"
proof -
  let ?xs = "nibs s @ nibs t"
  have l: "int (length (ns_data s) * 2) - int (ns_offset s) + int (length (ns_data t) * 2) - int (ns_offset t) = int (length ?xs)"
    using assms by (simp add: nibs_def ns_ok_def)
  have "\<forall>x \<in> set ?xs. nib x"
    using nib_nibs by auto
  from hp_fold_hp [OF this, of leaf] show ?thesis
    using assms unfolding hexPrefixEncode2_def hexPrefixEncode2_ref_def Let_def l hp_fold_append
    by (simp add: hexPrefix_loop_slice del: length_append)
qed

text \<open>Reading the encoding back.\<close>

lemma asNibbles_pack: "even (length xs) \<Longrightarrow> \<forall>x \<in> set xs. nib x \<Longrightarrow> asNibbles (pack xs) = xs"
  by (induction xs rule: pack.induct) (auto simp: nib_arith)

lemma hpe_first_table:
  "list_all (\<lambda>n. \<forall>leaf od. ((hpe_first leaf od + of_nat n) AND 0x10 = 0 \<longleftrightarrow> \<not> od)
      \<and> (unat (hpe_first leaf od + of_nat n) AND 0x20 = 0 \<longleftrightarrow> \<not> leaf)) [0..<16]"
  by code_simp

lemma hpe_first_bits:
  assumes "nib x"
  shows "(hpe_first leaf od + x) AND 0x10 = 0 \<longleftrightarrow> \<not> od" "unat (hpe_first leaf od + x) AND 0x20 = 0 \<longleftrightarrow> \<not> leaf"
proof -
  have "unat x \<in> set [0..<16]"
    using assms by (simp add: nib_def word_less_nat_alt)
  then have "((hpe_first leaf od + of_nat (unat x)) AND 0x10 = 0 \<longleftrightarrow> \<not> od)
      \<and> (unat (hpe_first leaf od + of_nat (unat x)) AND 0x20 = 0 \<longleftrightarrow> \<not> leaf)"
    using hpe_first_table unfolding list_all_iff by blast
  then show "(hpe_first leaf od + x) AND 0x10 = 0 \<longleftrightarrow> \<not> od" "unat (hpe_first leaf od + x) AND 0x20 = 0 \<longleftrightarrow> \<not> leaf"
    by simp_all
qed

lemma hpe_first_bits0: "hpe_first leaf od AND 0x10 = 0 \<longleftrightarrow> \<not> od" "unat (hpe_first leaf od) AND 0x20 = 0 \<longleftrightarrow> \<not> leaf"
  using hpe_first_bits [of 0 leaf od] by (simp_all add: nib_def)

lemma keyOf_hp:
  assumes "\<forall>x \<in> set xs. nib x"
  shows "nibs (keyOf_hpe (hp leaf xs)) = xs" "ns_ok (keyOf_hpe (hp leaf xs))"
proof -
  have "nibs (keyOf_hpe (hp leaf xs)) = xs \<and> ns_ok (keyOf_hpe (hp leaf xs))"
  proof (cases "odd (length xs)")
    case True
    then obtain y ys where xs: "xs = y # ys"
      by (cases xs) auto
    have "(hpe_first leaf True + y) mod 16 = y"
    proof -
      let ?f = "(if leaf then 2 else 0) OR 1 :: byte"
      have "nib ?f" "hpe_first leaf True = ?f * 16"
        by (simp_all add: nib_def hpe_first_def)
      then show ?thesis
        using nib_arith(3) [of ?f y] assms xs by simp
    qed
    then show ?thesis
      using True assms asNibbles_pack [of ys] by (simp add: xs hp_def keyOf_hpe_def hpe_first_bits hpe_first_bits0 ns_def nibs_def ns_ok_def)
  next
    case False
    then show ?thesis
      using assms asNibbles_pack [of xs] by (simp add: hp_def keyOf_hpe_def hpe_first_bits hpe_first_bits0 ns_def nibs_def ns_ok_def)
  qed
  then show "nibs (keyOf_hpe (hp leaf xs)) = xs" "ns_ok (keyOf_hpe (hp leaf xs))"
    by simp_all
qed

lemma hp_leaf_flag: "\<forall>x \<in> set xs. nib x \<Longrightarrow> hp leaf xs \<noteq> [] \<and> (unat (hp leaf xs ! 0) AND 0x20 = 0 \<longleftrightarrow> \<not> leaf)"
  by (cases xs) (simp_all add: hp_def hpe_first_bits hpe_first_bits0)

section \<open>Properties\<close>

text \<open>
  Claim C30. Reading a hex-prefix encoding gives back the path and the leaf flag, whatever part of a
  path is encoded and whether its length is odd or even.
\<close>
theorem hexPrefix_roundtrip:
  assumes "ns_ok s" and "b \<le> length (nibs s)"
  shows "\<exists>e. hexPrefixEncode s leaf (int b) (- 1) = Inr e
    \<and> nibs (keyOf_hpe e) = drop b (nibs s) \<and> e \<noteq> [] \<and> (unat (e ! 0) AND 0x20 = 0 \<longleftrightarrow> \<not> leaf)"
proof -
  have "\<forall>x \<in> set (drop b (nibs s)). nib x"
    by (meson in_set_dropD nib_nibs)
  then show ?thesis
    using hexPrefixEncode_from [OF assms] keyOf_hp hp_leaf_flag by blast
qed

theorem hexPrefix_roundtrip_witness:
  "\<exists>e. hexPrefixEncode (ns [0x12, 0x34] 0) True (int 1) (- 1) = Inr e
    \<and> nibs (keyOf_hpe e) = [2, 3, 4] \<and> e \<noteq> [] \<and> unat (e ! 0) AND 0x20 \<noteq> 0"
  using hexPrefix_roundtrip [of "ns [0x12, 0x34] 0" 1 True] by (simp add: nibs_ns del: neq0_conv)

end
