(* ===== verification/TrieDB.thy ===== *)
theory TrieDB
  imports TrieCommon Storage
begin

text \<open>
  The Merkle-Patricia trie \<^verbatim>\<open>GenericTrieDB\<close> of \<^verbatim>\<open>src/toscore/storage/TrieDB.h\<close>, on RLP bytes and a node
  store.  Parameters: the hash \<open>K\<close> and the store \<open>D\<close> (its operations over a state).  Every function
  that writes nodes takes and returns the state of the store.  The recursion follows hashes
  through the store, which could lead in a circle if the store held nonsense, so the recursive
  functions take fuel; \<open>OutOfFuel\<close> is not an exception of the code.  Assertions are compiled out.
\<close>

section \<open>Definitions\<close>

datatype trie_error = TE_RLP rlp_error | TE_DB db_error | InvalidTrie | RootNotFound | BadRoot | OutOfFuel

definition ofR :: "rlp_error + 'a \<Rightarrow> trie_error + 'a" where
  "ofR r = (case r of Inl e \<Rightarrow> Inl (TE_RLP e) | Inr x \<Rightarrow> Inr x)"

definition ofD :: "db_error + 'a \<Rightarrow> trie_error + 'a" where
  "ofD r = (case r of Inl e \<Rightarrow> Inl (TE_DB e) | Inr x \<Rightarrow> Inr x)"

text \<open>The operations of the template parameter \<^verbatim>\<open>DB\<close>.\<close>

record 's node_db =
  nd_lookup :: "'s \<Rightarrow> h256 \<Rightarrow> db_error + bytes"
  nd_exists :: "'s \<Rightarrow> h256 \<Rightarrow> db_error + bool"
  nd_insert :: "'s \<Rightarrow> h256 \<Rightarrow> bytes \<Rightarrow> 's"
  nd_kill :: "'s \<Rightarrow> h256 \<Rightarrow> db_error + 's"

record 's trie =
  m_root :: h256
  t_db :: 's

subsection \<open>Nodes in the store\<close>

definition RLPNull :: bytes where
  "RLPNull = [0x80]"

definition EmptyTrie :: "(bytes \<Rightarrow> h256) \<Rightarrow> h256" where
  "EmptyTrie K = K RLPNull"

definition node :: "'s node_db \<Rightarrow> 's \<Rightarrow> h256 \<Rightarrow> trie_error + bytes" where
  "node D s h = ofD (nd_lookup D s h)"

definition RLP_of :: "bytes \<Rightarrow> trie_error + bytes" where
  "RLP_of d = ofR (RLP_ctor d VeryStrict)"

definition toString :: "bytes \<Rightarrow> trie_error + bytes" where
  "toString d = ofR (toBytesConstRef d LaissezFaire)"

definition toHash256 :: "bytes \<Rightarrow> trie_error + h256" where
  "toHash256 d = ofR (toHash 32 d Strict)"

definition forceInsertNode :: "(bytes \<Rightarrow> h256) \<Rightarrow> 's node_db \<Rightarrow> 's \<Rightarrow> bytes \<Rightarrow> h256 \<times> 's" where
  "forceInsertNode K D s b = (K b, nd_insert D s (K b) b)"

definition forceKillNode :: "'s node_db \<Rightarrow> 's \<Rightarrow> h256 \<Rightarrow> trie_error + 's" where
  "forceKillNode D s h = ofD (nd_kill D s h)"

definition killNode :: "'s node_db \<Rightarrow> 's \<Rightarrow> bytes \<Rightarrow> h256 \<Rightarrow> trie_error + 's" where
  "killNode D s d h = (if length d \<ge> 32 then forceKillNode D s h else Inr s)"

definition deref :: "'s node_db \<Rightarrow> 's \<Rightarrow> bytes \<Rightarrow> trie_error + bytes" where
  "deref D s d = (if isList d then Inr d else bindE (toHash256 d) (node D s))"

definition isTwoItemNode :: "'s node_db \<Rightarrow> 's \<Rightarrow> bytes \<Rightarrow> trie_error + bool" where
  "isTwoItemNode D s d =
    (if isData d
     then bindE (toHash256 d) (\<lambda>h. bindE (node D s h) (\<lambda>b. bindE (RLP_of b) (\<lambda>r.
       bindE (ofR (itemCount r)) (\<lambda>n. Inr (n = 2)))))
     else if isList d then bindE (ofR (itemCount d)) (\<lambda>n. Inr (n = 2))
     else Inr False)"

subsection \<open>Writing nodes\<close>

definition new_stream :: "nat \<Rightarrow> trie_error + RLPStream" where
  "new_stream n = ofR (appendList RLPStream_empty n)"

definition out :: "RLPStream \<Rightarrow> trie_error + bytes" where
  "out st = ofR (stream_out st)"

definition put_rlp :: "RLPStream \<Rightarrow> bytes \<Rightarrow> trie_error + RLPStream" where
  "put_rlp st x = ofR (appendRaw st x 1)"

definition put_str :: "RLPStream \<Rightarrow> bytes \<Rightarrow> trie_error + RLPStream" where
  "put_str st x = ofR (append_bytes st x False)"

text \<open>The loop that copies \<open>n\<close> items of a node, from item \<open>i\<close> on, to a stream.\<close>

fun copy_items :: "bytes \<Rightarrow> nat \<Rightarrow> nat \<Rightarrow> RLPStream \<Rightarrow> trie_error + RLPStream" where
  "copy_items d i 0 st = Inr st"
| "copy_items d i (Suc n) st = bindE (ofR (rlp_at d i)) (\<lambda>x. bindE (put_rlp st x) (copy_items d (i + 1) n))"

definition rlpList_str_str :: "bytes \<Rightarrow> bytes \<Rightarrow> trie_error + bytes" where
  "rlpList_str_str a b = bindE (new_stream 2) (\<lambda>st. bindE (put_str st a) (\<lambda>st. bindE (put_str st b) out))"

definition rlpList_rlp_str :: "bytes \<Rightarrow> bytes \<Rightarrow> trie_error + bytes" where
  "rlpList_rlp_str a b = bindE (new_stream 2) (\<lambda>st. bindE (put_rlp st a) (\<lambda>st. bindE (put_str st b) out))"

definition rlpList_str_rlp :: "bytes \<Rightarrow> bytes \<Rightarrow> trie_error + bytes" where
  "rlpList_str_rlp a b = bindE (new_stream 2) (\<lambda>st. bindE (put_str st a) (\<lambda>st. bindE (put_rlp st b) out))"

definition streamNode ::
    "(bytes \<Rightarrow> h256) \<Rightarrow> 's node_db \<Rightarrow> 's \<Rightarrow> RLPStream \<Rightarrow> bytes \<Rightarrow> trie_error + RLPStream \<times> 's" where
  "streamNode K D s st b =
    (if length b < 32 then bindE (put_rlp st b) (\<lambda>st. Inr (st, s))
     else (let (h, s) = forceInsertNode K D s b in
       bindE (ofR (append_hash st h False False)) (\<lambda>st. Inr (st, s))))"

subsection \<open>Lookup\<close>

fun atAux :: "'s node_db \<Rightarrow> nat \<Rightarrow> 's \<Rightarrow> bytes \<Rightarrow> NibbleSlice \<Rightarrow> trie_error + bytes" where
  "atAux D 0 s here key = Inl OutOfFuel"
| "atAux D (Suc fuel) s here key =
    (if isEmpty here \<or> isNull here then Inr []
     else bindE (ofR (itemCount here)) (\<lambda>n.
       if n = 2
       then bindE (ofR (keyOf here)) (\<lambda>k.
            bindE (ofR (ns_equal key k)) (\<lambda>same.
            bindE (if same then ofR (isLeaf here) else Inr False) (\<lambda>hit.
            if hit then bindE (ofR (rlp_at here 1)) toString
            else bindE (ofR (ns_contains key k)) (\<lambda>inside.
                 bindE (if inside then ofR (isLeaf here) else Inr True) (\<lambda>leaf.
                 if \<not> leaf
                 then bindE (ofR (rlp_at here 1)) (\<lambda>x.
                      bindE (deref D s x) (\<lambda>b.
                      bindE (if isList x then Inr b else RLP_of b) (\<lambda>r.
                      atAux D fuel s r (ns_mid key (ns_size k)))))
                 else Inr [])))))
       else if ns_size key = 0 then bindE (ofR (rlp_at here 16)) toString
       else bindE (ofR (ns_at key 0)) (\<lambda>i.
            bindE (ofR (rlp_at here (unat i))) (\<lambda>x.
            if isEmpty x then Inr []
            else bindE (deref D s x) (\<lambda>b.
                 bindE (if isList x then Inr b else RLP_of b) (\<lambda>r.
                 atAux D fuel s r (ns_mid key 1))))))) "

definition trie_at :: "'s node_db \<Rightarrow> nat \<Rightarrow> 's trie \<Rightarrow> bytes \<Rightarrow> trie_error + bytes" where
  "trie_at D fuel t key =
    bindE (node D (t_db t) (m_root t)) (\<lambda>b. bindE (RLP_of b) (\<lambda>r. atAux D fuel (t_db t) r (ns key 0)))"

definition trie_contains :: "'s node_db \<Rightarrow> nat \<Rightarrow> 's trie \<Rightarrow> bytes \<Rightarrow> trie_error + bool" where
  "trie_contains D fuel t key = bindE (trie_at D fuel t key) (\<lambda>v. Inr (v \<noteq> []))"

subsection \<open>Insertion\<close>

definition place ::
    "(bytes \<Rightarrow> h256) \<Rightarrow> 's node_db \<Rightarrow> 's \<Rightarrow> bytes \<Rightarrow> NibbleSlice \<Rightarrow> bytes \<Rightarrow> trie_error + bytes \<times> 's" where
  "place K D s orig k v =
    bindE (killNode D s orig (K orig)) (\<lambda>s.
    if isEmpty orig
    then bindE (ofR (hexPrefixEncode k True 0 (- 1))) (\<lambda>e. bindE (rlpList_str_str e v) (\<lambda>b. Inr (b, s)))
    else bindE (ofR (itemCount orig)) (\<lambda>n.
      if n = 2
      then bindE (ofR (rlp_at orig 0)) (\<lambda>x. bindE (rlpList_rlp_str x v) (\<lambda>b. Inr (b, s)))
      else bindE (new_stream 17) (\<lambda>st. bindE (copy_items orig 0 16 st) (\<lambda>st. bindE (put_str st v) (\<lambda>st.
           bindE (out st) (\<lambda>b. Inr (b, s)))))))"

definition cleve ::
    "(bytes \<Rightarrow> h256) \<Rightarrow> 's node_db \<Rightarrow> 's \<Rightarrow> bytes \<Rightarrow> nat \<Rightarrow> trie_error + bytes \<times> 's" where
  "cleve K D s orig sh =
    bindE (killNode D s orig (K orig)) (\<lambda>s.
    bindE (ofR (keyOf orig)) (\<lambda>k.
    bindE (ofR (isLeaf orig)) (\<lambda>leaf.
    bindE (ofR (hexPrefixEncode k leaf (int sh) (- 1))) (\<lambda>e.
    bindE (ofR (rlp_at orig 1)) (\<lambda>x.
    bindE (rlpList_str_rlp e x) (\<lambda>bottom.
    bindE (new_stream 2) (\<lambda>top.
    bindE (ofR (hexPrefixEncode k False 0 (int sh))) (\<lambda>e.
    bindE (put_str top e) (\<lambda>top.
    bindE (streamNode K D s top bottom) (\<lambda>(top, s).
    bindE (out top) (\<lambda>b. Inr (b, s))))))))))))"

text \<open>The sixteen children of a new branch: the rest of the pair at nibble \<open>b\<close>, null elsewhere.\<close>

fun branch_loop ::
    "(bytes \<Rightarrow> h256) \<Rightarrow> 's node_db \<Rightarrow> bytes \<Rightarrow> NibbleSlice \<Rightarrow> bool \<Rightarrow> nat \<Rightarrow> nat \<Rightarrow> nat \<Rightarrow> RLPStream \<times> 's \<Rightarrow> trie_error + RLPStream \<times> 's" where
  "branch_loop K D orig k leaf b i 0 sts = Inr sts"
| "branch_loop K D orig k leaf b i (Suc n) sts =
    (let (st, s) = sts in
     bindE (if i = b
            then bindE (ofR (rlp_at orig 1)) (\<lambda>x.
              if leaf \<or> ns_size k > 1
              then bindE (ofR (hexPrefixEncode (ns_mid k 1) leaf 0 (- 1))) (\<lambda>e.
                   bindE (rlpList_str_rlp e x) (\<lambda>nd. streamNode K D s st nd))
              else bindE (put_rlp st x) (\<lambda>st. Inr (st, s)))
            else bindE (put_str st []) (\<lambda>st. Inr (st, s)))
       (branch_loop K D orig k leaf b (i + 1) n))"

fun put_nulls :: "nat \<Rightarrow> RLPStream \<Rightarrow> trie_error + RLPStream" where
  "put_nulls 0 st = Inr st"
| "put_nulls (Suc n) st = bindE (put_str st []) (put_nulls n)"

definition branch :: "(bytes \<Rightarrow> h256) \<Rightarrow> 's node_db \<Rightarrow> 's \<Rightarrow> bytes \<Rightarrow> trie_error + bytes \<times> 's" where
  "branch K D s orig =
    bindE (killNode D s orig (K orig)) (\<lambda>s.
    bindE (ofR (keyOf orig)) (\<lambda>k.
    bindE (new_stream 17) (\<lambda>st.
    bindE (if ns_size k = 0
           then bindE (put_nulls 16 st) (\<lambda>st. bindE (ofR (rlp_at orig 1)) (\<lambda>x.
                bindE (put_rlp st x) (\<lambda>st. Inr (st, s))))
           else bindE (ofR (ns_at k 0)) (\<lambda>b.
                bindE (ofR (isLeaf orig)) (\<lambda>leaf.
                bindE (branch_loop K D orig k leaf (unat b) 0 16 (st, s)) (\<lambda>(st, s).
                bindE (put_str st []) (\<lambda>st. Inr (st, s)))))) (\<lambda>(st, s).
    bindE (out st) (\<lambda>b. Inr (b, s))))))"

text \<open>
  \<^verbatim>\<open>mergeAtAux\<close> and the loop over the items of a branch; \<open>rc\<close> is the recursive call of \<^verbatim>\<open>mergeAt\<close>,
  from the bytes of the node, the path, and whether the node is in line.
\<close>

definition mergeAtAux ::
    "(bytes \<Rightarrow> h256) \<Rightarrow> 's node_db \<Rightarrow> ('s \<Rightarrow> bytes \<Rightarrow> bool \<Rightarrow> trie_error + bytes \<times> 's) \<Rightarrow> 's \<Rightarrow> RLPStream \<Rightarrow> bytes \<Rightarrow> trie_error + RLPStream \<times> 's" where
  "mergeAtAux K D rc s st orig =
    bindE (if \<not> isList orig \<and> \<not> isEmpty orig
           then bindE (toHash256 orig) (\<lambda>h. bindE (node D s h) (\<lambda>b. bindE (RLP_of b) (\<lambda>r. Inr (r, True))))
           else Inr (orig, False)) (\<lambda>(r, isRemovable).
    bindE (rc s r (\<not> isRemovable)) (\<lambda>(b, s). streamNode K D s st b))"

fun merge_loop ::
    "(bytes \<Rightarrow> h256) \<Rightarrow> 's node_db \<Rightarrow> ('s \<Rightarrow> bytes \<Rightarrow> bool \<Rightarrow> trie_error + bytes \<times> 's) \<Rightarrow> bytes \<Rightarrow> nat \<Rightarrow> nat \<Rightarrow> nat \<Rightarrow> RLPStream \<times> 's \<Rightarrow> trie_error + RLPStream \<times> 's" where
  "merge_loop K D rc orig n i 0 sts = Inr sts"
| "merge_loop K D rc orig n i (Suc m) sts =
    (let (st, s) = sts in
     bindE (ofR (rlp_at orig i)) (\<lambda>x.
     bindE (if i = n then mergeAtAux K D rc s st x else bindE (put_rlp st x) (\<lambda>st. Inr (st, s)))
       (merge_loop K D rc orig n (i + 1) m)))"

primrec mergeAt ::
    "(bytes \<Rightarrow> h256) \<Rightarrow> 's node_db \<Rightarrow> nat \<Rightarrow> 's \<Rightarrow> bytes \<Rightarrow> h256 \<Rightarrow> NibbleSlice \<Rightarrow> bytes \<Rightarrow> bool \<Rightarrow> trie_error + bytes \<times> 's" where
  "mergeAt K D 0 = (\<lambda>s orig origHash k v inLine. Inl OutOfFuel)"
| "mergeAt K D (Suc fuel) = (\<lambda>s orig origHash k v inLine.
    if isEmpty orig then place K D s orig k v
    else bindE (ofR (itemCount orig)) (\<lambda>n.
      if n = 2
      then bindE (ofR (keyOf orig)) (\<lambda>ko.
           bindE (ofR (ns_equal ko k)) (\<lambda>same.
           bindE (if same then ofR (isLeaf orig) else Inr False) (\<lambda>hit.
           if hit then place K D s orig k v
           else bindE (ofR (ns_contains k ko)) (\<lambda>inside.
                bindE (if inside then ofR (isLeaf orig) else Inr True) (\<lambda>leaf.
                if \<not> leaf
                then bindE (if \<not> inLine then killNode D s orig origHash else Inr s) (\<lambda>s.
                     bindE (new_stream 2) (\<lambda>st.
                     bindE (ofR (rlp_at orig 0)) (\<lambda>x.
                     bindE (put_rlp st x) (\<lambda>st.
                     bindE (ofR (rlp_at orig 1)) (\<lambda>y.
                     bindE (mergeAtAux K D (\<lambda>s r il. mergeAt K D fuel s r (K r) (ns_mid k (ns_size ko)) v il) s st y) (\<lambda>(st, s).
                     bindE (out st) (\<lambda>b. Inr (b, s))))))))
                else bindE (ofR (ns_shared k ko)) (\<lambda>sh.
                     bindE (if sh \<noteq> 0 then cleve K D s orig sh else branch K D s orig) (\<lambda>(b, s).
                     bindE (RLP_of b) (\<lambda>r. mergeAt K D fuel s r (K r) k v True))))))))
      else if ns_size k = 0 then place K D s orig k v
      else bindE (if \<not> inLine then killNode D s orig origHash else Inr s) (\<lambda>s.
           bindE (ofR (ns_at k 0)) (\<lambda>i.
           bindE (new_stream 17) (\<lambda>st.
           bindE (merge_loop K D (\<lambda>s r il. mergeAt K D fuel s r (K r) (ns_mid k 1) v il) orig (unat i) 0 17 (st, s)) (\<lambda>(st, s).
           bindE (out st) (\<lambda>b. Inr (b, s))))))))"

definition trie_insert ::
    "(bytes \<Rightarrow> h256) \<Rightarrow> 's node_db \<Rightarrow> nat \<Rightarrow> 's trie \<Rightarrow> bytes \<Rightarrow> bytes \<Rightarrow> trie_error + 's trie" where
  "trie_insert K D fuel t key v =
    bindE (node D (t_db t) (m_root t)) (\<lambda>rootValue.
    bindE (RLP_of rootValue) (\<lambda>r.
    bindE (mergeAt K D fuel (t_db t) r (m_root t) (ns key 0) v False) (\<lambda>(b, s).
    bindE (if length rootValue < 32 then forceKillNode D s (m_root t) else Inr s) (\<lambda>s.
    let (h, s) = forceInsertNode K D s b in Inr \<lparr>m_root = h, t_db = s\<rparr>))))"

subsection \<open>Removal\<close>

definition graft :: "'s node_db \<Rightarrow> 's \<Rightarrow> bytes \<Rightarrow> trie_error + bytes \<times> 's" where
  "graft D s orig =
    bindE (ofR (rlp_at orig 1)) (\<lambda>x.
    bindE (if isList x then Inr (x, s)
           else bindE (toHash256 x) (\<lambda>lh. bindE (node D s lh) (\<lambda>b. bindE (forceKillNode D s lh) (\<lambda>s.
                bindE (RLP_of b) (\<lambda>n. Inr (n, s)))))) (\<lambda>(n, s).
    bindE (ofR (keyOf orig)) (\<lambda>ko.
    bindE (ofR (keyOf n)) (\<lambda>kn.
    bindE (ofR (isLeaf n)) (\<lambda>leaf.
    bindE (ofR (hexPrefixEncode2 ko kn leaf)) (\<lambda>e.
    bindE (ofR (rlp_at n 1)) (\<lambda>y.
    bindE (rlpList_str_rlp e y) (\<lambda>b. Inr (b, s)))))))))"

definition merge :: "bytes \<Rightarrow> byte \<Rightarrow> trie_error + bytes" where
  "merge orig i =
    bindE (new_stream 2) (\<lambda>st.
    bindE (if i \<noteq> 16 then ofR (hexPrefixEncode_ref [i] False 1 2 0) else ofR (hexPrefixEncode_vec [] True 0 (- 1))) (\<lambda>e.
    bindE (put_str st e) (\<lambda>st.
    bindE (ofR (rlp_at orig (unat i))) (\<lambda>x.
    bindE (put_rlp st x) out))))"

text \<open>The branch that is left with one entry becomes a pair, joined with a pair below it.\<close>

definition merge_graft :: "'s node_db \<Rightarrow> 's \<Rightarrow> bytes \<Rightarrow> byte \<Rightarrow> trie_error + bytes \<times> 's" where
  "merge_graft D s orig used =
    bindE (ofR (rlp_at orig (unat used))) (\<lambda>x.
    bindE (isTwoItemNode D s x) (\<lambda>two.
    bindE (merge orig used) (\<lambda>merged.
    if two then bindE (RLP_of merged) (graft D s) else Inr (merged, s))))"

definition deleteAtAux ::
    "(bytes \<Rightarrow> h256) \<Rightarrow> 's node_db \<Rightarrow> ('s \<Rightarrow> bytes \<Rightarrow> trie_error + bytes \<times> 's) \<Rightarrow> 's \<Rightarrow> RLPStream \<Rightarrow> bytes \<Rightarrow> trie_error + (bool \<times> RLPStream) \<times> 's" where
  "deleteAtAux K D rc s st orig =
    bindE (if isEmpty orig then Inr ([], s)
           else bindE (deref D s orig) (\<lambda>b. bindE (if isList orig then Inr b else RLP_of b) (rc s))) (\<lambda>(b, s).
    if b = [] then Inr ((False, st), s)
    else bindE (streamNode K D s st b) (\<lambda>(st, s). Inr ((True, st), s)))"

fun delete_loop ::
    "(bytes \<Rightarrow> h256) \<Rightarrow> 's node_db \<Rightarrow> ('s \<Rightarrow> bytes \<Rightarrow> trie_error + bytes \<times> 's) \<Rightarrow> bytes \<Rightarrow> nat \<Rightarrow> nat \<Rightarrow> nat \<Rightarrow> RLPStream \<times> 's \<Rightarrow> trie_error + (bool \<times> RLPStream) \<times> 's" where
  "delete_loop K D rc orig n i 0 sts = (let (st, s) = sts in Inr ((True, st), s))"
| "delete_loop K D rc orig n i (Suc m) sts =
    (let (st, s) = sts in
     bindE (ofR (rlp_at orig i)) (\<lambda>x.
     bindE (if i = n then deleteAtAux K D rc s st x else bindE (put_rlp st x) (\<lambda>st. Inr ((True, st), s)))
       (\<lambda>((ok, st), s). if ok then delete_loop K D rc orig n (i + 1) m (st, s) else Inr ((False, st), s))))"

primrec deleteAt ::
    "(bytes \<Rightarrow> h256) \<Rightarrow> 's node_db \<Rightarrow> nat \<Rightarrow> 's \<Rightarrow> bytes \<Rightarrow> NibbleSlice \<Rightarrow> trie_error + bytes \<times> 's" where
  "deleteAt K D 0 = (\<lambda>s orig k. Inl OutOfFuel)"
| "deleteAt K D (Suc fuel) = (\<lambda>s orig k.
    if isEmpty orig then Inr ([], s)
    else bindE (ofR (itemCount orig)) (\<lambda>n.
      if n = 2
      then bindE (ofR (keyOf orig)) (\<lambda>ko.
           bindE (ofR (ns_equal ko k)) (\<lambda>same.
           bindE (if same then ofR (isLeaf orig) else Inr False) (\<lambda>hit.
           if hit then bindE (killNode D s orig (K orig)) (\<lambda>s. Inr (RLPNull, s))
           else bindE (ofR (ns_contains k ko)) (\<lambda>inside.
             if inside
             then bindE (new_stream 2) (\<lambda>st.
                  bindE (ofR (rlp_at orig 0)) (\<lambda>x.
                  bindE (put_rlp st x) (\<lambda>st.
                  bindE (ofR (rlp_at orig 1)) (\<lambda>y.
                  bindE (deleteAtAux K D (\<lambda>s r. deleteAt K D fuel s r (ns_mid k (ns_size ko))) s st y) (\<lambda>((ok, st), s).
                  if \<not> ok then Inr ([], s)
                  else bindE (killNode D s orig (K orig)) (\<lambda>s.
                       bindE (out st) (\<lambda>b.
                       bindE (RLP_of b) (\<lambda>r.
                       bindE (ofR (rlp_at r 1)) (\<lambda>x.
                       bindE (isTwoItemNode D s x) (\<lambda>two.
                       if two then graft D s r else Inr (b, s))))))))))) 
             else Inr ([], s)))))
      else
        bindE (if ns_size k = 0 then bindE (ofR (rlp_at orig 16)) (\<lambda>x. Inr (\<not> isEmpty x)) else Inr False) (\<lambda>here.
        if here
        then bindE (killNode D s orig (K orig)) (\<lambda>s.
             bindE (ofR (uniqueInUse orig 16)) (\<lambda>used.
             if used \<noteq> 255 then merge_graft D s orig used
             else bindE (new_stream 17) (\<lambda>st. bindE (copy_items orig 0 16 st) (\<lambda>st. bindE (put_str st []) (\<lambda>st.
                  bindE (out st) (\<lambda>b. Inr (b, s)))))))
        else bindE (new_stream 17) (\<lambda>st.
             bindE (ofR (ns_at k 0)) (\<lambda>i.
             bindE (delete_loop K D (\<lambda>s r. deleteAt K D fuel s r (ns_mid k 1)) orig (unat i) 0 17 (st, s)) (\<lambda>((ok, st), s).
             if \<not> ok then Inr ([], s)
             else bindE (killNode D s orig (K orig)) (\<lambda>s.
                  bindE (out st) (\<lambda>b.
                  bindE (RLP_of b) (\<lambda>r.
                  bindE (ofR (uniqueInUse r 255)) (\<lambda>used.
                  if used = 255 then Inr (b, s) else merge_graft D s r used))))))))))"

definition trie_remove ::
    "(bytes \<Rightarrow> h256) \<Rightarrow> 's node_db \<Rightarrow> nat \<Rightarrow> 's trie \<Rightarrow> bytes \<Rightarrow> trie_error + 's trie" where
  "trie_remove K D fuel t key =
    bindE (node D (t_db t) (m_root t)) (\<lambda>rv.
    bindE (RLP_of rv) (\<lambda>r.
    bindE (deleteAt K D fuel (t_db t) r (ns key 0)) (\<lambda>(b, s).
    if b \<noteq> []
    then bindE (if length rv < 32 then forceKillNode D s (m_root t) else Inr s) (\<lambda>s.
         let (h, s) = forceInsertNode K D s b in Inr \<lparr>m_root = h, t_db = s\<rparr>)
    else Inr (t\<lparr>t_db := s\<rparr>))))"

subsection \<open>Opening\<close>

datatype Verification = Skip | Normal

primrec setRoot :: "(bytes \<Rightarrow> h256) \<Rightarrow> 's node_db \<Rightarrow> nat \<Rightarrow> h256 \<Rightarrow> Verification \<Rightarrow> 's trie \<Rightarrow> trie_error + 's trie" where
  "setRoot K D 0 = (\<lambda>root v t. Inl OutOfFuel)"
| "setRoot K D (Suc fuel) = (\<lambda>root v t.
    let t = t\<lparr>m_root := root\<rparr> in
    if v = Normal
    then bindE (if root = EmptyTrie K
                then bindE (ofD (nd_exists D (t_db t) root)) (\<lambda>e.
                  if e then Inr t
                  else (let (h, s) = forceInsertNode K D (t_db t) RLPNull in setRoot K D fuel h Normal (t\<lparr>t_db := s\<rparr>)))
                else Inr t) (\<lambda>t.
         bindE (node D (t_db t) (m_root t)) (\<lambda>b. if b = [] then Inl RootNotFound else Inr t))
    else Inr t)"

definition trie_init :: "(bytes \<Rightarrow> h256) \<Rightarrow> 's node_db \<Rightarrow> nat \<Rightarrow> 's trie \<Rightarrow> trie_error + 's trie" where
  "trie_init K D fuel t = (let (h, s) = forceInsertNode K D (t_db t) RLPNull in setRoot K D fuel h Normal (t\<lparr>t_db := s\<rparr>))"

definition trie_isNull :: "'s node_db \<Rightarrow> 's trie \<Rightarrow> trie_error + bool" where
  "trie_isNull D t = bindE (node D (t_db t) (m_root t)) (\<lambda>b. Inr (b = []))"

definition trie_isEmpty :: "(bytes \<Rightarrow> h256) \<Rightarrow> 's node_db \<Rightarrow> 's trie \<Rightarrow> trie_error + bool" where
  "trie_isEmpty K D t =
    (if m_root t = EmptyTrie K then bindE (node D (t_db t) (m_root t)) (\<lambda>b. Inr (b \<noteq> [])) else Inr False)"

definition trie_root :: "'s node_db \<Rightarrow> 's trie \<Rightarrow> trie_error + h256" where
  "trie_root D t = bindE (node D (t_db t) (m_root t)) (\<lambda>b. if b = [] then Inl BadRoot else Inr (m_root t))"

end
