(* ===== verification/TrieTree.thy ===== *)
theory TrieTree
  imports TrieDB
begin

text \<open>
  The abstract trie that the nodes of \<^verbatim>\<open>GenericTrieDB\<close> encode: paths are lists of nibbles, values
  byte strings.  \<open>minsert\<close> mirrors \<^verbatim>\<open>mergeAt\<close> with its two auxiliary steps, cleaving a pair at the
  first disagreement and turning a pair into a branch.
\<close>

section \<open>Trees\<close>

datatype mpt = MEmpty | MLeaf bytes bytes | MExt bytes mpt | MBranch "mpt list" bytes

lemma size_nth_less [termination_simp]: "i < length ts \<Longrightarrow> size (ts ! i) < Suc (size_list size ts)"
  by (meson le_imp_less_Suc less_imp_le_nat not_less_eq nth_mem size_list_estimation' order_refl)

fun mlookup :: "mpt \<Rightarrow> bytes \<Rightarrow> bytes" where
  "mlookup MEmpty p = []"
| "mlookup (MLeaf k v) p = (if p = k then v else [])"
| "mlookup (MExt k t) p = (if prefix k p then mlookup t (drop (length k) p) else [])"
| "mlookup (MBranch ts v) [] = v"
| "mlookup (MBranch ts v) (x # p) = (if unat x < length ts then mlookup (ts ! unat x) p else [])"

text \<open>The children and the value of the branch that a pair becomes.\<close>

fun mchildren :: "mpt \<Rightarrow> mpt list" where
  "mchildren (MLeaf (x # k) v) = (replicate 16 MEmpty)[unat x := MLeaf k v]"
| "mchildren (MExt [x] t) = (replicate 16 MEmpty)[unat x := t]"
| "mchildren (MExt (x # y # k) t) = (replicate 16 MEmpty)[unat x := MExt (y # k) t]"
| "mchildren _ = replicate 16 MEmpty"

fun mvalue :: "mpt \<Rightarrow> bytes" where
  "mvalue (MLeaf [] v) = v"
| "mvalue _ = []"

text \<open>The part of a pair below the first \<open>n\<close> nibbles of its path.\<close>

fun mbottom :: "mpt \<Rightarrow> nat \<Rightarrow> mpt" where
  "mbottom (MLeaf k v) n = MLeaf (drop n k) v"
| "mbottom (MExt k t) n = MExt (drop n k) t"
| "mbottom t n = t"

fun mkey :: "mpt \<Rightarrow> bytes" where
  "mkey (MLeaf k v) = k"
| "mkey (MExt k t) = k"
| "mkey _ = []"

definition shared :: "bytes \<Rightarrow> bytes \<Rightarrow> nat" where
  "shared p k = length (longest_common_prefix p k)"

function minsert :: "mpt \<Rightarrow> bytes \<Rightarrow> bytes \<Rightarrow> mpt" where
  "minsert MEmpty p v = MLeaf p v"
| "minsert (MLeaf k w) p v =
    (if k = p then MLeaf k v
     else if shared p k \<noteq> 0
     then MExt (take (shared p k) k) (minsert (MLeaf (drop (shared p k) k) w) (drop (shared p k) p) v)
     else (case p of
         [] \<Rightarrow> MBranch (mchildren (MLeaf k w)) v
       | x # q \<Rightarrow> MBranch ((mchildren (MLeaf k w))[unat x := minsert (mchildren (MLeaf k w) ! unat x) q v]) (mvalue (MLeaf k w))))"
| "minsert (MExt k t) p v =
    (if prefix k p then MExt k (minsert t (drop (length k) p) v)
     else if shared p k \<noteq> 0
     then MExt (take (shared p k) k) (minsert (MExt (drop (shared p k) k) t) (drop (shared p k) p) v)
     else (case p of
         [] \<Rightarrow> MBranch (mchildren (MExt k t)) v
       | x # q \<Rightarrow> MBranch ((mchildren (MExt k t))[unat x := minsert (mchildren (MExt k t) ! unat x) q v]) []))"
| "minsert (MBranch ts w) [] v = MBranch ts v"
| "minsert (MBranch ts w) (x # q) v = MBranch (ts[unat x := minsert (ts ! unat x) q v]) w"
  by pat_completeness auto
termination
proof (relation "measures [\<lambda>(t, p, v). length p, \<lambda>(t, p, v). size t]")
  fix k w p and v :: bytes
  assume "shared p k \<noteq> 0"
  moreover have "shared p k \<le> length p"
    unfolding shared_def by (meson longest_common_prefix_prefix1 prefix_length_le)
  ultimately have "length p - shared p k < length p"
    by linarith
  then show "((MLeaf (drop (shared p k) k) w, drop (shared p k) p, v), MLeaf k w, p, v)
      \<in> measures [\<lambda>(t, p, v). length p, \<lambda>(t, p, v). size t]"
    "((MExt (drop (shared p k) k) t, drop (shared p k) p, v), MExt k t, p, v)
      \<in> measures [\<lambda>(t, p, v). length p, \<lambda>(t, p, v). size t]" for t
    by simp_all
qed (auto split: list.splits)

definition nibble_path :: "bytes \<Rightarrow> bool" where
  "nibble_path p \<longleftrightarrow> (\<forall>x \<in> set p. nib x)"

text \<open>The shape that the code keeps: no empty extension and no extension of nothing, sixteen children.\<close>

fun mwf :: "mpt \<Rightarrow> bool" where
  "mwf MEmpty \<longleftrightarrow> True"
| "mwf (MLeaf k v) \<longleftrightarrow> nibble_path k"
| "mwf (MExt k t) \<longleftrightarrow> nibble_path k \<and> k \<noteq> [] \<and> t \<noteq> MEmpty \<and> mwf t"
| "mwf (MBranch ts v) \<longleftrightarrow> length ts = 16 \<and> list_all mwf ts"

section \<open>The lookup law\<close>

lemma nib_index: "nib x \<Longrightarrow> unat x < 16"
  by (simp add: nib_def word_less_nat_alt)

lemma nib_index_eq: "unat x = unat y \<longleftrightarrow> x = (y :: byte)"
  by (simp add: word_unat_eq_iff)

lemma nibble_path_simps [simp]: "nibble_path []" "nibble_path (x # p) \<longleftrightarrow> nib x \<and> nibble_path p"
  by (auto simp: nibble_path_def)

lemma nibble_path_sub: "nibble_path p \<Longrightarrow> nibble_path (drop n p)" "nibble_path p \<Longrightarrow> nibble_path (take n p)"
  unfolding nibble_path_def by (auto dest: in_set_dropD in_set_takeD)

lemma shared_take: "take (shared p k) k = take (shared p k) p"
  unfolding shared_def by (metis append_eq_conv_conj longest_common_prefix_prefix1 longest_common_prefix_prefix2 prefix_def)

lemma shared_le: "shared p k \<le> length p" "shared p k \<le> length k"
  unfolding shared_def by (simp_all add: longest_common_prefix_prefix1 longest_common_prefix_prefix2 prefix_length_le)

lemma shared_0: "shared (x # p) (y # k) = 0 \<longleftrightarrow> x \<noteq> y"
  by (simp add: shared_def)

lemma mlookup_MExt_append: "mlookup (MExt k t) (k @ p) = mlookup t p"
  by simp

text \<open>Cleaving and branching do not change what is found.\<close>

lemma prefix_take_iff: "n \<le> length k \<Longrightarrow> prefix (take n k) p \<longleftrightarrow> take n p = take n k \<and> n \<le> length p"
  by (auto simp: prefix_def) (metis append_take_drop_id)

lemma mlookup_cleave_leaf:
  assumes "n \<le> length k"
  shows "mlookup (MExt (take n k) (MLeaf (drop n k) w)) p = mlookup (MLeaf k w) p"
proof -
  have "p = k \<longleftrightarrow> (take n p = take n k \<and> n \<le> length p) \<and> drop n p = drop n k"
    using assms by (metis append_take_drop_id)
  then show ?thesis
    using assms by (simp add: prefix_take_iff)
qed

lemma mlookup_cleave_ext:
  assumes "n \<le> length k"
  shows "mlookup (MExt (take n k) (MExt (drop n k) t)) p = mlookup (MExt k t) p"
proof -
  have "prefix k p \<longleftrightarrow> prefix (take n k @ drop n k) (take n p @ drop n p)"
    by simp
  also have "\<dots> \<longleftrightarrow> prefix (take n k) p \<and> prefix (drop n k) (drop n p)"
  proof (cases "prefix (take n k) p")
    case True
    then have e: "take n p = take n k"
      using assms by (simp add: prefix_take_iff)
    show ?thesis
      unfolding e same_prefix_prefix using True by simp
  next
    case False
    then show ?thesis
      using append_prefixD by fastforce
  qed
  finally show ?thesis
    using assms by simp
qed

lemma mlookup_branch:
  assumes "mwf t" and "t = MLeaf k w \<or> t = MExt k u" and "nibble_path p"
  shows "mlookup (MBranch (mchildren t) (mvalue t)) p = mlookup t p"
proof (cases p)
  case Nil
  then show ?thesis
    using assms by (cases t rule: mchildren.cases) auto
next
  case (Cons x q)
  then have "unat x < 16"
    using assms(3) by (simp add: nib_index)
  then show ?thesis
    using assms Cons
    by (cases t rule: mchildren.cases) (auto simp: nib_index nth_list_update nib_index_eq split: if_splits)
qed

lemma list_all_update: "list_all P xs \<Longrightarrow> P x \<Longrightarrow> list_all P (xs[i := x])"
  using set_update_subset_insert [of xs i x] by (auto simp: list_all_iff)

lemma mwf_no_children: "list_all mwf (replicate 16 MEmpty)"
  by (simp add: list_all_iff)

lemma mwf_children:
  assumes "mwf t"
  shows "list_all mwf (mchildren t)" "length (mchildren t) = 16"
proof -
  show "length (mchildren t) = 16"
    by (cases t rule: mchildren.cases) simp_all
  show "list_all mwf (mchildren t)"
    using assms list_all_update [OF mwf_no_children] mwf_no_children
    by (cases t rule: mchildren.cases) simp_all
qed

lemma mwf_nth: "mwf (MBranch ts v) \<Longrightarrow> i < 16 \<Longrightarrow> mwf (ts ! i)"
  by (simp add: list_all_length)

lemma mwf_update: "mwf (MBranch ts v) \<Longrightarrow> mwf t \<Longrightarrow> mwf (MBranch (ts[i := t]) w)"
  by (simp add: list_all_update)

lemma mlookup_update:
  assumes "length ts = 16" and "nib x"
  shows "mlookup (MBranch (ts[unat x := t]) w) p
    = (case p of [] \<Rightarrow> w | y # q \<Rightarrow> if y = x then mlookup t q else mlookup (MBranch ts w) p)"
  using assms by (auto simp: nib_index nth_list_update nib_index_eq split: list.splits)

text \<open>A pair that the path neither reaches nor passes through, and what insertion does there.\<close>

definition clash :: "mpt \<Rightarrow> bytes \<Rightarrow> bool" where
  "clash t p \<longleftrightarrow> (\<exists>k w. t = MLeaf k w \<and> k \<noteq> p) \<or> (\<exists>k u. t = MExt k u \<and> \<not> prefix k p)"

lemma minsert_simps:
  "minsert (MLeaf p w) p v = MLeaf p v"
  "prefix k p \<Longrightarrow> minsert (MExt k t) p v = MExt k (minsert t (drop (length k) p) v)"
  by simp_all

lemma minsert_clash:
  assumes "clash t p"
  shows "minsert t p v =
    (if shared p (mkey t) \<noteq> 0
     then MExt (take (shared p (mkey t)) (mkey t)) (minsert (mbottom t (shared p (mkey t))) (drop (shared p (mkey t)) p) v)
     else minsert (MBranch (mchildren t) (mvalue t)) p v)"
proof -
  from assms consider k w where "t = MLeaf k w" "k \<noteq> p" | k u where "t = MExt k u" "\<not> prefix k p"
    by (auto simp: clash_def)
  then show ?thesis
  proof cases
    case 1
    then show ?thesis
      using minsert.simps(2) [of k w p v] by (cases p) (auto simp del: minsert.simps(2,3))
  next
    case 2
    then show ?thesis
      using minsert.simps(3) [of k u p v] by (cases p) (auto simp del: minsert.simps(2,3))
  qed
qed

declare minsert.simps(2,3) [simp del]

lemma minsert_induct [case_names Empty Leaf Ext Value Below Cleave Branch]:
  fixes P :: "mpt \<Rightarrow> bytes \<Rightarrow> bytes \<Rightarrow> bool"
  assumes "\<And>p v. P MEmpty p v"
    and "\<And>p w v. P (MLeaf p w) p v"
    and "\<And>k t p v. prefix k p \<Longrightarrow> P t (drop (length k) p) v \<Longrightarrow> P (MExt k t) p v"
    and "\<And>ts w v. P (MBranch ts w) [] v"
    and "\<And>ts w x q v. P (ts ! unat x) q v \<Longrightarrow> P (MBranch ts w) (x # q) v"
    and cleave: "\<And>t p v. clash t p \<Longrightarrow> shared p (mkey t) \<noteq> 0
      \<Longrightarrow> P (mbottom t (shared p (mkey t))) (drop (shared p (mkey t)) p) v \<Longrightarrow> P t p v"
    and branch: "\<And>t p v. clash t p \<Longrightarrow> shared p (mkey t) = 0 \<Longrightarrow> P (MBranch (mchildren t) (mvalue t)) p v \<Longrightarrow> P t p v"
  shows "P t p v"
proof (induction t p v rule: minsert.induct)
  case (2 k w p v)
  show ?case
  proof (cases "k = p")
    case True
    then show ?thesis
      using assms(2) by simp
  next
    case False
    then have c: "clash (MLeaf k w) p"
      by (simp add: clash_def)
    show ?thesis
    proof (cases "shared p k = 0")
      case True
      then show ?thesis
        using False 2(2) branch [OF c] assms(4,5) by (cases p) auto
    next
      case sh: False
      then show ?thesis
        using False 2(1) cleave [OF c] by simp
    qed
  qed
next
  case (3 k t p v)
  show ?case
  proof (cases "prefix k p")
    case True
    then show ?thesis
      using assms(3) 3(1) by blast
  next
    case False
    then have c: "clash (MExt k t) p"
      by (simp add: clash_def)
    have m: "mvalue (MExt k t) = []"
      by simp
    show ?thesis
    proof (cases "shared p k = 0")
      case True
      then show ?thesis
        using False 3(3) branch [OF c] assms(4,5) by (cases p) auto
    next
      case sh: False
      then show ?thesis
        using False 3(2) cleave [OF c] by simp
    qed
  qed
qed (use assms in blast)+

lemma minsert_not_empty: "minsert t p v \<noteq> MEmpty"
  by (induction t p v rule: minsert_induct) (auto simp: minsert_simps minsert_clash)

text \<open>Cleaving leaves something below.\<close>

lemma clash_bottom:
  assumes "clash t p" and "mwf t"
  shows "mwf (mbottom t (shared p (mkey t)))" "mbottom t (shared p (mkey t)) \<noteq> MEmpty"
    "nibble_path (mkey t)" "mlookup (MExt (take (shared p (mkey t)) (mkey t)) (mbottom t (shared p (mkey t)))) q = mlookup t q"
proof -
  from assms(1) consider k w where "t = MLeaf k w" "k \<noteq> p" | k u where "t = MExt k u" "\<not> prefix k p"
    by (auto simp: clash_def)
  then have "mwf (mbottom t (shared p (mkey t))) \<and> mbottom t (shared p (mkey t)) \<noteq> MEmpty \<and> nibble_path (mkey t)
    \<and> mlookup (MExt (take (shared p (mkey t)) (mkey t)) (mbottom t (shared p (mkey t)))) q = mlookup t q"
  proof cases
    case 1
    then show ?thesis
      using assms(2) shared_le [of p k] mlookup_cleave_leaf [of "shared p k" k w q] by (simp add: nibble_path_sub)
  next
    case 2
    then have "drop (shared p k) k \<noteq> []"
      using shared_take [of p k] take_is_prefix [of "shared p k" p] by auto
    then show ?thesis
      using 2 assms(2) shared_le [of p k] mlookup_cleave_ext [of "shared p k" k u q] by (simp add: nibble_path_sub)
  qed
  then show "mwf (mbottom t (shared p (mkey t)))" "mbottom t (shared p (mkey t)) \<noteq> MEmpty"
    "nibble_path (mkey t)" "mlookup (MExt (take (shared p (mkey t)) (mkey t)) (mbottom t (shared p (mkey t)))) q = mlookup t q"
    by blast+
qed

lemma minsert_wf:
  assumes "mwf t" and "nibble_path p"
  shows "mwf (minsert t p v)"
  using assms
proof (induction t p v rule: minsert_induct)
  case (Ext k t p v)
  then show ?case
    by (simp add: minsert_simps nibble_path_sub minsert_not_empty)
next
  case (Below ts w x q v)
  then have "mwf (minsert (ts ! unat x) q v)"
    using mwf_nth [OF Below(2)] nib_index by simp
  then show ?case
    using mwf_update [OF Below(2)] by (simp del: mwf.simps)
next
  case (Cleave t p v)
  then show ?case
    using clash_bottom [OF Cleave(1,4)] shared_le [of p "mkey t"]
    by (auto simp: minsert_clash nibble_path_sub minsert_not_empty)
next
  case (Branch t p v)
  then show ?case
    using mwf_children [OF Branch(4)] by (simp add: minsert_clash)
qed (simp_all add: minsert_simps)

lemma mlookup_minsert:
  assumes "mwf t" and "nibble_path p" and "nibble_path q"
  shows "mlookup (minsert t p v) q = (if q = p then v else mlookup t q)"
  using assms
proof (induction t p v arbitrary: q rule: minsert_induct)
  case (Ext k t p v)
  show ?case
  proof (cases "prefix k q")
    case True
    have "drop (length k) q = drop (length k) p \<longleftrightarrow> q = p"
      using True Ext(1) by (auto simp: prefix_def)
    then show ?thesis
      using Ext True by (simp add: minsert_simps nibble_path_sub)
  next
    case False
    then show ?thesis
      using Ext(1) by (auto simp: minsert_simps)
  qed
next
  case (Value ts w v)
  then show ?case
    by (cases q) simp_all
next
  case (Below ts w x p v)
  then have "mwf (ts ! unat x)" "nibble_path p" "nib x"
    using mwf_nth [OF Below(2)] nib_index by simp_all
  then show ?case
    using Below mlookup_update [of ts x "minsert (ts ! unat x) p v" w q] nib_index [of x]
    by (cases q) auto
next
  case (Cleave t p v)
  let ?n = "shared p (mkey t)"
  have t: "take ?n (mkey t) = take ?n p" "?n \<le> length p"
    using shared_take shared_le by auto
  have IH: "nibble_path r \<Longrightarrow> mlookup (minsert (mbottom t ?n) (drop ?n p) v) r
      = (if r = drop ?n p then v else mlookup (mbottom t ?n) r)" for r
    using Cleave clash_bottom [OF Cleave(1,4)] by (simp add: nibble_path_sub)
  have "mlookup (minsert t p v) q = (if q = p then v else mlookup (MExt (take ?n p) (mbottom t ?n)) q)"
  proof (cases "prefix (take ?n p) q")
    case True
    have "drop ?n q = drop ?n p \<longleftrightarrow> q = p"
      using True t by (metis append_take_drop_id prefix_take_iff)
    then show ?thesis
      using True Cleave(1,2,6) IH [of "drop ?n q"] t by (simp add: minsert_clash nibble_path_sub)
  next
    case False
    then show ?thesis
      using Cleave(1,2) t by (auto simp: minsert_clash take_is_prefix)
  qed
  then show ?case
    using clash_bottom(4) [OF Cleave(1,4)] t by simp
next
  case (Branch t p v)
  obtain k w u where "t = MLeaf k w \<or> t = MExt k u"
    using Branch(1) unfolding clash_def by blast
  then have "mlookup (MBranch (mchildren t) (mvalue t)) q = mlookup t q"
    using mlookup_branch Branch(4,6) by blast
  then show ?case
    using Branch mwf_children [OF Branch(4)] by (simp add: minsert_clash)
qed (simp_all add: minsert_simps)

end
