(* ===== verification/TrieRefine.thy ===== *)
theory TrieRefine
  imports TrieTree
begin

text \<open>
  The nodes that \<^verbatim>\<open>GenericTrieDB\<close> reads and writes are the encodings of the abstract trie: reading
  them gives the parts of the tree, and writing with the RLP stream gives the encoding.
\<close>

section \<open>Encoding of a tree\<close>

text \<open>A node that is referred to: in line when it is short, by its hash otherwise.\<close>

definition ref :: "(bytes \<Rightarrow> h256) \<Rightarrow> item \<Rightarrow> item" where
  "ref K i = (if length (enc i) < 32 then i else Str (K (enc i)))"

primrec item_of :: "(bytes \<Rightarrow> h256) \<Rightarrow> mpt \<Rightarrow> item" where
  "item_of K MEmpty = Str []"
| "item_of K (MLeaf k v) = Lst [Str (hp True k), Str v]"
| "item_of K (MExt k t) = Lst [Str (hp False k), ref K (item_of K t)]"
| "item_of K (MBranch ts v) = Lst (map (ref K) (map (item_of K) ts) @ [Str v])"

abbreviation node_of :: "(bytes \<Rightarrow> h256) \<Rightarrow> mpt \<Rightarrow> bytes" where
  "node_of K t \<equiv> enc (item_of K t)"

text \<open>Paths and values are short enough for the sizes to stay far below 2 to the 64.\<close>

primrec msmall :: "mpt \<Rightarrow> bool" where
  "msmall MEmpty \<longleftrightarrow> True"
| "msmall (MLeaf k v) \<longleftrightarrow> length k < 2 ^ 32 \<and> length v < 2 ^ 32"
| "msmall (MExt k t) \<longleftrightarrow> length k < 2 ^ 32 \<and> msmall t"
| "msmall (MBranch ts v) \<longleftrightarrow> list_all msmall ts \<and> length v < 2 ^ 32"

definition hash32 :: "(bytes \<Rightarrow> h256) \<Rightarrow> bool" where
  "hash32 K \<longleftrightarrow> (\<forall>b. length (K b) = 32)"

lemma length_header_le: "l < 2 ^ 64 \<Longrightarrow> length (header b l) \<le> 9"
  using fits_bytesRequired [of l] by (auto simp: length_header)

lemma length_encStr_le: "length bs < 2 ^ 64 \<Longrightarrow> length (encStr bs) \<le> length bs + 9"
  using length_header_le [of "length bs" "0x80"] by (simp add: encStr_def)

lemma length_pack_le: "length (pack xs) \<le> length xs"
  by (induction xs rule: pack.induct) simp_all

lemma length_hp_le: "length (hp leaf xs) \<le> length xs + 1"
  using length_pack_le [of xs] length_pack_le [of "tl xs"] by (auto simp: hp_def)

lemma length_ref_le: "hash32 K \<Longrightarrow> length (enc (ref K i)) \<le> 41"
  using length_encStr_le [of "K (enc i)"] by (simp add: ref_def hash32_def)

lemma concat_length_le: "(\<And>x. x \<in> set xs \<Longrightarrow> length x \<le> n) \<Longrightarrow> length (concat xs) \<le> n * length xs"
  by (induction xs) (fastforce simp: add_mono)+

lemma length_node_le:
  assumes "hash32 K" and "msmall t" and "mwf t"
  shows "length (node_of K t) < 2 ^ 40"
proof (cases t)
  case (MLeaf k v)
  then have "length (encStr (hp True k)) + length (encStr v) < 2 ^ 39"
    using assms(2) length_encStr_le [of "hp True k"] length_encStr_le [of v] length_hp_le [of True k] by simp
  then show ?thesis
    using MLeaf length_header_le [of "length (encStr (hp True k)) + length (encStr v)" "0xc0"] by simp
next
  case (MExt k u)
  then have "length (encStr (hp False k)) + length (enc (ref K (item_of K u))) < 2 ^ 39"
    using assms(2) length_encStr_le [of "hp False k"] length_hp_le [of False k] length_ref_le [OF assms(1), of "item_of K u"] by simp
  then show ?thesis
    using MExt length_header_le [of "length (encStr (hp False k)) + length (enc (ref K (item_of K u)))" "0xc0"] by simp
next
  case (MBranch ts v)
  let ?rs = "map enc (map (ref K) (map (item_of K) ts))"
  have "length (concat ?rs) \<le> 41 * length ?rs"
    using length_ref_le [OF assms(1)] by (intro concat_length_le) auto
  then have "length (concat ?rs) + length (encStr v) < 2 ^ 39"
    using MBranch assms(2,3) length_encStr_le [of v] by simp
  then show ?thesis
    using MBranch length_header_le [of "length (concat ?rs) + length (encStr v)" "0xc0"] by (simp add: comp_def)
qed (simp add: encStr_def header_def)

lemma fits_node:
  assumes "hash32 K" and "msmall t" and "mwf t"
  shows "fits (node_of K t)"
  using length_node_le [OF assms] by (simp add: fits_def)

section \<open>Reading nodes\<close>

lemma ofR_simps [simp]: "ofR (Inr x) = Inr x" "ofR (Inl e) = Inl (TE_RLP e)"
  by (simp_all add: ofR_def)

lemma ofD_simps [simp]: "ofD (Inr x) = Inr x" "ofD (Inl e) = Inl (TE_DB e)"
  by (simp_all add: ofD_def)

lemma rlp_at_enc:
  assumes "fits (enc (Lst xs))" and "i < length xs" and "i < 2 ^ 64 - 1"
  shows "rlp_at (enc (Lst xs)) i = Inr (enc (xs ! i))"
proof -
  have "cache_ok xs (RLP_object (enc (Lst xs)))"
    by (simp add: cache_ok_def RLP_object_def)
  then obtain r where "RLP_index (RLP_object (enc (Lst xs))) i = Inr (enc (xs ! i), r)"
    using RLP_index_cache_ok [OF assms(1)] assms(2,3) by fastforce
  then show ?thesis
    by (simp add: rlp_at_def)
qed

lemma isEmpty_header:
  assumes "base = 0x80 \<or> base = 0xc0" and "l < 2 ^ 64"
  shows "isEmpty (header base l @ rest) \<longleftrightarrow> l = 0"
proof -
  let ?n = "base + (if l < 56 then l else 55 + bytesRequired l)"
  have br: "bytesRequired l \<le> 8" "\<not> l < 56 \<Longrightarrow> 0 < bytesRequired l"
    using fits_bytesRequired [OF assms(2)] header_base_cases [of l] by auto
  then have "?n < 2 ^ LENGTH(8)"
    using assms(1) by auto
  then have "unat ((header base l @ rest) ! 0) = ?n"
    using unat_of_nat_small [of ?n, where ?'a = 8] by (simp add: header_hd del: of_nat_add)
  then show ?thesis
    using assms(1) br by (auto simp: isEmpty_def isNull_def)
qed

lemma isEmpty_encStr: "fits (encStr bs) \<Longrightarrow> isEmpty (encStr bs) \<longleftrightarrow> bs = []"
proof (cases bs rule: encStr_cases)
  case single
  then show ?thesis
    by (cases bs) (auto simp: isEmpty_def isNull_def)
next
  case hdr
  assume "fits (encStr bs)"
  then have "length bs < 2 ^ 64"
    using hdr(1) by (simp add: fits_def)
  then show ?thesis
    using isEmpty_header [of "0x80" "length bs" bs] by (simp add: hdr(1))
qed

lemma isEmpty_encLst: "fits (enc (Lst xs)) \<Longrightarrow> isEmpty (enc (Lst xs)) \<longleftrightarrow> xs = []"
  using isEmpty_header [of "0xc0" "length (concat (map enc xs))" "concat (map enc xs)"]
  by (cases xs) (simp_all add: fits_def)

lemma RLP_of_enc: "fits (enc x) \<Longrightarrow> RLP_of (enc x) = Inr (enc x)"
  using RLP_ctor_enc [of x] by (simp add: RLP_of_def)

lemma toString_encStr: "fits (encStr bs) \<Longrightarrow> toString (encStr bs) = Inr bs"
  using payload_encStr [of bs "[]"] isData_encStr [of bs "[]"]
  by (simp add: toString_def toBytesConstRef_def)

lemma toHash256_encStr: "fits (encStr h) \<Longrightarrow> length h = 32 \<Longrightarrow> toHash256 (encStr h) = Inr h"
  using toHash_encStr [of h 32 "[]"] by (simp add: toHash256_def)

text \<open>A pair.\<close>

lemma read_pair:
  assumes "d = enc (Lst [Str (hp leaf k), x])" and "fits d" and "nibble_path k"
  shows "\<not> isEmpty d" "\<not> isNull d" "isList d" "itemCount d = Inr 2" "keyOf d = Inr (keyOf_hpe (hp leaf k))" "isLeaf d = Inr leaf"
    "rlp_at d 0 = Inr (encStr (hp leaf k))" "rlp_at d 1 = Inr (enc x)"
    "nibs (keyOf_hpe (hp leaf k)) = k" "ns_ok (keyOf_hpe (hp leaf k))"
proof -
  have f: "fits (enc (Lst [Str (hp leaf k), x]))"
    using assms(1,2) by simp
  have fh: "fits (encStr (hp leaf k))"
    using fits_member [OF f, of "Str (hp leaf k)"] by simp
  show "\<not> isEmpty d" "\<not> isNull d" "isList d" "itemCount d = Inr 2"
    using isEmpty_encLst [OF f] isList_encLst [OF f, of "[]"] items_enc [OF f, of "[]"] enc_not_Nil [of "Lst [Str (hp leaf k), x]"]
    unfolding assms(1) itemCount_def by (simp_all add: isNull_def numeral_2_eq_2)
  show at: "rlp_at d 0 = Inr (encStr (hp leaf k))" "rlp_at d 1 = Inr (enc x)"
    using rlp_at_enc [OF f] unfolding assms(1) by simp_all
  have p: "payload (encStr (hp leaf k)) = Inr (hp leaf k)"
    using payload_encStr [OF fh, of "[]"] by simp
  then show "keyOf d = Inr (keyOf_hpe (hp leaf k))"
    by (simp add: keyOf_def at)
  have h: "hp leaf k \<noteq> [] \<and> (unat (hp leaf k ! 0) AND 0x20 = 0 \<longleftrightarrow> \<not> leaf)"
    using hp_leaf_flag assms(3) unfolding nibble_path_def by blast
  then show "isLeaf d = Inr leaf"
    by (simp add: isLeaf_def at p del: neq0_conv)
  show "nibs (keyOf_hpe (hp leaf k)) = k" "ns_ok (keyOf_hpe (hp leaf k))"
    using keyOf_hp assms(3) unfolding nibble_path_def by blast+
qed

text \<open>A branch.\<close>

lemma read_branch:
  assumes "d = enc (Lst (rs @ [Str v]))" and "fits d" and "length rs = 16"
  shows "\<not> isEmpty d" "\<not> isNull d" "isList d" "itemCount d = Inr 17" "i < 16 \<Longrightarrow> rlp_at d i = Inr (enc (rs ! i))"
    "rlp_at d 16 = Inr (encStr v)"
proof -
  have f: "fits (enc (Lst (rs @ [Str v])))"
    using assms(1,2) by simp
  show "\<not> isEmpty d" "\<not> isNull d" "isList d" "itemCount d = Inr 17"
    using isEmpty_encLst [OF f] isList_encLst [OF f, of "[]"] items_enc [OF f, of "[]"] enc_not_Nil [of "Lst (rs @ [Str v])"] assms(3)
    unfolding assms(1) itemCount_def by (simp_all add: isNull_def)
  show "i < 16 \<Longrightarrow> rlp_at d i = Inr (enc (rs ! i))" "rlp_at d 16 = Inr (encStr v)"
    using rlp_at_enc [OF f] assms(3) unfolding assms(1) by (simp_all add: nth_append)
qed

section \<open>Writing nodes\<close>

text \<open>A stream that has received \<open>o\<close> and waits for \<open>n\<close> more items of its list.\<close>

definition strm :: "nat \<Rightarrow> bytes \<Rightarrow> RLPStream" where
  "strm n bs = (if n = 0 then \<lparr>m_out = header 0xc0 (length bs) @ bs, m_listStack = []\<rparr>
    else \<lparr>m_out = bs, m_listStack = [(n, 0)]\<rparr>)"

lemma new_stream_strm: "n \<noteq> 0 \<Longrightarrow> new_stream n = Inr (strm n [])"
  by (simp add: new_stream_def appendList_def RLPStream_empty_def strm_def)

lemma noteAppended_strm:
  assumes "length bs < 2 ^ 64"
  shows "noteAppended_loop bs [(Suc n, 0)] 1 = Inr (strm n bs)"
  using noteAppended_close [OF assms, of "[]" "[]"] by (cases n) (simp_all add: strm_def)

lemma put_rlp_strm: "length (bs @ x) < 2 ^ 64 \<Longrightarrow> put_rlp (strm (Suc n) bs) x = Inr (strm n (bs @ x))"
  using noteAppended_strm [of "bs @ x" n] by (simp add: put_rlp_def appendRaw_def noteAppended_def strm_def)

lemma put_str_strm:
  assumes "length (bs @ encStr x) < 2 ^ 64"
  shows "put_str (strm (Suc n) bs) x = Inr (strm n (bs @ encStr x))"
proof -
  have "length x < 2 ^ 64"
    using assms by (cases x rule: encStr_cases) simp_all
  then show ?thesis
    using noteAppended_strm [OF assms, of n]
    by (simp add: put_str_def append_bytes_eq noteAppended_def strm_def)
qed

lemma out_strm: "out (strm 0 (concat (map enc xs))) = Inr (enc (Lst xs))"
  by (simp add: out_def strm_def stream_out_def)

lemma rlpLists:
  assumes "length (encStr a) + length b < 2 ^ 64"
  shows "b = encStr c \<Longrightarrow> rlpList_str_str a c = Inr (enc (Lst [Str a, Str c]))"
    and "b = encStr c \<Longrightarrow> rlpList_rlp_str (encStr a) c = Inr (enc (Lst [Str a, Str c]))"
    and "b = enc x \<Longrightarrow> rlpList_str_rlp a b = Inr (enc (Lst [Str a, x]))"
  using assms out_strm [of "[Str a, Str c]"] out_strm [of "[Str a, x]"]
  by (simp_all add: rlpList_str_str_def rlpList_rlp_str_def rlpList_str_rlp_def new_stream_strm put_str_strm put_rlp_strm
    numeral_2_eq_2)

lemma copy_items_strm:
  assumes "fits (enc (Lst xs))" and "length xs \<le> 17" and "i + n \<le> length xs"
    and "length (bs @ concat (map enc (drop i xs))) < 2 ^ 64"
  shows "copy_items (enc (Lst xs)) i n (strm (n + m) bs) = Inr (strm m (bs @ concat (map enc (take n (drop i xs)))))"
  using assms(3,4)
proof (induction n arbitrary: i bs)
  case (Suc n)
  then have d: "drop i xs = xs ! i # drop (i + 1) xs"
    by (simp add: Cons_nth_drop_Suc)
  have "rlp_at (enc (Lst xs)) i = Inr (enc (xs ! i))"
    using assms(1,2) Suc.prems(1) by (intro rlp_at_enc) simp_all
  moreover have "put_rlp (strm (Suc n + m) bs) (enc (xs ! i)) = Inr (strm (n + m) (bs @ enc (xs ! i)))"
    using Suc.prems(2) by (simp add: d put_rlp_strm)
  moreover have "copy_items (enc (Lst xs)) (i + 1) n (strm (n + m) (bs @ enc (xs ! i)))
      = Inr (strm m ((bs @ enc (xs ! i)) @ concat (map enc (take n (drop (i + 1) xs)))))"
    using Suc.prems by (intro Suc.IH) (simp_all add: d)
  ultimately show ?case
    by (simp add: d)
qed simp

section \<open>The store\<close>

text \<open>
  The nodes of the tree below the root that are long enough to be stored are in the store.
\<close>

definition there :: "(bytes \<Rightarrow> h256) \<Rightarrow> (h256 \<Rightarrow> db_error + bytes) \<Rightarrow> mpt \<Rightarrow> bool" where
  "there K L t \<longleftrightarrow> (32 \<le> length (node_of K t) \<longrightarrow> L (K (node_of K t)) = Inr (node_of K t))"

primrec present :: "(bytes \<Rightarrow> h256) \<Rightarrow> (h256 \<Rightarrow> db_error + bytes) \<Rightarrow> mpt \<Rightarrow> bool" where
  "present K L MEmpty \<longleftrightarrow> True"
| "present K L (MLeaf k v) \<longleftrightarrow> True"
| "present K L (MExt k t) \<longleftrightarrow> there K L t \<and> present K L t"
| "present K L (MBranch ts v) \<longleftrightarrow> list_all (there K L) ts \<and> list_all (present K L) ts"

text \<open>A store whose entries are the nodes \<open>S\<close> under their hashes, and later stores.\<close>

definition addressed :: "(bytes \<Rightarrow> h256) \<Rightarrow> bytes set \<Rightarrow> (h256 \<Rightarrow> db_error + bytes) \<Rightarrow> bool" where
  "addressed K S L \<longleftrightarrow> (\<forall>h b. L h = Inr b \<longrightarrow> b \<noteq> [] \<longrightarrow> b \<in> S \<and> K b = h)"

definition later :: "(h256 \<Rightarrow> db_error + bytes) \<Rightarrow> (h256 \<Rightarrow> db_error + bytes) \<Rightarrow> bool" where
  "later L L' \<longleftrightarrow> (\<forall>h b. L h = Inr b \<longrightarrow> b \<noteq> [] \<longrightarrow> L' h = Inr b)"

lemma later_refl: "later L L"
  by (simp add: later_def)

lemma later_trans: "later L L' \<Longrightarrow> later L' L'' \<Longrightarrow> later L L''"
  by (simp add: later_def)

lemma there_later: "later L L' \<Longrightarrow> there K L t \<Longrightarrow> there K L' t"
  by (auto simp: there_def later_def)

lemma present_later: "later L L' \<Longrightarrow> present K L t \<Longrightarrow> present K L' t"
proof (induction t)
  case (MBranch ts v)
  then show ?case
    by (auto simp: list_all_iff there_later)
qed (auto simp: there_later)

text \<open>Outcomes: an error of the database, where the store can have them, or a good result.\<close>

definition runs :: "bool \<Rightarrow> trie_error + 'a \<Rightarrow> ('a \<Rightarrow> bool) \<Rightarrow> bool" where
  "runs faulty r P \<longleftrightarrow> (faulty \<and> (\<exists>e. r = Inl (TE_DB e))) \<or> (\<exists>x. r = Inr x \<and> P x)"

lemma runs_Inr [simp]: "runs faulty (Inr x) P \<longleftrightarrow> P x"
  by (simp add: runs_def)

lemma runs_bind:
  assumes "runs faulty m P" and "\<And>x. P x \<Longrightarrow> runs faulty (f x) Q"
  shows "runs faulty (bindE m f) Q"
proof (cases m)
  case (Inr x)
  then show ?thesis
    using assms by (simp add: runs_def)
qed (use assms(1) in \<open>simp add: runs_def\<close>)

lemma runs_mono: "runs faulty m P \<Longrightarrow> (\<And>x. P x \<Longrightarrow> Q x) \<Longrightarrow> runs faulty m Q"
  by (auto simp: runs_def)

locale trie_store = node_store "nd_lookup D" "nd_insert D" "nd_kill D" invar
  for D :: "'s node_db" and invar :: "'s \<Rightarrow> bool" +
  fixes faulty :: bool
  assumes kill_fails: "invar s \<Longrightarrow> nd_kill D s h = Inl e \<Longrightarrow> faulty"
begin

lemma insert_later:
  assumes "invar s" and "addressed K S (nd_lookup D s)" and "inj_on K S" and "b \<in> S" and "b \<noteq> []"
  shows "later (nd_lookup D s) (nd_lookup D (nd_insert D s (K b) b))"
    "addressed K S (nd_lookup D (nd_insert D s (K b) b))"
    "nd_lookup D (nd_insert D s (K b) b) (K b) = Inr b"
proof -
  show "nd_lookup D (nd_insert D s (K b) b) (K b) = Inr b"
    using assms(1,5) by (simp add: lookup_insert)
  have "h = K b \<Longrightarrow> nd_lookup D s h = Inr c \<Longrightarrow> c \<noteq> [] \<Longrightarrow> c = b" for h c
    using assms(2-4) by (metis addressed_def inj_onD)
  then show "later (nd_lookup D s) (nd_lookup D (nd_insert D s (K b) b))"
    using assms(1,5) by (auto simp: later_def lookup_insert)
  show "addressed K S (nd_lookup D (nd_insert D s (K b) b))"
    using assms by (auto simp: addressed_def lookup_insert split: if_splits)
qed

end

text \<open>A good state: content-addressed, with the nodes of \<open>t\<close> and everything that was in \<open>s\<close>.\<close>

definition store_ok :: "'s node_db \<Rightarrow> ('s \<Rightarrow> bool) \<Rightarrow> (bytes \<Rightarrow> h256) \<Rightarrow> bytes set \<Rightarrow> 's \<Rightarrow> bool" where
  "store_ok D invar K S s \<longleftrightarrow> invar s \<and> addressed K S (nd_lookup D s)"

section \<open>Children\<close>

lemma item_of_list: "t \<noteq> MEmpty \<Longrightarrow> \<exists>xs. item_of K t = Lst xs \<and> xs \<noteq> []"
  by (cases t) simp_all

text \<open>What the code finds at a child's position.\<close>

lemma read_child:
  assumes "hash32 K" and "mwf t" and "msmall t" and "x = enc (ref K (item_of K t))"
  shows "isEmpty x \<longleftrightarrow> t = MEmpty" "isList x \<longleftrightarrow> t \<noteq> MEmpty \<and> length (node_of K t) < 32"
    "fits x" "32 \<le> length (node_of K t) \<Longrightarrow> toHash256 x = Inr (K (node_of K t))"
    "length (node_of K t) < 32 \<Longrightarrow> x = node_of K t"
proof -
  have f: "fits (node_of K t)" "fits x"
    using fits_node [OF assms(1,3,2)] length_ref_le [OF assms(1), of "item_of K t"] by (simp_all add: assms(4) fits_def)
  show "fits x"
    by (rule f)
  show "length (node_of K t) < 32 \<Longrightarrow> x = node_of K t"
    by (simp add: assms(4) ref_def)
  have long: "isEmpty x = False \<and> isList x = False \<and> toHash256 x = Inr (K (node_of K t))" if "32 \<le> length (node_of K t)"
  proof -
    have x: "x = encStr (K (node_of K t))" "length (K (node_of K t)) = 32"
      using that assms(1) by (simp_all add: assms(4) ref_def hash32_def)
    then show ?thesis
      using f(2) isEmpty_encStr [of "K (node_of K t)"] isData_encStr [of "K (node_of K t)" "[]"] toHash256_encStr [of "K (node_of K t)"]
      by auto
  qed
  then show "32 \<le> length (node_of K t) \<Longrightarrow> toHash256 x = Inr (K (node_of K t))"
    by simp
  have empty: "node_of K MEmpty = [0x80]"
    by (simp add: encStr_def header_def)
  show "isEmpty x \<longleftrightarrow> t = MEmpty" "isList x \<longleftrightarrow> t \<noteq> MEmpty \<and> length (node_of K t) < 32"
  proof -
    have "(isEmpty x \<longleftrightarrow> t = MEmpty) \<and> (isList x \<longleftrightarrow> t \<noteq> MEmpty \<and> length (node_of K t) < 32)"
    proof (cases "t = MEmpty")
      case True
      then show ?thesis
        by (simp add: assms(4) ref_def encStr_def header_def isEmpty_def isNull_def isList_def)
    next
      case False
      then obtain xs where "item_of K t = Lst xs" "xs \<noteq> []"
        using item_of_list by blast
      then show ?thesis
        using False long f isEmpty_encLst [of xs] isList_encLst [of xs "[]"]
        by (cases "length (node_of K t) < 32") (auto simp: assms(4) ref_def)
    qed
    then show "isEmpty x \<longleftrightarrow> t = MEmpty" "isList x \<longleftrightarrow> t \<noteq> MEmpty \<and> length (node_of K t) < 32"
      by blast+
  qed
qed

lemma deref_child:
  assumes "hash32 K" and "mwf t" and "msmall t" and "t \<noteq> MEmpty" and "there K (nd_lookup D s) t"
    and "x = enc (ref K (item_of K t))"
  shows "bindE (deref D s x) (\<lambda>b. bindE (if isList x then Inr b else RLP_of b) f) = f (node_of K t)"
  using assms read_child [OF assms(1-3,6)] RLP_of_enc [OF fits_node [OF assms(1,3,2)]]
  by (cases "length (node_of K t) < 32") (simp_all add: deref_def node_def there_def)

section \<open>Lookup\<close>

lemma at_pair:
  assumes "d = enc (Lst [Str (hp leaf k), x])" and "fits d" and "nibble_path k" and "ns_ok key"
  shows "atAux D (Suc fuel) s d key =
    (if leaf then if nibs key = k then toString (enc x) else Inr []
     else if prefix k (nibs key)
     then bindE (deref D s (enc x)) (\<lambda>b. bindE (if isList (enc x) then Inr b else RLP_of b) (\<lambda>r.
       atAux D fuel s r (ns_mid key (length k))))
     else Inr [])"
  using read_pair [OF assms(1-3)] assms(4)
  by (auto simp: ns_equal_eq ns_contains_eq ns_size_eq)

declare atAux.simps [simp del]

lemma atAux_correct:
  assumes "hash32 K" and "mwf t" and "msmall t" and "present K (nd_lookup D s) t" and "ns_ok key"
    and "length (nibs key) < fuel"
  shows "atAux D fuel s (node_of K t) key = Inr (mlookup t (nibs key))"
  using assms(2-)
proof (induction t arbitrary: key fuel)
  case MEmpty
  then obtain f where "fuel = Suc f"
    by (cases fuel) auto
  then show ?case
    by (simp add: atAux.simps isEmpty_def isNull_def encStr_def header_def)
next
  case (MLeaf k v)
  obtain f where f: "fuel = Suc f"
    using MLeaf by (cases fuel) auto
  have d: "fits (node_of K (MLeaf k v))"
    using MLeaf assms(1) by (intro fits_node) simp_all
  then have "fits (encStr v)"
    using fits_member [of "[Str (hp True k), Str v]" "Str v"] by simp
  then show ?case
    using at_pair [of "node_of K (MLeaf k v)" True k "Str v" key D f s] d MLeaf toString_encStr [of v]
    by (simp add: f)
next
  case (MExt k t)
  obtain f where f: "fuel = Suc f"
    using MExt by (cases fuel) auto
  have d: "fits (node_of K (MExt k t))"
    using MExt.prems assms(1) by (intro fits_node) simp_all
  let ?x = "enc (ref K (item_of K t))"
  have "atAux D fuel s (node_of K (MExt k t)) key = (if prefix k (nibs key) then atAux D f s (node_of K t) (ns_mid key (length k)) else Inr [])"
    using at_pair [of "node_of K (MExt k t)" False k "ref K (item_of K t)" key D f s] d MExt.prems
    by (simp add: f deref_child [OF assms(1) _ _ _ _ refl])
  moreover have "prefix k (nibs key) \<Longrightarrow> length (drop (length k) (nibs key)) < f"
    using MExt.prems f prefix_length_le [of k "nibs key"] by (cases k) auto
  then have "prefix k (nibs key) \<Longrightarrow> atAux D f s (node_of K t) (ns_mid key (length k)) = Inr (mlookup t (drop (length k) (nibs key)))"
    using MExt.prems MExt.IH [of "ns_mid key (length k)" f] prefix_length_le [of k "nibs key"]
    by (simp add: nibs_mid ns_ok_mid)
  ultimately show ?case
    by simp
next
  case (MBranch ts v)
  obtain f where f: "fuel = Suc f"
    using MBranch by (cases fuel) auto
  let ?d = "node_of K (MBranch ts v)"
  have d: "fits ?d"
    using MBranch.prems assms(1) by (intro fits_node) simp_all
  have "?d = enc (Lst (map (ref K) (map (item_of K) ts) @ [Str v]))" "length (map (ref K) (map (item_of K) ts)) = 16"
    using MBranch.prems(1) by simp_all
  note r = read_branch [OF this(1) d this(2)]
  show ?case
  proof (cases "nibs key")
    case Nil
    have "fits (encStr v)"
      using d fits_member [of "map (ref K) (map (item_of K) ts) @ [Str v]" "Str v"] by simp
    then show ?thesis
      using r Nil toString_encStr [of v] by (simp add: f atAux.simps(2) ns_size_eq)
  next
    case (Cons x q)
    have x: "nib x" "unat x < 16"
      using nib_nibs [of x key] Cons nib_index by simp_all
    let ?t = "ts ! unat x" and ?y = "enc (ref K (item_of K (ts ! unat x)))"
    have t: "mwf ?t" "msmall ?t" "there K (nd_lookup D s) ?t" "present K (nd_lookup D s) ?t"
      using MBranch.prems x by (simp_all add: list_all_length)
    have a: "ns_at key 0 = Inr x" "ns_size key \<noteq> 0" "nibs (ns_mid key 1) = q" "ns_ok (ns_mid key 1)"
      using MBranch.prems Cons ns_at_eq [of key 0] by (simp_all add: ns_size_eq nibs_mid ns_ok_mid)
    have y: "rlp_at ?d (unat x) = Inr ?y"
      using r(5) [OF x(2)] MBranch.prems(1) x by simp
    show ?thesis
    proof (cases "?t = MEmpty")
      case True
      then show ?thesis
        using r a y read_child(1) [OF assms(1) t(1,2) refl] x Cons MBranch.prems(1) by (simp add: f atAux.simps(2))
    next
      case False
      have "atAux D f s (node_of K ?t) (ns_mid key 1) = Inr (mlookup ?t q)"
        using MBranch.IH [of ?t "ns_mid key 1" f] t a MBranch.prems x Cons f by simp
      then show ?thesis
        using r a y read_child(1) [OF assms(1) t(1,2) refl] x Cons MBranch.prems(1) False
        by (simp add: f atAux.simps(2) deref_child [OF assms(1) t(1,2) False t(3) refl])
    qed
  qed
qed

end
