(* ===== verification/TrieInsert.thy ===== *)
theory TrieInsert
  imports TrieRefine
begin

text \<open>
  \<^verbatim>\<open>GenericTrieDB::insert\<close> implements insertion into the abstract trie: every step of \<^verbatim>\<open>mergeAt\<close>
  returns the encoding of the new tree and leaves its nodes in the store, as long as the hash
  function has no collision on the nodes that are written.
\<close>

declare mergeAt.simps [simp del]

section \<open>The nodes that an insertion writes\<close>

text \<open>All subtrees; the pairs that a cleave leaves below.\<close>

primrec msub :: "mpt \<Rightarrow> mpt list" where
  "msub MEmpty = [MEmpty]"
| "msub (MLeaf k v) = [MLeaf k v]"
| "msub (MExt k t) = MExt k t # msub t"
| "msub (MBranch ts v) = MBranch ts v # concat (map msub ts)"

fun mbottoms :: "mpt \<Rightarrow> bytes \<Rightarrow> mpt list" where
  "mbottoms MEmpty p = []"
| "mbottoms (MLeaf k w) p = (if k \<noteq> p \<and> shared p k \<noteq> 0 then [MLeaf (drop (shared p k) k) w] else [])"
| "mbottoms (MExt k t) p =
    (if prefix k p then mbottoms t (drop (length k) p)
     else if shared p k \<noteq> 0 then [MExt (drop (shared p k) k) t] else [])"
| "mbottoms (MBranch ts w) [] = []"
| "mbottoms (MBranch ts w) (x # q) = (if unat x < length ts then mbottoms (ts ! unat x) q else [])"

definition writes :: "(bytes \<Rightarrow> h256) \<Rightarrow> mpt \<Rightarrow> bytes \<Rightarrow> bytes \<Rightarrow> bytes list" where
  "writes K t p v = map (node_of K) (msub (minsert t p v) @ mbottoms t p)"

text \<open>Calls of \<^verbatim>\<open>mergeAt\<close> that are enough: at most two for each nibble of the path.\<close>

definition mfuel :: "mpt \<Rightarrow> bytes \<Rightarrow> nat" where
  "mfuel t p = 2 * length p + (case t of MBranch _ _ \<Rightarrow> 1 | MExt k _ \<Rightarrow> if prefix k p then 1 else 2 | _ \<Rightarrow> 2)"

lemma mfuel_simps: "mfuel (MBranch ts v) p = 2 * length p + 1" "mfuel t p \<le> 2 * length p + 2" "clash t p \<Longrightarrow> mfuel t p = 2 * length p + 2"
  by (auto simp: mfuel_def clash_def split: mpt.splits)

lemma msub_self: "t \<in> set (msub t)"
  by (cases t) simp_all

lemma shared_rest: "shared (drop (shared p k) p) (drop (shared p k) k) = 0"
  unfolding shared_def
proof (induction p k rule: longest_common_prefix.induct)
qed simp_all

lemma clash_cases:
  assumes "clash t p"
  obtains k w where "t = MLeaf k w" "k \<noteq> p" | k u where "t = MExt k u" "\<not> prefix k p"
  using assms by (auto simp: clash_def)

lemma mbottoms_clash:
  assumes "clash t p"
  shows "mbottoms t p = (if shared p (mkey t) \<noteq> 0 then [mbottom t (shared p (mkey t))] else [])"
    "mbottoms (mbottom t (shared p (mkey t))) (drop (shared p (mkey t)) p) = []"
proof -
  have e: "prefix (drop (shared p k) k) (drop (shared p k) p) \<Longrightarrow> prefix k p" for k
    using shared_take [of p k] by (metis append_take_drop_id same_prefix_prefix)
  show "mbottoms t p = (if shared p (mkey t) \<noteq> 0 then [mbottom t (shared p (mkey t))] else [])"
    using assms by (cases rule: clash_cases) simp_all
  show "mbottoms (mbottom t (shared p (mkey t))) (drop (shared p (mkey t)) p) = []"
    using assms e by (cases rule: clash_cases) (auto simp: shared_rest)
qed

lemma clash_slot:
  assumes "clash t (x # q)" and "mwf t" and "shared (x # q) (mkey t) = 0" and "nib x"
  shows "mchildren t ! unat x = MEmpty"
  using assms nib_index [of x] by (cases t rule: mchildren.cases) (auto simp: shared_0 clash_def nth_list_update nib_index_eq)

lemma clash_children:
  assumes "clash t p" and "mwf t" and "shared p (mkey t) = 0" and "nibble_path p" and "c \<in> set (mchildren t)" and "c \<noteq> MEmpty"
  shows "c \<in> set (msub (minsert t p v))"
proof -
  have l: "length (mchildren t) = 16"
    by (rule mwf_children(2) [OF assms(2)])
  obtain i where i: "i < 16" "c = mchildren t ! i"
    using assms(5) l by (auto simp: in_set_conv_nth)
  show ?thesis
  proof (cases p)
    case Nil
    then show ?thesis
      using assms(1,3,5) msub_self [of c] by (auto simp: minsert_clash)
  next
    case (Cons x q)
    then have "i \<noteq> unat x"
      using clash_slot [of t x q] assms i by auto
    then have "c \<in> set ((mchildren t)[unat x := minsert (mchildren t ! unat x) q v])"
      using i l by (metis length_list_update nth_list_update_neq nth_mem)
    then show ?thesis
      using assms(1,3) msub_self [of c] Cons by (auto simp: minsert_clash)
  qed
qed

lemma clash_small:
  assumes "clash t p" and "msmall t" and "mwf t"
  shows "msmall (mbottom t n)" "msmall (MBranch (mchildren t) (mvalue t))" "length (mkey t) < 2 ^ 32"
proof -
  have "list_all msmall (replicate 16 MEmpty)"
    by (simp add: list_all_iff)
  then show "msmall (MBranch (mchildren t) (mvalue t))"
    using assms list_all_update [where P = msmall and xs = "replicate 16 MEmpty"]
    by (cases t rule: mchildren.cases) (auto simp: clash_def)
qed (use assms in \<open>auto simp: clash_def\<close>)

lemma minsert_small:
  assumes "mwf t" and "msmall t" and "nibble_path p" and "length p < 2 ^ 32" and "length v < 2 ^ 32"
  shows "msmall (minsert t p v)"
  using assms
proof (induction t p v rule: minsert_induct)
  case (Below ts w x q v)
  then have "mwf (ts ! unat x)" "msmall (ts ! unat x)"
    using nib_index [of x] by (simp_all add: list_all_length)
  then show ?case
    using Below by (simp add: list_all_update)
next
  case (Cleave t p v)
  then show ?case
    using clash_bottom [OF Cleave(1,4)] clash_small [OF Cleave(1,5,4)] by (simp add: minsert_clash nibble_path_sub)
next
  case (Branch t p v)
  then show ?case
    using mwf_children [OF Branch(4)] clash_small [OF Branch(1,5,4)] by (simp add: minsert_clash)
qed (simp_all add: minsert_simps nibble_path_sub)

section \<open>Steps on the store\<close>

definition kept :: "'s node_db \<Rightarrow> ('s \<Rightarrow> bool) \<Rightarrow> (bytes \<Rightarrow> h256) \<Rightarrow> bytes set \<Rightarrow> 's \<Rightarrow> 's \<Rightarrow> bool" where
  "kept D invar K S s s' \<longleftrightarrow> store_ok D invar K S s' \<and> later (nd_lookup D s) (nd_lookup D s')"

lemma kept_refl: "store_ok D invar K S s \<Longrightarrow> kept D invar K S s s"
  by (simp add: kept_def later_refl)

lemma kept_trans: "kept D invar K S s s' \<Longrightarrow> kept D invar K S s' s'' \<Longrightarrow> kept D invar K S s s''"
  by (auto simp: kept_def intro: later_trans)

lemma kept_ok: "kept D invar K S s s' \<Longrightarrow> store_ok D invar K S s'"
  by (simp add: kept_def)

lemma kept_present: "kept D invar K S s s' \<Longrightarrow> present K (nd_lookup D s) t \<Longrightarrow> present K (nd_lookup D s') t"
  by (auto simp: kept_def intro: present_later)

lemma kept_there: "kept D invar K S s s' \<Longrightarrow> there K (nd_lookup D s) t \<Longrightarrow> there K (nd_lookup D s') t"
  by (auto simp: kept_def intro: there_later)

text \<open>What is promised of a hash function: 32 bytes, and no collision on the nodes of \<open>S\<close>.\<close>

definition hash_ok :: "(bytes \<Rightarrow> h256) \<Rightarrow> bytes set \<Rightarrow> bool" where
  "hash_ok K S \<longleftrightarrow> hash32 K \<and> inj_on K S"

lemma hash_okD: "hash_ok K S \<Longrightarrow> hash32 K" "hash_ok K S \<Longrightarrow> inj_on K S"
  by (simp_all add: hash_ok_def)

lemma append_hash_put: "ofR (append_hash st h False False) = put_str st h"
  by (simp add: append_hash_def put_str_def)

text \<open>The children of the new branch.\<close>

definition only_child :: "nat \<Rightarrow> mpt \<Rightarrow> mpt list" where
  "only_child i t = (replicate 16 MEmpty)[i := t]"

lemma put_null: "length bs < 2 ^ 40 \<Longrightarrow> put_str (strm (Suc n) bs) [] = Inr (strm n (bs @ [0x80]))"
  using put_str_strm [of bs "[]" n] by (simp add: encStr_def header_def)

lemma ref_empty: "ref K (item_of K MEmpty) = Str []" "encStr [] = [0x80]"
  by (simp_all add: ref_def encStr_def header_def)

lemma branch_loop_0: "branch_loop K D orig k leaf b j 0 = Inr"
  by (rule ext) simp

lemma branch_loop_Suc: "branch_loop K D orig k leaf b i (Suc n) sts
    = bindE (branch_loop K D orig k leaf b i 1 sts) (branch_loop K D orig k leaf b (i + 1) n)"
  by (cases sts) (simp add: branch_loop_0)

lemma put_nulls_strm:
  assumes "length bs + n < 2 ^ 40"
  shows "put_nulls n (strm (n + m) bs) = Inr (strm m (bs @ concat (map enc (replicate n (Str [])))))"
  using assms
proof (induction n arbitrary: bs)
  case (Suc n)
  then show ?case
    using Suc.IH [of "bs @ [0x80]"] put_null [of bs "n + m"] by (simp add: ref_empty)
qed simp

lemma present_no_children: "present K L (MBranch (replicate 16 MEmpty) w)"
  by (simp add: list_all_iff there_def ref_empty)

lemma present_only_child: "there K L c \<Longrightarrow> present K L c \<Longrightarrow> present K L (MBranch (only_child i c) w)"
  using present_no_children [of K L w] by (simp add: only_child_def list_all_update)

lemma merge_loop_add: "merge_loop K D rc orig b i (n + m) sts = bindE (merge_loop K D rc orig b i n sts) (merge_loop K D rc orig b (i + n) m)"
proof (induction n arbitrary: i sts)
  case (Suc n)
  then show ?case
    by (cases sts) (simp add: bindE_assoc Suc.IH [abs_def])
qed simp

lemma merge_loop_copy:
  assumes "\<And>j. i \<le> j \<Longrightarrow> j < i + n \<Longrightarrow> j \<noteq> b"
  shows "merge_loop K D rc orig b i n (st, s) = bindE (copy_items orig i n st) (\<lambda>st. Inr (st, s))"
  using assms
proof (induction n arbitrary: i st)
  case (Suc n)
  have "merge_loop K D rc orig b (i + 1) n (st', s) = bindE (copy_items orig (i + 1) n st') (\<lambda>st. Inr (st, s))" for st'
    using Suc.prems by (intro Suc.IH) simp
  then show ?case
    using Suc.prems [of i] by (simp add: bindE_assoc)
qed simp

text \<open>That \<^verbatim>\<open>mergeAt\<close> inserts \<open>v\<close> at \<open>p\<close> below the node of \<open>t\<close>, whatever the store and the fuel.\<close>

definition merges :: "bool \<Rightarrow> 's node_db \<Rightarrow> ('s \<Rightarrow> bool) \<Rightarrow> (bytes \<Rightarrow> h256) \<Rightarrow> bytes set \<Rightarrow> mpt \<Rightarrow> bytes \<Rightarrow> bytes \<Rightarrow> bool" where
  "merges faulty D invar K S t p v \<longleftrightarrow> (\<forall>s key fuel h il. store_ok D invar K S s \<longrightarrow> present K (nd_lookup D s) t \<longrightarrow> ns_ok key
    \<longrightarrow> nibs key = p \<longrightarrow> mfuel t p \<le> fuel \<longrightarrow> runs faulty (mergeAt K D fuel s (node_of K t) h key v il)
      (\<lambda>(b, s'). b = node_of K (minsert t p v) \<and> kept D invar K S s s' \<and> present K (nd_lookup D s') (minsert t p v)))"

lemma mergesI:
  assumes "\<And>s key f h il. store_ok D invar K S s \<Longrightarrow> present K (nd_lookup D s) t \<Longrightarrow> ns_ok key \<Longrightarrow> nibs key = p \<Longrightarrow> mfuel t p \<le> Suc f
    \<Longrightarrow> runs faulty (mergeAt K D (Suc f) s (node_of K t) h key v il)
      (\<lambda>(b, s'). b = node_of K (minsert t p v) \<and> kept D invar K S s s' \<and> present K (nd_lookup D s') (minsert t p v))"
  shows "merges faulty D invar K S t p v"
  unfolding merges_def
proof (intro allI impI, goal_cases)
  case (1 s key fuel h il)
  moreover have "0 < mfuel t p"
    by (simp add: mfuel_def split: mpt.splits)
  then obtain f where "fuel = Suc f"
    using 1(5) by (cases fuel) simp_all
  ultimately show ?case
    using assms by blast
qed

lemma mergesD:
  assumes "merges faulty D invar K S t p v" and "store_ok D invar K S s" and "present K (nd_lookup D s) t" and "ns_ok key"
    and "nibs key = p" and "mfuel t p \<le> fuel"
  shows "runs faulty (mergeAt K D fuel s (node_of K t) h key v il)
      (\<lambda>(b, s'). b = node_of K (minsert t p v) \<and> kept D invar K S s s' \<and> present K (nd_lookup D s') (minsert t p v))"
  using assms unfolding merges_def by blast

context trie_store
begin

lemma killNode_runs:
  assumes "store_ok D invar K S s"
  shows "runs faulty (forceKillNode D s h) (kept D invar K S s)" "runs faulty (killNode D s d h) (kept D invar K S s)"
proof -
  show "runs faulty (forceKillNode D s h) (kept D invar K S s)"
  proof (cases "nd_kill D s h")
    case (Inl e)
    then show ?thesis
      using assms kill_fails by (auto simp: runs_def forceKillNode_def store_ok_def)
  next
    case (Inr s')
    then have "nd_lookup D s' = nd_lookup D s" "invar s'"
      using assms lookup_kill kill_invar by (auto simp: store_ok_def)
    then show ?thesis
      using assms Inr by (simp add: forceKillNode_def kept_def store_ok_def later_refl)
  qed
  then show "runs faulty (killNode D s d h) (kept D invar K S s)"
    using assms by (simp add: killNode_def kept_refl)
qed

lemma kill_first:
  assumes "store_ok D invar K S s"
    and "\<And>s'. kept D invar K S s s' \<Longrightarrow> runs faulty (f s') Q"
  shows "runs faulty (bindE (killNode D s d h) f) Q"
    "runs faulty (bindE (if b then killNode D s d h else Inr s) f) Q"
  using runs_bind [OF killNode_runs(2) [OF assms(1), of d h] assms(2)] assms(2) [OF kept_refl [OF assms(1)]] by simp_all

lemma insertNode_kept:
  assumes "hash_ok K S" and "store_ok D invar K S s" and "b \<in> S" and "b \<noteq> []"
  shows "kept D invar K S s (nd_insert D s (K b) b)" "nd_lookup D (nd_insert D s (K b) b) (K b) = Inr b"
  using insert_later [of s K S b] insert_invar [of s] assms
  by (simp_all add: kept_def store_ok_def hash_ok_def)

lemma streamNode_runs:
  assumes "hash_ok K S" and "store_ok D invar K S s" and "node_of K t \<in> S" and "length bs < 2 ^ 40"
  shows "runs faulty (streamNode K D s (strm (Suc n) bs) (node_of K t))
    (\<lambda>(st, s'). st = strm n (bs @ enc (ref K (item_of K t))) \<and> kept D invar K S s s' \<and> there K (nd_lookup D s') t)"
proof (cases "length (node_of K t) < 32")
  case True
  then show ?thesis
    using assms(2,4) by (simp add: streamNode_def put_rlp_strm ref_def there_def kept_refl)
next
  case False
  have "length (enc (ref K (item_of K t))) \<le> 41"
    by (rule length_ref_le [OF hash_okD(1) [OF assms(1)]])
  then have "length (encStr (K (node_of K t))) \<le> 41"
    using False by (simp add: ref_def)
  then show ?thesis
    using False assms(4) insertNode_kept [OF assms(1-3)] enc_not_Nil [of "item_of K t"]
    by (simp add: streamNode_def forceInsertNode_def append_hash_put put_str_strm ref_def there_def)
qed

section \<open>Placing a value\<close>

lemma place_empty:
  assumes "store_ok D invar K S s" and "ns_ok key" and "length (nibs key) < 2 ^ 32" and "length v < 2 ^ 32"
  shows "runs faulty (place K D s (node_of K MEmpty) key v)
    (\<lambda>(b, s'). b = node_of K (MLeaf (nibs key) v) \<and> kept D invar K S s s')"
proof -
  have "length (encStr (hp True (nibs key))) + length (encStr v) < 2 ^ 64"
    using assms length_encStr_le [of "hp True (nibs key)"] length_encStr_le [of v] length_hp_le [of True "nibs key"] by simp
  then have "rlpList_str_str (hp True (nibs key)) v = Inr (node_of K (MLeaf (nibs key) v))"
    using rlpLists(1) by simp
  moreover have "isEmpty (encStr [])"
    by (simp add: encStr_def header_def isEmpty_def isNull_def)
  ultimately show ?thesis
    using assms(2) hexPrefixEncode_from [of key 0 True] unfolding place_def item_of.simps enc.simps
    by (intro kill_first(1) [OF assms(1)]) simp
qed

lemma place_leaf:
  assumes "hash_ok K S" and "store_ok D invar K S s" and "msmall (MLeaf k w)" and "mwf (MLeaf k w)" and "length v < 2 ^ 32"
  shows "runs faulty (place K D s (node_of K (MLeaf k w)) key v) (\<lambda>(b, s'). b = node_of K (MLeaf k v) \<and> kept D invar K S s s')"
proof -
  have "length (encStr (hp True k)) + length (encStr v) < 2 ^ 64"
    using assms length_encStr_le [of "hp True k"] length_encStr_le [of v] length_hp_le [of True k] by simp
  then have "rlpList_rlp_str (encStr (hp True k)) v = Inr (node_of K (MLeaf k v))"
    using rlpLists(2) by simp
  moreover have "node_of K (MLeaf k w) = enc (Lst [Str (hp True k), Str w])"
    by simp
  note read_pair [OF this fits_node [OF hash_okD(1) [OF assms(1)] assms(3,4)]]
  ultimately show ?thesis
    using assms(4) unfolding place_def by (intro kill_first(1) [OF assms(2)]) (simp del: item_of.simps)
qed

lemma place_branch:
  assumes "hash_ok K S" and "store_ok D invar K S s" and "msmall (MBranch ts w)" and "mwf (MBranch ts w)" and "length v < 2 ^ 32"
  shows "runs faulty (place K D s (node_of K (MBranch ts w)) key v) (\<lambda>(b, s'). b = node_of K (MBranch ts v) \<and> kept D invar K S s s')"
proof -
  let ?rs = "map (ref K) (map (item_of K) ts)"
  have l: "length ?rs = 16" "length (concat (map enc ?rs)) \<le> 41 * 16"
    using assms(4) concat_length_le [of "map enc ?rs" 41] length_ref_le [OF hash_okD(1) [OF assms(1)]] by auto
  have n: "node_of K (MBranch ts w) = enc (Lst (?rs @ [Str w]))"
    by simp
  have f: "fits (node_of K (MBranch ts w))"
    by (rule fits_node [OF hash_okD(1) [OF assms(1)] assms(3,4)])
  have "copy_items (node_of K (MBranch ts w)) 0 16 (strm (16 + 1) []) = Inr (strm 1 (concat (map enc ?rs)))"
    using copy_items_strm [of "?rs @ [Str w]" 0 16 "[]" 1] f l assms(3) length_encStr_le [of w] unfolding n by simp
  moreover have "put_str (strm 1 (concat (map enc ?rs))) v = Inr (strm 0 (concat (map enc (?rs @ [Str v]))))"
    using put_str_strm [of "concat (map enc ?rs)" v 0] l assms(5) length_encStr_le [of v] by simp
  moreover have "out (strm 0 (concat (map enc (?rs @ [Str v])))) = Inr (node_of K (MBranch ts v))"
    using out_strm [of "?rs @ [Str v]"] by simp
  moreover note read_branch [OF n f l(1)]
  ultimately show ?thesis
    unfolding place_def
    by (intro kill_first(1) [OF assms(2)]) (simp del: item_of.simps map_map map_append concat_append add: new_stream_strm)
qed

section \<open>Splitting a pair\<close>

lemma cleve_runs:
  assumes "hash_ok K S" and "store_ok D invar K S s" and "mwf t" and "msmall t" and "present K (nd_lookup D s) t"
    and "t = MLeaf k w \<or> t = MExt k u" and "n \<le> length k" and "msmall (mbottom t n)" and "node_of K (mbottom t n) \<in> S"
  shows "runs faulty (cleve K D s (node_of K t) n) (\<lambda>(b, s'). b = node_of K (MExt (take n k) (mbottom t n))
    \<and> kept D invar K S s s' \<and> present K (nd_lookup D s') (MExt (take n k) (mbottom t n)))"
proof -
  obtain leaf x where "item_of K t = Lst [Str (hp leaf k), x]" "item_of K (mbottom t n) = Lst [Str (hp leaf (drop n k)), x]"
    using assms(6) by (cases t) auto
  then have p: "node_of K t = enc (Lst [Str (hp leaf k), x])" "node_of K (mbottom t n) = enc (Lst [Str (hp leaf (drop n k)), x])"
    by simp_all
  have k: "nibble_path k" "length k < 2 ^ 32"
    using assms(3,4,6) by auto
  note r = read_pair [OF p(1) fits_node [OF hash_okD(1) [OF assms(1)] assms(4,3)] k(1)]
  have "length (encStr (hp leaf k)) + length (enc x) \<le> length (node_of K t)"
    by (simp add: p(1))
  then have x: "length (enc x) < 2 ^ 40"
    using length_node_le [OF hash_okD(1) [OF assms(1)] assms(4,3)] by simp
  have h: "length (encStr (hp lf l)) < 2 ^ 40" if "length l \<le> length k" for lf l
    using that k(2) length_encStr_le [of "hp lf l"] length_hp_le [of lf l] by simp
  have bottom: "rlpList_str_rlp (hp leaf (drop n k)) (enc x) = Inr (node_of K (mbottom t n))"
    using rlpLists(3) [of "hp leaf (drop n k)" "enc x" x] x h [of "drop n k" leaf] p(2) by simp
  have top: "put_str (strm 2 []) (hp False (take n k)) = Inr (strm (Suc 0) (encStr (hp False (take n k))))"
    using put_str_strm [of "[]" "hp False (take n k)" "Suc 0"] h [of "take n k" False]
    by (simp add: Suc_1 [unfolded One_nat_def])
  have out: "out (strm 0 (encStr (hp False (take n k)) @ enc (ref K (item_of K (mbottom t n)))))
      = Inr (node_of K (MExt (take n k) (mbottom t n)))"
    using out_strm [of "[Str (hp False (take n k)), ref K (item_of K (mbottom t n))]"] by simp
  have pr: "present K (nd_lookup D s) (mbottom t n)"
    using assms(5,6) by auto
  have last: "runs faulty (bindE (streamNode K D s' (strm (Suc 0) (encStr (hp False (take n k)))) (node_of K (mbottom t n)))
      (\<lambda>(top, s). bindE (out top) (\<lambda>b. Inr (b, s)))) (\<lambda>(b, s'). b = node_of K (MExt (take n k) (mbottom t n))
    \<and> kept D invar K S s s' \<and> present K (nd_lookup D s') (MExt (take n k) (mbottom t n)))" if "kept D invar K S s s'" for s'
    using that out h [of "take n k" False] pr
    by (intro runs_bind [OF streamNode_runs [OF assms(1) kept_ok [OF that] assms(9)]])
      (auto intro: kept_trans kept_present [OF kept_trans])
  show ?thesis
    unfolding cleve_def
    using r assms(7) hexPrefixEncode_from [of "keyOf_hpe (hp leaf k)" n leaf] hexPrefixEncode_upto [of "keyOf_hpe (hp leaf k)" n False]
      bottom top last
    by (intro kill_first(1) [OF assms(2)]) (simp add: new_stream_strm)
qed

lemma branch_loop_runs:
  assumes "hash_ok K S"
    and step: "\<And>s n bs. kept D invar K S s0 s \<Longrightarrow> length bs \<le> 41 * 16 \<Longrightarrow>
      runs faulty (branch_loop K D orig k leaf b b 1 (strm (Suc n) bs, s))
        (\<lambda>(st, s'). st = strm n (bs @ enc (ref K (item_of K t))) \<and> kept D invar K S s s' \<and> there K (nd_lookup D s') t)"
    and "i + n = 16" and "b < 16" and "kept D invar K S s0 s" and "length bs \<le> 41 * i"
  shows "runs faulty (branch_loop K D orig k leaf b i n (strm (Suc n) bs, s))
    (\<lambda>(st, s'). st = strm 1 (bs @ concat (map enc (map (ref K) (map (item_of K) (drop i (only_child b t))))))
      \<and> kept D invar K S s s' \<and> (i \<le> b \<longrightarrow> there K (nd_lookup D s') t))"
  using assms(3,5,6)
proof (induction n arbitrary: i bs s)
  case 0
  then show ?case
    using assms(4) kept_refl [OF kept_ok] by (simp add: only_child_def)
next
  case (Suc n)
  have d: "drop i (only_child b t) = (if i = b then t else MEmpty) # drop (i + 1) (only_child b t)"
    using Suc.prems(1) by (simp add: only_child_def Cons_nth_drop_Suc [symmetric] nth_list_update)
  have one: "branch_loop K D orig k leaf b i (Suc n) sts
      = bindE (branch_loop K D orig k leaf b i 1 sts) (branch_loop K D orig k leaf b (i + 1) n)" for sts
    by (rule branch_loop_Suc)
  let ?c = "if i = b then t else MEmpty"
  have "runs faulty (branch_loop K D orig k leaf b i 1 (strm (Suc (Suc n)) bs, s))
        (\<lambda>(st, s'). st = strm (Suc n) (bs @ enc (ref K (item_of K ?c))) \<and> kept D invar K S s s' \<and> (i = b \<longrightarrow> there K (nd_lookup D s') t))"
  proof (cases "i = b")
    case True
    then show ?thesis
      using step [of s bs "Suc n"] Suc.prems by simp
  next
    case False
    then show ?thesis
      using Suc.prems put_null [of bs "Suc n"] kept_refl [OF kept_ok] by (simp add: ref_empty del: item_of.simps)
  qed
  then show ?case
    unfolding one
  proof (rule runs_bind, clarify)
    fix s'
    assume s': "kept D invar K S s s'" "i = b \<longrightarrow> there K (nd_lookup D s') t"
    let ?bs = "bs @ enc (ref K (item_of K ?c))"
    have "runs faulty (branch_loop K D orig k leaf b (i + 1) n (strm (Suc n) ?bs, s'))
      (\<lambda>(st, s''). st = strm 1 (?bs @ concat (map enc (map (ref K) (map (item_of K) (drop (i + 1) (only_child b t))))))
      \<and> kept D invar K S s' s'' \<and> (i + 1 \<le> b \<longrightarrow> there K (nd_lookup D s'') t))"
      using Suc.prems kept_trans [OF Suc.prems(2) s'(1)] length_ref_le [OF hash_okD(1) [OF assms(1)], of "item_of K ?c"]
      by (intro Suc.IH) simp_all
    then show "runs faulty (branch_loop K D orig k leaf b (i + 1) n (strm (Suc n) ?bs, s'))
      (\<lambda>(st, s'). st = strm 1 (bs @ concat (map enc (map (ref K) (map (item_of K) (drop i (only_child b t))))))
      \<and> kept D invar K S s s' \<and> (i \<le> b \<longrightarrow> there K (nd_lookup D s') t))"
      using s' by (elim runs_mono) (auto simp: d intro: kept_trans kept_there)
  qed
qed

lemma branch_item_runs:
  assumes "hash_ok K S" and "mwf t" and "msmall t" and "present K (nd_lookup D s0) t"
    and t: "t = MLeaf (x # k) w \<and> c = MLeaf k w \<or> t = MExt (x # k) u \<and> c = (if k = [] then u else MExt k u)"
    and "node_of K c \<in> S" and "kept D invar K S s0 s" and "length bs \<le> 41 * 16" and leaf: "leaf = (\<exists>k w. t = MLeaf k w)"
  shows "runs faulty (branch_loop K D (node_of K t) (keyOf_hpe (hp leaf (x # k))) leaf b b 1 (strm (Suc n) bs, s))
    (\<lambda>(st, s'). st = strm n (bs @ enc (ref K (item_of K c))) \<and> kept D invar K S s s' \<and> there K (nd_lookup D s') c)"
proof -
  have h: "hash32 K"
    by (rule hash_okD(1) [OF assms(1)])
  obtain y where y: "item_of K t = Lst [Str (hp leaf (x # k)), y]"
    "leaf \<or> k \<noteq> [] \<Longrightarrow> item_of K c = Lst [Str (hp leaf k), y]" "\<not> leaf \<Longrightarrow> k = [] \<Longrightarrow> y = ref K (item_of K c)"
    using t leaf by (elim disjE) auto
  have k: "nibble_path (x # k)"
    using t assms(2) by auto
  have n: "node_of K t = enc (Lst [Str (hp leaf (x # k)), y])"
    by (simp add: y)
  note r = read_pair [OF n fits_node [OF h assms(3,2)] k]
  have stored: "store_ok D invar K S s" "length bs < 2 ^ 40"
    using kept_ok [OF assms(7)] assms(8) by simp_all
  show ?thesis
  proof (cases "leaf \<or> k \<noteq> []")
    case True
    have "length (encStr (hp leaf (x # k))) + length (enc y) \<le> length (node_of K t)"
      by (simp add: n)
    then have "length (enc y) < 2 ^ 40" "length k < 2 ^ 32"
      using length_node_le [OF h assms(3,2)] t assms(3) by auto
    then have "rlpList_str_rlp (hp leaf k) (enc y) = Inr (node_of K c)"
      using rlpLists(3) [of "hp leaf k" "enc y" y] y(2) [OF True] length_encStr_le [of "hp leaf k"] length_hp_le [of leaf k] by simp
    moreover have "hexPrefixEncode (ns_mid (keyOf_hpe (hp leaf (x # k))) 1) leaf 0 (- 1) = Inr (hp leaf k)"
      using hexPrefixEncode_from [of "ns_mid (keyOf_hpe (hp leaf (x # k))) 1" 0 leaf] r by (simp add: nibs_mid ns_ok_mid)
    ultimately show ?thesis
      using streamNode_runs [OF assms(1) stored(1) assms(6) stored(2), of n] True r by (simp add: ns_size_eq branch_loop_0)
  next
    case False
    then have "there K (nd_lookup D s0) c" "length (enc y) \<le> 41"
      using t leaf assms(4) y(3) length_ref_le [OF h, of "item_of K c"] by auto
    then show ?thesis
      using False r stored kept_there [OF assms(7)] y(3) put_rlp_strm [of bs "enc y" n]
      by (simp add: ns_size_eq branch_loop_0 kept_refl)
  qed
qed

lemma branch_value_runs:
  assumes "hash_ok K S" and "store_ok D invar K S s" and "mwf (MLeaf [] w)" and "msmall (MLeaf [] w)"
  shows "runs faulty (branch K D s (node_of K (MLeaf [] w)))
    (\<lambda>(b, s'). b = node_of K (MBranch (replicate 16 MEmpty) w) \<and> kept D invar K S s s')"
proof -
  have n: "node_of K (MLeaf [] w) = enc (Lst [Str (hp True []), Str w])"
    by simp
  note r = read_pair [OF n fits_node [OF hash_okD(1) [OF assms(1)] assms(4,3)] nibble_path_simps(1)]
  define rs where "rs = map (ref K) (map (item_of K) (replicate 16 MEmpty))"
  have z: "rs = replicate 16 (Str [])"
    unfolding rs_def by (simp only: map_replicate ref_empty)
  have "length (concat (map enc rs)) \<le> 1 * length (map enc rs)"
    by (intro concat_length_le) (auto simp: z ref_empty)
  then have l: "length (concat (map enc rs)) \<le> 16"
    by (simp add: z)
  have "put_nulls 16 (strm 17 []) = Inr (strm 1 (concat (map enc rs)))"
    using put_nulls_strm [of "[]" 16 1] unfolding z by simp
  moreover have "put_rlp (strm 1 (concat (map enc rs))) (encStr w) = Inr (strm 0 (concat (map enc (rs @ [Str w]))))"
    using l assms(4) length_encStr_le [of w] put_rlp_strm [of "concat (map enc rs)" "encStr w" 0] by simp
  moreover have "node_of K (MBranch (replicate 16 MEmpty) w) = enc (Lst (rs @ [Str w]))"
    unfolding rs_def item_of.simps ..
  ultimately show ?thesis
    using r out_strm [of "rs @ [Str w]"] unfolding branch_def
    by (intro kill_first(1) [OF assms(2)])
      (simp add: ns_size_eq new_stream_strm del: item_of.simps map_append concat_append enc.simps(2))
qed

lemma branch_child_runs:
  assumes "hash_ok K S" and "store_ok D invar K S s" and "mwf t" and "msmall t" and "present K (nd_lookup D s) t"
    and t: "t = MLeaf (x # k) w \<and> c = MLeaf k w \<or> t = MExt (x # k) u \<and> c = (if k = [] then u else MExt k u)"
    and "node_of K c \<in> S"
  shows "runs faulty (branch K D s (node_of K t)) (\<lambda>(b, s'). b = node_of K (MBranch (only_child (unat x) c) [])
    \<and> kept D invar K S s s' \<and> there K (nd_lookup D s') c)"
proof -
  define leaf where "leaf = (\<exists>k w. t = MLeaf k w)"
  obtain y where "item_of K t = Lst [Str (hp leaf (x # k)), y]"
    using t leaf_def by (elim disjE) auto
  then have n: "node_of K t = enc (Lst [Str (hp leaf (x # k)), y])"
    by simp
  have k: "nibble_path (x # k)" "unat x < 16"
    using t assms(3) nib_index by auto
  note r = read_pair [OF n fits_node [OF hash_okD(1) [OF assms(1)] assms(4,3)] k(1)]
  define rs where "rs = map (ref K) (map (item_of K) (only_child (unat x) c))"
  have "length (concat (map enc rs)) \<le> 41 * length (map enc rs)"
    using length_ref_le [OF hash_okD(1) [OF assms(1)]] by (intro concat_length_le) (auto simp: rs_def)
  then have "length (concat (map enc rs)) \<le> 41 * 16"
    by (simp add: rs_def only_child_def)
  then have fin: "put_str (strm 1 (concat (map enc rs))) [] = Inr (strm 0 (concat (map enc (rs @ [Str []]))))"
    "out (strm 0 (concat (map enc (rs @ [Str []])))) = Inr (node_of K (MBranch (only_child (unat x) c) []))"
    using put_null [of "concat (map enc rs)" 0] out_strm [of "rs @ [Str []]"] by (simp_all add: ref_empty rs_def)
  have loop: "runs faulty (branch_loop K D (node_of K t) (keyOf_hpe (hp leaf (x # k))) leaf (unat x) 0 16 (strm 17 [], s'))
      (\<lambda>(st, s''). st = strm 1 (concat (map enc rs)) \<and> kept D invar K S s' s'' \<and> there K (nd_lookup D s'') c)"
    if "kept D invar K S s s'" for s'
  proof -
    have "runs faulty (branch_loop K D (node_of K t) (keyOf_hpe (hp leaf (x # k))) leaf (unat x) (unat x) 1 (strm (Suc n) bs, s'))
        (\<lambda>(st, s''). st = strm n (bs @ enc (ref K (item_of K c))) \<and> kept D invar K S s' s'' \<and> there K (nd_lookup D s'') c)"
      if "kept D invar K S s s'" "length bs \<le> 41 * 16" for s' n bs
      using branch_item_runs [OF assms(1,3-5) t assms(7) that leaf_def] .
    from branch_loop_runs [OF assms(1) this, of s 0 16 s' "[]"] show ?thesis
      using that k(2) by (simp add: rs_def)
  qed
  have rest: "runs faulty (bindE (branch_loop K D (node_of K t) (keyOf_hpe (hp leaf (x # k))) leaf (unat x) 0 16 (strm 17 [], s'))
      (\<lambda>(st, s). bindE (put_str st []) (\<lambda>st. bindE (out st) (\<lambda>b. Inr (b, s)))))
      (\<lambda>(b, s'). b = node_of K (MBranch (only_child (unat x) c) []) \<and> kept D invar K S s s' \<and> there K (nd_lookup D s') c)"
    if "kept D invar K S s s'" for s'
    using fin by (intro runs_bind [OF loop [OF that]]) (auto intro: kept_trans [OF that])
  have split: "bindE (bindE m (\<lambda>(st, s). bindE (put_str st []) (\<lambda>st. Inr (st, s)))) (\<lambda>(st, s). bindE (out st) (\<lambda>b. Inr (b, s)))
      = bindE m (\<lambda>(st, s). bindE (put_str st []) (\<lambda>st. bindE (out st) (\<lambda>b. Inr (b, s))))"
    for m :: "trie_error + RLPStream \<times> 's"
    by (simp add: bindE_assoc split_def)
  show ?thesis
    unfolding branch_def
    using r rest ns_at_eq [of "keyOf_hpe (hp leaf (x # k))" 0]
    by (intro kill_first(1) [OF assms(2)]) (simp add: new_stream_strm split ns_size_eq del: item_of.simps)
qed

lemma branch_runs:
  assumes "hash_ok K S" and "store_ok D invar K S s" and "mwf t" and "msmall t" and "present K (nd_lookup D s) t"
    and t: "t = MLeaf k w \<or> t = MExt k u" and "\<And>c. c \<in> set (mchildren t) \<Longrightarrow> c \<noteq> MEmpty \<Longrightarrow> node_of K c \<in> S"
  shows "runs faulty (branch K D s (node_of K t)) (\<lambda>(b, s'). b = node_of K (MBranch (mchildren t) (mvalue t))
    \<and> kept D invar K S s s' \<and> present K (nd_lookup D s') (MBranch (mchildren t) (mvalue t)))"
proof (cases k)
  case Nil
  then have "t = MLeaf [] w"
    using t assms(3) by auto
  then show ?thesis
    using branch_value_runs [OF assms(1,2), of w] assms(3,4) present_no_children
    by (auto elim!: runs_mono)
next
  case (Cons x q)
  define c where "c = (if t = MLeaf k w then MLeaf q w else if q = [] then u else MExt q u)"
  have c: "t = MLeaf (x # q) w \<and> c = MLeaf q w \<or> t = MExt (x # q) u \<and> c = (if q = [] then u else MExt q u)"
    using t Cons by (auto simp: c_def)
  then have m: "mchildren t = only_child (unat x) c" "mvalue t = []" "c \<noteq> MEmpty" "present K (nd_lookup D s) c" "unat x < 16"
    using assms(3,5) nib_index by (auto simp: only_child_def neq_Nil_conv split: if_splits)
  then have "node_of K c \<in> S"
    using assms(7) [of c] by (auto simp: only_child_def set_update_memI)
  from branch_child_runs [OF assms(1-5) c this] show ?thesis
    unfolding m(1,2)
  proof (rule runs_mono, clarify)
    fix s'
    assume s': "kept D invar K S s s'" "there K (nd_lookup D s') c"
    have "present K (nd_lookup D s') c"
      by (rule kept_present [OF s'(1) m(4)])
    then show "node_of K (MBranch (only_child (unat x) c) []) = node_of K (MBranch (only_child (unat x) c) [])
      \<and> kept D invar K S s s' \<and> present K (nd_lookup D s') (MBranch (only_child (unat x) c) [])"
      using s' present_only_child by blast
  qed
qed

section \<open>Merging below\<close>

lemma mergeAtAux_runs:
  assumes "hash_ok K S" and "mwf t" and "msmall t" and "there K (nd_lookup D s) t"
    and rc: "\<And>il. runs faulty (rc s (node_of K t) il) (\<lambda>(b, s'). b = node_of K t' \<and> kept D invar K S s s' \<and> present K (nd_lookup D s') t')"
    and "node_of K t' \<in> S" and "length bs < 2 ^ 40"
  shows "runs faulty (mergeAtAux K D rc s (strm (Suc n) bs) (enc (ref K (item_of K t))))
    (\<lambda>(st, s'). st = strm n (bs @ enc (ref K (item_of K t'))) \<and> kept D invar K S s s'
      \<and> there K (nd_lookup D s') t' \<and> present K (nd_lookup D s') t')"
proof -
  let ?x = "enc (ref K (item_of K t))"
  note h = hash_okD(1) [OF assms(1)]
  note r = read_child [OF h assms(2,3) refl]
  have "\<exists>il. mergeAtAux K D rc s (strm (Suc n) bs) ?x = bindE (rc s (node_of K t) il) (\<lambda>(b, s). streamNode K D s (strm (Suc n) bs) b)"
  proof (cases "length (node_of K t) < 32")
    case True
    then show ?thesis
      using r by (auto simp: mergeAtAux_def)
  next
    case False
    then have "nd_lookup D s (K (node_of K t)) = Inr (node_of K t)" "t \<noteq> MEmpty"
      using assms(4) by (auto simp: there_def ref_empty)
    then show ?thesis
      using False r RLP_of_enc [OF fits_node [OF h assms(3,2)]] by (auto simp: mergeAtAux_def node_def)
  qed
  then obtain il where e: "mergeAtAux K D rc s (strm (Suc n) bs) ?x = bindE (rc s (node_of K t) il) (\<lambda>(b, s). streamNode K D s (strm (Suc n) bs) b)" ..
  show ?thesis
    unfolding e
  proof (rule runs_bind [OF rc], clarify)
    fix s'
    assume s': "kept D invar K S s s'" "present K (nd_lookup D s') t'"
    from streamNode_runs [OF assms(1) kept_ok [OF s'(1)] assms(6,7), of n]
    show "runs faulty (streamNode K D s' (strm (Suc n) bs) (node_of K t'))
      (\<lambda>(st, s'). st = strm n (bs @ enc (ref K (item_of K t'))) \<and> kept D invar K S s s'
      \<and> there K (nd_lookup D s') t' \<and> present K (nd_lookup D s') t')"
      using s' by (elim runs_mono) (auto intro: kept_trans kept_present)
  qed
qed

lemma mergeAt_ext:
  assumes "hash_ok K S" and "store_ok D invar K S s" and "mwf (MExt k t)" and "msmall (MExt k t)"
    and "present K (nd_lookup D s) (MExt k t)" and "ns_ok key" and "prefix k (nibs key)"
    and rc: "\<And>s' il. kept D invar K S s s' \<Longrightarrow> runs faulty (mergeAt K D fuel s' (node_of K t) (K (node_of K t)) (ns_mid key (length k)) v il)
      (\<lambda>(b, s''). b = node_of K t' \<and> kept D invar K S s' s'' \<and> present K (nd_lookup D s'') t')"
    and "node_of K t' \<in> S"
  shows "runs faulty (mergeAt K D (Suc fuel) s (node_of K (MExt k t)) h key v il)
    (\<lambda>(b, s'). b = node_of K (MExt k t') \<and> kept D invar K S s s' \<and> present K (nd_lookup D s') (MExt k t'))"
proof -
  have n: "node_of K (MExt k t) = enc (Lst [Str (hp False k), ref K (item_of K t)])"
    by simp
  have k: "nibble_path k" "length k < 2 ^ 32" "mwf t" "msmall t" "there K (nd_lookup D s) t"
    using assms(3-5) by simp_all
  note r = read_pair [OF n fits_node [OF hash_okD(1) [OF assms(1)] assms(4,3)] k(1)]
  have l: "length (encStr (hp False k)) < 2 ^ 40"
    using k(2) length_encStr_le [of "hp False k"] length_hp_le [of False k] by simp
  then have first: "put_rlp (strm 2 []) (encStr (hp False k)) = Inr (strm (Suc 0) (encStr (hp False k)))"
    using put_rlp_strm [of "[]" "encStr (hp False k)" "Suc 0"] by (simp add: Suc_1 [unfolded One_nat_def])
  have out: "out (strm 0 (encStr (hp False k) @ enc (ref K (item_of K t')))) = Inr (node_of K (MExt k t'))"
    using out_strm [of "[Str (hp False k), ref K (item_of K t')]"] by simp
  have step: "runs faulty (bindE (mergeAtAux K D (\<lambda>s r il. mergeAt K D fuel s r (K r) (ns_mid key (length k)) v il) s'
        (strm (Suc 0) (encStr (hp False k))) (enc (ref K (item_of K t)))) (\<lambda>(st, s). bindE (out st) (\<lambda>b. Inr (b, s))))
      (\<lambda>(b, s'). b = node_of K (MExt k t') \<and> kept D invar K S s s' \<and> present K (nd_lookup D s') (MExt k t'))"
    if "kept D invar K S s s'" for s'
  proof (rule runs_bind [OF mergeAtAux_runs [where rc = "\<lambda>s r il. mergeAt K D fuel s r (K r) (ns_mid key (length k)) v il",
          OF assms(1) k(3,4) kept_there [OF that k(5)] rc [OF that] assms(9) l]], clarify)
    fix s''
    assume "kept D invar K S s' s''" "there K (nd_lookup D s'') t'" "present K (nd_lookup D s'') t'"
    then show "runs faulty (bindE (out (strm 0 (encStr (hp False k) @ enc (ref K (item_of K t'))))) (\<lambda>b. Inr (b, s'')))
      (\<lambda>(b, s'). b = node_of K (MExt k t') \<and> kept D invar K S s s' \<and> present K (nd_lookup D s') (MExt k t'))"
      using kept_trans [OF that] unfolding out by simp
  qed
  have "ns_contains key (keyOf_hpe (hp False k)) = Inr True"
    using r assms(6,7) by (simp add: ns_contains_eq)
  moreover have "\<exists>same. ns_equal (keyOf_hpe (hp False k)) key = Inr same"
    using r assms(6) by (simp add: ns_equal_eq)
  ultimately show ?thesis
    using r first kill_first(2) [where b = "\<not> il" and d = "node_of K (MExt k t)" and h = h, OF assms(2) step]
    by (auto simp: mergeAt.simps(2) ns_size_eq new_stream_strm simp del: item_of.simps)
qed

lemma merge_loop_runs:
  assumes "fits (enc (Lst xs))" and "length xs = 17" and "b < 16" and "length (enc (Lst xs)) < 2 ^ 40" and "length (enc y) \<le> 41"
    and step: "\<And>n bs. length bs < 2 ^ 40 \<Longrightarrow>
      runs faulty (mergeAtAux K D rc s (strm (Suc n) bs) (enc (xs ! b))) (\<lambda>(st, s'). st = strm n (bs @ enc y) \<and> Q s')"
  shows "runs faulty (merge_loop K D rc (enc (Lst xs)) b 0 17 (strm 17 [], s))
    (\<lambda>(st, s'). st = strm 0 (concat (map enc (xs[b := y]))) \<and> Q s')"
proof -
  let ?d = "enc (Lst xs)"
  have split: "xs = take b xs @ xs ! b # drop (b + 1) xs"
    using assms(2,3) by (simp add: id_take_nth_drop)
  have "length (concat (map enc xs)) = length (concat (map enc (take b xs))) + length (enc (xs ! b)) + length (concat (map enc (drop (b + 1) xs)))"
    by (subst split) simp
  moreover have "length (concat (map enc xs)) < 2 ^ 40"
    using assms(4) by simp
  ultimately have l: "length (concat (map enc (take b xs))) + length (concat (map enc (drop (b + 1) xs))) < 2 ^ 40"
    "length (concat (map enc xs)) < 2 ^ 64"
    by simp_all
  have at: "rlp_at ?d b = Inr (enc (xs ! b))"
    using assms(1-3) by (intro rlp_at_enc) simp_all
  have before: "copy_items ?d 0 b (strm 17 []) = Inr (strm (Suc (16 - b)) (concat (map enc (take b xs))))"
    using copy_items_strm [of xs 0 b "[]" "Suc (16 - b)"] assms(1-3) l by simp
  have after: "copy_items ?d (b + 1) (16 - b) (strm (16 - b) (concat (map enc (take b xs)) @ enc y))
      = Inr (strm 0 (concat (map enc (xs[b := y]))))"
    using copy_items_strm [of xs "b + 1" "16 - b" "concat (map enc (take b xs)) @ enc y" 0] assms(1-3,5) l
    by (simp add: upd_conv_take_nth_drop)
  have "merge_loop K D rc ?d b 0 (b + (1 + (16 - b))) (strm 17 [], s)
      = bindE (mergeAtAux K D rc s (strm (Suc (16 - b)) (concat (map enc (take b xs)))) (enc (xs ! b))) (merge_loop K D rc ?d b (b + 1) (16 - b))"
    using before at by (simp only: merge_loop_add) (simp add: merge_loop_copy)
  then have e: "merge_loop K D rc ?d b 0 17 (strm 17 [], s)
      = bindE (mergeAtAux K D rc s (strm (Suc (16 - b)) (concat (map enc (take b xs)))) (enc (xs ! b))) (merge_loop K D rc ?d b (b + 1) (16 - b))"
    using assms(3) by simp
  show ?thesis
    unfolding e
  proof (rule runs_bind [OF step], goal_cases)
    case 1
    then show ?case
      using l(1) by simp
  next
    case (2 sts)
    then show ?case
      using after by (auto simp: merge_loop_copy)
  qed
qed

lemma mergeAt_below:
  assumes "hash_ok K S" and "store_ok D invar K S s" and "mwf (MBranch ts w)" and "msmall (MBranch ts w)"
    and "present K (nd_lookup D s) (MBranch ts w)" and "ns_ok key" and "nibs key = x # q"
    and rc: "\<And>s' il. kept D invar K S s s' \<Longrightarrow> runs faulty
        (mergeAt K D fuel s' (node_of K (ts ! unat x)) (K (node_of K (ts ! unat x))) (ns_mid key 1) v il)
      (\<lambda>(b, s''). b = node_of K t' \<and> kept D invar K S s' s'' \<and> present K (nd_lookup D s'') t')"
    and "node_of K t' \<in> S"
  shows "runs faulty (mergeAt K D (Suc fuel) s (node_of K (MBranch ts w)) h key v il)
    (\<lambda>(b, s'). b = node_of K (MBranch (ts[unat x := t']) w) \<and> kept D invar K S s s' \<and> present K (nd_lookup D s') (MBranch (ts[unat x := t']) w))"
proof -
  let ?t = "ts ! unat x" and ?rs = "map (ref K) (map (item_of K) ts)"
  note h = hash_okD(1) [OF assms(1)]
  have x: "unat x < 16" "length ts = 16"
    using nib_nibs [of x key] assms(3,7) nib_index by simp_all
  have n: "node_of K (MBranch ts w) = enc (Lst (?rs @ [Str w]))"
    by simp
  have f: "fits (enc (Lst (?rs @ [Str w])))" "length (enc (Lst (?rs @ [Str w]))) < 2 ^ 40"
    using fits_node [OF h assms(4,3)] length_node_le [OF h assms(4,3)] unfolding n .
  have t: "mwf ?t" "msmall ?t" "there K (nd_lookup D s) ?t" "(?rs @ [Str w]) ! unat x = ref K (item_of K ?t)"
    using assms(3-5) x by (simp_all add: list_all_length nth_append)
  have upd: "(?rs @ [Str w])[unat x := ref K (item_of K t')] = map (ref K) (map (item_of K) (ts[unat x := t'])) @ [Str w]"
    using x by (simp add: list_update_append map_update)
  let ?rc = "\<lambda>s r il. mergeAt K D fuel s r (K r) (ns_mid key 1) v il"
  have loop: "runs faulty (merge_loop K D ?rc (enc (Lst (?rs @ [Str w]))) (unat x) 0 17 (strm 17 [], s'))
      (\<lambda>(st, s''). st = strm 0 (concat (map enc (map (ref K) (map (item_of K) (ts[unat x := t'])) @ [Str w])))
        \<and> kept D invar K S s' s'' \<and> there K (nd_lookup D s'') t' \<and> present K (nd_lookup D s'') t')"
    if "kept D invar K S s s'" for s'
    unfolding upd [symmetric]
  proof (rule merge_loop_runs [OF f(1) _ x(1) f(2) length_ref_le [OF h]])
    show "runs faulty (mergeAtAux K D ?rc s' (strm (Suc n) bs) (enc ((?rs @ [Str w]) ! unat x)))
      (\<lambda>(st, s''). st = strm n (bs @ enc (ref K (item_of K t')))
        \<and> kept D invar K S s' s'' \<and> there K (nd_lookup D s'') t' \<and> present K (nd_lookup D s'') t')" if "length bs < 2 ^ 40" for n bs
      unfolding t(4)
      by (rule mergeAtAux_runs [where rc = ?rc, OF assms(1) t(1,2) kept_there [OF \<open>kept D invar K S s s'\<close> t(3)] rc assms(9) that])
        (rule \<open>kept D invar K S s s'\<close>)
  qed (simp add: x)
  have out: "out (strm 0 (concat (map enc (map (ref K) (map (item_of K) (ts[unat x := t'])) @ [Str w]))))
      = Inr (node_of K (MBranch (ts[unat x := t']) w))"
    unfolding out_strm item_of.simps ..
  have step: "runs faulty (bindE (merge_loop K D ?rc (enc (Lst (?rs @ [Str w]))) (unat x) 0 17 (strm 17 [], s'))
      (\<lambda>(st, s). bindE (out st) (\<lambda>b. Inr (b, s))))
      (\<lambda>(b, s'). b = node_of K (MBranch (ts[unat x := t']) w) \<and> kept D invar K S s s' \<and> present K (nd_lookup D s') (MBranch (ts[unat x := t']) w))"
    if "kept D invar K S s s'" for s'
  proof (rule runs_bind [OF loop [OF that]], clarify)
    fix s''
    assume s'': "kept D invar K S s' s''" "there K (nd_lookup D s'') t'" "present K (nd_lookup D s'') t'"
    then have "present K (nd_lookup D s'') (MBranch (ts[unat x := t']) w)"
      using kept_present [OF kept_trans [OF that s''(1)] assms(5)] by (simp add: list_all_update)
    then show "runs faulty (bindE (out (strm 0 (concat (map enc (map (ref K) (map (item_of K) (ts[unat x := t'])) @ [Str w]))))) (\<lambda>b. Inr (b, s'')))
      (\<lambda>(b, s'). b = node_of K (MBranch (ts[unat x := t']) w) \<and> kept D invar K S s s' \<and> present K (nd_lookup D s') (MBranch (ts[unat x := t']) w))"
      unfolding out using kept_trans [OF that s''(1)] by simp
  qed
  have "mergeAt K D (Suc fuel) s (node_of K (MBranch ts w)) h key v il
      = bindE (if \<not> il then killNode D s (node_of K (MBranch ts w)) h else Inr s) (\<lambda>s.
          bindE (merge_loop K D ?rc (enc (Lst (?rs @ [Str w]))) (unat x) 0 17 (strm 17 [], s)) (\<lambda>(st, s). bindE (out st) (\<lambda>b. Inr (b, s))))"
    using read_branch [OF n fits_node [OF h assms(4,3)]] x assms(6,7) ns_at_eq [OF assms(6), of 0]
    by (simp add: mergeAt.simps(2) ns_size_eq new_stream_strm n del: item_of.simps map_append enc.simps(2))
  then show ?thesis
    using step by (simp only:) (rule kill_first(2) [OF assms(2)])
qed

lemma mergeAt_clash:
  assumes "hash_ok K S" and "mwf t" and "msmall t" and "ns_ok key" and "clash t (nibs key)"
  shows "mergeAt K D (Suc fuel) s (node_of K t) h key v il =
    bindE (if shared (nibs key) (mkey t) \<noteq> 0 then cleve K D s (node_of K t) (shared (nibs key) (mkey t)) else branch K D s (node_of K t))
      (\<lambda>(b, s). bindE (RLP_of b) (\<lambda>r. mergeAt K D fuel s r (K r) key v True))"
proof -
  obtain leaf x where i: "item_of K t = Lst [Str (hp leaf (mkey t)), x]" "nibble_path (mkey t)"
    "if leaf then nibs key \<noteq> mkey t else \<not> prefix (mkey t) (nibs key)"
    using assms(2,5) unfolding clash_def by fastforce
  then have n: "node_of K t = enc (Lst [Str (hp leaf (mkey t)), x])"
    by simp
  note r = read_pair [OF n fits_node [OF hash_okD(1) [OF assms(1)] assms(3,2)] i(2)]
  show ?thesis
    using r assms(4) i(3)
    by (auto simp: mergeAt.simps(2) ns_equal_eq ns_contains_eq ns_shared_eq shared_def split: if_splits simp del: item_of.simps)
qed

lemma merges_empty: "length p < 2 ^ 32 \<Longrightarrow> length v < 2 ^ 32 \<Longrightarrow> merges faulty D invar K S MEmpty p v"
proof (rule mergesI, goal_cases)
  case (1 s key f h il)
  have "isEmpty (node_of K MEmpty)"
    by (simp add: ref_empty isEmpty_def isNull_def)
  then show ?case
    using 1 place_empty [of K S s key v] by (auto simp: mergeAt.simps(2) simp del: item_of.simps elim!: runs_mono)
qed

lemma merges_leaf:
  assumes "hash_ok K S" and "mwf (MLeaf p w)" and "msmall (MLeaf p w)" and "length v < 2 ^ 32"
  shows "merges faulty D invar K S (MLeaf p w) p v"
proof (rule mergesI, goal_cases)
  case (1 s key f h il)
  have n: "node_of K (MLeaf p w) = enc (Lst [Str (hp True p), Str w])"
    by simp
  have "mergeAt K D (Suc f) s (node_of K (MLeaf p w)) h key v il = place K D s (node_of K (MLeaf p w)) key v"
    using read_pair [OF n fits_node [OF hash_okD(1) [OF assms(1)] assms(3,2)]] 1 assms(2)
    by (simp add: mergeAt.simps(2) ns_equal_eq del: item_of.simps)
  then show ?case
    using place_leaf [OF assms(1) 1(1) assms(3,2,4)] by (auto simp: minsert_simps simp del: item_of.simps elim!: runs_mono)
qed

lemma merges_value:
  assumes "hash_ok K S" and "mwf (MBranch ts w)" and "msmall (MBranch ts w)" and "length v < 2 ^ 32"
  shows "merges faulty D invar K S (MBranch ts w) [] v"
proof (rule mergesI, goal_cases)
  case (1 s key f h il)
  have n: "node_of K (MBranch ts w) = enc (Lst (map (ref K) (map (item_of K) ts) @ [Str w]))"
    by simp
  have "mergeAt K D (Suc f) s (node_of K (MBranch ts w)) h key v il = place K D s (node_of K (MBranch ts w)) key v"
    using read_branch [OF n fits_node [OF hash_okD(1) [OF assms(1)] assms(3,2)]] 1 assms(2)
    by (simp add: mergeAt.simps(2) ns_size_eq del: item_of.simps)
  then show ?case
    using place_branch [OF assms(1) 1(1) assms(3,2,4), of key] kept_present [OF _ 1(2)]
    by (auto simp del: item_of.simps elim!: runs_mono)
qed

lemma merges_ext:
  assumes "hash_ok K S" and "mwf (MExt k t)" and "msmall (MExt k t)" and "prefix k p"
    and "merges faulty D invar K S t (drop (length k) p) v" and "node_of K (minsert t (drop (length k) p) v) \<in> S"
  shows "merges faulty D invar K S (MExt k t) p v"
proof (rule mergesI, goal_cases)
  case (1 s key f h il)
  let ?q = "drop (length k) p"
  have k: "present K (nd_lookup D s) t" "k \<noteq> []" "length k \<le> length p"
    using 1 assms(2) prefix_length_le [OF assms(4)] by simp_all
  then have f: "mfuel t ?q \<le> f"
    using 1(5) mfuel_simps(2) [of t ?q] assms(4) by (cases k) (auto simp: mfuel_def)
  have "runs faulty (mergeAt K D f s' (node_of K t) (K (node_of K t)) (ns_mid key (length k)) v il)
      (\<lambda>(b, s''). b = node_of K (minsert t ?q v) \<and> kept D invar K S s' s'' \<and> present K (nd_lookup D s'') (minsert t ?q v))"
    if "kept D invar K S s s'" for s' il
    using 1 k f kept_ok [OF that] kept_present [OF that k(1)]
    by (intro mergesD [OF assms(5)]) (simp_all add: nibs_mid ns_ok_mid)
  from mergeAt_ext [OF assms(1) 1(1) assms(2,3) 1(2,3) _ this assms(6)] show ?case
    using assms(4) 1(4) by (simp add: minsert_simps del: item_of.simps)
qed

lemma merges_below:
  assumes "hash_ok K S" and "mwf (MBranch ts w)" and "msmall (MBranch ts w)" and "nib x"
    and "merges faulty D invar K S (ts ! unat x) q v" and "node_of K (minsert (ts ! unat x) q v) \<in> S"
  shows "merges faulty D invar K S (MBranch ts w) (x # q) v"
proof (rule mergesI, goal_cases)
  case (1 s key f h il)
  let ?t = "ts ! unat x"
  have x: "present K (nd_lookup D s) ?t"
    using 1(2) assms(2) nib_index [OF assms(4)] by (simp add: list_all_length)
  have f: "mfuel ?t q \<le> f"
    using 1(5) mfuel_simps(2) [of ?t q] by (simp add: mfuel_simps)
  have "runs faulty (mergeAt K D f s' (node_of K ?t) (K (node_of K ?t)) (ns_mid key 1) v il)
      (\<lambda>(b, s''). b = node_of K (minsert ?t q v) \<and> kept D invar K S s' s'' \<and> present K (nd_lookup D s'') (minsert ?t q v))"
    if "kept D invar K S s s'" for s' il
    using 1 x f kept_ok [OF that] kept_present [OF that x] by (intro mergesD [OF assms(5)]) (simp_all add: nibs_mid ns_ok_mid)
  from mergeAt_below [OF assms(1) 1(1) assms(2,3) 1(2-4) this assms(6)] show ?case
    by (simp del: item_of.simps)
qed

text \<open>The two ways to split a pair, then once more from there.\<close>

lemma merges_split:
  assumes "hash_ok K S" and "clash t p" and "mwf t" and "msmall t" and "mwf u" and "msmall u" and "minsert u p v = minsert t p v"
    and "mfuel u p < mfuel t p"
    and step: "\<And>s. store_ok D invar K S s \<Longrightarrow> present K (nd_lookup D s) t \<Longrightarrow>
      runs faulty (if shared p (mkey t) \<noteq> 0 then cleve K D s (node_of K t) (shared p (mkey t)) else branch K D s (node_of K t))
        (\<lambda>(b, s'). b = node_of K u \<and> kept D invar K S s s' \<and> present K (nd_lookup D s') u)"
    and "merges faulty D invar K S u p v"
  shows "merges faulty D invar K S t p v"
proof (rule mergesI, goal_cases)
  case (1 s key f h il)
  have e: "mergeAt K D (Suc f) s (node_of K t) h key v il = bindE
      (if shared p (mkey t) \<noteq> 0 then cleve K D s (node_of K t) (shared p (mkey t)) else branch K D s (node_of K t))
      (\<lambda>(b, s). bindE (RLP_of b) (\<lambda>r. mergeAt K D f s r (K r) key v True))"
    using mergeAt_clash [OF assms(1,3,4) 1(3)] assms(2) 1(4) by simp
  show ?case
    unfolding e
  proof (rule runs_bind [OF step [OF 1(1,2)]], clarify)
    fix s'
    assume s': "kept D invar K S s s'" "present K (nd_lookup D s') u"
    have "runs faulty (mergeAt K D f s' (node_of K u) (K (node_of K u)) key v True)
        (\<lambda>(b, s''). b = node_of K (minsert u p v) \<and> kept D invar K S s' s'' \<and> present K (nd_lookup D s'') (minsert u p v))"
      using 1 kept_ok [OF s'(1)] s'(2) assms(8) by (intro mergesD [OF assms(10)]) simp_all
    then show "runs faulty (bindE (RLP_of (node_of K u)) (\<lambda>r. mergeAt K D f s' r (K r) key v True))
        (\<lambda>(b, s'). b = node_of K (minsert t p v) \<and> kept D invar K S s s' \<and> present K (nd_lookup D s') (minsert t p v))"
      using RLP_of_enc [OF fits_node [OF hash_okD(1) [OF assms(1)] assms(6,5)]] kept_trans [OF s'(1)] assms(7)
      by (auto simp del: item_of.simps elim!: runs_mono)
  qed
qed

lemma merges_cleave:
  assumes "hash_ok K S" and "clash t p" and "mwf t" and "msmall t" and n: "n = shared p (mkey t)" "n \<noteq> 0"
    and "node_of K (mbottom t n) \<in> S" and "node_of K (minsert (mbottom t n) (drop n p) v) \<in> S"
    and "merges faulty D invar K S (mbottom t n) (drop n p) v"
  shows "merges faulty D invar K S t p v"
proof -
  let ?k = "take n (mkey t)" and ?b = "mbottom t n"
  have b: "mwf ?b" "?b \<noteq> MEmpty" "msmall ?b" "nibble_path (mkey t)" "n \<le> length (mkey t)" "length (mkey t) < 2 ^ 32" "length ?k = n"
    using clash_bottom [OF assms(2,3)] clash_small [OF assms(2,4,3)] shared_le unfolding n by auto
  then have u: "mwf (MExt ?k ?b)" "msmall (MExt ?k ?b)"
    using n by (auto intro: nibble_path_sub)
  have k: "prefix ?k p"
    using shared_take [of p "mkey t"] take_is_prefix [of n p] unfolding n by simp
  obtain k w u where t: "mkey t = k" "t = MLeaf k w \<or> t = MExt k u"
    using assms(2) by (cases rule: clash_cases) auto
  show ?thesis
  proof (rule merges_split [OF assms(1-4) u])
    show "merges faulty D invar K S (MExt ?k ?b) p v"
      using assms(7-9) by (intro merges_ext [OF assms(1) u k]) (simp_all only: b(7))
    show "minsert (MExt ?k ?b) p v = minsert t p v"
      using n minsert_simps(2) [OF k, of ?b v, unfolded b(7)] by (simp add: minsert_clash [OF assms(2)])
    show "mfuel (MExt ?k ?b) p < mfuel t p"
      unfolding mfuel_simps(3) [OF assms(2)] using k by (simp add: mfuel_def)
    show "runs faulty (if shared p (mkey t) \<noteq> 0 then cleve K D s (node_of K t) (shared p (mkey t)) else branch K D s (node_of K t))
        (\<lambda>(b, s'). b = node_of K (MExt ?k ?b) \<and> kept D invar K S s s' \<and> present K (nd_lookup D s') (MExt ?k ?b))"
      if "store_ok D invar K S s" "present K (nd_lookup D s) t" for s
      using cleve_runs [OF assms(1) that(1) assms(3,4) that(2) t(2), of n] b assms(7) n t(1) by simp
  qed
qed

lemma merges_branch:
  assumes "hash_ok K S" and "clash t p" and "mwf t" and "msmall t" and "shared p (mkey t) = 0" and "nibble_path p"
    and "set (writes K t p v) \<subseteq> S" and "merges faulty D invar K S (MBranch (mchildren t) (mvalue t)) p v"
  shows "merges faulty D invar K S t p v"
proof -
  let ?u = "MBranch (mchildren t) (mvalue t)"
  obtain k w u where t: "t = MLeaf k w \<or> t = MExt k u"
    using assms(2) by (cases rule: clash_cases) auto
  have c: "node_of K c \<in> S" if "c \<in> set (mchildren t)" "c \<noteq> MEmpty" for c
    using clash_children [OF assms(2,3,5,6) that, of v] assms(7) by (auto simp: writes_def)
  show ?thesis
  proof (rule merges_split [OF assms(1-4)])
    show "mwf ?u" "msmall ?u" "minsert ?u p v = minsert t p v" "mfuel ?u p < mfuel t p"
      using mwf_children [OF assms(3)] clash_small(2) [OF assms(2,4,3)] assms(5)
      by (simp_all add: minsert_clash [OF assms(2)] mfuel_simps(1) mfuel_simps(3) [OF assms(2)])
    show "runs faulty (if shared p (mkey t) \<noteq> 0 then cleve K D s (node_of K t) (shared p (mkey t)) else branch K D s (node_of K t))
        (\<lambda>(b, s'). b = node_of K ?u \<and> kept D invar K S s s' \<and> present K (nd_lookup D s') ?u)"
      if "store_ok D invar K S s" "present K (nd_lookup D s) t" for s
      using branch_runs [OF assms(1) that(1) assms(3,4) that(2) t c] assms(5) by simp
  qed (rule assms(8))
qed

lemma merges_all:
  assumes "hash_ok K S" and "mwf t" and "msmall t" and "nibble_path p" and "length p < 2 ^ 32" and "length v < 2 ^ 32"
    and "set (writes K t p v) \<subseteq> S"
  shows "merges faulty D invar K S t p v"
  using assms(2-)
proof (induction t p v rule: minsert_induct)
  case (Ext k t p v)
  have "set (writes K t (drop (length k) p) v) \<subseteq> S" "node_of K (minsert t (drop (length k) p) v) \<in> S"
    using Ext.prems(6) Ext.hyps msub_self [of "minsert t (drop (length k) p) v"] by (auto simp: writes_def minsert_simps)
  then show ?case
    using Ext by (intro merges_ext [OF assms(1)]) (simp_all add: nibble_path_sub)
next
  case (Below ts w x q v)
  have "set (writes K (ts ! unat x) q v) \<subseteq> S" "node_of K (minsert (ts ! unat x) q v) \<in> S"
    using Below.prems(1,3,6) nib_index [of x] msub_self [of "minsert (ts ! unat x) q v"]
      set_update_memI [of "unat x" ts "minsert (ts ! unat x) q v"] by (auto simp: writes_def)
  then show ?case
    using Below nib_index [of x] by (intro merges_below [OF assms(1)]) (simp_all add: list_all_length)
next
  case (Cleave t p v)
  let ?n = "shared p (mkey t)"
  have "set (writes K (mbottom t ?n) (drop ?n p) v) \<subseteq> S" "node_of K (minsert (mbottom t ?n) (drop ?n p) v) \<in> S"
    "node_of K (mbottom t ?n) \<in> S"
    using Cleave.prems(6) Cleave.hyps msub_self [of "minsert (mbottom t ?n) (drop ?n p) v"]
    by (auto simp: writes_def minsert_clash mbottoms_clash)
  then show ?case
    using Cleave clash_bottom [OF Cleave.hyps(1) Cleave.prems(1)] clash_small [OF Cleave.hyps(1) Cleave.prems(2,1)]
    by (intro merges_cleave [OF assms(1) Cleave.hyps(1) _ _ refl]) (simp_all add: nibble_path_sub)
next
  case (Branch t p v)
  have "mbottoms (MBranch (mchildren t) (mvalue t)) p = []"
    using clash_slot [of t] Branch mwf_children(2) by (cases p) auto
  then have "set (writes K (MBranch (mchildren t) (mvalue t)) p v) \<subseteq> S"
    using Branch by (simp add: writes_def minsert_clash)
  then show ?case
    using Branch mwf_children [OF Branch.prems(1)] clash_small [OF Branch.hyps(1) Branch.prems(2,1)]
    by (intro merges_branch [OF assms(1) Branch.hyps(1)]) simp_all
qed (simp_all add: merges_empty merges_leaf merges_value assms(1))

end

end
