(* ===== verification/TrieMap.thy ===== *)
theory TrieMap
  imports TrieInsert
begin

text \<open>
  \<^verbatim>\<open>GenericTrieDB\<close> as a finite map: insertion and lookup from the root, over the in-memory store and over
  the overlay on a database whose calls may fail.
\<close>

section \<open>Definitions\<close>

text \<open>The two stores that the program gives to the trie.\<close>

definition memory_nodes :: "MemoryDB node_db" where
  "memory_nodes = \<lparr>nd_lookup = (\<lambda>db h. Inr (MemoryDB_lookup db h)), nd_exists = (\<lambda>db h. Inr (MemoryDB_exists db h)),
    nd_insert = MemoryDB_insert, nd_kill = (\<lambda>db h. Inr (snd (MemoryDB_kill db h)))\<rparr>"

definition overlay_nodes :: "'d DatabaseFace \<Rightarrow> 'd OverlayDB node_db" where
  "overlay_nodes F = \<lparr>nd_lookup = OverlayDB_lookup F, nd_exists = OverlayDB_exists F,
    nd_insert = MemoryDB_insert, nd_kill = OverlayDB_kill F\<rparr>"

text \<open>A trie whose root is the node of \<open>t\<close>, with every node below it in the store.\<close>

definition holds :: "'s node_db \<Rightarrow> ('s \<Rightarrow> bool) \<Rightarrow> (bytes \<Rightarrow> h256) \<Rightarrow> bytes set \<Rightarrow> 's trie \<Rightarrow> mpt \<Rightarrow> bool" where
  "holds D invar K S tr t \<longleftrightarrow> store_ok D invar K S (t_db tr) \<and> nd_lookup D (t_db tr) (m_root tr) = Inr (node_of K t)
    \<and> present K (nd_lookup D (t_db tr)) t \<and> mwf t \<and> msmall t"

text \<open>A sequence of insertions, with fuel for the longest path, and all nodes that it writes.\<close>

fun insert_all :: "(bytes \<Rightarrow> h256) \<Rightarrow> 's node_db \<Rightarrow> 's trie \<Rightarrow> (bytes \<times> bytes) list \<Rightarrow> trie_error + 's trie" where
  "insert_all K D tr [] = Inr tr"
| "insert_all K D tr ((k, v) # kvs) = bindE (trie_insert K D (4 * length k + 2) tr k v) (\<lambda>tr. insert_all K D tr kvs)"

fun history :: "(bytes \<Rightarrow> h256) \<Rightarrow> mpt \<Rightarrow> (bytes \<times> bytes) list \<Rightarrow> bytes list" where
  "history K t [] = [node_of K t]"
| "history K t ((k, v) # kvs) = node_of K t # writes K t (asNibbles k) v @ history K (minsert t (asNibbles k) v) kvs"

fun tree_run :: "mpt \<Rightarrow> (bytes \<times> bytes) list \<Rightarrow> mpt" where
  "tree_run t [] = t"
| "tree_run t ((k, v) # kvs) = tree_run (minsert t (asNibbles k) v) kvs"

definition small_entry :: "bytes \<times> bytes \<Rightarrow> bool" where
  "small_entry kv \<longleftrightarrow> length (fst kv) < 2 ^ 31 \<and> length (snd kv) < 2 ^ 32"

section \<open>Paths\<close>

lemma nibble_path_asNibbles [simp]: "nibble_path (asNibbles k)"
  by (simp add: nibble_path_def nib_asNibbles)

lemma nibbles_byte_eq: "(b :: byte) div 16 = c div 16 \<Longrightarrow> b mod 16 = c mod 16 \<Longrightarrow> b = c"
  by (metis div_mult_mod_eq)

lemma asNibbles_inj: "asNibbles k = asNibbles l \<longleftrightarrow> k = l"
proof (induction k arbitrary: l)
  case Nil
  then show ?case
    by (cases l) simp_all
next
  case (Cons b k)
  then show ?case
    by (cases l) (auto dest: nibbles_byte_eq)
qed

section \<open>The trie over a store\<close>

lemma holds_at:
  assumes "hash32 K" and "holds D invar K S tr t" and "2 * length key < fuel"
  shows "trie_at D fuel tr key = Inr (mlookup t (asNibbles key))"
proof -
  have h: "mwf t" "msmall t" "present K (nd_lookup D (t_db tr)) t"
    using assms(2) by (simp_all add: holds_def)
  have "trie_at D fuel tr key = atAux D fuel (t_db tr) (node_of K t) (ns key 0)"
    using assms(2) RLP_of_enc [OF fits_node [OF assms(1) h(2,1)]] by (simp add: trie_at_def holds_def node_def)
  then show ?thesis
    using atAux_correct [OF assms(1) h, of "ns key 0" fuel] assms(3) by (simp add: nibs_ns)
qed

context trie_store
begin

lemma trie_insert_runs:
  assumes "hash_ok K S" and "holds D invar K S tr t" and "small_entry (key, v)" and "set (writes K t (asNibbles key) v) \<subseteq> S"
    and "4 * length key + 2 \<le> fuel"
  shows "runs faulty (trie_insert K D fuel tr key v) (\<lambda>tr'. holds D invar K S tr' (minsert t (asNibbles key) v))"
proof -
  let ?p = "asNibbles key" and ?t = "minsert t (asNibbles key) v"
  have h: "store_ok D invar K S (t_db tr)" "nd_lookup D (t_db tr) (m_root tr) = Inr (node_of K t)"
    "present K (nd_lookup D (t_db tr)) t" "mwf t" "msmall t"
    using assms(2) by (simp_all add: holds_def)
  have s: "length ?p < 2 ^ 32" "length v < 2 ^ 32"
    using assms(3) by (simp_all add: small_entry_def)
  have t: "mwf ?t" "msmall ?t"
    using h(4,5) s by (simp_all add: minsert_wf minsert_small)
  have S: "node_of K ?t \<in> S"
    using assms(4) msub_self [of ?t] by (auto simp: writes_def)
  have fin: "runs faulty (bindE (if length (node_of K t) < 32 then forceKillNode D s (m_root tr) else Inr s)
      (\<lambda>s. let (h, s) = forceInsertNode K D s (node_of K ?t) in Inr \<lparr>m_root = h, t_db = s\<rparr>)) (\<lambda>tr'. holds D invar K S tr' ?t)"
    if "kept D invar K S (t_db tr) s" "present K (nd_lookup D s) ?t" for s
  proof -
    have "runs faulty (if length (node_of K t) < 32 then forceKillNode D s (m_root tr) else Inr s) (kept D invar K S s)"
      using killNode_runs(1) [OF kept_ok [OF that(1)]] kept_refl [OF kept_ok [OF that(1)]] by simp
    then show ?thesis
    proof (rule runs_bind)
      fix s'
      assume s': "kept D invar K S s s'"
      note i = insertNode_kept [OF assms(1) kept_ok [OF s'] S enc_not_Nil(1)]
      then show "runs faulty (let (h, s) = forceInsertNode K D s' (node_of K ?t) in Inr \<lparr>m_root = h, t_db = s\<rparr>) (\<lambda>tr'. holds D invar K S tr' ?t)"
        using kept_present [OF kept_trans [OF s' i(1)] that(2)] kept_ok [OF i(1)] t by (simp add: forceInsertNode_def holds_def)
    qed
  qed
  have "runs faulty (mergeAt K D fuel (t_db tr) (node_of K t) (m_root tr) (ns key 0) v False)
      (\<lambda>(b, s'). b = node_of K ?t \<and> kept D invar K S (t_db tr) s' \<and> present K (nd_lookup D s') ?t)"
    using mergesD [OF merges_all [OF assms(1) h(4,5) nibble_path_asNibbles s assms(4)] h(1,3), of "ns key 0" fuel "m_root tr" False]
      mfuel_simps(2) [of t ?p] assms(5) by (simp add: nibs_ns)
  then have "runs faulty (bindE (mergeAt K D fuel (t_db tr) (node_of K t) (m_root tr) (ns key 0) v False) (\<lambda>(b, s).
      bindE (if length (node_of K t) < 32 then forceKillNode D s (m_root tr) else Inr s)
      (\<lambda>s. let (h, s) = forceInsertNode K D s b in Inr \<lparr>m_root = h, t_db = s\<rparr>))) (\<lambda>tr'. holds D invar K S tr' ?t)"
    by (rule runs_bind) (clarify, rule fin)
  then show ?thesis
    using RLP_of_enc [OF fits_node [OF hash_okD(1) [OF assms(1)] h(5,4)]] h(2) by (simp add: trie_insert_def node_def)
qed

lemma insert_all_runs:
  assumes "hash_ok K S" and "holds D invar K S tr t" and "list_all small_entry kvs" and "set (history K t kvs) \<subseteq> S"
  shows "runs faulty (insert_all K D tr kvs) (\<lambda>tr'. holds D invar K S tr' (tree_run t kvs))"
  using assms(2-)
proof (induction kvs arbitrary: tr t)
  case (Cons kv kvs)
  obtain k v where kv: "kv = (k, v)"
    by (cases kv)
  have "runs faulty (trie_insert K D (4 * length k + 2) tr k v) (\<lambda>tr'. holds D invar K S tr' (minsert t (asNibbles k) v))"
    using Cons.prems kv by (intro trie_insert_runs [OF assms(1)]) simp_all
  then show ?case
    using Cons kv by (auto elim!: runs_bind)
qed simp

end

interpretation memory: trie_store memory_nodes "\<lambda>db. \<not> m_enforceRefs db" False
  by unfold_locales (auto simp: memory_nodes_def mdb.lookup_insert mdb.lookup_kill MemoryDB_lookup_insert MemoryDB_lookup_kill)

interpretation overlay: trie_store "overlay_nodes F" "\<lambda>ov. \<not> m_enforceRefs ov" True
  for F :: "'d DatabaseFace"
  by unfold_locales
    (auto simp: overlay_nodes_def odb.lookup_insert intro: odb.lookup_kill dest: odb.kill_invar)

section \<open>What a sequence of insertions leaves\<close>

lemma tree_run_wf: "mwf t \<Longrightarrow> mwf (tree_run t kvs)"
  by (induction t kvs rule: tree_run.induct) (simp_all add: minsert_wf)

lemma tree_run_lookup:
  assumes "mwf t"
  shows "mlookup (tree_run t kvs) (asNibbles key) = (case map_of (rev kvs) key of Some v \<Rightarrow> v | None \<Rightarrow> mlookup t (asNibbles key))"
  using assms
  by (induction t kvs rule: tree_run.induct)
    (auto simp: minsert_wf mlookup_minsert asNibbles_inj map_add_def split: option.split)

lemma runs_False: "runs False m P \<Longrightarrow> \<exists>x. m = Inr x \<and> P x"
  by (simp add: runs_def)

lemma trie_init_holds:
  assumes "hash_ok K S" and "RLPNull \<in> S"
  obtains tr where "trie_init K memory_nodes 1 \<lparr>m_root = h, t_db = MemoryDB_empty\<rparr> = Inr tr"
    "holds memory_nodes (\<lambda>db. \<not> m_enforceRefs db) K S tr MEmpty"
proof -
  let ?s = "MemoryDB_insert MemoryDB_empty (K RLPNull) RLPNull"
  have e: "store_ok memory_nodes (\<lambda>db. \<not> m_enforceRefs db) K S MemoryDB_empty"
    by (simp add: store_ok_def addressed_def memory_nodes_def MemoryDB_lookup_def MemoryDB_empty_def)
  have l: "MemoryDB_lookup ?s (K RLPNull) = RLPNull" "MemoryDB_exists ?s (K RLPNull)"
    by (simp_all add: MemoryDB_lookup_def MemoryDB_exists_def MemoryDB_insert_def MemoryDB_empty_def)
  have "trie_init K memory_nodes 1 \<lparr>m_root = h, t_db = MemoryDB_empty\<rparr> = Inr \<lparr>m_root = K RLPNull, t_db = ?s\<rparr>"
    using l by (simp add: trie_init_def forceInsertNode_def EmptyTrie_def memory_nodes_def node_def RLPNull_def)
  moreover have "kept memory_nodes (\<lambda>db. \<not> m_enforceRefs db) K S MemoryDB_empty ?s"
    using memory.insertNode_kept(1) [OF assms(1) e assms(2)] by (simp add: RLPNull_def memory_nodes_def)
  then have "holds memory_nodes (\<lambda>db. \<not> m_enforceRefs db) K S \<lparr>m_root = K RLPNull, t_db = ?s\<rparr> MEmpty"
    using l(1) by (simp add: holds_def kept_def memory_nodes_def ref_empty RLPNull_def)
  ultimately show ?thesis
    by (rule that)
qed

lemma history_null: "RLPNull \<in> set (history K MEmpty kvs)"
proof -
  have "node_of K MEmpty = RLPNull"
    by (simp add: ref_empty RLPNull_def)
  then show ?thesis
    by (cases "(K, MEmpty, kvs)" rule: history.cases) (simp_all del: item_of.simps)
qed

text \<open>A stand-in for the hash function, to run the model on examples: the length and the first bytes.\<close>

definition pad_hash :: "bytes \<Rightarrow> h256" where
  "pad_hash b = of_nat (length b) # take 31 (b @ replicate 31 0)"

lemma pad_hash_32: "hash32 pad_hash"
  by (auto simp: hash32_def pad_hash_def)

definition no_collision :: "(bytes \<Rightarrow> h256) \<Rightarrow> bytes list \<Rightarrow> bool" where
  "no_collision K bs \<longleftrightarrow> distinct (map K (remdups bs))"

lemma no_collision_inj: "no_collision K bs \<Longrightarrow> inj_on K (set bs)"
  by (simp add: no_collision_def distinct_map)

definition example_entries :: "(bytes \<times> bytes) list" where
  "example_entries = [([0x12], replicate 33 1), ([0x13], [7]), ([0x12], [5, 6])]"

lemma example_no_collision: "no_collision pad_hash (history pad_hash MEmpty example_entries)"
  by code_simp

section \<open>Properties\<close>

text \<open>
  Claim C4. The trie is a map: after any sequence of insertions into a new trie over the in-memory
  store, every insertion has succeeded and looking up a key gives the last value that was inserted
  under it, or the empty string, provided that the hash function has 32 bytes and no collision
  on the nodes that were written.  Two calls for each nibble of the key, and two more, are enough.
\<close>
theorem trie_is_map:
  assumes "hash_ok K (set (history K MEmpty kvs))" and "list_all small_entry kvs" and "2 * length key < fuel"
  shows "\<exists>new tr. trie_init K memory_nodes 1 \<lparr>m_root = h, t_db = MemoryDB_empty\<rparr> = Inr new
    \<and> insert_all K memory_nodes new kvs = Inr tr
    \<and> trie_at memory_nodes fuel tr key = Inr (case map_of (rev kvs) key of Some v \<Rightarrow> v | None \<Rightarrow> [])"
proof -
  obtain new where new: "trie_init K memory_nodes 1 \<lparr>m_root = h, t_db = MemoryDB_empty\<rparr> = Inr new"
    "holds memory_nodes (\<lambda>db. \<not> m_enforceRefs db) K (set (history K MEmpty kvs)) new MEmpty"
    by (rule trie_init_holds [OF assms(1) history_null])
  obtain tr where tr: "insert_all K memory_nodes new kvs = Inr tr"
    "holds memory_nodes (\<lambda>db. \<not> m_enforceRefs db) K (set (history K MEmpty kvs)) tr (tree_run MEmpty kvs)"
    using runs_False [OF memory.insert_all_runs [OF assms(1) new(2) assms(2) order_refl]] by blast
  show ?thesis
    using new(1) tr(1) holds_at [OF hash_okD(1) [OF assms(1)] tr(2) assms(3)] tree_run_lookup [of MEmpty kvs key]
    by (simp split: option.split)
qed

theorem trie_is_map_witness:
  "\<exists>new tr. trie_init pad_hash memory_nodes 1 \<lparr>m_root = [], t_db = MemoryDB_empty\<rparr> = Inr new
    \<and> insert_all pad_hash memory_nodes new example_entries = Inr tr \<and> trie_at memory_nodes 5 tr [0x12] = Inr [5, 6]"
proof -
  have "hash_ok pad_hash (set (history pad_hash MEmpty example_entries))"
    unfolding hash_ok_def by (intro conjI pad_hash_32 no_collision_inj example_no_collision)
  from trie_is_map [OF this, of "[0x12]" 5 "[]"] show ?thesis
    by (simp add: example_entries_def small_entry_def)
qed

text \<open>
  Claim C5. Over the overlay on a database, insertion into a trie whose nodes are in the store either
  reports an error of the database or gives a trie in which the key has the new value and every other
  key has the value it had; the nodes of the new trie are in the store.
\<close>
theorem overlay_insert:
  assumes "hash_ok K S" and "holds (overlay_nodes F) (\<lambda>ov. \<not> m_enforceRefs ov) K S tr t" and "small_entry (key, v)"
    and "set (writes K t (asNibbles key) v) \<subseteq> S" and "4 * length key + 2 \<le> fuel"
  shows "(\<exists>e. trie_insert K (overlay_nodes F) fuel tr key v = Inl (TE_DB e))
    \<or> (\<exists>tr'. trie_insert K (overlay_nodes F) fuel tr key v = Inr tr'
        \<and> holds (overlay_nodes F) (\<lambda>ov. \<not> m_enforceRefs ov) K S tr' (minsert t (asNibbles key) v)
        \<and> trie_at (overlay_nodes F) (2 * length q + 1) tr' q
            = (if q = key then Inr v else trie_at (overlay_nodes F) (2 * length q + 1) tr q))"
proof -
  have "mwf t"
    using assms(2) by (simp add: holds_def)
  then have l: "mlookup (minsert t (asNibbles key) v) (asNibbles q) = (if q = key then v else mlookup t (asNibbles q))"
    by (simp add: mlookup_minsert asNibbles_inj)
  have at: "trie_at (overlay_nodes F) (2 * length q + 1) tr q = Inr (mlookup t (asNibbles q))"
    by (rule holds_at [OF hash_okD(1) [OF assms(1)] assms(2)]) simp
  have "trie_at (overlay_nodes F) (2 * length q + 1) tr' q = Inr (mlookup (minsert t (asNibbles key) v) (asNibbles q))"
    if "holds (overlay_nodes F) (\<lambda>ov. \<not> m_enforceRefs ov) K S tr' (minsert t (asNibbles key) v)" for tr'
    by (rule holds_at [OF hash_okD(1) [OF assms(1)] that]) simp
  then show ?thesis
    using overlay.trie_insert_runs [OF assms] l at unfolding runs_def by auto
qed

definition example_overlay :: "(bytes \<rightharpoonup> bytes) OverlayDB trie" where
  "example_overlay = \<lparr>m_root = pad_hash RLPNull,
    t_db = \<lparr>m_main = [(pad_hash RLPNull, RLPNull, 1)], m_aux = [], m_enforceRefs = False, m_db = Some Map.empty\<rparr>\<rparr>"

lemma example_overlay_holds:
  assumes "RLPNull \<in> S"
  shows "holds (overlay_nodes (LevelDB_face table_engine)) (\<lambda>ov. \<not> m_enforceRefs ov) pad_hash S example_overlay MEmpty"
  using assms
  by (auto simp: holds_def store_ok_def addressed_def overlay_nodes_def example_overlay_def OverlayDB_lookup_def MemoryDB_lookup_def
    ref_empty RLPNull_def table_face split: if_splits)

lemma example_overlay_runs:
  "case trie_insert pad_hash (overlay_nodes (LevelDB_face table_engine)) 6 example_overlay [3] [4] of Inl _ \<Rightarrow> False | Inr _ \<Rightarrow> True"
  by code_simp

theorem overlay_insert_witness:
  "\<exists>tr'. trie_insert pad_hash (overlay_nodes (LevelDB_face table_engine)) 6 example_overlay [3] [4] = Inr tr'
    \<and> trie_at (overlay_nodes (LevelDB_face table_engine)) 3 tr' [3] = Inr [4]"
proof -
  let ?S = "set (history pad_hash MEmpty [([3], [4])])"
  have "no_collision pad_hash (history pad_hash MEmpty [([3], [4])])"
    by code_simp
  then have "hash_ok pad_hash ?S"
    unfolding hash_ok_def by (intro conjI pad_hash_32 no_collision_inj)
  moreover have "set (writes pad_hash MEmpty (asNibbles [3]) [4]) \<subseteq> ?S"
    by (auto simp del: asNibbles.simps)
  ultimately show ?thesis
    using overlay_insert [OF _ example_overlay_holds [OF history_null], where key = "[3]" and v = "[4]" and fuel = 6 and q = "[3]"]
      example_overlay_runs
    by (fastforce simp: small_entry_def split: sum.splits)
qed

text \<open>
  Claim C32. Removing a key that continues below a leaf whose value is longer than 32 bytes throws
  \<^verbatim>\<open>BadCast\<close> instead of reporting that the key is absent: \<^verbatim>\<open>deleteAt\<close> does not ask whether the pair is
  a leaf before it moves down, and reads the leaf's value as the hash of a node.
\<close>
theorem remove_below_leaf:
  assumes "mwf (MLeaf k v)" and "msmall (MLeaf k v)" and "32 < length v" and "ns_ok key" and "prefix k (nibs key)" and "nibs key \<noteq> k"
  shows "deleteAt K D (Suc fuel) s (node_of K (MLeaf k v)) key = Inl (TE_RLP BadCast)"
proof -
  have n: "node_of K (MLeaf k v) = enc (Lst [Str (hp True k), Str v])"
    by simp
  have "length (encStr (hp True k)) + length (encStr v) < 2 ^ 60"
    using assms(2) length_encStr_le [of "hp True k"] length_encStr_le [of v] length_hp_le [of True k] by simp
  then have f: "fits (node_of K (MLeaf k v))" "fits (encStr v)" "length (encStr (hp True k)) < 2 ^ 60"
    using length_header_le [of "length (encStr (hp True k)) + length (encStr v)" "0xc0"] by (simp_all add: n fits_def)
  note r = read_pair [OF n f(1)]
  have "put_rlp (strm 2 []) (encStr (hp True k)) = Inr (strm (Suc 0) (encStr (hp True k)))"
    using put_rlp_strm [of "[]" "encStr (hp True k)" "Suc 0"] f(3) by (simp add: Suc_1 [unfolded One_nat_def])
  moreover have "toHash256 (encStr v) = Inl (TE_RLP BadCast)"
    using payload_encStr [OF f(2), of "[]"] isData_encStr [OF f(2), of "[]"] assms(3)
      requireGood_of_length [of "encStr v" "length v"] enc_not_Nil [of "Str v"]
    by (simp add: toHash256_def toHash_def)
  ultimately show ?thesis
    using r assms isEmpty_encStr [OF f(2)] isData_encStr [OF f(2), of "[]"]
    by (auto simp: ns_equal_eq ns_contains_eq new_stream_strm deleteAtAux_def deref_def simp del: item_of.simps)
qed

theorem remove_below_leaf_witness:
  "deleteAt pad_hash memory_nodes 1 MemoryDB_empty (node_of pad_hash (MLeaf [1] (replicate 33 7))) (ns [0x12] 0)
    = Inl (TE_RLP BadCast)"
  using remove_below_leaf [of "[1]" "replicate 33 7" "ns [0x12] 0" pad_hash memory_nodes 0 MemoryDB_empty] by (simp add: nibs_ns nib_def)

end
