(* ===== verification/HashCommon.thy ===== *)
theory HashCommon
  imports Prelude
begin

unbundle bit_operations_syntax

text \<open>
  \<^verbatim>\<open>src/src/crypto/common.h\<close> (integers in little- and big-endian byte order) and what the hash
  classes of \<^verbatim>\<open>src/src/crypto\<close> have in common: a chaining value, a buffer with the incomplete
  block, a byte counter, and a \<^verbatim>\<open>Write\<close> that works on whole blocks directly from its argument.
  The locale \<open>md_hasher\<close> is the contract of such a class: after any sequence of writes the
  object represents the concatenation of what was written.
\<close>

section \<open>Definitions\<close>

subsection \<open>Byte order\<close>

text \<open>The value of little-endian digits, and the first \<open>n\<close> digits of a number.\<close>

primrec le_val :: "bytes \<Rightarrow> nat" where
  "le_val [] = 0"
| "le_val (b # bs) = unat b + 256 * le_val bs"

definition le_bytes :: "nat \<Rightarrow> nat \<Rightarrow> bytes" where
  "le_bytes n x = map (\<lambda>i. of_nat (x div 256 ^ i)) [0..<n]"

definition ReadLE16 :: "bytes \<Rightarrow> 16 word" where
  "ReadLE16 ptr = of_nat (le_val (take 2 ptr))"

definition ReadLE32 :: "bytes \<Rightarrow> u32" where
  "ReadLE32 ptr = of_nat (le_val (take 4 ptr))"

definition ReadLE64 :: "bytes \<Rightarrow> u64" where
  "ReadLE64 ptr = of_nat (le_val (take 8 ptr))"

definition WriteLE16 :: "16 word \<Rightarrow> bytes" where
  "WriteLE16 x = le_bytes 2 (unat x)"

definition WriteLE32 :: "u32 \<Rightarrow> bytes" where
  "WriteLE32 x = le_bytes 4 (unat x)"

definition WriteLE64 :: "u64 \<Rightarrow> bytes" where
  "WriteLE64 x = le_bytes 8 (unat x)"

definition ReadBE32 :: "bytes \<Rightarrow> u32" where
  "ReadBE32 ptr = of_nat (le_val (rev (take 4 ptr)))"

definition ReadBE64 :: "bytes \<Rightarrow> u64" where
  "ReadBE64 ptr = of_nat (le_val (rev (take 8 ptr)))"

definition WriteBE32 :: "u32 \<Rightarrow> bytes" where
  "WriteBE32 x = rev (le_bytes 4 (unat x))"

definition WriteBE64 :: "u64 \<Rightarrow> bytes" where
  "WriteBE64 x = rev (le_bytes 8 (unat x))"

subsection \<open>The common part of the hash classes\<close>

record 'w hasher =
  hs_s :: "'w list"
  hs_buf :: bytes
  hs_bytes :: u64

text \<open>
  The loop over the whole blocks of the argument, and \<^verbatim>\<open>Write\<close> of a class whose block has \<open>n\<close>
  bytes and whose compression function is \<open>Transform\<close>.
\<close>

function write_chunks :: "nat \<Rightarrow> ('w list \<Rightarrow> bytes \<Rightarrow> 'w list) \<Rightarrow> 'w hasher \<Rightarrow> bytes \<Rightarrow> 'w hasher \<times> bytes" where
  "write_chunks n Transform h data =
    (if 0 < n \<and> n \<le> length data
     then write_chunks n Transform (h\<lparr>hs_s := Transform (hs_s h) data, hs_bytes := hs_bytes h + of_nat n\<rparr>) (drop n data)
     else (h, data))"
  by pat_completeness auto
termination
  by (relation "measure (\<lambda>(n, t, h, data). length data)") auto

definition chunked_Write :: "nat \<Rightarrow> ('w list \<Rightarrow> bytes \<Rightarrow> 'w list) \<Rightarrow> 'w hasher \<Rightarrow> bytes \<Rightarrow> 'w hasher" where
  "chunked_Write n Transform h data =
    (let bufsize = unat (hs_bytes h) mod n;
         (h, data, bufsize) =
           (if bufsize \<noteq> 0 \<and> n \<le> bufsize + length data
            then (let b = overwrite (hs_buf h) bufsize (take (n - bufsize) data) in
              (h\<lparr>hs_s := Transform (hs_s h) b, hs_buf := b, hs_bytes := hs_bytes h + of_nat (n - bufsize)\<rparr>,
               drop (n - bufsize) data, 0))
            else (h, data, bufsize));
         (h, data) = write_chunks n Transform h data
     in if data \<noteq> []
        then h\<lparr>hs_buf := overwrite (hs_buf h) bufsize data, hs_bytes := hs_bytes h + of_nat (length data)\<rparr>
        else h)"

subsection \<open>The specification\<close>

text \<open>The iterated compression function, with the incomplete block that is left.\<close>

function absorb :: "nat \<Rightarrow> ('s \<Rightarrow> bytes \<Rightarrow> 's) \<Rightarrow> 's \<Rightarrow> bytes \<Rightarrow> 's \<times> bytes" where
  "absorb n f s d = (if 0 < n \<and> n \<le> length d then absorb n f (f s (take n d)) (drop n d) else (s, d))"
  by pat_completeness auto
termination
  by (relation "measure (\<lambda>(n, f, s, d). length d)") auto

text \<open>
  Merkle-Damgard strengthening: a one bit, the least number of zero bits and the length in bits
  in \<open>k\<close> bytes complete the last block of \<open>n\<close> bytes.
\<close>

definition md_pad :: "nat \<Rightarrow> nat \<Rightarrow> (nat \<Rightarrow> bytes) \<Rightarrow> bytes \<Rightarrow> bytes" where
  "md_pad n k len m =
    m @ 0x80 # replicate (nat ((int n - int k - 1 - int (length m)) mod int n)) 0 @ len (8 * length m)"

definition md_digest ::
  "nat \<Rightarrow> nat \<Rightarrow> (nat \<Rightarrow> bytes) \<Rightarrow> ('w list \<Rightarrow> bytes \<Rightarrow> 'w list) \<Rightarrow> 'w list \<Rightarrow> bytes \<Rightarrow> 'w list" where
  "md_digest n k len f init m = fst (absorb n f init (md_pad n k len m))"

text \<open>A hash object represents the bytes written to it so far.\<close>

definition represents :: "nat \<Rightarrow> ('w list \<Rightarrow> bytes \<Rightarrow> 'w list) \<Rightarrow> 'w list \<Rightarrow> 'w hasher \<Rightarrow> bytes \<Rightarrow> bool" where
  "represents n f init h m \<longleftrightarrow>
    length (hs_buf h) = n \<and> hs_bytes h = of_nat (length m)
    \<and> absorb n f init m = (hs_s h, take (length m mod n) (hs_buf h))"

section \<open>Lemmas\<close>

subsection \<open>Byte order\<close>

lemma le_val_append: "le_val (xs @ ys) = le_val xs + 256 ^ length xs * le_val ys"
  by (induction xs) (simp_all add: algebra_simps)

lemma le_val_less: "le_val bs < 256 ^ length bs"
proof (induction bs)
  case (Cons b bs)
  then have "unat b + 256 * le_val bs < 256 * 256 ^ length bs"
    using unat_lt_256 [of b] by linarith
  then show ?case
    by simp
qed simp

lemma le_val_pos: "bs \<noteq> [] \<Longrightarrow> last bs \<noteq> 0 \<Longrightarrow> 0 < le_val bs"
  by (induction bs) (auto simp: unat_gt_0 split: if_splits)

lemma length_le_bytes [simp]: "length (le_bytes n x) = n"
  by (simp add: le_bytes_def)

lemma le_bytes_Suc: "le_bytes (Suc n) x = of_nat x # le_bytes n (x div 256)"
  by (simp add: le_bytes_def upt_conv_Cons map_Suc_upt [symmetric] div_mult2_eq del: upt_Suc)

lemma le_val_le_bytes: "le_val (le_bytes n x) = x mod 256 ^ n"
proof (induction n arbitrary: x)
  case (Suc n)
  then show ?case
    by (simp add: le_bytes_Suc unat_of_nat mod_mult2_eq)
qed (simp add: le_bytes_def)

lemma length_Write [simp]:
  "length (WriteLE16 v) = 2" "length (WriteLE32 x) = 4" "length (WriteLE64 y) = 8"
  "length (WriteBE32 x) = 4" "length (WriteBE64 y) = 8"
  by (simp_all add: WriteLE16_def WriteLE32_def WriteLE64_def WriteBE32_def WriteBE64_def)

lemma Read_Write:
  "ReadLE16 (WriteLE16 v @ r) = v" "ReadLE32 (WriteLE32 x @ r) = x" "ReadLE64 (WriteLE64 y @ r) = y"
  "ReadBE32 (WriteBE32 x @ r) = x" "ReadBE64 (WriteBE64 y @ r) = y"
  using unsigned_less [of v, where ?'a = nat] unsigned_less [of x, where ?'a = nat] unsigned_less [of y, where ?'a = nat]
  by (simp_all add: ReadLE16_def ReadLE32_def ReadLE64_def ReadBE32_def ReadBE64_def
    WriteLE16_def WriteLE32_def WriteLE64_def WriteBE32_def WriteBE64_def le_val_le_bytes)

text \<open>A read inside a block does not depend on what follows the block.\<close>

lemma Read_take:
  "i + 4 \<le> n \<Longrightarrow> ReadLE32 (drop i (take n d)) = ReadLE32 (drop i d)"
  "i + 4 \<le> n \<Longrightarrow> ReadBE32 (drop i (take n d)) = ReadBE32 (drop i d)"
  "i + 8 \<le> n \<Longrightarrow> ReadBE64 (drop i (take n d)) = ReadBE64 (drop i d)"
  "4 \<le> n \<Longrightarrow> ReadLE32 (take n d) = ReadLE32 d"
  "4 \<le> n \<Longrightarrow> ReadBE32 (take n d) = ReadBE32 d"
  "8 \<le> n \<Longrightarrow> ReadBE64 (take n d) = ReadBE64 d"
  by (simp_all add: ReadLE32_def ReadBE32_def ReadBE64_def drop_take)

subsection \<open>Absorbing\<close>

declare absorb.simps [simp del] write_chunks.simps [simp del]

lemma absorb_short: "length d < n \<Longrightarrow> absorb n f s d = (s, d)"
  by (simp add: absorb.simps)

lemma absorb_long: "0 < n \<Longrightarrow> n \<le> length d \<Longrightarrow> absorb n f s d = absorb n f (f s (take n d)) (drop n d)"
  by (simp add: absorb.simps [of n f s d])

lemma absorb_append:
  assumes "0 < n"
  shows "absorb n f s (a @ b) = (case absorb n f s a of (s', r) \<Rightarrow> absorb n f s' (r @ b))"
proof (induction "length a" arbitrary: a s rule: less_induct)
  case less
  show ?case
  proof (cases "n \<le> length a")
    case True
    have "absorb n f s (a @ b) = absorb n f (f s (take n a)) (drop n a @ b)"
      using True assms by (simp add: absorb_long)
    also have "\<dots> = (case absorb n f (f s (take n a)) (drop n a) of (s', r) \<Rightarrow> absorb n f s' (r @ b))"
      using True assms by (intro less) simp
    finally show ?thesis
      using True assms by (simp add: absorb_long [of n a])
  qed (simp add: absorb_short)
qed

lemma absorb_cong:
  assumes "\<And>s d. P s \<Longrightarrow> f s d = g s d" and "\<And>s d. P s \<Longrightarrow> P (f s d)"
  shows "P s \<Longrightarrow> absorb n f s d = absorb n g s d"
proof (induction "length d" arbitrary: d s rule: less_induct)
  case less
  show ?case
  proof (cases "0 < n \<and> n \<le> length d")
    case True
    then have "length (drop n d) < length d"
      by auto
    then show ?thesis
      using True less.hyps [of "drop n d" "f s (take n d)"] assms [OF less.prems, of "take n d"] by (simp add: absorb_long)
  next
    case False
    show ?thesis
      unfolding absorb.simps [of n f s d] absorb.simps [of n g s d] by (simp only: False if_False)
  qed
qed

lemma absorb_length:
  assumes "\<And>s d. length (f s d) = k"
  shows "length s = k \<Longrightarrow> length (fst (absorb n f s d)) = k"
proof (induction "length d" arbitrary: d s rule: less_induct)
  case less
  show ?case
  proof (cases "0 < n \<and> n \<le> length d")
    case True
    then have "length (drop n d) < length d"
      by auto
    then show ?thesis
      using True less.hyps [of "drop n d" "f s (take n d)"] assms by (simp add: absorb_long)
  next
    case False
    show ?thesis
      using less.prems unfolding absorb.simps [of n f s d] by (simp only: False if_False fst_conv)
  qed
qed

lemma represents_length:
  "(\<And>s d. length (f s d) = k) \<Longrightarrow> length init = k \<Longrightarrow> represents n f init h m \<Longrightarrow> length (hs_s h) = k"
  using absorb_length [of f k init n m] by (simp add: represents_def)

lemma absorb_rest:
  assumes "0 < n"
  shows "absorb n f s d = (s', r) \<Longrightarrow> length r = length d mod n"
proof (induction "length d" arbitrary: d s rule: less_induct)
  case less
  show ?case
  proof (cases "n \<le> length d")
    case True
    then have "length r = length (drop n d) mod n"
      using less.prems assms by (intro less.hyps) (simp_all add: absorb_long)
    then show ?thesis
      using True by (simp add: le_mod_geq)
  qed (use less.prems in \<open>auto simp: absorb_short\<close>)
qed

lemma write_chunks_absorb:
  assumes "\<And>s d. n \<le> length d \<Longrightarrow> Transform s (take n d) = Transform s d"
    and "0 < n"
  shows "absorb n Transform (hs_s h) data = (s, r) \<Longrightarrow> write_chunks n Transform h data
    = (h\<lparr>hs_s := s, hs_bytes := hs_bytes h + of_nat (length data - length r)\<rparr>, r)"
proof (induction "length data" arbitrary: data h rule: less_induct)
  case less
  show ?case
  proof (cases "n \<le> length data")
    case True
    let ?h = "h\<lparr>hs_s := Transform (hs_s h) data, hs_bytes := hs_bytes h + of_nat n\<rparr>"
    have a: "absorb n Transform (hs_s ?h) (drop n data) = (s, r)"
      using less.prems True assms by (simp add: absorb_long)
    have r: "length r \<le> length (drop n data)"
      using absorb_rest [OF assms(2) a] by simp
    then have "n + (length data - n - length r) = length data - length r"
      using True by simp
    then have e: "of_nat n + of_nat (length data - n - length r) = (of_nat (length data - length r) :: u64)"
      by (metis of_nat_add)
    have "write_chunks n Transform ?h (drop n data)
      = (?h\<lparr>hs_s := s, hs_bytes := hs_bytes ?h + of_nat (length (drop n data) - length r)\<rparr>, r)"
      using True assms(2) by (intro less.hyps a) simp
    then show ?thesis
      using True assms(2) e by (simp add: write_chunks.simps [of n Transform h data] add.assoc)
  qed (use less.prems in \<open>simp add: absorb_short write_chunks.simps\<close>)
qed

lemma overwrite_suffix: "off + length v = length b \<Longrightarrow> overwrite b off v = take off b @ v"
  by (simp add: overwrite_def)

lemma take_overwrite: "off + length v \<le> length b \<Longrightarrow> take (off + length v) (overwrite b off v) = take off b @ v"
  by (simp add: overwrite_def)

text \<open>The position in the buffer survives the wrap-around of the byte counter.\<close>

lemma unat_of_nat_mod:
  assumes "n dvd 2 ^ 64"
  shows "unat (of_nat k :: u64) mod n = k mod n"
  using assms by (simp add: unat_of_nat mod_mod_cancel)

lemma represents_chunked_Write:
  assumes tr: "\<And>s d. n \<le> length d \<Longrightarrow> Transform s (take n d) = Transform s d"
    and n: "0 < n" "n dvd 2 ^ 64"
    and h: "represents n Transform init h m"
  shows "represents n Transform init (chunked_Write n Transform h d) (m @ d)"
proof -
  define k where "k = length m mod n"
  have k: "k < n" "unat (hs_bytes h) mod n = k"
    using n h by (simp_all add: k_def represents_def unat_of_nat_mod)
  have b: "length (hs_buf h) = n" "hs_bytes h = of_nat (length m)"
    "absorb n Transform init m = (hs_s h, take k (hs_buf h))"
    using h by (simp_all add: represents_def k_def)
  obtain s r where a: "absorb n Transform (hs_s h) (take k (hs_buf h) @ d) = (s, r)"
    by (rule prod.exhaust)
  have m: "absorb n Transform init (m @ d) = (s, r)"
    unfolding absorb_append [OF n(1), of Transform init m d] b(3) by (simp add: a)
  have r: "length r = length (m @ d) mod n"
    by (rule absorb_rest [OF n(1) m])
  have wc: "write_chunks n Transform g x = (g\<lparr>hs_s := s', hs_bytes := hs_bytes g + of_nat (length x - length r')\<rparr>, r')"
    if "absorb n Transform (hs_s g) x = (s', r')" for g x s' r'
    using tr n(1) that by (rule write_chunks_absorb)
  show ?thesis
  proof (cases "k \<noteq> 0 \<and> n \<le> k + length d")
    case True
    let ?b = "take k (hs_buf h) @ take (n - k) d" and ?d = "drop (n - k) d"
    have l: "k + length (take (n - k) d) = n"
      using True k(1) by auto
    have lb: "length ?b = n"
      using l k(1) b(1) by simp
    have ow: "overwrite (hs_buf h) k (take (n - k) d) = ?b"
      using l b(1) by (simp add: overwrite_suffix)
    define g where "g = h\<lparr>hs_s := Transform (hs_s h) ?b, hs_buf := ?b, hs_bytes := hs_bytes h + of_nat (n - k)\<rparr>"
    have "absorb n Transform (hs_s h) (take k (hs_buf h) @ d)
        = absorb n Transform (Transform (hs_s h) (take n (take k (hs_buf h) @ d))) (drop n (take k (hs_buf h) @ d))"
      using True n(1) k(1) b(1) by (intro absorb_long) simp_all
    also have "take n (take k (hs_buf h) @ d) = ?b"
      using k(1) b(1) by simp
    also have "drop n (take k (hs_buf h) @ d) = ?d"
      using k(1) b(1) by simp
    finally have a': "absorb n Transform (hs_s g) ?d = (s, r)"
      using a by (simp add: g_def)
    then have w: "write_chunks n Transform g ?d = (g\<lparr>hs_s := s, hs_bytes := hs_bytes g + of_nat (length ?d - length r)\<rparr>, r)"
      by (rule wc)
    have len: "length r \<le> length ?d" "length r < n"
      using absorb_rest [OF n(1) a'] n(1) by simp_all
    have cnt: "length m + (n - k) + (length ?d - length r) + length r = length (m @ d)"
      using True len k(1) by auto
    have c: "chunked_Write n Transform h d
        = (let h' = g\<lparr>hs_s := s, hs_bytes := hs_bytes g + of_nat (length ?d - length r)\<rparr> in
            if r \<noteq> [] then h'\<lparr>hs_buf := overwrite (hs_buf h') 0 r, hs_bytes := hs_bytes h' + of_nat (length r)\<rparr> else h')"
      using True by (simp add: chunked_Write_def k(2) ow g_def [symmetric] w Let_def)
    have "hs_bytes (chunked_Write n Transform h d) = of_nat (length m + (n - k) + (length ?d - length r) + length r)"
      unfolding c by (simp add: g_def b(2) Let_def)
    moreover have "take (length r) (hs_buf (chunked_Write n Transform h d)) = r"
      "length (hs_buf (chunked_Write n Transform h d)) = n" "hs_s (chunked_Write n Transform h d) = s"
      unfolding c using len(2) lb take_overwrite [of 0 r ?b] by (simp_all add: g_def Let_def del: length_append)
    ultimately show ?thesis
      unfolding represents_def m cnt using r by simp
  next
    case False
    then have w: "chunked_Write n Transform h d = (let (h', data) = write_chunks n Transform h d in
        if data \<noteq> [] then h'\<lparr>hs_buf := overwrite (hs_buf h') k data, hs_bytes := hs_bytes h' + of_nat (length data)\<rparr> else h')"
      by (auto simp: chunked_Write_def k(2) Let_def split: prod.splits)
    show ?thesis
    proof (cases "k = 0")
      case True
      then have a0: "absorb n Transform (hs_s h) d = (s, r)"
        using a by simp
      have len: "length r \<le> length d" "length r < n"
        using absorb_rest [OF n(1) a0] n(1) by simp_all
      have c: "chunked_Write n Transform h d
          = (let h' = h\<lparr>hs_s := s, hs_bytes := hs_bytes h + of_nat (length d - length r)\<rparr> in
              if r \<noteq> [] then h'\<lparr>hs_buf := overwrite (hs_buf h') 0 r, hs_bytes := hs_bytes h' + of_nat (length r)\<rparr> else h')"
        unfolding w wc [OF a0] using True by (simp add: Let_def)
      have cnt: "length m + (length d - length r) + length r = length (m @ d)"
        using len by simp
      have "hs_bytes (chunked_Write n Transform h d) = of_nat (length m + (length d - length r) + length r)"
        unfolding c by (simp add: b(2) Let_def)
      moreover have "take (length r) (hs_buf (chunked_Write n Transform h d)) = r"
        "length (hs_buf (chunked_Write n Transform h d)) = n" "hs_s (chunked_Write n Transform h d) = s"
        unfolding c using len(2) b(1) take_overwrite [of 0 r "hs_buf h"] by (simp_all add: Let_def)
      ultimately show ?thesis
        unfolding represents_def m cnt using r by simp
    next
      case k0: False
      then have short: "k + length d < n"
        using False by simp
      then have e: "s = hs_s h" "r = take k (hs_buf h) @ d" "k + length d = length (m @ d) mod n"
        using a r b(1) k(1) by (auto simp: absorb_short)
      have c: "chunked_Write n Transform h d
          = (if d \<noteq> [] then h\<lparr>hs_buf := overwrite (hs_buf h) k d, hs_bytes := hs_bytes h + of_nat (length d)\<rparr> else h)"
        unfolding w using short by (simp add: write_chunks.simps)
      show ?thesis
        unfolding represents_def m e(3) [symmetric] c
        using short b e take_overwrite [of k d "hs_buf h"] by (auto simp: overwrite_def)
    qed
  qed
qed

text \<open>The padding that \<^verbatim>\<open>Finalize\<close> writes: \<open>1 + (2 n - k - 1 - |m|) mod n\<close> bytes of a constant array.\<close>

lemma md_pad_eq:
  assumes "k < n" and "n dvd 2 ^ 64"
  shows "md_pad n k len m =
    m @ take (1 + (2 * n - k - 1 - unat (of_nat (length m) :: u64) mod n) mod n) (0x80 # replicate (n - 1) 0)
      @ len (8 * length m)"
proof -
  let ?l = "length m"
  have n: "?l mod n < n"
    using assms by simp
  have "(int n - int k - 1 - int ?l) mod int n = (int n - int k - 1 - int ?l mod int n) mod int n"
    by (simp add: mod_diff_right_eq)
  also have "\<dots> = (int n - int k - 1 - int ?l mod int n + int n) mod int n"
    by (rule mod_add_self2 [symmetric])
  also have "int n - int k - 1 - int ?l mod int n + int n = int (2 * n - k - 1 - ?l mod n)"
    unfolding zmod_int [symmetric] using assms(1) n by linarith
  finally have "(int n - int k - 1 - int ?l) mod int n = int ((2 * n - k - 1 - ?l mod n) mod n)"
    by (simp add: zmod_int)
  then have "nat ((int n - int k - 1 - int ?l) mod int n) = (2 * n - k - 1 - ?l mod n) mod n"
    by (simp only: nat_int)
  moreover have "(2 * n - k - 1 - ?l mod n) mod n < n"
    using assms(1) by (intro mod_less_divisor) simp
  ultimately show ?thesis
    unfolding md_pad_def unat_of_nat_mod [OF assms(2)] by (simp add: min_def)
qed

lemma push_bit_3: "push_bit 3 (of_nat k :: u64) = of_nat (8 * k)"
  by (simp add: push_bit_eq_mult mult.commute)

subsection \<open>The contract of a hash class\<close>

locale md_hasher =
  fixes n :: nat
    and Transform :: "'w list \<Rightarrow> bytes \<Rightarrow> 'w list"
    and Init :: "'w hasher"
    and Write :: "'w hasher \<Rightarrow> bytes \<Rightarrow> 'w hasher"
  assumes block_pos: "0 < n"
    and Init_represents: "represents n Transform (hs_s Init) Init []"
    and Write_represents: "represents n Transform (hs_s Init) h m \<Longrightarrow> represents n Transform (hs_s Init) (Write h d) (m @ d)"
begin

lemma writes_represent:
  "represents n Transform (hs_s Init) h m \<Longrightarrow> represents n Transform (hs_s Init) (foldl Write h ds) (m @ concat ds)"
proof (induction ds arbitrary: h m)
  case (Cons d ds)
  then show ?case
    using Cons.IH [OF Write_represents [OF Cons.prems, of d]] by simp
qed simp

lemma writes_from_Init: "represents n Transform (hs_s Init) (foldl Write Init ds) (concat ds)"
  using writes_represent [OF Init_represents, of ds] by simp

text \<open>When the message is complete, the chaining value is that of the iterated compression function.\<close>

lemma chaining_value:
  assumes "represents n Transform (hs_s Init) h m"
  shows "hs_s (Write (Write h p) q) = fst (absorb n Transform (hs_s Init) (m @ p @ q))"
  using Write_represents [OF Write_represents [OF assms, of p], of q] by (simp add: represents_def)

end

end
