(* ===== verification/Sha2Ref.thy ===== *)
theory Sha2Ref
  imports HashCommon
begin

unbundle bit_operations_syntax

text \<open>
  The SHA-2 compression function as FIPS 180-4 defines it, for words of any width: the logical
  functions, the message schedule as a growing list, the rounds as a fold, and the constants as
  the first bits of the fractional parts of roots of primes.
\<close>

section \<open>Definitions\<close>

definition sha2_Ch :: "'a::len word \<Rightarrow> 'a word \<Rightarrow> 'a word \<Rightarrow> 'a word" where
  "sha2_Ch x y z = (x AND y) XOR (NOT x AND z)"

definition sha2_Maj :: "'a::len word \<Rightarrow> 'a word \<Rightarrow> 'a word \<Rightarrow> 'a word" where
  "sha2_Maj x y z = (x AND y) XOR (x AND z) XOR (y AND z)"

type_synonym 'w octet = "'w \<times> 'w \<times> 'w \<times> 'w \<times> 'w \<times> 'w \<times> 'w \<times> 'w"

fun sha2_round :: "('a::len word \<Rightarrow> 'a word) \<Rightarrow> ('a word \<Rightarrow> 'a word) \<Rightarrow> 'a word octet \<Rightarrow> 'a word \<times> 'a word \<Rightarrow> 'a word octet" where
  "sha2_round S0 S1 (a, b, c, d, e, f, g, h) (k, w) =
    (let T1 = h + S1 e + sha2_Ch e f g + k + w; T2 = S0 a + sha2_Maj a b c
     in (T1 + T2, a, b, c, d + T1, e, f, g))"

definition sha2_extend :: "('a::len word \<Rightarrow> 'a word) \<Rightarrow> ('a word \<Rightarrow> 'a word) \<Rightarrow> 'a word list \<Rightarrow> 'a word list" where
  "sha2_extend s0 s1 W =
    (let t = length W in W @ [s1 (W ! (t - 2)) + W ! (t - 7) + s0 (W ! (t - 15)) + W ! (t - 16)])"

definition sha2_schedule :: "('a::len word \<Rightarrow> 'a word) \<Rightarrow> ('a word \<Rightarrow> 'a word) \<Rightarrow> nat \<Rightarrow> 'a word list \<Rightarrow> 'a word list" where
  "sha2_schedule s0 s1 rounds M = (sha2_extend s0 s1 ^^ (rounds - 16)) M"

definition sha2_compress ::
  "('a::len word \<Rightarrow> 'a word) \<Rightarrow> ('a word \<Rightarrow> 'a word) \<Rightarrow> ('a word \<Rightarrow> 'a word) \<Rightarrow> ('a word \<Rightarrow> 'a word) \<Rightarrow>
    'a word list \<Rightarrow> 'a word list \<Rightarrow> 'a word list \<Rightarrow> 'a word list" where
  "sha2_compress S0 S1 s0 s1 K s M =
    (case foldl (sha2_round S0 S1) (s ! 0, s ! 1, s ! 2, s ! 3, s ! 4, s ! 5, s ! 6, s ! 7)
        (zip K (sha2_schedule s0 s1 (length K) M)) of
      (a, b, c, d, e, f, g, h) \<Rightarrow> map2 (+) s [a, b, c, d, e, f, g, h])"

text \<open>
  \<open>root_bits k p\<close> is the first word after the binary point of the \<open>k\<close>-th root of \<open>p\<close>: the integer
  part of the root of \<open>p\<close> scaled by a power of two, reduced to the width of the word.
\<close>

definition iroot :: "nat \<Rightarrow> nat \<Rightarrow> nat" where
  "iroot k n = Max {r. r ^ k \<le> n}"

definition root_bits :: "nat \<Rightarrow> nat \<Rightarrow> 'a::len word" where
  "root_bits k p = of_nat (iroot k (p * (2 ^ LENGTH('a)) ^ k))"

definition first_primes :: "nat list" where
  "first_primes =
    [2, 3, 5, 7, 11, 13, 17, 19, 23, 29, 31, 37, 41, 43, 47, 53, 59, 61, 67, 71, 73, 79, 83, 89, 97, 101,
     103, 107, 109, 113, 127, 131, 137, 139, 149, 151, 157, 163, 167, 173, 179, 181, 191, 193, 197, 199, 211,
     223, 227, 229, 233, 239, 241, 251, 257, 263, 269, 271, 277, 281, 283, 293, 307, 311, 313, 317, 331, 337,
     347, 349, 353, 359, 367, 373, 379, 383, 389, 397, 401, 409]"

text \<open>Sixteen consecutive indices.\<close>

abbreviation sixteen :: "nat \<Rightarrow> nat list" where
  "sixteen n \<equiv> [n, n + 1, n + 2, n + 3, n + 4, n + 5, n + 6, n + 7,
    n + 8, n + 9, n + 10, n + 11, n + 12, n + 13, n + 14, n + 15]"

section \<open>Lemmas\<close>

lemma iroot_eq:
  assumes "0 < k" and "r ^ k \<le> n" and "n < Suc r ^ k"
  shows "iroot k n = r"
  unfolding iroot_def
proof (rule Max_eqI)
  have small: "r' \<le> r" if "r' ^ k \<le> n" for r'
  proof (rule ccontr)
    assume "\<not> r' \<le> r"
    then have "Suc r ^ k \<le> r' ^ k"
      by (intro power_mono) simp_all
    then show False
      using that assms(3) by simp
  qed
  then show "finite {r. r ^ k \<le> n}"
    by (auto intro: finite_subset [of _ "{..r}"])
  show "r' \<le> r" if "r' \<in> {r. r ^ k \<le> n}" for r'
    using small that by simp
  show "r \<in> {r. r ^ k \<le> n}"
    using assms by simp
qed

text \<open>A word is the fraction of a root if it is, with some integer part \<open>q\<close>, the scaled root.\<close>

definition root_check :: "nat \<Rightarrow> nat \<Rightarrow> nat \<Rightarrow> 'a::len word \<Rightarrow> bool" where
  "root_check k p q w =
    (let r = q * 2 ^ LENGTH('a) + unat w; n = p * (2 ^ LENGTH('a)) ^ k in r ^ k \<le> n \<and> n < Suc r ^ k)"

lemma root_check_bits:
  assumes "0 < k" and "root_check k p q w"
  shows "root_bits k p = (w :: 'a::len word)"
proof -
  have "iroot k (p * (2 ^ LENGTH('a)) ^ k) = q * 2 ^ LENGTH('a) + unat w"
    using assms by (intro iroot_eq) (simp_all add: root_check_def Let_def)
  then show ?thesis
    by (simp add: root_bits_def)
qed

lemma root_checks:
  assumes "0 < k" and "list_all (\<lambda>(p, q, w). root_check k p q w) xs"
  shows "map (root_bits k \<circ> fst) xs = map (snd \<circ> snd) xs"
  using assms by (induction xs) (auto intro: root_check_bits)

lemma sha2_Ch_alt: "z XOR (x AND (y XOR z)) = sha2_Ch x y z"
  by (rule bit_eqI) (auto simp: sha2_Ch_def bit_and_iff bit_or_iff bit_xor_iff bit_not_iff)

lemma sha2_Maj_alt: "(x AND y) OR (z AND (x OR y)) = sha2_Maj x y z"
  by (rule bit_eqI) (auto simp: sha2_Maj_def bit_and_iff bit_or_iff bit_xor_iff)

lemma rotr_shifts:
  assumes "n + k = LENGTH('a)" and "0 < k"
  shows "drop_bit n x OR push_bit k x = word_rotr n (x :: 'a::len word)"
proof (rule bit_word_eqI)
  fix m
  assume m: "m < LENGTH('a)"
  show "bit (drop_bit n x OR push_bit k x) m = bit (word_rotr n x) m"
  proof (cases "m + n < LENGTH('a)")
    case True
    then show ?thesis
      using m assms by (auto simp: bit_or_iff bit_drop_bit_eq bit_push_bit_iff bit_word_rotr_iff add.commute)
  next
    case False
    then have "(m + n) mod LENGTH('a) = m - k" "\<not> bit x (n + m)"
      using m assms by (auto simp: mod_if dest: bit_imp_le_length)
    then show ?thesis
      using m assms False by (auto simp: bit_or_iff bit_drop_bit_eq bit_push_bit_iff bit_word_rotr_iff add.commute)
  qed
qed

lemma rotl_shifts:
  assumes "n + k = LENGTH('a)" and "0 < k" and "0 < n"
  shows "push_bit n x OR drop_bit k x = word_rotl n (x :: 'a::len word)"
proof -
  have "LENGTH('a) - n mod LENGTH('a) = k"
    using assms by (simp flip: assms(1))
  then have "word_rotl n x = word_rotr k x"
    by (simp add: word_rotl_eq_word_rotr)
  then show ?thesis
    using rotr_shifts [of k n x] assms by (simp add: or.commute)
qed

lemma upt_sixteen:
  "[0..<64] = sixteen 0 @ sixteen 16 @ sixteen 32 @ sixteen 48"
  "[0..<80] = sixteen 0 @ sixteen 16 @ sixteen 32 @ sixteen 48 @ sixteen 64"
  by code_simp+

lemma octet_exhaust:
  obtains a b c d e f g h where "x = (a, b, c, d, e, f, g, h :: 'w)"
  by (cases x) auto

lemma octet_list: "length s = 8 \<Longrightarrow> map2 (+) s [a, b, c, d, e, f, g, h]
    = [s ! 0 + a, s ! 1 + b, s ! 2 + c, s ! 3 + d, s ! 4 + e, s ! 5 + f, s ! 6 + g, s ! 7 + (h :: 'a::len word)]"
  by (auto simp: length_Suc_conv numeral_eq_Suc)

text \<open>The schedule keeps its beginning and obeys the recurrence.\<close>

lemma length_sha2_schedule: "length M = 16 \<Longrightarrow> 16 \<le> n \<Longrightarrow> length (sha2_schedule s0 s1 n M) = n"
proof -
  have "length ((sha2_extend s0 s1 ^^ k) M) = length M + k" for k
    by (induction k) (simp_all add: sha2_extend_def Let_def)
  then show "length M = 16 \<Longrightarrow> 16 \<le> n \<Longrightarrow> ?thesis"
    by (simp add: sha2_schedule_def)
qed

lemma sha2_schedule_Suc:
  assumes "16 \<le> n"
  shows "sha2_schedule s0 s1 (Suc n) M = sha2_extend s0 s1 (sha2_schedule s0 s1 n M)"
proof -
  have "Suc n - 16 = Suc (n - 16)"
    using assms by simp
  then show ?thesis
    unfolding sha2_schedule_def by (simp only: funpow.simps comp_apply)
qed

lemma sha2_schedule_nth:
  assumes "length M = 16" and "16 \<le> n"
  shows "t < 16 \<Longrightarrow> sha2_schedule s0 s1 n M ! t = M ! t"
    "16 \<le> t \<Longrightarrow> t < n \<Longrightarrow> sha2_schedule s0 s1 n M ! t =
      s1 (sha2_schedule s0 s1 n M ! (t - 2)) + sha2_schedule s0 s1 n M ! (t - 7)
      + s0 (sha2_schedule s0 s1 n M ! (t - 15)) + sha2_schedule s0 s1 n M ! (t - 16)"
  using assms(2)
proof (induction n rule: dec_induct)
  case base
  { case 1 then show ?case by (simp add: sha2_schedule_def) }
  { case 2 then show ?case by simp }
next
  case (step n)
  note l = length_sha2_schedule [OF assms(1) step(1), of s0 s1]
  { case 1
    then show ?case
      using step by (simp add: sha2_schedule_Suc sha2_extend_def Let_def nth_append l) }
  { case 2
    have i: "t - 2 < n" "t - 7 < n" "t - 15 < n" "t - 16 < n"
      using 2 step(1) by linarith+
    show ?case
      using 2 step(1,4) i by (cases "t = n") (simp_all add: sha2_schedule_Suc sha2_extend_def Let_def nth_append l) }
qed

text \<open>The recurrence in the form of the in-place update, inside a window of the schedule.\<close>

lemma sha2_schedule_rec:
  assumes "length M = 16" and "n + 32 \<le> rounds" and "i < 16"
  shows "sha2_schedule s0 s1 rounds M ! (n + i)
      + (s1 (sha2_schedule s0 s1 rounds M ! (n + (i + 14))) + sha2_schedule s0 s1 rounds M ! (n + (i + 9))
         + s0 (sha2_schedule s0 s1 rounds M ! (n + (i + 1))))
    = sha2_schedule s0 s1 rounds M ! (n + (i + 16))"
proof -
  have d: "n + (i + 16) - 2 = n + (i + 14)" "n + (i + 16) - 7 = n + (i + 9)" "n + (i + 16) - 15 = n + (i + 1)"
    "n + (i + 16) - 16 = n + i"
    by simp_all
  have "16 \<le> rounds" "16 \<le> n + (i + 16)" "n + (i + 16) < rounds"
    using assms by simp_all
  from sha2_schedule_nth(2) [OF assms(1) this, of s0 s1] show ?thesis
    unfolding d by (simp add: ac_simps)
qed

end
