(* ===== verification/Sha1.thy ===== *)
theory Sha1
  imports Sha2Ref
begin

unbundle bit_operations_syntax

text \<open>
  \<^verbatim>\<open>src/src/crypto/sha1.cpp\<close>: the unrolled compression function of SHA-1, translated line by line, the
  hash class, and their equality with the definition of FIPS 180-4.
\<close>

section \<open>Definitions\<close>

text \<open>\<^verbatim>\<open>Round\<close> changes its arguments \<^verbatim>\<open>b\<close> and \<^verbatim>\<open>e\<close>, which it returns.\<close>

definition sha1_Round :: "u32 \<Rightarrow> u32 \<Rightarrow> u32 \<Rightarrow> u32 \<Rightarrow> u32 \<Rightarrow> u32 \<Rightarrow> u32 \<Rightarrow> u32 \<Rightarrow> u32 \<times> u32" where
  "sha1_Round a b c d e f k w = (push_bit 30 b OR drop_bit 2 b, e + ((push_bit 5 a OR drop_bit 27 a) + f + k + w))"

definition sha1_f1 :: "u32 \<Rightarrow> u32 \<Rightarrow> u32 \<Rightarrow> u32" where
  "sha1_f1 b c d = d XOR (b AND (c XOR d))"

definition sha1_f2 :: "u32 \<Rightarrow> u32 \<Rightarrow> u32 \<Rightarrow> u32" where
  "sha1_f2 b c d = b XOR c XOR d"

definition sha1_f3 :: "u32 \<Rightarrow> u32 \<Rightarrow> u32 \<Rightarrow> u32" where
  "sha1_f3 b c d = (b AND c) OR (d AND (b OR c))"

definition sha1_left :: "u32 \<Rightarrow> u32" where
  "sha1_left x = push_bit 1 x OR drop_bit 31 x"

definition sha1_Initialize :: "u32 list" where
  "sha1_Initialize = [0x67452301, 0xEFCDAB89, 0x98BADCFE, 0x10325476, 0xC3D2E1F0]"

definition sha1_k1 :: u32 where
  "sha1_k1 = 0x5A827999"

definition sha1_k2 :: u32 where
  "sha1_k2 = 0x6ED9EBA1"

definition sha1_k3 :: u32 where
  "sha1_k3 = 0x8F1BBCDC"

definition sha1_k4 :: u32 where
  "sha1_k4 = 0xCA62C1D6"

type_synonym sha1_state = "u32 \<times> u32 \<times> u32 \<times> u32 \<times> u32"
type_synonym sha1_schedule = "u32 \<times> u32 \<times> u32 \<times> u32 \<times> u32 \<times> u32 \<times> u32 \<times> u32 \<times> u32 \<times> u32 \<times> u32 \<times> u32 \<times> u32 \<times> u32 \<times> u32 \<times> u32"

definition sha1_rounds1 :: "bytes \<Rightarrow> sha1_state \<Rightarrow> sha1_state \<times> sha1_schedule" where
  "sha1_rounds1 = (\<lambda>chunk (a, b, c, d, e).
    let
      w0 = ReadBE32 (drop 0 chunk);
      (b, e) = sha1_Round a b c d e (sha1_f1 b c d) sha1_k1 w0;
      w1 = ReadBE32 (drop 4 chunk);
      (a, d) = sha1_Round e a b c d (sha1_f1 a b c) sha1_k1 w1;
      w2 = ReadBE32 (drop 8 chunk);
      (e, c) = sha1_Round d e a b c (sha1_f1 e a b) sha1_k1 w2;
      w3 = ReadBE32 (drop 12 chunk);
      (d, b) = sha1_Round c d e a b (sha1_f1 d e a) sha1_k1 w3;
      w4 = ReadBE32 (drop 16 chunk);
      (c, a) = sha1_Round b c d e a (sha1_f1 c d e) sha1_k1 w4;
      w5 = ReadBE32 (drop 20 chunk);
      (b, e) = sha1_Round a b c d e (sha1_f1 b c d) sha1_k1 w5;
      w6 = ReadBE32 (drop 24 chunk);
      (a, d) = sha1_Round e a b c d (sha1_f1 a b c) sha1_k1 w6;
      w7 = ReadBE32 (drop 28 chunk);
      (e, c) = sha1_Round d e a b c (sha1_f1 e a b) sha1_k1 w7;
      w8 = ReadBE32 (drop 32 chunk);
      (d, b) = sha1_Round c d e a b (sha1_f1 d e a) sha1_k1 w8;
      w9 = ReadBE32 (drop 36 chunk);
      (c, a) = sha1_Round b c d e a (sha1_f1 c d e) sha1_k1 w9;
      w10 = ReadBE32 (drop 40 chunk);
      (b, e) = sha1_Round a b c d e (sha1_f1 b c d) sha1_k1 w10;
      w11 = ReadBE32 (drop 44 chunk);
      (a, d) = sha1_Round e a b c d (sha1_f1 a b c) sha1_k1 w11;
      w12 = ReadBE32 (drop 48 chunk);
      (e, c) = sha1_Round d e a b c (sha1_f1 e a b) sha1_k1 w12;
      w13 = ReadBE32 (drop 52 chunk);
      (d, b) = sha1_Round c d e a b (sha1_f1 d e a) sha1_k1 w13;
      w14 = ReadBE32 (drop 56 chunk);
      (c, a) = sha1_Round b c d e a (sha1_f1 c d e) sha1_k1 w14;
      w15 = ReadBE32 (drop 60 chunk);
      (b, e) = sha1_Round a b c d e (sha1_f1 b c d) sha1_k1 w15
    in ((a, b, c, d, e), (w0, w1, w2, w3, w4, w5, w6, w7, w8, w9, w10, w11, w12, w13, w14, w15)))"

definition sha1_rounds2 :: "sha1_schedule \<Rightarrow> sha1_state \<Rightarrow> sha1_state \<times> sha1_schedule" where
  "sha1_rounds2 = (\<lambda>(w0, w1, w2, w3, w4, w5, w6, w7, w8, w9, w10, w11, w12, w13, w14, w15) (a, b, c, d, e).
    let
      w0 = sha1_left (w0 XOR w13 XOR w8 XOR w2);
      (a, d) = sha1_Round e a b c d (sha1_f1 a b c) sha1_k1 w0;
      w1 = sha1_left (w1 XOR w14 XOR w9 XOR w3);
      (e, c) = sha1_Round d e a b c (sha1_f1 e a b) sha1_k1 w1;
      w2 = sha1_left (w2 XOR w15 XOR w10 XOR w4);
      (d, b) = sha1_Round c d e a b (sha1_f1 d e a) sha1_k1 w2;
      w3 = sha1_left (w3 XOR w0 XOR w11 XOR w5);
      (c, a) = sha1_Round b c d e a (sha1_f1 c d e) sha1_k1 w3;
      w4 = sha1_left (w4 XOR w1 XOR w12 XOR w6);
      (b, e) = sha1_Round a b c d e (sha1_f2 b c d) sha1_k2 w4;
      w5 = sha1_left (w5 XOR w2 XOR w13 XOR w7);
      (a, d) = sha1_Round e a b c d (sha1_f2 a b c) sha1_k2 w5;
      w6 = sha1_left (w6 XOR w3 XOR w14 XOR w8);
      (e, c) = sha1_Round d e a b c (sha1_f2 e a b) sha1_k2 w6;
      w7 = sha1_left (w7 XOR w4 XOR w15 XOR w9);
      (d, b) = sha1_Round c d e a b (sha1_f2 d e a) sha1_k2 w7;
      w8 = sha1_left (w8 XOR w5 XOR w0 XOR w10);
      (c, a) = sha1_Round b c d e a (sha1_f2 c d e) sha1_k2 w8;
      w9 = sha1_left (w9 XOR w6 XOR w1 XOR w11);
      (b, e) = sha1_Round a b c d e (sha1_f2 b c d) sha1_k2 w9;
      w10 = sha1_left (w10 XOR w7 XOR w2 XOR w12);
      (a, d) = sha1_Round e a b c d (sha1_f2 a b c) sha1_k2 w10;
      w11 = sha1_left (w11 XOR w8 XOR w3 XOR w13);
      (e, c) = sha1_Round d e a b c (sha1_f2 e a b) sha1_k2 w11;
      w12 = sha1_left (w12 XOR w9 XOR w4 XOR w14);
      (d, b) = sha1_Round c d e a b (sha1_f2 d e a) sha1_k2 w12;
      w13 = sha1_left (w13 XOR w10 XOR w5 XOR w15);
      (c, a) = sha1_Round b c d e a (sha1_f2 c d e) sha1_k2 w13;
      w14 = sha1_left (w14 XOR w11 XOR w6 XOR w0);
      (b, e) = sha1_Round a b c d e (sha1_f2 b c d) sha1_k2 w14;
      w15 = sha1_left (w15 XOR w12 XOR w7 XOR w1);
      (a, d) = sha1_Round e a b c d (sha1_f2 a b c) sha1_k2 w15
    in ((a, b, c, d, e), (w0, w1, w2, w3, w4, w5, w6, w7, w8, w9, w10, w11, w12, w13, w14, w15)))"

definition sha1_rounds3 :: "sha1_schedule \<Rightarrow> sha1_state \<Rightarrow> sha1_state \<times> sha1_schedule" where
  "sha1_rounds3 = (\<lambda>(w0, w1, w2, w3, w4, w5, w6, w7, w8, w9, w10, w11, w12, w13, w14, w15) (a, b, c, d, e).
    let
      w0 = sha1_left (w0 XOR w13 XOR w8 XOR w2);
      (e, c) = sha1_Round d e a b c (sha1_f2 e a b) sha1_k2 w0;
      w1 = sha1_left (w1 XOR w14 XOR w9 XOR w3);
      (d, b) = sha1_Round c d e a b (sha1_f2 d e a) sha1_k2 w1;
      w2 = sha1_left (w2 XOR w15 XOR w10 XOR w4);
      (c, a) = sha1_Round b c d e a (sha1_f2 c d e) sha1_k2 w2;
      w3 = sha1_left (w3 XOR w0 XOR w11 XOR w5);
      (b, e) = sha1_Round a b c d e (sha1_f2 b c d) sha1_k2 w3;
      w4 = sha1_left (w4 XOR w1 XOR w12 XOR w6);
      (a, d) = sha1_Round e a b c d (sha1_f2 a b c) sha1_k2 w4;
      w5 = sha1_left (w5 XOR w2 XOR w13 XOR w7);
      (e, c) = sha1_Round d e a b c (sha1_f2 e a b) sha1_k2 w5;
      w6 = sha1_left (w6 XOR w3 XOR w14 XOR w8);
      (d, b) = sha1_Round c d e a b (sha1_f2 d e a) sha1_k2 w6;
      w7 = sha1_left (w7 XOR w4 XOR w15 XOR w9);
      (c, a) = sha1_Round b c d e a (sha1_f2 c d e) sha1_k2 w7;
      w8 = sha1_left (w8 XOR w5 XOR w0 XOR w10);
      (b, e) = sha1_Round a b c d e (sha1_f3 b c d) sha1_k3 w8;
      w9 = sha1_left (w9 XOR w6 XOR w1 XOR w11);
      (a, d) = sha1_Round e a b c d (sha1_f3 a b c) sha1_k3 w9;
      w10 = sha1_left (w10 XOR w7 XOR w2 XOR w12);
      (e, c) = sha1_Round d e a b c (sha1_f3 e a b) sha1_k3 w10;
      w11 = sha1_left (w11 XOR w8 XOR w3 XOR w13);
      (d, b) = sha1_Round c d e a b (sha1_f3 d e a) sha1_k3 w11;
      w12 = sha1_left (w12 XOR w9 XOR w4 XOR w14);
      (c, a) = sha1_Round b c d e a (sha1_f3 c d e) sha1_k3 w12;
      w13 = sha1_left (w13 XOR w10 XOR w5 XOR w15);
      (b, e) = sha1_Round a b c d e (sha1_f3 b c d) sha1_k3 w13;
      w14 = sha1_left (w14 XOR w11 XOR w6 XOR w0);
      (a, d) = sha1_Round e a b c d (sha1_f3 a b c) sha1_k3 w14;
      w15 = sha1_left (w15 XOR w12 XOR w7 XOR w1);
      (e, c) = sha1_Round d e a b c (sha1_f3 e a b) sha1_k3 w15
    in ((a, b, c, d, e), (w0, w1, w2, w3, w4, w5, w6, w7, w8, w9, w10, w11, w12, w13, w14, w15)))"

definition sha1_rounds4 :: "sha1_schedule \<Rightarrow> sha1_state \<Rightarrow> sha1_state \<times> sha1_schedule" where
  "sha1_rounds4 = (\<lambda>(w0, w1, w2, w3, w4, w5, w6, w7, w8, w9, w10, w11, w12, w13, w14, w15) (a, b, c, d, e).
    let
      w0 = sha1_left (w0 XOR w13 XOR w8 XOR w2);
      (d, b) = sha1_Round c d e a b (sha1_f3 d e a) sha1_k3 w0;
      w1 = sha1_left (w1 XOR w14 XOR w9 XOR w3);
      (c, a) = sha1_Round b c d e a (sha1_f3 c d e) sha1_k3 w1;
      w2 = sha1_left (w2 XOR w15 XOR w10 XOR w4);
      (b, e) = sha1_Round a b c d e (sha1_f3 b c d) sha1_k3 w2;
      w3 = sha1_left (w3 XOR w0 XOR w11 XOR w5);
      (a, d) = sha1_Round e a b c d (sha1_f3 a b c) sha1_k3 w3;
      w4 = sha1_left (w4 XOR w1 XOR w12 XOR w6);
      (e, c) = sha1_Round d e a b c (sha1_f3 e a b) sha1_k3 w4;
      w5 = sha1_left (w5 XOR w2 XOR w13 XOR w7);
      (d, b) = sha1_Round c d e a b (sha1_f3 d e a) sha1_k3 w5;
      w6 = sha1_left (w6 XOR w3 XOR w14 XOR w8);
      (c, a) = sha1_Round b c d e a (sha1_f3 c d e) sha1_k3 w6;
      w7 = sha1_left (w7 XOR w4 XOR w15 XOR w9);
      (b, e) = sha1_Round a b c d e (sha1_f3 b c d) sha1_k3 w7;
      w8 = sha1_left (w8 XOR w5 XOR w0 XOR w10);
      (a, d) = sha1_Round e a b c d (sha1_f3 a b c) sha1_k3 w8;
      w9 = sha1_left (w9 XOR w6 XOR w1 XOR w11);
      (e, c) = sha1_Round d e a b c (sha1_f3 e a b) sha1_k3 w9;
      w10 = sha1_left (w10 XOR w7 XOR w2 XOR w12);
      (d, b) = sha1_Round c d e a b (sha1_f3 d e a) sha1_k3 w10;
      w11 = sha1_left (w11 XOR w8 XOR w3 XOR w13);
      (c, a) = sha1_Round b c d e a (sha1_f3 c d e) sha1_k3 w11;
      w12 = sha1_left (w12 XOR w9 XOR w4 XOR w14);
      (b, e) = sha1_Round a b c d e (sha1_f2 b c d) sha1_k4 w12;
      w13 = sha1_left (w13 XOR w10 XOR w5 XOR w15);
      (a, d) = sha1_Round e a b c d (sha1_f2 a b c) sha1_k4 w13;
      w14 = sha1_left (w14 XOR w11 XOR w6 XOR w0);
      (e, c) = sha1_Round d e a b c (sha1_f2 e a b) sha1_k4 w14;
      w15 = sha1_left (w15 XOR w12 XOR w7 XOR w1);
      (d, b) = sha1_Round c d e a b (sha1_f2 d e a) sha1_k4 w15
    in ((a, b, c, d, e), (w0, w1, w2, w3, w4, w5, w6, w7, w8, w9, w10, w11, w12, w13, w14, w15)))"

definition sha1_rounds5 :: "sha1_schedule \<Rightarrow> sha1_state \<Rightarrow> sha1_state" where
  "sha1_rounds5 = (\<lambda>(w0, w1, w2, w3, w4, w5, w6, w7, w8, w9, w10, w11, w12, w13, w14, w15) (a, b, c, d, e).
    let
      w0 = sha1_left (w0 XOR w13 XOR w8 XOR w2);
      (c, a) = sha1_Round b c d e a (sha1_f2 c d e) sha1_k4 w0;
      w1 = sha1_left (w1 XOR w14 XOR w9 XOR w3);
      (b, e) = sha1_Round a b c d e (sha1_f2 b c d) sha1_k4 w1;
      w2 = sha1_left (w2 XOR w15 XOR w10 XOR w4);
      (a, d) = sha1_Round e a b c d (sha1_f2 a b c) sha1_k4 w2;
      w3 = sha1_left (w3 XOR w0 XOR w11 XOR w5);
      (e, c) = sha1_Round d e a b c (sha1_f2 e a b) sha1_k4 w3;
      w4 = sha1_left (w4 XOR w1 XOR w12 XOR w6);
      (d, b) = sha1_Round c d e a b (sha1_f2 d e a) sha1_k4 w4;
      w5 = sha1_left (w5 XOR w2 XOR w13 XOR w7);
      (c, a) = sha1_Round b c d e a (sha1_f2 c d e) sha1_k4 w5;
      w6 = sha1_left (w6 XOR w3 XOR w14 XOR w8);
      (b, e) = sha1_Round a b c d e (sha1_f2 b c d) sha1_k4 w6;
      w7 = sha1_left (w7 XOR w4 XOR w15 XOR w9);
      (a, d) = sha1_Round e a b c d (sha1_f2 a b c) sha1_k4 w7;
      w8 = sha1_left (w8 XOR w5 XOR w0 XOR w10);
      (e, c) = sha1_Round d e a b c (sha1_f2 e a b) sha1_k4 w8;
      w9 = sha1_left (w9 XOR w6 XOR w1 XOR w11);
      (d, b) = sha1_Round c d e a b (sha1_f2 d e a) sha1_k4 w9;
      w10 = sha1_left (w10 XOR w7 XOR w2 XOR w12);
      (c, a) = sha1_Round b c d e a (sha1_f2 c d e) sha1_k4 w10;
      w11 = sha1_left (w11 XOR w8 XOR w3 XOR w13);
      (b, e) = sha1_Round a b c d e (sha1_f2 b c d) sha1_k4 w11;
      w12 = sha1_left (w12 XOR w9 XOR w4 XOR w14);
      (a, d) = sha1_Round e a b c d (sha1_f2 a b c) sha1_k4 w12;
      (e, c) = sha1_Round d e a b c (sha1_f2 e a b) sha1_k4 (sha1_left (w13 XOR w10 XOR w5 XOR w15));
      (d, b) = sha1_Round c d e a b (sha1_f2 d e a) sha1_k4 (sha1_left (w14 XOR w11 XOR w6 XOR w0));
      (c, a) = sha1_Round b c d e a (sha1_f2 c d e) sha1_k4 (sha1_left (w15 XOR w12 XOR w7 XOR w1))
    in (a, b, c, d, e))"

definition sha1_Transform :: "u32 list \<Rightarrow> bytes \<Rightarrow> u32 list" where
  "sha1_Transform s chunk =
    (let (v, w) = sha1_rounds1 chunk (s ! 0, s ! 1, s ! 2, s ! 3, s ! 4);
         (v, w) = sha1_rounds2 w v;
         (v, w) = sha1_rounds3 w v;
         (v, w) = sha1_rounds4 w v;
         (a, b, c, d, e) = sha1_rounds5 w v
     in [s ! 0 + a, s ! 1 + b, s ! 2 + c, s ! 3 + d, s ! 4 + e])"

definition CSHA1 :: "u32 hasher" where
  "CSHA1 = \<lparr>hs_s = sha1_Initialize, hs_buf = replicate 64 0, hs_bytes = 0\<rparr>"

definition CSHA1_Write :: "u32 hasher \<Rightarrow> bytes \<Rightarrow> u32 hasher" where
  "CSHA1_Write = chunked_Write 64 sha1_Transform"

definition CSHA1_Finalize :: "u32 hasher \<Rightarrow> u32 hasher \<times> bytes" where
  "CSHA1_Finalize h =
    (let sizedesc = WriteBE64 (push_bit 3 (hs_bytes h));
         h = CSHA1_Write h (take (1 + (119 - unat (hs_bytes h) mod 64) mod 64) (0x80 # replicate 63 0));
         h = CSHA1_Write h sizedesc
     in (h, concat (map WriteBE32 (hs_s h))))"

definition CSHA1_Reset :: "u32 hasher \<Rightarrow> u32 hasher" where
  "CSHA1_Reset h = h\<lparr>hs_bytes := 0, hs_s := sha1_Initialize\<rparr>"

section \<open>The reference\<close>

definition sha1_Parity :: "u32 \<Rightarrow> u32 \<Rightarrow> u32 \<Rightarrow> u32" where
  "sha1_Parity x y z = x XOR y XOR z"

definition sha1_ref_f :: "nat \<Rightarrow> u32 \<Rightarrow> u32 \<Rightarrow> u32 \<Rightarrow> u32" where
  "sha1_ref_f t =
    (if t < 20 then sha2_Ch else if t < 40 then sha1_Parity else if t < 60 then sha2_Maj else sha1_Parity)"

text \<open>The constants are square roots scaled by the thirtieth power of two.\<close>

definition sha1_ref_K :: "nat \<Rightarrow> u32" where
  "sha1_ref_K t = of_nat (iroot 2 ((if t < 20 then 2 else if t < 40 then 3 else if t < 60 then 5 else 10) * 2 ^ 60))"

fun sha1_round :: "sha1_state \<Rightarrow> (u32 \<Rightarrow> u32 \<Rightarrow> u32 \<Rightarrow> u32) \<times> u32 \<times> u32 \<Rightarrow> sha1_state" where
  "sha1_round (a, b, c, d, e) (f, k, w) = (word_rotl 5 a + f b c d + e + k + w, a, word_rotl 30 b, c, d)"

definition sha1_extend :: "u32 list \<Rightarrow> u32 list" where
  "sha1_extend W = (let t = length W in W @ [word_rotl 1 (W ! (t - 3) XOR W ! (t - 8) XOR W ! (t - 14) XOR W ! (t - 16))])"

definition sha1_ref_block :: "u32 list \<Rightarrow> bytes \<Rightarrow> u32 list" where
  "sha1_ref_block s chunk =
    (let W = (sha1_extend ^^ 64) (map (\<lambda>i. ReadBE32 (drop (4 * i) chunk)) [0..<16]) in
      case foldl sha1_round (s ! 0, s ! 1, s ! 2, s ! 3, s ! 4) (map (\<lambda>t. (sha1_ref_f t, sha1_ref_K t, W ! t)) [0..<80]) of
        (a, b, c, d, e) \<Rightarrow> map2 (+) s [a, b, c, d, e])"

definition sha1_ref :: "bytes \<Rightarrow> bytes" where
  "sha1_ref m =
    concat (map WriteBE32
      (md_digest 64 8 (\<lambda>l. WriteBE64 (of_nat l)) sha1_ref_block [0x67452301, 0xEFCDAB89, 0x98BADCFE, 0x10325476, 0xC3D2E1F0] m))"

section \<open>Lemmas\<close>

subsection \<open>The compression function\<close>

lemma sha1_f_ref:
  "sha1_f1 = sha2_Ch" "sha1_f2 = sha1_Parity" "sha1_f3 = sha2_Maj"
  by (simp_all add: fun_eq_iff sha1_f1_def sha1_f2_def sha1_f3_def sha1_Parity_def sha2_Ch_alt sha2_Maj_alt)

lemma sha1_left_ref: "sha1_left x = word_rotl 1 x"
  using rotl_shifts [of 1 31 x] by (simp add: sha1_left_def)

lemma sha1_K_ref:
  "t < 20 \<Longrightarrow> sha1_ref_K t = sha1_k1" "20 \<le> t \<Longrightarrow> t < 40 \<Longrightarrow> sha1_ref_K t = sha1_k2"
  "40 \<le> t \<Longrightarrow> t < 60 \<Longrightarrow> sha1_ref_K t = sha1_k3" "60 \<le> t \<Longrightarrow> sha1_ref_K t = sha1_k4"
  using iroot_eq [of 2 1518500249 "2 * 2 ^ 60"] iroot_eq [of 2 1859775393 "3 * 2 ^ 60"]
    iroot_eq [of 2 2400959708 "5 * 2 ^ 60"] iroot_eq [of 2 3395469782 "10 * 2 ^ 60"]
  by (simp_all add: sha1_ref_K_def sha1_k1_def sha1_k2_def sha1_k3_def sha1_k4_def)

lemma sha1_round_Round:
  "sha1_round (a, b, c, d, e) (f, k, w) = (case sha1_Round a b c d e (f b c d) k w of (b', e') \<Rightarrow> (e', a, b', c, d))"
  using rotl_shifts [of 5 27 a] rotl_shifts [of 30 2 b] by (simp add: sha1_Round_def ac_simps)

declare sha1_round.simps [simp del]

abbreviation sha1_window :: "(nat \<Rightarrow> u32) \<Rightarrow> nat \<Rightarrow> sha1_schedule" where
  "sha1_window w n \<equiv> (w n, w (n + 1), w (n + 2), w (n + 3), w (n + 4), w (n + 5), w (n + 6), w (n + 7),
    w (n + 8), w (n + 9), w (n + 10), w (n + 11), w (n + 12), w (n + 13), w (n + 14), w (n + 15))"

abbreviation sha1_rec :: "(nat \<Rightarrow> u32) \<Rightarrow> bool" where
  "sha1_rec w \<equiv> list_all (\<lambda>i. sha1_left (w i XOR w (i + 13) XOR w (i + 8) XOR w (i + 2)) = w (i + 16))
    [0, 1, 2, 3, 4, 5, 6, 7, 8, 9, 10, 11, 12, 13, 14, 15]"

text \<open>The function and the constant of each round.\<close>

definition sha1_fk :: "nat \<Rightarrow> (u32 \<Rightarrow> u32 \<Rightarrow> u32 \<Rightarrow> u32) \<times> u32" where
  "sha1_fk t = (if t < 20 then (sha1_f1, sha1_k1) else if t < 40 then (sha1_f2, sha1_k2)
     else if t < 60 then (sha1_f3, sha1_k3) else (sha1_f2, sha1_k4))"

lemma sha1_fk_ref: "(sha1_ref_f t, sha1_ref_K t, x) = (fst (sha1_fk t), snd (sha1_fk t), x)"
  using sha1_K_ref [of t] by (simp add: sha1_fk_def sha1_ref_f_def sha1_f_ref)

text \<open>Sixteen rounds from round \<open>n\<close>, on the words of the window that starts at \<open>m\<close>.\<close>

abbreviation sha1_rounds :: "nat \<Rightarrow> nat \<Rightarrow> (nat \<Rightarrow> u32) \<Rightarrow> sha1_state \<Rightarrow> sha1_state" where
  "sha1_rounds n m w s \<equiv> foldl sha1_round s (map (\<lambda>i. (fst (sha1_fk (n + i)), snd (sha1_fk (n + i)), w (m + i))) (sixteen 0))"

text \<open>
  Eighty rounds in groups of sixteen, five variables: each group leaves the variables one place
  further from their roles.
\<close>

fun sha1_rot :: "sha1_state \<Rightarrow> sha1_state" where
  "sha1_rot (a, b, c, d, e) = (b, c, d, e, a)"

lemmas sha1_round_distrib =
  prod.case_distrib [of "\<lambda>s. sha1_round s x" for x] prod.case_distrib [of "\<lambda>s. (s, w)" for w]
  prod.case_distrib [of sha1_rot]

lemma pentad_exhaust:
  obtains a b c d e where "x = (a, b, c, d, e :: 'w)"
  by (cases x) auto

lemma sha1_rounds1_eq:
  "sha1_rounds1 chunk s = (let w = \<lambda>i. ReadBE32 (drop (4 * i) chunk) in (sha1_rot (sha1_rounds 0 0 w s), sha1_window w 0))"
  by (cases s rule: pentad_exhaust)
    (simp add: sha1_rounds1_def sha1_fk_def sha1_round_Round sha1_round_distrib Let_def)

lemma sha1_rounds2_eq:
  "sha1_rec w \<Longrightarrow> sha1_rounds2 (sha1_window w 0) (sha1_rot s) = (sha1_rot (sha1_rot (sha1_rounds 16 16 w s)), sha1_window w 16)"
  by (cases s rule: pentad_exhaust)
    (simp add: sha1_rounds2_def sha1_fk_def sha1_round_Round sha1_round_distrib Let_def
      del: One_nat_def add_2_eq_Suc add_2_eq_Suc')

lemma sha1_rounds3_eq:
  "sha1_rec w \<Longrightarrow> sha1_rounds3 (sha1_window w 0) (sha1_rot (sha1_rot s)) = (sha1_rot (sha1_rot (sha1_rot (sha1_rounds 32 16 w s))), sha1_window w 16)"
  by (cases s rule: pentad_exhaust)
    (simp add: sha1_rounds3_def sha1_fk_def sha1_round_Round sha1_round_distrib Let_def
      del: One_nat_def add_2_eq_Suc add_2_eq_Suc')

lemma sha1_rounds4_eq:
  "sha1_rec w \<Longrightarrow> sha1_rounds4 (sha1_window w 0) (sha1_rot (sha1_rot (sha1_rot s))) = (sha1_rot (sha1_rot (sha1_rot (sha1_rot (sha1_rounds 48 16 w s)))), sha1_window w 16)"
  by (cases s rule: pentad_exhaust)
    (simp add: sha1_rounds4_def sha1_fk_def sha1_round_Round sha1_round_distrib Let_def
      del: One_nat_def add_2_eq_Suc add_2_eq_Suc')

lemma sha1_rounds5_eq:
  "sha1_rec w \<Longrightarrow> sha1_rounds5 (sha1_window w 0) (sha1_rot (sha1_rot (sha1_rot (sha1_rot s)))) = sha1_rounds 64 16 w s"
  by (cases s rule: pentad_exhaust)
    (simp add: sha1_rounds5_def sha1_fk_def sha1_round_Round sha1_round_distrib Let_def
      del: One_nat_def add_2_eq_Suc add_2_eq_Suc')

text \<open>The schedule.\<close>

lemma length_sha1_extend: "length ((sha1_extend ^^ k) M) = length M + k"
proof (induction k)
  case (Suc k)
  then show ?case
    by (simp add: sha1_extend_def [of "(sha1_extend ^^ k) M"] Let_def)
qed simp

lemma sha1_extend_nth:
  assumes "length M = 16"
  shows "t < 16 \<Longrightarrow> (sha1_extend ^^ k) M ! t = M ! t"
    "16 \<le> t \<Longrightarrow> t < 16 + k \<Longrightarrow> (sha1_extend ^^ k) M ! t =
      word_rotl 1 ((sha1_extend ^^ k) M ! (t - 3) XOR (sha1_extend ^^ k) M ! (t - 8)
        XOR (sha1_extend ^^ k) M ! (t - 14) XOR (sha1_extend ^^ k) M ! (t - 16))"
proof (induction k)
  case (Suc k)
  note l = length_sha1_extend [of k M] and e = sha1_extend_def [of "(sha1_extend ^^ k) M"]
  { case 1
    then show ?case
      using Suc by (simp add: e Let_def nth_append l assms) }
  { case 2
    have i: "t - 3 < 16 + k" "t - 8 < 16 + k" "t - 14 < 16 + k" "t - 16 < 16 + k"
      using 2 by linarith+
    show ?case
      using 2 Suc(2) i by (cases "t = 16 + k") (simp_all add: e Let_def nth_append l assms) }
qed simp_all

lemma sha1_schedule_rec:
  assumes "length M = 16" and "n + 32 \<le> 80"
  shows "sha1_rec (\<lambda>i. (sha1_extend ^^ 64) M ! (n + i))"
proof -
  let ?W = "(sha1_extend ^^ 64) M"
  have step: "sha1_left (?W ! (n + i) XOR ?W ! (n + (i + 13)) XOR ?W ! (n + (i + 8)) XOR ?W ! (n + (i + 2))) = ?W ! (n + (i + 16))"
    if "i < 16" for i
  proof -
    have d: "n + (i + 16) - 3 = n + (i + 13)" "n + (i + 16) - 8 = n + (i + 8)" "n + (i + 16) - 14 = n + (i + 2)"
      "n + (i + 16) - 16 = n + i"
      by simp_all
    have "16 \<le> n + (i + 16)" "n + (i + 16) < 16 + 64"
      using that assms by simp_all
    from sha1_extend_nth(2) [OF assms(1) this] show ?thesis
      unfolding d sha1_left_ref by (simp only: ac_simps)
  qed
  show ?thesis
    unfolding list_all_iff by (intro ballI step) auto
qed

lemma sha1_Transform_eq:
  assumes "length s = 5"
  shows "sha1_Transform s chunk = sha1_ref_block s chunk"
proof -
  define M where "M = map (\<lambda>i. ReadBE32 (drop (4 * i) chunk)) [0..<16]"
  define W where "W = (sha1_extend ^^ 64) M"
  have M: "length M = 16" "\<And>i. i < 16 \<Longrightarrow> M ! i = ReadBE32 (drop (4 * i) chunk)"
    by (simp_all add: M_def)
  have rec: "sha1_rec (\<lambda>i. W ! (n + i))" if "n + 32 \<le> 80" for n
    unfolding W_def by (rule sha1_schedule_rec [OF M(1) that])
  have W0: "W ! i = ReadBE32 (drop (4 * i) chunk)" if "i < 16" for i
    unfolding W_def using M that by (simp add: sha1_extend_nth(1))
  have r1: "sha1_rounds1 chunk v = (sha1_rot (sha1_rounds 0 0 ((!) W) v), sha1_window ((!) W) 0)" for v
    unfolding sha1_rounds1_eq by (simp add: W0 Let_def)
  have r2: "sha1_rounds2 (sha1_window ((!) W) 0) (sha1_rot v) = (sha1_rot (sha1_rot (sha1_rounds 16 16 ((!) W) v)), sha1_window ((!) W) 16)" for v
    using sha1_rounds2_eq [OF rec [of 0], of v] by simp
  have r3: "sha1_rounds3 (sha1_window ((!) W) 16) (sha1_rot (sha1_rot v)) = (sha1_rot (sha1_rot (sha1_rot (sha1_rounds 32 32 ((!) W) v))), sha1_window ((!) W) 32)" for v
    using sha1_rounds3_eq [OF rec [of 16], of v] by simp
  have r4: "sha1_rounds4 (sha1_window ((!) W) 32) (sha1_rot (sha1_rot (sha1_rot v))) = (sha1_rot (sha1_rot (sha1_rot (sha1_rot (sha1_rounds 48 48 ((!) W) v)))), sha1_window ((!) W) 48)" for v
    using sha1_rounds4_eq [OF rec [of 32], of v] by simp
  have r5: "sha1_rounds5 (sha1_window ((!) W) 48) (sha1_rot (sha1_rot (sha1_rot (sha1_rot v)))) = sha1_rounds 64 64 ((!) W) v" for v
    using sha1_rounds5_eq [OF rec [of 48], of v] by simp
  have "foldl sha1_round v (map (\<lambda>t. (sha1_ref_f t, sha1_ref_K t, W ! t)) [0..<80])
      = sha1_rounds 64 64 ((!) W) (sha1_rounds 48 48 ((!) W) (sha1_rounds 32 32 ((!) W) (sha1_rounds 16 16 ((!) W) (sha1_rounds 0 0 ((!) W) v))))" for v
    unfolding upt_sixteen sha1_fk_ref by simp
  moreover have "map2 (+) s [a, b, c, d, e] = [s ! 0 + a, s ! 1 + b, s ! 2 + c, s ! 3 + d, s ! 4 + e]" for a b c d e
    using assms by (auto simp: length_Suc_conv numeral_eq_Suc)
  ultimately show ?thesis
    unfolding sha1_ref_block_def sha1_Transform_def M_def [symmetric] W_def [symmetric]
    by (simp only: r1 r2 r3 r4 r5 Let_def prod.case)
qed

lemma length_sha1_Transform [simp]: "length (sha1_Transform s chunk) = 5"
  by (simp add: sha1_Transform_def split: prod.splits)

lemma sha1_Transform_take: "64 \<le> length d \<Longrightarrow> sha1_Transform s (take 64 d) = sha1_Transform s d"
  by (simp add: sha1_Transform_def sha1_rounds1_eq Let_def Read_take)

subsection \<open>The class\<close>

interpretation csha1: md_hasher 64 sha1_Transform CSHA1 CSHA1_Write
proof
  show "represents 64 sha1_Transform (hs_s CSHA1) CSHA1 []"
    by (simp add: represents_def CSHA1_def absorb_short)
  show "represents 64 sha1_Transform (hs_s CSHA1) (CSHA1_Write h d) (m @ d)"
    if "represents 64 sha1_Transform (hs_s CSHA1) h m" for h m d
    using that unfolding CSHA1_Write_def by (intro represents_chunked_Write sha1_Transform_take) simp_all
qed simp

abbreviation CSHA1_represents :: "u32 hasher \<Rightarrow> bytes \<Rightarrow> bool" where
  "CSHA1_represents \<equiv> represents 64 sha1_Transform (hs_s CSHA1)"

lemma CSHA1_Reset_represents: "CSHA1_represents h m \<Longrightarrow> CSHA1_represents (CSHA1_Reset h) []"
  by (simp add: represents_def CSHA1_def CSHA1_Reset_def absorb_short)

lemma CSHA1_Finalize_digest:
  assumes "CSHA1_represents h m"
  shows "snd (CSHA1_Finalize h) = sha1_ref m" "CSHA1_represents (CSHA1_Reset (fst (CSHA1_Finalize h))) []"
proof -
  have i: "hs_s CSHA1 = [0x67452301, 0xEFCDAB89, 0x98BADCFE, 0x10325476, 0xC3D2E1F0]" "length (hs_s CSHA1) = 5"
    by (simp_all add: CSHA1_def sha1_Initialize_def)
  have "absorb 64 sha1_Transform (hs_s CSHA1) d = absorb 64 sha1_ref_block (hs_s CSHA1) d" for d
    by (rule absorb_cong [of "\<lambda>s. length s = 5"]) (auto intro: sha1_Transform_eq simp: i(2))
  then show "snd (CSHA1_Finalize h) = sha1_ref m"
    using csha1.chaining_value [OF assms] assms
    by (simp add: CSHA1_Finalize_def Let_def sha1_ref_def md_digest_def md_pad_eq represents_def push_bit_3 i(1) del: take_Suc_Cons)
  show "CSHA1_represents (CSHA1_Reset (fst (CSHA1_Finalize h))) []"
    unfolding CSHA1_Finalize_def Let_def fst_conv
    by (rule CSHA1_Reset_represents [OF csha1.Write_represents [OF csha1.Write_represents [OF assms]]])
qed

end
