(* ===== verification/Sha256.thy ===== *)
theory Sha256
  imports Sha2Ref
begin

unbundle bit_operations_syntax

text \<open>
  \<^verbatim>\<open>src/src/crypto/sha256.cpp\<close>.  The compression function is unrolled and works in place: the eight working
  variables change roles from call to call of \<^verbatim>\<open>Round\<close>, and sixteen variables hold a sliding window
  of the message schedule.  It is translated line by line, one definition for each block of sixteen
  rounds, and shown equal to the reference of \<open>Sha2Ref\<close>.
\<close>

section \<open>Definitions\<close>

definition sha256_Ch :: "u32 \<Rightarrow> u32 \<Rightarrow> u32 \<Rightarrow> u32" where
  "sha256_Ch x y z = z XOR (x AND (y XOR z))"

definition sha256_Maj :: "u32 \<Rightarrow> u32 \<Rightarrow> u32 \<Rightarrow> u32" where
  "sha256_Maj x y z = (x AND y) OR (z AND (x OR y))"

definition sha256_Sigma0 :: "u32 \<Rightarrow> u32" where
  "sha256_Sigma0 x = (drop_bit 2 x OR push_bit 30 x) XOR (drop_bit 13 x OR push_bit 19 x) XOR (drop_bit 22 x OR push_bit 10 x)"

definition sha256_Sigma1 :: "u32 \<Rightarrow> u32" where
  "sha256_Sigma1 x = (drop_bit 6 x OR push_bit 26 x) XOR (drop_bit 11 x OR push_bit 21 x) XOR (drop_bit 25 x OR push_bit 7 x)"

definition sha256_sigma0 :: "u32 \<Rightarrow> u32" where
  "sha256_sigma0 x = (drop_bit 7 x OR push_bit 25 x) XOR (drop_bit 18 x OR push_bit 14 x) XOR drop_bit 3 x"

definition sha256_sigma1 :: "u32 \<Rightarrow> u32" where
  "sha256_sigma1 x = (drop_bit 17 x OR push_bit 15 x) XOR (drop_bit 19 x OR push_bit 13 x) XOR drop_bit 10 x"

type_synonym sha256_state = "u32 \<times> u32 \<times> u32 \<times> u32 \<times> u32 \<times> u32 \<times> u32 \<times> u32"
type_synonym sha256_schedule = "u32 \<times> u32 \<times> u32 \<times> u32 \<times> u32 \<times> u32 \<times> u32 \<times> u32 \<times> u32 \<times> u32 \<times> u32 \<times> u32 \<times> u32 \<times> u32 \<times> u32 \<times> u32"

text \<open>\<^verbatim>\<open>Round\<close> changes its arguments \<^verbatim>\<open>d\<close> and \<^verbatim>\<open>h\<close>, which it returns.\<close>

definition sha256_Round ::
  "u32 \<Rightarrow> u32 \<Rightarrow> u32 \<Rightarrow> u32 \<Rightarrow> u32 \<Rightarrow> u32 \<Rightarrow> u32 \<Rightarrow> u32 \<Rightarrow> u32 \<Rightarrow> u32 \<Rightarrow> u32 \<times> u32" where
  "sha256_Round a b c d e f g h k w =
    (let t1 = h + sha256_Sigma1 e + sha256_Ch e f g + k + w; t2 = sha256_Sigma0 a + sha256_Maj a b c in (d + t1, t1 + t2))"

definition sha256_Initialize :: "u32 list" where
  "sha256_Initialize =
    [0x6a09e667, 0xbb67ae85, 0x3c6ef372, 0xa54ff53a, 0x510e527f, 0x9b05688c, 0x1f83d9ab, 0x5be0cd19]"

definition sha256_rounds1 :: "bytes \<Rightarrow> sha256_state \<Rightarrow> sha256_state \<times> sha256_schedule" where
  "sha256_rounds1 = (\<lambda>chunk (a, b, c, d, e, f, g, h).
    let
      w0 = ReadBE32 (drop 0 chunk);
      (d, h) = sha256_Round a b c d e f g h 0x428a2f98 w0;
      w1 = ReadBE32 (drop 4 chunk);
      (c, g) = sha256_Round h a b c d e f g 0x71374491 w1;
      w2 = ReadBE32 (drop 8 chunk);
      (b, f) = sha256_Round g h a b c d e f 0xb5c0fbcf w2;
      w3 = ReadBE32 (drop 12 chunk);
      (a, e) = sha256_Round f g h a b c d e 0xe9b5dba5 w3;
      w4 = ReadBE32 (drop 16 chunk);
      (h, d) = sha256_Round e f g h a b c d 0x3956c25b w4;
      w5 = ReadBE32 (drop 20 chunk);
      (g, c) = sha256_Round d e f g h a b c 0x59f111f1 w5;
      w6 = ReadBE32 (drop 24 chunk);
      (f, b) = sha256_Round c d e f g h a b 0x923f82a4 w6;
      w7 = ReadBE32 (drop 28 chunk);
      (e, a) = sha256_Round b c d e f g h a 0xab1c5ed5 w7;
      w8 = ReadBE32 (drop 32 chunk);
      (d, h) = sha256_Round a b c d e f g h 0xd807aa98 w8;
      w9 = ReadBE32 (drop 36 chunk);
      (c, g) = sha256_Round h a b c d e f g 0x12835b01 w9;
      w10 = ReadBE32 (drop 40 chunk);
      (b, f) = sha256_Round g h a b c d e f 0x243185be w10;
      w11 = ReadBE32 (drop 44 chunk);
      (a, e) = sha256_Round f g h a b c d e 0x550c7dc3 w11;
      w12 = ReadBE32 (drop 48 chunk);
      (h, d) = sha256_Round e f g h a b c d 0x72be5d74 w12;
      w13 = ReadBE32 (drop 52 chunk);
      (g, c) = sha256_Round d e f g h a b c 0x80deb1fe w13;
      w14 = ReadBE32 (drop 56 chunk);
      (f, b) = sha256_Round c d e f g h a b 0x9bdc06a7 w14;
      w15 = ReadBE32 (drop 60 chunk);
      (e, a) = sha256_Round b c d e f g h a 0xc19bf174 w15
    in ((a, b, c, d, e, f, g, h), (w0, w1, w2, w3, w4, w5, w6, w7, w8, w9, w10, w11, w12, w13, w14, w15)))"

definition sha256_rounds2 :: "sha256_schedule \<Rightarrow> sha256_state \<Rightarrow> sha256_state \<times> sha256_schedule" where
  "sha256_rounds2 = (\<lambda>(w0, w1, w2, w3, w4, w5, w6, w7, w8, w9, w10, w11, w12, w13, w14, w15) (a, b, c, d, e, f, g, h).
    let
      w0 = w0 + (sha256_sigma1 w14 + w9 + sha256_sigma0 w1);
      (d, h) = sha256_Round a b c d e f g h 0xe49b69c1 w0;
      w1 = w1 + (sha256_sigma1 w15 + w10 + sha256_sigma0 w2);
      (c, g) = sha256_Round h a b c d e f g 0xefbe4786 w1;
      w2 = w2 + (sha256_sigma1 w0 + w11 + sha256_sigma0 w3);
      (b, f) = sha256_Round g h a b c d e f 0x0fc19dc6 w2;
      w3 = w3 + (sha256_sigma1 w1 + w12 + sha256_sigma0 w4);
      (a, e) = sha256_Round f g h a b c d e 0x240ca1cc w3;
      w4 = w4 + (sha256_sigma1 w2 + w13 + sha256_sigma0 w5);
      (h, d) = sha256_Round e f g h a b c d 0x2de92c6f w4;
      w5 = w5 + (sha256_sigma1 w3 + w14 + sha256_sigma0 w6);
      (g, c) = sha256_Round d e f g h a b c 0x4a7484aa w5;
      w6 = w6 + (sha256_sigma1 w4 + w15 + sha256_sigma0 w7);
      (f, b) = sha256_Round c d e f g h a b 0x5cb0a9dc w6;
      w7 = w7 + (sha256_sigma1 w5 + w0 + sha256_sigma0 w8);
      (e, a) = sha256_Round b c d e f g h a 0x76f988da w7;
      w8 = w8 + (sha256_sigma1 w6 + w1 + sha256_sigma0 w9);
      (d, h) = sha256_Round a b c d e f g h 0x983e5152 w8;
      w9 = w9 + (sha256_sigma1 w7 + w2 + sha256_sigma0 w10);
      (c, g) = sha256_Round h a b c d e f g 0xa831c66d w9;
      w10 = w10 + (sha256_sigma1 w8 + w3 + sha256_sigma0 w11);
      (b, f) = sha256_Round g h a b c d e f 0xb00327c8 w10;
      w11 = w11 + (sha256_sigma1 w9 + w4 + sha256_sigma0 w12);
      (a, e) = sha256_Round f g h a b c d e 0xbf597fc7 w11;
      w12 = w12 + (sha256_sigma1 w10 + w5 + sha256_sigma0 w13);
      (h, d) = sha256_Round e f g h a b c d 0xc6e00bf3 w12;
      w13 = w13 + (sha256_sigma1 w11 + w6 + sha256_sigma0 w14);
      (g, c) = sha256_Round d e f g h a b c 0xd5a79147 w13;
      w14 = w14 + (sha256_sigma1 w12 + w7 + sha256_sigma0 w15);
      (f, b) = sha256_Round c d e f g h a b 0x06ca6351 w14;
      w15 = w15 + (sha256_sigma1 w13 + w8 + sha256_sigma0 w0);
      (e, a) = sha256_Round b c d e f g h a 0x14292967 w15
    in ((a, b, c, d, e, f, g, h), (w0, w1, w2, w3, w4, w5, w6, w7, w8, w9, w10, w11, w12, w13, w14, w15)))"

definition sha256_rounds3 :: "sha256_schedule \<Rightarrow> sha256_state \<Rightarrow> sha256_state \<times> sha256_schedule" where
  "sha256_rounds3 = (\<lambda>(w0, w1, w2, w3, w4, w5, w6, w7, w8, w9, w10, w11, w12, w13, w14, w15) (a, b, c, d, e, f, g, h).
    let
      w0 = w0 + (sha256_sigma1 w14 + w9 + sha256_sigma0 w1);
      (d, h) = sha256_Round a b c d e f g h 0x27b70a85 w0;
      w1 = w1 + (sha256_sigma1 w15 + w10 + sha256_sigma0 w2);
      (c, g) = sha256_Round h a b c d e f g 0x2e1b2138 w1;
      w2 = w2 + (sha256_sigma1 w0 + w11 + sha256_sigma0 w3);
      (b, f) = sha256_Round g h a b c d e f 0x4d2c6dfc w2;
      w3 = w3 + (sha256_sigma1 w1 + w12 + sha256_sigma0 w4);
      (a, e) = sha256_Round f g h a b c d e 0x53380d13 w3;
      w4 = w4 + (sha256_sigma1 w2 + w13 + sha256_sigma0 w5);
      (h, d) = sha256_Round e f g h a b c d 0x650a7354 w4;
      w5 = w5 + (sha256_sigma1 w3 + w14 + sha256_sigma0 w6);
      (g, c) = sha256_Round d e f g h a b c 0x766a0abb w5;
      w6 = w6 + (sha256_sigma1 w4 + w15 + sha256_sigma0 w7);
      (f, b) = sha256_Round c d e f g h a b 0x81c2c92e w6;
      w7 = w7 + (sha256_sigma1 w5 + w0 + sha256_sigma0 w8);
      (e, a) = sha256_Round b c d e f g h a 0x92722c85 w7;
      w8 = w8 + (sha256_sigma1 w6 + w1 + sha256_sigma0 w9);
      (d, h) = sha256_Round a b c d e f g h 0xa2bfe8a1 w8;
      w9 = w9 + (sha256_sigma1 w7 + w2 + sha256_sigma0 w10);
      (c, g) = sha256_Round h a b c d e f g 0xa81a664b w9;
      w10 = w10 + (sha256_sigma1 w8 + w3 + sha256_sigma0 w11);
      (b, f) = sha256_Round g h a b c d e f 0xc24b8b70 w10;
      w11 = w11 + (sha256_sigma1 w9 + w4 + sha256_sigma0 w12);
      (a, e) = sha256_Round f g h a b c d e 0xc76c51a3 w11;
      w12 = w12 + (sha256_sigma1 w10 + w5 + sha256_sigma0 w13);
      (h, d) = sha256_Round e f g h a b c d 0xd192e819 w12;
      w13 = w13 + (sha256_sigma1 w11 + w6 + sha256_sigma0 w14);
      (g, c) = sha256_Round d e f g h a b c 0xd6990624 w13;
      w14 = w14 + (sha256_sigma1 w12 + w7 + sha256_sigma0 w15);
      (f, b) = sha256_Round c d e f g h a b 0xf40e3585 w14;
      w15 = w15 + (sha256_sigma1 w13 + w8 + sha256_sigma0 w0);
      (e, a) = sha256_Round b c d e f g h a 0x106aa070 w15
    in ((a, b, c, d, e, f, g, h), (w0, w1, w2, w3, w4, w5, w6, w7, w8, w9, w10, w11, w12, w13, w14, w15)))"

definition sha256_rounds4 :: "sha256_schedule \<Rightarrow> sha256_state \<Rightarrow> sha256_state" where
  "sha256_rounds4 = (\<lambda>(w0, w1, w2, w3, w4, w5, w6, w7, w8, w9, w10, w11, w12, w13, w14, w15) (a, b, c, d, e, f, g, h).
    let
      w0 = w0 + (sha256_sigma1 w14 + w9 + sha256_sigma0 w1);
      (d, h) = sha256_Round a b c d e f g h 0x19a4c116 w0;
      w1 = w1 + (sha256_sigma1 w15 + w10 + sha256_sigma0 w2);
      (c, g) = sha256_Round h a b c d e f g 0x1e376c08 w1;
      w2 = w2 + (sha256_sigma1 w0 + w11 + sha256_sigma0 w3);
      (b, f) = sha256_Round g h a b c d e f 0x2748774c w2;
      w3 = w3 + (sha256_sigma1 w1 + w12 + sha256_sigma0 w4);
      (a, e) = sha256_Round f g h a b c d e 0x34b0bcb5 w3;
      w4 = w4 + (sha256_sigma1 w2 + w13 + sha256_sigma0 w5);
      (h, d) = sha256_Round e f g h a b c d 0x391c0cb3 w4;
      w5 = w5 + (sha256_sigma1 w3 + w14 + sha256_sigma0 w6);
      (g, c) = sha256_Round d e f g h a b c 0x4ed8aa4a w5;
      w6 = w6 + (sha256_sigma1 w4 + w15 + sha256_sigma0 w7);
      (f, b) = sha256_Round c d e f g h a b 0x5b9cca4f w6;
      w7 = w7 + (sha256_sigma1 w5 + w0 + sha256_sigma0 w8);
      (e, a) = sha256_Round b c d e f g h a 0x682e6ff3 w7;
      w8 = w8 + (sha256_sigma1 w6 + w1 + sha256_sigma0 w9);
      (d, h) = sha256_Round a b c d e f g h 0x748f82ee w8;
      w9 = w9 + (sha256_sigma1 w7 + w2 + sha256_sigma0 w10);
      (c, g) = sha256_Round h a b c d e f g 0x78a5636f w9;
      w10 = w10 + (sha256_sigma1 w8 + w3 + sha256_sigma0 w11);
      (b, f) = sha256_Round g h a b c d e f 0x84c87814 w10;
      w11 = w11 + (sha256_sigma1 w9 + w4 + sha256_sigma0 w12);
      (a, e) = sha256_Round f g h a b c d e 0x8cc70208 w11;
      w12 = w12 + (sha256_sigma1 w10 + w5 + sha256_sigma0 w13);
      (h, d) = sha256_Round e f g h a b c d 0x90befffa w12;
      w13 = w13 + (sha256_sigma1 w11 + w6 + sha256_sigma0 w14);
      (g, c) = sha256_Round d e f g h a b c 0xa4506ceb w13;
      (f, b) = sha256_Round c d e f g h a b 0xbef9a3f7 (w14 + sha256_sigma1 w12 + w7 + sha256_sigma0 w15);
      (e, a) = sha256_Round b c d e f g h a 0xc67178f2 (w15 + sha256_sigma1 w13 + w8 + sha256_sigma0 w0)
    in (a, b, c, d, e, f, g, h))"

definition sha256_block :: "u32 list \<Rightarrow> bytes \<Rightarrow> u32 list" where
  "sha256_block s chunk =
    (let (v, w) = sha256_rounds1 chunk (s ! 0, s ! 1, s ! 2, s ! 3, s ! 4, s ! 5, s ! 6, s ! 7);
         (v, w) = sha256_rounds2 w v;
         (v, w) = sha256_rounds3 w v;
         (a, b, c, d, e, f, g, h) = sha256_rounds4 w v
     in [s ! 0 + a, s ! 1 + b, s ! 2 + c, s ! 3 + d, s ! 4 + e, s ! 5 + f, s ! 6 + g, s ! 7 + h])"

primrec sha256_Transform :: "u32 list \<Rightarrow> bytes \<Rightarrow> nat \<Rightarrow> u32 list" where
  "sha256_Transform s chunk 0 = s"
| "sha256_Transform s chunk (Suc blocks) = sha256_Transform (sha256_block s chunk) (drop 64 chunk) blocks"

text \<open>
  The class.  The buffer of a new object is not initialised in the source; no operation reads a
  byte of it before writing it.
\<close>

definition CSHA256 :: "u32 hasher" where
  "CSHA256 = \<lparr>hs_s = sha256_Initialize, hs_buf = replicate 64 0, hs_bytes = 0\<rparr>"

definition CSHA256_Write :: "u32 hasher \<Rightarrow> bytes \<Rightarrow> u32 hasher" where
  "CSHA256_Write h data =
    (let bufsize = unat (hs_bytes h) mod 64;
         (h, data, bufsize) =
           (if bufsize \<noteq> 0 \<and> 64 \<le> bufsize + length data
            then (let b = overwrite (hs_buf h) bufsize (take (64 - bufsize) data) in
              (h\<lparr>hs_s := sha256_Transform (hs_s h) b 1, hs_buf := b, hs_bytes := hs_bytes h + of_nat (64 - bufsize)\<rparr>,
               drop (64 - bufsize) data, 0))
            else (h, data, bufsize));
         (h, data) =
           (if 64 \<le> length data
            then (let blocks = length data div 64 in
              (h\<lparr>hs_s := sha256_Transform (hs_s h) data blocks, hs_bytes := hs_bytes h + of_nat (64 * blocks)\<rparr>,
               drop (64 * blocks) data))
            else (h, data))
     in if data \<noteq> []
        then h\<lparr>hs_buf := overwrite (hs_buf h) bufsize data, hs_bytes := hs_bytes h + of_nat (length data)\<rparr>
        else h)"

text \<open>\<^verbatim>\<open>Finalize\<close> writes to the object; the result has the object and the digest.\<close>

definition CSHA256_Finalize :: "u32 hasher \<Rightarrow> u32 hasher \<times> bytes" where
  "CSHA256_Finalize h =
    (let sizedesc = WriteBE64 (push_bit 3 (hs_bytes h));
         h = CSHA256_Write h (take (1 + (119 - unat (hs_bytes h) mod 64) mod 64) (0x80 # replicate 63 0));
         h = CSHA256_Write h sizedesc
     in (h, concat (map WriteBE32 (hs_s h))))"

definition CSHA256_Reset :: "u32 hasher \<Rightarrow> u32 hasher" where
  "CSHA256_Reset h = h\<lparr>hs_bytes := 0, hs_s := sha256_Initialize\<rparr>"

section \<open>The reference\<close>

definition sha256_ref_Sigma0 :: "u32 \<Rightarrow> u32" where
  "sha256_ref_Sigma0 x = word_rotr 2 x XOR word_rotr 13 x XOR word_rotr 22 x"

definition sha256_ref_Sigma1 :: "u32 \<Rightarrow> u32" where
  "sha256_ref_Sigma1 x = word_rotr 6 x XOR word_rotr 11 x XOR word_rotr 25 x"

definition sha256_ref_sigma0 :: "u32 \<Rightarrow> u32" where
  "sha256_ref_sigma0 x = word_rotr 7 x XOR word_rotr 18 x XOR drop_bit 3 x"

definition sha256_ref_sigma1 :: "u32 \<Rightarrow> u32" where
  "sha256_ref_sigma1 x = word_rotr 17 x XOR word_rotr 19 x XOR drop_bit 10 x"

definition sha256_ref_block :: "u32 list \<Rightarrow> bytes \<Rightarrow> u32 list" where
  "sha256_ref_block s chunk =
    sha2_compress sha256_ref_Sigma0 sha256_ref_Sigma1 sha256_ref_sigma0 sha256_ref_sigma1
      (map (root_bits 3) (take 64 first_primes)) s (map (\<lambda>i. ReadBE32 (drop (4 * i) chunk)) [0..<16])"

text \<open>The digest of a message.\<close>

definition sha256_ref :: "bytes \<Rightarrow> bytes" where
  "sha256_ref m =
    concat (map WriteBE32
      (md_digest 64 8 (\<lambda>l. WriteBE64 (of_nat l)) sha256_ref_block (map (root_bits 2) (take 8 first_primes)) m))"

section \<open>Lemmas\<close>

subsection \<open>The compression function\<close>

lemma sha256_sigmas:
  "sha256_Sigma0 = sha256_ref_Sigma0" "sha256_Sigma1 = sha256_ref_Sigma1"
  "sha256_sigma0 = sha256_ref_sigma0" "sha256_sigma1 = sha256_ref_sigma1"
  by (simp_all add: fun_eq_iff rotr_shifts sha256_Sigma0_def sha256_Sigma1_def sha256_sigma0_def sha256_sigma1_def
    sha256_ref_Sigma0_def sha256_ref_Sigma1_def sha256_ref_sigma0_def sha256_ref_sigma1_def)

abbreviation sha256_step :: "sha256_state \<Rightarrow> u32 \<times> u32 \<Rightarrow> sha256_state" where
  "sha256_step \<equiv> sha2_round sha256_ref_Sigma0 sha256_ref_Sigma1"

text \<open>One call of \<^verbatim>\<open>Round\<close> is one round with the roles of the variables rotated.\<close>

lemma sha256_step_Round:
  "sha256_step (a, b, c, d, e, f, g, h) (k, w)
    = (case sha256_Round a b c d e f g h k w of (d', h') \<Rightarrow> (h', a, b, c, d', e, f, g))"
  by (simp add: sha256_Round_def Let_def sha256_Ch_def sha256_Maj_def sha2_Ch_alt sha2_Maj_alt sha256_sigmas)

lemmas sha256_step_distrib =
  prod.case_distrib [of "\<lambda>s. sha256_step s x" for x] prod.case_distrib [of "\<lambda>s. (s, w)" for w]

declare sha2_round.simps [simp del]

text \<open>The window of sixteen words of a schedule that starts at \<open>n\<close>, and the recurrence inside it.\<close>

abbreviation sha256_window :: "(nat \<Rightarrow> u32) \<Rightarrow> nat \<Rightarrow> sha256_schedule" where
  "sha256_window w n \<equiv> (w n, w (n + 1), w (n + 2), w (n + 3), w (n + 4), w (n + 5), w (n + 6), w (n + 7),
    w (n + 8), w (n + 9), w (n + 10), w (n + 11), w (n + 12), w (n + 13), w (n + 14), w (n + 15))"

abbreviation sha256_rec :: "(nat \<Rightarrow> u32) \<Rightarrow> bool" where
  "sha256_rec w \<equiv> list_all (\<lambda>i. w i + (sha256_sigma1 (w (i + 14)) + w (i + 9) + sha256_sigma0 (w (i + 1))) = w (i + 16))
    [0, 1, 2, 3, 4, 5, 6, 7, 8, 9, 10, 11, 12, 13, 14, 15]"

text \<open>The constants of sixteen rounds each, with their primes and the integer part of the cube root.\<close>

definition sha256_K1 :: "(nat \<times> nat \<times> u32) list" where
  "sha256_K1 =
    [(2, 1, 0x428a2f98), (3, 1, 0x71374491), (5, 1, 0xb5c0fbcf), (7, 1, 0xe9b5dba5), (11, 2, 0x3956c25b),
     (13, 2, 0x59f111f1), (17, 2, 0x923f82a4), (19, 2, 0xab1c5ed5), (23, 2, 0xd807aa98), (29, 3, 0x12835b01),
     (31, 3, 0x243185be), (37, 3, 0x550c7dc3), (41, 3, 0x72be5d74), (43, 3, 0x80deb1fe), (47, 3, 0x9bdc06a7),
     (53, 3, 0xc19bf174)]"

definition sha256_K2 :: "(nat \<times> nat \<times> u32) list" where
  "sha256_K2 =
    [(59, 3, 0xe49b69c1), (61, 3, 0xefbe4786), (67, 4, 0x0fc19dc6), (71, 4, 0x240ca1cc), (73, 4, 0x2de92c6f),
     (79, 4, 0x4a7484aa), (83, 4, 0x5cb0a9dc), (89, 4, 0x76f988da), (97, 4, 0x983e5152), (101, 4, 0xa831c66d),
     (103, 4, 0xb00327c8), (107, 4, 0xbf597fc7), (109, 4, 0xc6e00bf3), (113, 4, 0xd5a79147), (127, 5, 0x06ca6351),
     (131, 5, 0x14292967)]"

definition sha256_K3 :: "(nat \<times> nat \<times> u32) list" where
  "sha256_K3 =
    [(137, 5, 0x27b70a85), (139, 5, 0x2e1b2138), (149, 5, 0x4d2c6dfc), (151, 5, 0x53380d13), (157, 5, 0x650a7354),
     (163, 5, 0x766a0abb), (167, 5, 0x81c2c92e), (173, 5, 0x92722c85), (179, 5, 0xa2bfe8a1), (181, 5, 0xa81a664b),
     (191, 5, 0xc24b8b70), (193, 5, 0xc76c51a3), (197, 5, 0xd192e819), (199, 5, 0xd6990624), (211, 5, 0xf40e3585),
     (223, 6, 0x106aa070)]"

definition sha256_K4 :: "(nat \<times> nat \<times> u32) list" where
  "sha256_K4 =
    [(227, 6, 0x19a4c116), (229, 6, 0x1e376c08), (233, 6, 0x2748774c), (239, 6, 0x34b0bcb5), (241, 6, 0x391c0cb3),
     (251, 6, 0x4ed8aa4a), (257, 6, 0x5b9cca4f), (263, 6, 0x682e6ff3), (269, 6, 0x748f82ee), (271, 6, 0x78a5636f),
     (277, 6, 0x84c87814), (281, 6, 0x8cc70208), (283, 6, 0x90befffa), (293, 6, 0xa4506ceb), (307, 6, 0xbef9a3f7),
     (311, 6, 0xc67178f2)]"

definition sha256_K :: "(nat \<times> nat \<times> u32) list" where
  "sha256_K = sha256_K1 @ sha256_K2 @ sha256_K3 @ sha256_K4"

lemmas sha256_K_defs = sha256_K_def sha256_K1_def sha256_K2_def sha256_K3_def sha256_K4_def

lemma sha256_rounds1_eq:
  "sha256_rounds1 chunk s =
    (let w = \<lambda>i. ReadBE32 (drop (4 * i) chunk) in
      (foldl sha256_step s
        (zip (map (snd \<circ> snd) sha256_K1)
          (map w (sixteen 0))), sha256_window w 0))"
  by (cases s rule: octet_exhaust) (simp add: sha256_rounds1_def sha256_K1_def sha256_step_Round sha256_step_distrib Let_def)

lemma sha256_rounds2_eq:
  "sha256_rec w \<Longrightarrow> sha256_rounds2 (sha256_window w 0) s =
      (foldl sha256_step s
        (zip (map (snd \<circ> snd) sha256_K2)
          (map w (sixteen 16))), sha256_window w 16)"
  by (cases s rule: octet_exhaust) (simp add: sha256_rounds2_def sha256_K2_def sha256_step_Round sha256_step_distrib Let_def del: One_nat_def add_2_eq_Suc add_2_eq_Suc')

lemma sha256_rounds3_eq:
  "sha256_rec w \<Longrightarrow> sha256_rounds3 (sha256_window w 0) s =
      (foldl sha256_step s
        (zip (map (snd \<circ> snd) sha256_K3)
          (map w (sixteen 16))), sha256_window w 16)"
  by (cases s rule: octet_exhaust) (simp add: sha256_rounds3_def sha256_K3_def sha256_step_Round sha256_step_distrib Let_def del: One_nat_def add_2_eq_Suc add_2_eq_Suc')

lemma sha256_rounds4_eq:
  assumes "sha256_rec w"
  shows "sha256_rounds4 (sha256_window w 0) s =
      foldl sha256_step s
        (zip (map (snd \<circ> snd) sha256_K4)
          (map w (sixteen 16)))"
proof -
  have "w 14 + sha256_sigma1 (w 28) + w 23 + sha256_sigma0 (w 15) = w 30"
    "w 15 + sha256_sigma1 (w 29) + w 24 + sha256_sigma0 (w 16) = w 31"
    using assms by (simp_all add: add.assoc)
  then show ?thesis
    using assms
    by (cases s rule: octet_exhaust) (simp add: sha256_rounds4_def sha256_K4_def sha256_step_Round sha256_step_distrib Let_def del: One_nat_def add_2_eq_Suc add_2_eq_Suc')
qed

text \<open>The constants: each is the fraction of the root of its prime.\<close>

definition sha256_H :: "(nat \<times> nat \<times> u32) list" where
  "sha256_H =
    [(2, 1, 0x6a09e667), (3, 1, 0xbb67ae85), (5, 2, 0x3c6ef372), (7, 2, 0xa54ff53a), (11, 3, 0x510e527f),
     (13, 3, 0x9b05688c), (17, 4, 0x1f83d9ab), (19, 4, 0x5be0cd19)]"

lemma sha256_K_roots: "list_all (\<lambda>(p, q, w). root_check 3 p q w) sha256_K"
  by (simp add: sha256_K_defs root_check_def)

lemma sha256_H_roots: "list_all (\<lambda>(p, q, w). root_check 2 p q w) sha256_H"
  by (simp add: sha256_H_def root_check_def)

lemma sha256_K_eq: "map (root_bits 3) (take 64 first_primes) = map (snd \<circ> snd) sha256_K"
  using root_checks [OF _ sha256_K_roots] by (simp add: sha256_K_defs first_primes_def)

lemma sha256_Initialize_eq: "map (root_bits 2) (take 8 first_primes) = sha256_Initialize"
  using root_checks [OF _ sha256_H_roots] by (simp add: sha256_H_def first_primes_def sha256_Initialize_def)

text \<open>The rounds of the whole schedule, sixteen at a time.\<close>

definition sha256_F :: "(nat \<times> nat \<times> u32) list \<Rightarrow> nat \<Rightarrow> u32 list \<Rightarrow> sha256_state \<Rightarrow> sha256_state" where
  "sha256_F K n W v = foldl sha256_step v (zip (map (snd \<circ> snd) K) (map ((!) W) (sixteen n)))"

lemma sha256_block_eq:
  assumes "length s = 8"
  shows "sha256_block s chunk = sha256_ref_block s chunk"
proof -
  define M where "M = map (\<lambda>i. ReadBE32 (drop (4 * i) chunk)) [0..<16]"
  define W where "W = sha2_schedule sha256_ref_sigma0 sha256_ref_sigma1 64 M"
  have M: "length M = 16" "\<And>i. i < 16 \<Longrightarrow> M ! i = ReadBE32 (drop (4 * i) chunk)"
    by (simp_all add: M_def)
  have rec: "sha256_rec (\<lambda>i. W ! (n + i))" if "n + 32 \<le> 64" for n
    unfolding W_def sha256_sigmas list_all_iff using that by (intro ballI sha2_schedule_rec M(1)) auto
  have len: "length W = 64"
    unfolding W_def using M(1) by (simp add: length_sha2_schedule)
  have W0: "W ! i = ReadBE32 (drop (4 * i) chunk)" if "i < 16" for i
    unfolding W_def using M that by (simp add: sha2_schedule_nth(1))
  have r1: "sha256_rounds1 chunk v = (sha256_F sha256_K1 0 W v, sha256_window ((!) W) 0)" for v
    unfolding sha256_rounds1_eq by (simp add: W0 Let_def sha256_F_def)
  have r2: "sha256_rounds2 (sha256_window ((!) W) 0) v = (sha256_F sha256_K2 16 W v, sha256_window ((!) W) 16)" for v
    using sha256_rounds2_eq [OF rec [of 0], of v] by (simp add: sha256_F_def)
  have r3: "sha256_rounds3 (sha256_window ((!) W) 16) v = (sha256_F sha256_K3 32 W v, sha256_window ((!) W) 32)" for v
    using sha256_rounds3_eq [OF rec [of 16], of v] by (simp add: sha256_F_def)
  have r4: "sha256_rounds4 (sha256_window ((!) W) 32) v = sha256_F sha256_K4 48 W v" for v
    using sha256_rounds4_eq [OF rec [of 32], of v] by (simp add: sha256_F_def)
  have "W = map ((!) W) [0..<64]"
    using map_nth [of W] by (simp add: len)
  note Weq = this [unfolded upt_sixteen]
  have "foldl sha256_step v (zip (map (snd \<circ> snd) sha256_K) W) = sha256_F sha256_K4 48 W (sha256_F sha256_K3 32 W (sha256_F sha256_K2 16 W (sha256_F sha256_K1 0 W v)))" for v
    by (subst Weq) (simp add: sha256_K_defs sha256_F_def)
  moreover have "length (map (snd \<circ> snd) sha256_K) = 64"
    by (simp add: sha256_K_defs)
  ultimately show ?thesis
    unfolding sha256_ref_block_def sha2_compress_def sha256_K_eq M_def [symmetric]
    using assms by (simp only: sha256_block_def r1 r2 r3 r4 Let_def prod.case W_def [symmetric] octet_list)
qed

lemma length_sha256_block [simp]: "length (sha256_block s chunk) = 8"
  by (simp add: sha256_block_def split: prod.splits)

lemma sha256_block_take: "64 \<le> length d \<Longrightarrow> sha256_block s (take 64 d) = sha256_block s d"
  by (simp add: sha256_block_def sha256_rounds1_eq Let_def Read_take)

subsection \<open>The class\<close>

text \<open>The loop over blocks inside \<^verbatim>\<open>Transform\<close> is the loop of the other classes.\<close>

lemma sha256_Transform_absorb:
  "absorb 64 sha256_block s d = (sha256_Transform s d (length d div 64), drop (64 * (length d div 64)) d)"
proof (induction "length d" arbitrary: d s rule: less_induct)
  case less
  show ?case
  proof (cases "64 \<le> length d")
    case True
    obtain k where k: "length d div 64 = Suc k"
      using True by (cases "length d div 64") (auto simp: div_eq_0_iff)
    then have "length (drop 64 d) div 64 = k"
      using True by (simp add: le_div_geq)
    then show ?thesis
      using True less [of "drop 64 d" "sha256_block s d"] k by (simp add: absorb_long sha256_block_take add.commute)
  qed (simp add: absorb_short)
qed

lemma CSHA256_Write_eq: "CSHA256_Write h d = chunked_Write 64 sha256_block h d"
proof -
  have w: "write_chunks 64 sha256_block g x =
      (if 64 \<le> length x
       then (g\<lparr>hs_s := sha256_Transform (hs_s g) x (length x div 64), hs_bytes := hs_bytes g + of_nat (64 * (length x div 64))\<rparr>,
             drop (64 * (length x div 64)) x)
       else (g, x))" for g x
  proof (cases "64 \<le> length x")
    case True
    have "length x - length (drop (64 * (length x div 64)) x) = 64 * (length x div 64)"
      by simp
    then show ?thesis
      using True write_chunks_absorb [OF sha256_block_take _ sha256_Transform_absorb, of g x] by simp
  qed (simp add: write_chunks.simps)
  show ?thesis
    by (simp add: CSHA256_Write_def chunked_Write_def w Let_def cong: if_cong)
qed

interpretation csha256: md_hasher 64 sha256_block CSHA256 CSHA256_Write
proof
  show "represents 64 sha256_block (hs_s CSHA256) CSHA256 []"
    by (simp add: represents_def CSHA256_def absorb_short)
  show "represents 64 sha256_block (hs_s CSHA256) (CSHA256_Write h d) (m @ d)"
    if "represents 64 sha256_block (hs_s CSHA256) h m" for h m d
    using that unfolding CSHA256_Write_eq by (intro represents_chunked_Write sha256_block_take) simp_all
qed simp

abbreviation CSHA256_represents :: "u32 hasher \<Rightarrow> bytes \<Rightarrow> bool" where
  "CSHA256_represents \<equiv> represents 64 sha256_block (hs_s CSHA256)"

lemma CSHA256_Reset_represents: "CSHA256_represents h m \<Longrightarrow> CSHA256_represents (CSHA256_Reset h) []"
  by (simp add: represents_def CSHA256_def CSHA256_Reset_def absorb_short)

lemma CSHA256_Finalize_digest:
  assumes "CSHA256_represents h m"
  shows "snd (CSHA256_Finalize h) = sha256_ref m" "CSHA256_represents (CSHA256_Reset (fst (CSHA256_Finalize h))) []"
proof -
  have i: "hs_s CSHA256 = map (root_bits 2) (take 8 first_primes)" "length (hs_s CSHA256) = 8"
    by (simp_all add: CSHA256_def sha256_Initialize_eq) (simp add: sha256_Initialize_def)
  have "absorb 64 sha256_block (hs_s CSHA256) d = absorb 64 sha256_ref_block (hs_s CSHA256) d" for d
    by (rule absorb_cong [of "\<lambda>s. length s = 8"]) (auto intro: sha256_block_eq simp: i(2))
  then show "snd (CSHA256_Finalize h) = sha256_ref m"
    using csha256.chaining_value [OF assms] assms
    by (simp add: CSHA256_Finalize_def Let_def sha256_ref_def md_digest_def md_pad_eq represents_def push_bit_3 i(1) del: take_Suc_Cons)
  show "CSHA256_represents (CSHA256_Reset (fst (CSHA256_Finalize h))) []"
    unfolding CSHA256_Finalize_def Let_def fst_conv
    by (rule CSHA256_Reset_represents [OF csha256.Write_represents [OF csha256.Write_represents [OF assms]]])
qed

end
