(* ===== verification/Sha512.thy ===== *)
theory Sha512
  imports Sha2Ref
begin

unbundle bit_operations_syntax

text \<open>
  \<^verbatim>\<open>src/src/crypto/sha512.cpp\<close>.  The compression function is unrolled and works in place: the eight working
  variables change roles from call to call of \<^verbatim>\<open>Round\<close>, and sixteen variables hold a sliding window
  of the message schedule.  It is translated line by line, one definition for each block of sixteen
  rounds, and shown equal to the reference of \<open>Sha2Ref\<close>.
\<close>

section \<open>Definitions\<close>

definition sha512_Ch :: "u64 \<Rightarrow> u64 \<Rightarrow> u64 \<Rightarrow> u64" where
  "sha512_Ch x y z = z XOR (x AND (y XOR z))"

definition sha512_Maj :: "u64 \<Rightarrow> u64 \<Rightarrow> u64 \<Rightarrow> u64" where
  "sha512_Maj x y z = (x AND y) OR (z AND (x OR y))"

definition sha512_Sigma0 :: "u64 \<Rightarrow> u64" where
  "sha512_Sigma0 x = (drop_bit 28 x OR push_bit 36 x) XOR (drop_bit 34 x OR push_bit 30 x) XOR (drop_bit 39 x OR push_bit 25 x)"

definition sha512_Sigma1 :: "u64 \<Rightarrow> u64" where
  "sha512_Sigma1 x = (drop_bit 14 x OR push_bit 50 x) XOR (drop_bit 18 x OR push_bit 46 x) XOR (drop_bit 41 x OR push_bit 23 x)"

definition sha512_sigma0 :: "u64 \<Rightarrow> u64" where
  "sha512_sigma0 x = (drop_bit 1 x OR push_bit 63 x) XOR (drop_bit 8 x OR push_bit 56 x) XOR drop_bit 7 x"

definition sha512_sigma1 :: "u64 \<Rightarrow> u64" where
  "sha512_sigma1 x = (drop_bit 19 x OR push_bit 45 x) XOR (drop_bit 61 x OR push_bit 3 x) XOR drop_bit 6 x"

type_synonym sha512_state = "u64 \<times> u64 \<times> u64 \<times> u64 \<times> u64 \<times> u64 \<times> u64 \<times> u64"
type_synonym sha512_schedule = "u64 \<times> u64 \<times> u64 \<times> u64 \<times> u64 \<times> u64 \<times> u64 \<times> u64 \<times> u64 \<times> u64 \<times> u64 \<times> u64 \<times> u64 \<times> u64 \<times> u64 \<times> u64"

text \<open>\<^verbatim>\<open>Round\<close> changes its arguments \<^verbatim>\<open>d\<close> and \<^verbatim>\<open>h\<close>, which it returns.\<close>

definition sha512_Round ::
  "u64 \<Rightarrow> u64 \<Rightarrow> u64 \<Rightarrow> u64 \<Rightarrow> u64 \<Rightarrow> u64 \<Rightarrow> u64 \<Rightarrow> u64 \<Rightarrow> u64 \<Rightarrow> u64 \<Rightarrow> u64 \<times> u64" where
  "sha512_Round a b c d e f g h k w =
    (let t1 = h + sha512_Sigma1 e + sha512_Ch e f g + k + w; t2 = sha512_Sigma0 a + sha512_Maj a b c in (d + t1, t1 + t2))"

definition sha512_Initialize :: "u64 list" where
  "sha512_Initialize =
    [0x6a09e667f3bcc908, 0xbb67ae8584caa73b, 0x3c6ef372fe94f82b, 0xa54ff53a5f1d36f1, 0x510e527fade682d1,
     0x9b05688c2b3e6c1f, 0x1f83d9abfb41bd6b, 0x5be0cd19137e2179]"

definition sha512_rounds1 :: "bytes \<Rightarrow> sha512_state \<Rightarrow> sha512_state \<times> sha512_schedule" where
  "sha512_rounds1 = (\<lambda>chunk (a, b, c, d, e, f, g, h).
    let
      w0 = ReadBE64 (drop 0 chunk);
      (d, h) = sha512_Round a b c d e f g h 0x428a2f98d728ae22 w0;
      w1 = ReadBE64 (drop 8 chunk);
      (c, g) = sha512_Round h a b c d e f g 0x7137449123ef65cd w1;
      w2 = ReadBE64 (drop 16 chunk);
      (b, f) = sha512_Round g h a b c d e f 0xb5c0fbcfec4d3b2f w2;
      w3 = ReadBE64 (drop 24 chunk);
      (a, e) = sha512_Round f g h a b c d e 0xe9b5dba58189dbbc w3;
      w4 = ReadBE64 (drop 32 chunk);
      (h, d) = sha512_Round e f g h a b c d 0x3956c25bf348b538 w4;
      w5 = ReadBE64 (drop 40 chunk);
      (g, c) = sha512_Round d e f g h a b c 0x59f111f1b605d019 w5;
      w6 = ReadBE64 (drop 48 chunk);
      (f, b) = sha512_Round c d e f g h a b 0x923f82a4af194f9b w6;
      w7 = ReadBE64 (drop 56 chunk);
      (e, a) = sha512_Round b c d e f g h a 0xab1c5ed5da6d8118 w7;
      w8 = ReadBE64 (drop 64 chunk);
      (d, h) = sha512_Round a b c d e f g h 0xd807aa98a3030242 w8;
      w9 = ReadBE64 (drop 72 chunk);
      (c, g) = sha512_Round h a b c d e f g 0x12835b0145706fbe w9;
      w10 = ReadBE64 (drop 80 chunk);
      (b, f) = sha512_Round g h a b c d e f 0x243185be4ee4b28c w10;
      w11 = ReadBE64 (drop 88 chunk);
      (a, e) = sha512_Round f g h a b c d e 0x550c7dc3d5ffb4e2 w11;
      w12 = ReadBE64 (drop 96 chunk);
      (h, d) = sha512_Round e f g h a b c d 0x72be5d74f27b896f w12;
      w13 = ReadBE64 (drop 104 chunk);
      (g, c) = sha512_Round d e f g h a b c 0x80deb1fe3b1696b1 w13;
      w14 = ReadBE64 (drop 112 chunk);
      (f, b) = sha512_Round c d e f g h a b 0x9bdc06a725c71235 w14;
      w15 = ReadBE64 (drop 120 chunk);
      (e, a) = sha512_Round b c d e f g h a 0xc19bf174cf692694 w15
    in ((a, b, c, d, e, f, g, h), (w0, w1, w2, w3, w4, w5, w6, w7, w8, w9, w10, w11, w12, w13, w14, w15)))"

definition sha512_rounds2 :: "sha512_schedule \<Rightarrow> sha512_state \<Rightarrow> sha512_state \<times> sha512_schedule" where
  "sha512_rounds2 = (\<lambda>(w0, w1, w2, w3, w4, w5, w6, w7, w8, w9, w10, w11, w12, w13, w14, w15) (a, b, c, d, e, f, g, h).
    let
      w0 = w0 + (sha512_sigma1 w14 + w9 + sha512_sigma0 w1);
      (d, h) = sha512_Round a b c d e f g h 0xe49b69c19ef14ad2 w0;
      w1 = w1 + (sha512_sigma1 w15 + w10 + sha512_sigma0 w2);
      (c, g) = sha512_Round h a b c d e f g 0xefbe4786384f25e3 w1;
      w2 = w2 + (sha512_sigma1 w0 + w11 + sha512_sigma0 w3);
      (b, f) = sha512_Round g h a b c d e f 0x0fc19dc68b8cd5b5 w2;
      w3 = w3 + (sha512_sigma1 w1 + w12 + sha512_sigma0 w4);
      (a, e) = sha512_Round f g h a b c d e 0x240ca1cc77ac9c65 w3;
      w4 = w4 + (sha512_sigma1 w2 + w13 + sha512_sigma0 w5);
      (h, d) = sha512_Round e f g h a b c d 0x2de92c6f592b0275 w4;
      w5 = w5 + (sha512_sigma1 w3 + w14 + sha512_sigma0 w6);
      (g, c) = sha512_Round d e f g h a b c 0x4a7484aa6ea6e483 w5;
      w6 = w6 + (sha512_sigma1 w4 + w15 + sha512_sigma0 w7);
      (f, b) = sha512_Round c d e f g h a b 0x5cb0a9dcbd41fbd4 w6;
      w7 = w7 + (sha512_sigma1 w5 + w0 + sha512_sigma0 w8);
      (e, a) = sha512_Round b c d e f g h a 0x76f988da831153b5 w7;
      w8 = w8 + (sha512_sigma1 w6 + w1 + sha512_sigma0 w9);
      (d, h) = sha512_Round a b c d e f g h 0x983e5152ee66dfab w8;
      w9 = w9 + (sha512_sigma1 w7 + w2 + sha512_sigma0 w10);
      (c, g) = sha512_Round h a b c d e f g 0xa831c66d2db43210 w9;
      w10 = w10 + (sha512_sigma1 w8 + w3 + sha512_sigma0 w11);
      (b, f) = sha512_Round g h a b c d e f 0xb00327c898fb213f w10;
      w11 = w11 + (sha512_sigma1 w9 + w4 + sha512_sigma0 w12);
      (a, e) = sha512_Round f g h a b c d e 0xbf597fc7beef0ee4 w11;
      w12 = w12 + (sha512_sigma1 w10 + w5 + sha512_sigma0 w13);
      (h, d) = sha512_Round e f g h a b c d 0xc6e00bf33da88fc2 w12;
      w13 = w13 + (sha512_sigma1 w11 + w6 + sha512_sigma0 w14);
      (g, c) = sha512_Round d e f g h a b c 0xd5a79147930aa725 w13;
      w14 = w14 + (sha512_sigma1 w12 + w7 + sha512_sigma0 w15);
      (f, b) = sha512_Round c d e f g h a b 0x06ca6351e003826f w14;
      w15 = w15 + (sha512_sigma1 w13 + w8 + sha512_sigma0 w0);
      (e, a) = sha512_Round b c d e f g h a 0x142929670a0e6e70 w15
    in ((a, b, c, d, e, f, g, h), (w0, w1, w2, w3, w4, w5, w6, w7, w8, w9, w10, w11, w12, w13, w14, w15)))"

definition sha512_rounds3 :: "sha512_schedule \<Rightarrow> sha512_state \<Rightarrow> sha512_state \<times> sha512_schedule" where
  "sha512_rounds3 = (\<lambda>(w0, w1, w2, w3, w4, w5, w6, w7, w8, w9, w10, w11, w12, w13, w14, w15) (a, b, c, d, e, f, g, h).
    let
      w0 = w0 + (sha512_sigma1 w14 + w9 + sha512_sigma0 w1);
      (d, h) = sha512_Round a b c d e f g h 0x27b70a8546d22ffc w0;
      w1 = w1 + (sha512_sigma1 w15 + w10 + sha512_sigma0 w2);
      (c, g) = sha512_Round h a b c d e f g 0x2e1b21385c26c926 w1;
      w2 = w2 + (sha512_sigma1 w0 + w11 + sha512_sigma0 w3);
      (b, f) = sha512_Round g h a b c d e f 0x4d2c6dfc5ac42aed w2;
      w3 = w3 + (sha512_sigma1 w1 + w12 + sha512_sigma0 w4);
      (a, e) = sha512_Round f g h a b c d e 0x53380d139d95b3df w3;
      w4 = w4 + (sha512_sigma1 w2 + w13 + sha512_sigma0 w5);
      (h, d) = sha512_Round e f g h a b c d 0x650a73548baf63de w4;
      w5 = w5 + (sha512_sigma1 w3 + w14 + sha512_sigma0 w6);
      (g, c) = sha512_Round d e f g h a b c 0x766a0abb3c77b2a8 w5;
      w6 = w6 + (sha512_sigma1 w4 + w15 + sha512_sigma0 w7);
      (f, b) = sha512_Round c d e f g h a b 0x81c2c92e47edaee6 w6;
      w7 = w7 + (sha512_sigma1 w5 + w0 + sha512_sigma0 w8);
      (e, a) = sha512_Round b c d e f g h a 0x92722c851482353b w7;
      w8 = w8 + (sha512_sigma1 w6 + w1 + sha512_sigma0 w9);
      (d, h) = sha512_Round a b c d e f g h 0xa2bfe8a14cf10364 w8;
      w9 = w9 + (sha512_sigma1 w7 + w2 + sha512_sigma0 w10);
      (c, g) = sha512_Round h a b c d e f g 0xa81a664bbc423001 w9;
      w10 = w10 + (sha512_sigma1 w8 + w3 + sha512_sigma0 w11);
      (b, f) = sha512_Round g h a b c d e f 0xc24b8b70d0f89791 w10;
      w11 = w11 + (sha512_sigma1 w9 + w4 + sha512_sigma0 w12);
      (a, e) = sha512_Round f g h a b c d e 0xc76c51a30654be30 w11;
      w12 = w12 + (sha512_sigma1 w10 + w5 + sha512_sigma0 w13);
      (h, d) = sha512_Round e f g h a b c d 0xd192e819d6ef5218 w12;
      w13 = w13 + (sha512_sigma1 w11 + w6 + sha512_sigma0 w14);
      (g, c) = sha512_Round d e f g h a b c 0xd69906245565a910 w13;
      w14 = w14 + (sha512_sigma1 w12 + w7 + sha512_sigma0 w15);
      (f, b) = sha512_Round c d e f g h a b 0xf40e35855771202a w14;
      w15 = w15 + (sha512_sigma1 w13 + w8 + sha512_sigma0 w0);
      (e, a) = sha512_Round b c d e f g h a 0x106aa07032bbd1b8 w15
    in ((a, b, c, d, e, f, g, h), (w0, w1, w2, w3, w4, w5, w6, w7, w8, w9, w10, w11, w12, w13, w14, w15)))"

definition sha512_rounds4 :: "sha512_schedule \<Rightarrow> sha512_state \<Rightarrow> sha512_state \<times> sha512_schedule" where
  "sha512_rounds4 = (\<lambda>(w0, w1, w2, w3, w4, w5, w6, w7, w8, w9, w10, w11, w12, w13, w14, w15) (a, b, c, d, e, f, g, h).
    let
      w0 = w0 + (sha512_sigma1 w14 + w9 + sha512_sigma0 w1);
      (d, h) = sha512_Round a b c d e f g h 0x19a4c116b8d2d0c8 w0;
      w1 = w1 + (sha512_sigma1 w15 + w10 + sha512_sigma0 w2);
      (c, g) = sha512_Round h a b c d e f g 0x1e376c085141ab53 w1;
      w2 = w2 + (sha512_sigma1 w0 + w11 + sha512_sigma0 w3);
      (b, f) = sha512_Round g h a b c d e f 0x2748774cdf8eeb99 w2;
      w3 = w3 + (sha512_sigma1 w1 + w12 + sha512_sigma0 w4);
      (a, e) = sha512_Round f g h a b c d e 0x34b0bcb5e19b48a8 w3;
      w4 = w4 + (sha512_sigma1 w2 + w13 + sha512_sigma0 w5);
      (h, d) = sha512_Round e f g h a b c d 0x391c0cb3c5c95a63 w4;
      w5 = w5 + (sha512_sigma1 w3 + w14 + sha512_sigma0 w6);
      (g, c) = sha512_Round d e f g h a b c 0x4ed8aa4ae3418acb w5;
      w6 = w6 + (sha512_sigma1 w4 + w15 + sha512_sigma0 w7);
      (f, b) = sha512_Round c d e f g h a b 0x5b9cca4f7763e373 w6;
      w7 = w7 + (sha512_sigma1 w5 + w0 + sha512_sigma0 w8);
      (e, a) = sha512_Round b c d e f g h a 0x682e6ff3d6b2b8a3 w7;
      w8 = w8 + (sha512_sigma1 w6 + w1 + sha512_sigma0 w9);
      (d, h) = sha512_Round a b c d e f g h 0x748f82ee5defb2fc w8;
      w9 = w9 + (sha512_sigma1 w7 + w2 + sha512_sigma0 w10);
      (c, g) = sha512_Round h a b c d e f g 0x78a5636f43172f60 w9;
      w10 = w10 + (sha512_sigma1 w8 + w3 + sha512_sigma0 w11);
      (b, f) = sha512_Round g h a b c d e f 0x84c87814a1f0ab72 w10;
      w11 = w11 + (sha512_sigma1 w9 + w4 + sha512_sigma0 w12);
      (a, e) = sha512_Round f g h a b c d e 0x8cc702081a6439ec w11;
      w12 = w12 + (sha512_sigma1 w10 + w5 + sha512_sigma0 w13);
      (h, d) = sha512_Round e f g h a b c d 0x90befffa23631e28 w12;
      w13 = w13 + (sha512_sigma1 w11 + w6 + sha512_sigma0 w14);
      (g, c) = sha512_Round d e f g h a b c 0xa4506cebde82bde9 w13;
      w14 = w14 + (sha512_sigma1 w12 + w7 + sha512_sigma0 w15);
      (f, b) = sha512_Round c d e f g h a b 0xbef9a3f7b2c67915 w14;
      w15 = w15 + (sha512_sigma1 w13 + w8 + sha512_sigma0 w0);
      (e, a) = sha512_Round b c d e f g h a 0xc67178f2e372532b w15
    in ((a, b, c, d, e, f, g, h), (w0, w1, w2, w3, w4, w5, w6, w7, w8, w9, w10, w11, w12, w13, w14, w15)))"

definition sha512_rounds5 :: "sha512_schedule \<Rightarrow> sha512_state \<Rightarrow> sha512_state" where
  "sha512_rounds5 = (\<lambda>(w0, w1, w2, w3, w4, w5, w6, w7, w8, w9, w10, w11, w12, w13, w14, w15) (a, b, c, d, e, f, g, h).
    let
      w0 = w0 + (sha512_sigma1 w14 + w9 + sha512_sigma0 w1);
      (d, h) = sha512_Round a b c d e f g h 0xca273eceea26619c w0;
      w1 = w1 + (sha512_sigma1 w15 + w10 + sha512_sigma0 w2);
      (c, g) = sha512_Round h a b c d e f g 0xd186b8c721c0c207 w1;
      w2 = w2 + (sha512_sigma1 w0 + w11 + sha512_sigma0 w3);
      (b, f) = sha512_Round g h a b c d e f 0xeada7dd6cde0eb1e w2;
      w3 = w3 + (sha512_sigma1 w1 + w12 + sha512_sigma0 w4);
      (a, e) = sha512_Round f g h a b c d e 0xf57d4f7fee6ed178 w3;
      w4 = w4 + (sha512_sigma1 w2 + w13 + sha512_sigma0 w5);
      (h, d) = sha512_Round e f g h a b c d 0x06f067aa72176fba w4;
      w5 = w5 + (sha512_sigma1 w3 + w14 + sha512_sigma0 w6);
      (g, c) = sha512_Round d e f g h a b c 0x0a637dc5a2c898a6 w5;
      w6 = w6 + (sha512_sigma1 w4 + w15 + sha512_sigma0 w7);
      (f, b) = sha512_Round c d e f g h a b 0x113f9804bef90dae w6;
      w7 = w7 + (sha512_sigma1 w5 + w0 + sha512_sigma0 w8);
      (e, a) = sha512_Round b c d e f g h a 0x1b710b35131c471b w7;
      w8 = w8 + (sha512_sigma1 w6 + w1 + sha512_sigma0 w9);
      (d, h) = sha512_Round a b c d e f g h 0x28db77f523047d84 w8;
      w9 = w9 + (sha512_sigma1 w7 + w2 + sha512_sigma0 w10);
      (c, g) = sha512_Round h a b c d e f g 0x32caab7b40c72493 w9;
      w10 = w10 + (sha512_sigma1 w8 + w3 + sha512_sigma0 w11);
      (b, f) = sha512_Round g h a b c d e f 0x3c9ebe0a15c9bebc w10;
      w11 = w11 + (sha512_sigma1 w9 + w4 + sha512_sigma0 w12);
      (a, e) = sha512_Round f g h a b c d e 0x431d67c49c100d4c w11;
      w12 = w12 + (sha512_sigma1 w10 + w5 + sha512_sigma0 w13);
      (h, d) = sha512_Round e f g h a b c d 0x4cc5d4becb3e42b6 w12;
      w13 = w13 + (sha512_sigma1 w11 + w6 + sha512_sigma0 w14);
      (g, c) = sha512_Round d e f g h a b c 0x597f299cfc657e2a w13;
      (f, b) = sha512_Round c d e f g h a b 0x5fcb6fab3ad6faec (w14 + sha512_sigma1 w12 + w7 + sha512_sigma0 w15);
      (e, a) = sha512_Round b c d e f g h a 0x6c44198c4a475817 (w15 + sha512_sigma1 w13 + w8 + sha512_sigma0 w0)
    in (a, b, c, d, e, f, g, h))"

definition sha512_Transform :: "u64 list \<Rightarrow> bytes \<Rightarrow> u64 list" where
  "sha512_Transform s chunk =
    (let (v, w) = sha512_rounds1 chunk (s ! 0, s ! 1, s ! 2, s ! 3, s ! 4, s ! 5, s ! 6, s ! 7);
         (v, w) = sha512_rounds2 w v;
         (v, w) = sha512_rounds3 w v;
         (v, w) = sha512_rounds4 w v;
         (a, b, c, d, e, f, g, h) = sha512_rounds5 w v
     in [s ! 0 + a, s ! 1 + b, s ! 2 + c, s ! 3 + d, s ! 4 + e, s ! 5 + f, s ! 6 + g, s ! 7 + h])"

definition CSHA512 :: "u64 hasher" where
  "CSHA512 = \<lparr>hs_s = sha512_Initialize, hs_buf = replicate 128 0, hs_bytes = 0\<rparr>"

definition CSHA512_Write :: "u64 hasher \<Rightarrow> bytes \<Rightarrow> u64 hasher" where
  "CSHA512_Write = chunked_Write 128 sha512_Transform"

definition CSHA512_Finalize :: "u64 hasher \<Rightarrow> u64 hasher \<times> bytes" where
  "CSHA512_Finalize h =
    (let sizedesc = replicate 8 0 @ WriteBE64 (push_bit 3 (hs_bytes h));
         h = CSHA512_Write h (take (1 + (239 - unat (hs_bytes h) mod 128) mod 128) (0x80 # replicate 127 0));
         h = CSHA512_Write h sizedesc
     in (h, concat (map WriteBE64 (hs_s h))))"

definition CSHA512_Reset :: "u64 hasher \<Rightarrow> u64 hasher" where
  "CSHA512_Reset h = h\<lparr>hs_bytes := 0, hs_s := sha512_Initialize\<rparr>"

section \<open>The reference\<close>

definition sha512_ref_Sigma0 :: "u64 \<Rightarrow> u64" where
  "sha512_ref_Sigma0 x = word_rotr 28 x XOR word_rotr 34 x XOR word_rotr 39 x"

definition sha512_ref_Sigma1 :: "u64 \<Rightarrow> u64" where
  "sha512_ref_Sigma1 x = word_rotr 14 x XOR word_rotr 18 x XOR word_rotr 41 x"

definition sha512_ref_sigma0 :: "u64 \<Rightarrow> u64" where
  "sha512_ref_sigma0 x = word_rotr 1 x XOR word_rotr 8 x XOR drop_bit 7 x"

definition sha512_ref_sigma1 :: "u64 \<Rightarrow> u64" where
  "sha512_ref_sigma1 x = word_rotr 19 x XOR word_rotr 61 x XOR drop_bit 6 x"

definition sha512_ref_block :: "u64 list \<Rightarrow> bytes \<Rightarrow> u64 list" where
  "sha512_ref_block s chunk =
    sha2_compress sha512_ref_Sigma0 sha512_ref_Sigma1 sha512_ref_sigma0 sha512_ref_sigma1
      (map (root_bits 3) (take 80 first_primes)) s (map (\<lambda>i. ReadBE64 (drop (8 * i) chunk)) [0..<16])"

text \<open>The digest of a message.\<close>

definition sha512_ref :: "bytes \<Rightarrow> bytes" where
  "sha512_ref m =
    concat (map WriteBE64
      (md_digest 128 16 (\<lambda>l. rev (le_bytes 16 l)) sha512_ref_block (map (root_bits 2) (take 8 first_primes)) m))"

section \<open>Lemmas\<close>

subsection \<open>The compression function\<close>

lemma sha512_sigmas:
  "sha512_Sigma0 = sha512_ref_Sigma0" "sha512_Sigma1 = sha512_ref_Sigma1"
  "sha512_sigma0 = sha512_ref_sigma0" "sha512_sigma1 = sha512_ref_sigma1"
  by (simp_all add: fun_eq_iff rotr_shifts sha512_Sigma0_def sha512_Sigma1_def sha512_sigma0_def sha512_sigma1_def
    sha512_ref_Sigma0_def sha512_ref_Sigma1_def sha512_ref_sigma0_def sha512_ref_sigma1_def)

abbreviation sha512_step :: "sha512_state \<Rightarrow> u64 \<times> u64 \<Rightarrow> sha512_state" where
  "sha512_step \<equiv> sha2_round sha512_ref_Sigma0 sha512_ref_Sigma1"

text \<open>One call of \<^verbatim>\<open>Round\<close> is one round with the roles of the variables rotated.\<close>

lemma sha512_step_Round:
  "sha512_step (a, b, c, d, e, f, g, h) (k, w)
    = (case sha512_Round a b c d e f g h k w of (d', h') \<Rightarrow> (h', a, b, c, d', e, f, g))"
  by (simp add: sha512_Round_def Let_def sha512_Ch_def sha512_Maj_def sha2_Ch_alt sha2_Maj_alt sha512_sigmas)

lemmas sha512_step_distrib =
  prod.case_distrib [of "\<lambda>s. sha512_step s x" for x] prod.case_distrib [of "\<lambda>s. (s, w)" for w]

declare sha2_round.simps [simp del]

text \<open>The window of sixteen words of a schedule that starts at \<open>n\<close>, and the recurrence inside it.\<close>

abbreviation sha512_window :: "(nat \<Rightarrow> u64) \<Rightarrow> nat \<Rightarrow> sha512_schedule" where
  "sha512_window w n \<equiv> (w n, w (n + 1), w (n + 2), w (n + 3), w (n + 4), w (n + 5), w (n + 6), w (n + 7),
    w (n + 8), w (n + 9), w (n + 10), w (n + 11), w (n + 12), w (n + 13), w (n + 14), w (n + 15))"

abbreviation sha512_rec :: "(nat \<Rightarrow> u64) \<Rightarrow> bool" where
  "sha512_rec w \<equiv> list_all (\<lambda>i. w i + (sha512_sigma1 (w (i + 14)) + w (i + 9) + sha512_sigma0 (w (i + 1))) = w (i + 16))
    [0, 1, 2, 3, 4, 5, 6, 7, 8, 9, 10, 11, 12, 13, 14, 15]"

text \<open>The constants of sixteen rounds each, with their primes and the integer part of the cube root.\<close>

definition sha512_K1 :: "(nat \<times> nat \<times> u64) list" where
  "sha512_K1 =
    [(2, 1, 0x428a2f98d728ae22), (3, 1, 0x7137449123ef65cd), (5, 1, 0xb5c0fbcfec4d3b2f),
     (7, 1, 0xe9b5dba58189dbbc), (11, 2, 0x3956c25bf348b538), (13, 2, 0x59f111f1b605d019),
     (17, 2, 0x923f82a4af194f9b), (19, 2, 0xab1c5ed5da6d8118), (23, 2, 0xd807aa98a3030242),
     (29, 3, 0x12835b0145706fbe), (31, 3, 0x243185be4ee4b28c), (37, 3, 0x550c7dc3d5ffb4e2),
     (41, 3, 0x72be5d74f27b896f), (43, 3, 0x80deb1fe3b1696b1), (47, 3, 0x9bdc06a725c71235),
     (53, 3, 0xc19bf174cf692694)]"

definition sha512_K2 :: "(nat \<times> nat \<times> u64) list" where
  "sha512_K2 =
    [(59, 3, 0xe49b69c19ef14ad2), (61, 3, 0xefbe4786384f25e3), (67, 4, 0x0fc19dc68b8cd5b5),
     (71, 4, 0x240ca1cc77ac9c65), (73, 4, 0x2de92c6f592b0275), (79, 4, 0x4a7484aa6ea6e483),
     (83, 4, 0x5cb0a9dcbd41fbd4), (89, 4, 0x76f988da831153b5), (97, 4, 0x983e5152ee66dfab),
     (101, 4, 0xa831c66d2db43210), (103, 4, 0xb00327c898fb213f), (107, 4, 0xbf597fc7beef0ee4),
     (109, 4, 0xc6e00bf33da88fc2), (113, 4, 0xd5a79147930aa725), (127, 5, 0x06ca6351e003826f),
     (131, 5, 0x142929670a0e6e70)]"

definition sha512_K3 :: "(nat \<times> nat \<times> u64) list" where
  "sha512_K3 =
    [(137, 5, 0x27b70a8546d22ffc), (139, 5, 0x2e1b21385c26c926), (149, 5, 0x4d2c6dfc5ac42aed),
     (151, 5, 0x53380d139d95b3df), (157, 5, 0x650a73548baf63de), (163, 5, 0x766a0abb3c77b2a8),
     (167, 5, 0x81c2c92e47edaee6), (173, 5, 0x92722c851482353b), (179, 5, 0xa2bfe8a14cf10364),
     (181, 5, 0xa81a664bbc423001), (191, 5, 0xc24b8b70d0f89791), (193, 5, 0xc76c51a30654be30),
     (197, 5, 0xd192e819d6ef5218), (199, 5, 0xd69906245565a910), (211, 5, 0xf40e35855771202a),
     (223, 6, 0x106aa07032bbd1b8)]"

definition sha512_K4 :: "(nat \<times> nat \<times> u64) list" where
  "sha512_K4 =
    [(227, 6, 0x19a4c116b8d2d0c8), (229, 6, 0x1e376c085141ab53), (233, 6, 0x2748774cdf8eeb99),
     (239, 6, 0x34b0bcb5e19b48a8), (241, 6, 0x391c0cb3c5c95a63), (251, 6, 0x4ed8aa4ae3418acb),
     (257, 6, 0x5b9cca4f7763e373), (263, 6, 0x682e6ff3d6b2b8a3), (269, 6, 0x748f82ee5defb2fc),
     (271, 6, 0x78a5636f43172f60), (277, 6, 0x84c87814a1f0ab72), (281, 6, 0x8cc702081a6439ec),
     (283, 6, 0x90befffa23631e28), (293, 6, 0xa4506cebde82bde9), (307, 6, 0xbef9a3f7b2c67915),
     (311, 6, 0xc67178f2e372532b)]"

definition sha512_K5 :: "(nat \<times> nat \<times> u64) list" where
  "sha512_K5 =
    [(313, 6, 0xca273eceea26619c), (317, 6, 0xd186b8c721c0c207), (331, 6, 0xeada7dd6cde0eb1e),
     (337, 6, 0xf57d4f7fee6ed178), (347, 7, 0x06f067aa72176fba), (349, 7, 0x0a637dc5a2c898a6),
     (353, 7, 0x113f9804bef90dae), (359, 7, 0x1b710b35131c471b), (367, 7, 0x28db77f523047d84),
     (373, 7, 0x32caab7b40c72493), (379, 7, 0x3c9ebe0a15c9bebc), (383, 7, 0x431d67c49c100d4c),
     (389, 7, 0x4cc5d4becb3e42b6), (397, 7, 0x597f299cfc657e2a), (401, 7, 0x5fcb6fab3ad6faec),
     (409, 7, 0x6c44198c4a475817)]"

definition sha512_K :: "(nat \<times> nat \<times> u64) list" where
  "sha512_K = sha512_K1 @ sha512_K2 @ sha512_K3 @ sha512_K4 @ sha512_K5"

lemmas sha512_K_defs = sha512_K_def sha512_K1_def sha512_K2_def sha512_K3_def sha512_K4_def sha512_K5_def

lemma sha512_rounds1_eq:
  "sha512_rounds1 chunk s =
    (let w = \<lambda>i. ReadBE64 (drop (8 * i) chunk) in
      (foldl sha512_step s
        (zip (map (snd \<circ> snd) sha512_K1)
          (map w (sixteen 0))), sha512_window w 0))"
  by (cases s rule: octet_exhaust) (simp add: sha512_rounds1_def sha512_K1_def sha512_step_Round sha512_step_distrib Let_def)

lemma sha512_rounds2_eq:
  "sha512_rec w \<Longrightarrow> sha512_rounds2 (sha512_window w 0) s =
      (foldl sha512_step s
        (zip (map (snd \<circ> snd) sha512_K2)
          (map w (sixteen 16))), sha512_window w 16)"
  by (cases s rule: octet_exhaust) (simp add: sha512_rounds2_def sha512_K2_def sha512_step_Round sha512_step_distrib Let_def del: One_nat_def add_2_eq_Suc add_2_eq_Suc')

lemma sha512_rounds3_eq:
  "sha512_rec w \<Longrightarrow> sha512_rounds3 (sha512_window w 0) s =
      (foldl sha512_step s
        (zip (map (snd \<circ> snd) sha512_K3)
          (map w (sixteen 16))), sha512_window w 16)"
  by (cases s rule: octet_exhaust) (simp add: sha512_rounds3_def sha512_K3_def sha512_step_Round sha512_step_distrib Let_def del: One_nat_def add_2_eq_Suc add_2_eq_Suc')

lemma sha512_rounds4_eq:
  "sha512_rec w \<Longrightarrow> sha512_rounds4 (sha512_window w 0) s =
      (foldl sha512_step s
        (zip (map (snd \<circ> snd) sha512_K4)
          (map w (sixteen 16))), sha512_window w 16)"
  by (cases s rule: octet_exhaust) (simp add: sha512_rounds4_def sha512_K4_def sha512_step_Round sha512_step_distrib Let_def del: One_nat_def add_2_eq_Suc add_2_eq_Suc')

lemma sha512_rounds5_eq:
  assumes "sha512_rec w"
  shows "sha512_rounds5 (sha512_window w 0) s =
      foldl sha512_step s
        (zip (map (snd \<circ> snd) sha512_K5)
          (map w (sixteen 16)))"
proof -
  have "w 14 + sha512_sigma1 (w 28) + w 23 + sha512_sigma0 (w 15) = w 30"
    "w 15 + sha512_sigma1 (w 29) + w 24 + sha512_sigma0 (w 16) = w 31"
    using assms by (simp_all add: add.assoc)
  then show ?thesis
    using assms
    by (cases s rule: octet_exhaust) (simp add: sha512_rounds5_def sha512_K5_def sha512_step_Round sha512_step_distrib Let_def del: One_nat_def add_2_eq_Suc add_2_eq_Suc')
qed

text \<open>The constants: each is the fraction of the root of its prime.\<close>

definition sha512_H :: "(nat \<times> nat \<times> u64) list" where
  "sha512_H =
    [(2, 1, 0x6a09e667f3bcc908), (3, 1, 0xbb67ae8584caa73b), (5, 2, 0x3c6ef372fe94f82b),
     (7, 2, 0xa54ff53a5f1d36f1), (11, 3, 0x510e527fade682d1), (13, 3, 0x9b05688c2b3e6c1f),
     (17, 4, 0x1f83d9abfb41bd6b), (19, 4, 0x5be0cd19137e2179)]"

lemma sha512_K_roots: "list_all (\<lambda>(p, q, w). root_check 3 p q w) sha512_K"
  by (simp add: sha512_K_defs root_check_def)

lemma sha512_H_roots: "list_all (\<lambda>(p, q, w). root_check 2 p q w) sha512_H"
  by (simp add: sha512_H_def root_check_def)

lemma sha512_K_eq: "map (root_bits 3) (take 80 first_primes) = map (snd \<circ> snd) sha512_K"
  using root_checks [OF _ sha512_K_roots] by (simp add: sha512_K_defs first_primes_def)

lemma sha512_Initialize_eq: "map (root_bits 2) (take 8 first_primes) = sha512_Initialize"
  using root_checks [OF _ sha512_H_roots] by (simp add: sha512_H_def first_primes_def sha512_Initialize_def)

text \<open>The rounds of the whole schedule, sixteen at a time.\<close>

definition sha512_F :: "(nat \<times> nat \<times> u64) list \<Rightarrow> nat \<Rightarrow> u64 list \<Rightarrow> sha512_state \<Rightarrow> sha512_state" where
  "sha512_F K n W v = foldl sha512_step v (zip (map (snd \<circ> snd) K) (map ((!) W) (sixteen n)))"

lemma sha512_Transform_eq:
  assumes "length s = 8"
  shows "sha512_Transform s chunk = sha512_ref_block s chunk"
proof -
  define M where "M = map (\<lambda>i. ReadBE64 (drop (8 * i) chunk)) [0..<16]"
  define W where "W = sha2_schedule sha512_ref_sigma0 sha512_ref_sigma1 80 M"
  have M: "length M = 16" "\<And>i. i < 16 \<Longrightarrow> M ! i = ReadBE64 (drop (8 * i) chunk)"
    by (simp_all add: M_def)
  have rec: "sha512_rec (\<lambda>i. W ! (n + i))" if "n + 32 \<le> 80" for n
    unfolding W_def sha512_sigmas list_all_iff using that by (intro ballI sha2_schedule_rec M(1)) auto
  have len: "length W = 80"
    unfolding W_def using M(1) by (simp add: length_sha2_schedule)
  have W0: "W ! i = ReadBE64 (drop (8 * i) chunk)" if "i < 16" for i
    unfolding W_def using M that by (simp add: sha2_schedule_nth(1))
  have r1: "sha512_rounds1 chunk v = (sha512_F sha512_K1 0 W v, sha512_window ((!) W) 0)" for v
    unfolding sha512_rounds1_eq by (simp add: W0 Let_def sha512_F_def)
  have r2: "sha512_rounds2 (sha512_window ((!) W) 0) v = (sha512_F sha512_K2 16 W v, sha512_window ((!) W) 16)" for v
    using sha512_rounds2_eq [OF rec [of 0], of v] by (simp add: sha512_F_def)
  have r3: "sha512_rounds3 (sha512_window ((!) W) 16) v = (sha512_F sha512_K3 32 W v, sha512_window ((!) W) 32)" for v
    using sha512_rounds3_eq [OF rec [of 16], of v] by (simp add: sha512_F_def)
  have r4: "sha512_rounds4 (sha512_window ((!) W) 32) v = (sha512_F sha512_K4 48 W v, sha512_window ((!) W) 48)" for v
    using sha512_rounds4_eq [OF rec [of 32], of v] by (simp add: sha512_F_def)
  have r5: "sha512_rounds5 (sha512_window ((!) W) 48) v = sha512_F sha512_K5 64 W v" for v
    using sha512_rounds5_eq [OF rec [of 48], of v] by (simp add: sha512_F_def)
  have "W = map ((!) W) [0..<80]"
    using map_nth [of W] by (simp add: len)
  note Weq = this [unfolded upt_sixteen]
  have "foldl sha512_step v (zip (map (snd \<circ> snd) sha512_K) W) = sha512_F sha512_K5 64 W (sha512_F sha512_K4 48 W (sha512_F sha512_K3 32 W (sha512_F sha512_K2 16 W (sha512_F sha512_K1 0 W v))))" for v
    by (subst Weq) (simp add: sha512_K_defs sha512_F_def)
  moreover have "length (map (snd \<circ> snd) sha512_K) = 80"
    by (simp add: sha512_K_defs)
  ultimately show ?thesis
    unfolding sha512_ref_block_def sha2_compress_def sha512_K_eq M_def [symmetric]
    using assms by (simp only: sha512_Transform_def r1 r2 r3 r4 r5 Let_def prod.case W_def [symmetric] octet_list)
qed

lemma length_sha512_Transform [simp]: "length (sha512_Transform s chunk) = 8"
  by (simp add: sha512_Transform_def split: prod.splits)

lemma sha512_Transform_take: "128 \<le> length d \<Longrightarrow> sha512_Transform s (take 128 d) = sha512_Transform s d"
  by (simp add: sha512_Transform_def sha512_rounds1_eq Let_def Read_take)

subsection \<open>The class\<close>

interpretation csha512: md_hasher 128 sha512_Transform CSHA512 CSHA512_Write
proof
  show "represents 128 sha512_Transform (hs_s CSHA512) CSHA512 []"
    by (simp add: represents_def CSHA512_def absorb_short)
  show "represents 128 sha512_Transform (hs_s CSHA512) (CSHA512_Write h d) (m @ d)"
    if "represents 128 sha512_Transform (hs_s CSHA512) h m" for h m d
    using that unfolding CSHA512_Write_def by (intro represents_chunked_Write sha512_Transform_take) simp_all
qed simp

abbreviation CSHA512_represents :: "u64 hasher \<Rightarrow> bytes \<Rightarrow> bool" where
  "CSHA512_represents \<equiv> represents 128 sha512_Transform (hs_s CSHA512)"

lemma CSHA512_Reset_represents: "CSHA512_represents h m \<Longrightarrow> CSHA512_represents (CSHA512_Reset h) []"
  by (simp add: represents_def CSHA512_def CSHA512_Reset_def absorb_short)

text \<open>The size field has sixteen bytes, of which the code fills the lower eight.\<close>

lemma sha512_size:
  assumes "l < 2 ^ 61"
  shows "rev (le_bytes 16 (8 * l)) = replicate 8 0 @ WriteBE64 (of_nat (8 * l))"
proof -
  have l: "8 * l < 256 ^ 8" "unat (of_nat (8 * l) :: u64) = 8 * l"
    using assms by (simp_all add: unat_of_nat_small del: of_nat_mult)
  have "(of_nat (8 * l div 256 ^ i) :: byte) = 0" if "i \<in> set [8..<16]" for i
  proof -
    have "256 ^ 8 \<le> (256 :: nat) ^ i"
      using that by (intro power_increasing) auto
    then show ?thesis
      using l(1) by (simp add: div_less del: power_numeral_even power_numeral_odd)
  qed
  then have "map (\<lambda>i. of_nat (8 * l div 256 ^ i) :: byte) [8..<8 + 8] = map (\<lambda>i. 0) [8..<8 + 8]"
    by (intro map_cong) simp_all
  also have "\<dots> = replicate 8 0"
    by (simp only: map_replicate_const length_upt) simp
  finally have "map (\<lambda>i. of_nat (8 * l div 256 ^ i) :: byte) [8..<8 + 8] = replicate 8 0" .
  moreover have "[0..<16] = [0..<8] @ [8..<8 + 8]"
    using upt_add_eq_append [of 0 8 8] by simp
  ultimately have "le_bytes 16 (8 * l) = le_bytes 8 (8 * l) @ replicate 8 0"
    by (simp only: le_bytes_def map_append)
  then show ?thesis
    by (simp add: WriteBE64_def l(2) del: of_nat_mult)
qed

lemma CSHA512_Finalize_digest:
  assumes "CSHA512_represents h m"
  shows "length m < 2 ^ 61 \<Longrightarrow> snd (CSHA512_Finalize h) = sha512_ref m" "CSHA512_represents (CSHA512_Reset (fst (CSHA512_Finalize h))) []"
proof -
  have i: "hs_s CSHA512 = map (root_bits 2) (take 8 first_primes)" "length (hs_s CSHA512) = 8"
    by (simp_all add: CSHA512_def sha512_Initialize_eq) (simp add: sha512_Initialize_def)
  have "absorb 128 sha512_Transform (hs_s CSHA512) d = absorb 128 sha512_ref_block (hs_s CSHA512) d" for d
    by (rule absorb_cong [of "\<lambda>s. length s = 8"]) (auto intro: sha512_Transform_eq simp: i(2))
  then show "snd (CSHA512_Finalize h) = sha512_ref m" if "length m < 2 ^ 61"
    using csha512.chaining_value [OF assms] assms sha512_size [OF that]
    by (simp add: CSHA512_Finalize_def Let_def sha512_ref_def md_digest_def md_pad_eq represents_def push_bit_3 i(1) del: take_Suc_Cons)
  show "CSHA512_represents (CSHA512_Reset (fst (CSHA512_Finalize h))) []"
    unfolding CSHA512_Finalize_def Let_def fst_conv
    by (rule CSHA512_Reset_represents [OF csha512.Write_represents [OF csha512.Write_represents [OF assms]]])
qed

end
