(* ===== verification/Ripemd160.thy ===== *)
theory Ripemd160
  imports Sha2Ref
begin

unbundle bit_operations_syntax

text \<open>
  \<^verbatim>\<open>src/src/crypto/ripemd160.cpp\<close>: the compression function of RIPEMD-160, two lines of eighty steps
  that the code interleaves and unrolls, translated line by line; the hash class; and the
  definition of Dobbertin, Bosselaers and Preneel, with the order of the message words given by
  two permutations and the rotations by one table.
\<close>

section \<open>Definitions\<close>

definition ripemd160_f1 :: "u32 \<Rightarrow> u32 \<Rightarrow> u32 \<Rightarrow> u32" where
  "ripemd160_f1 x y z = x XOR y XOR z"

definition ripemd160_f2 :: "u32 \<Rightarrow> u32 \<Rightarrow> u32 \<Rightarrow> u32" where
  "ripemd160_f2 x y z = (x AND y) OR (NOT x AND z)"

definition ripemd160_f3 :: "u32 \<Rightarrow> u32 \<Rightarrow> u32 \<Rightarrow> u32" where
  "ripemd160_f3 x y z = (x OR NOT y) XOR z"

definition ripemd160_f4 :: "u32 \<Rightarrow> u32 \<Rightarrow> u32 \<Rightarrow> u32" where
  "ripemd160_f4 x y z = (x AND z) OR (y AND NOT z)"

definition ripemd160_f5 :: "u32 \<Rightarrow> u32 \<Rightarrow> u32 \<Rightarrow> u32" where
  "ripemd160_f5 x y z = x XOR (y OR NOT z)"

definition ripemd160_Initialize :: "u32 list" where
  "ripemd160_Initialize = [0x67452301, 0xEFCDAB89, 0x98BADCFE, 0x10325476, 0xC3D2E1F0]"

definition ripemd160_rol :: "u32 \<Rightarrow> nat \<Rightarrow> u32" where
  "ripemd160_rol x i = push_bit i x OR drop_bit (32 - i) x"

text \<open>\<^verbatim>\<open>Round\<close> changes its arguments \<^verbatim>\<open>a\<close> and \<^verbatim>\<open>c\<close>, which it returns.\<close>

definition ripemd160_Round :: "u32 \<Rightarrow> u32 \<Rightarrow> u32 \<Rightarrow> u32 \<Rightarrow> u32 \<Rightarrow> u32 \<Rightarrow> u32 \<Rightarrow> u32 \<Rightarrow> nat \<Rightarrow> u32 \<times> u32" where
  "ripemd160_Round a b c d e f x k r = (ripemd160_rol (a + f + x + k) r + e, ripemd160_rol c 10)"

definition ripemd160_R11 :: "u32 \<Rightarrow> u32 \<Rightarrow> u32 \<Rightarrow> u32 \<Rightarrow> u32 \<Rightarrow> u32 \<Rightarrow> nat \<Rightarrow> u32 \<times> u32" where
  "ripemd160_R11 a b c d e x r = ripemd160_Round a b c d e (ripemd160_f1 b c d) x 0 r"

definition ripemd160_R21 :: "u32 \<Rightarrow> u32 \<Rightarrow> u32 \<Rightarrow> u32 \<Rightarrow> u32 \<Rightarrow> u32 \<Rightarrow> nat \<Rightarrow> u32 \<times> u32" where
  "ripemd160_R21 a b c d e x r = ripemd160_Round a b c d e (ripemd160_f2 b c d) x 0x5A827999 r"

definition ripemd160_R31 :: "u32 \<Rightarrow> u32 \<Rightarrow> u32 \<Rightarrow> u32 \<Rightarrow> u32 \<Rightarrow> u32 \<Rightarrow> nat \<Rightarrow> u32 \<times> u32" where
  "ripemd160_R31 a b c d e x r = ripemd160_Round a b c d e (ripemd160_f3 b c d) x 0x6ED9EBA1 r"

definition ripemd160_R41 :: "u32 \<Rightarrow> u32 \<Rightarrow> u32 \<Rightarrow> u32 \<Rightarrow> u32 \<Rightarrow> u32 \<Rightarrow> nat \<Rightarrow> u32 \<times> u32" where
  "ripemd160_R41 a b c d e x r = ripemd160_Round a b c d e (ripemd160_f4 b c d) x 0x8F1BBCDC r"

definition ripemd160_R51 :: "u32 \<Rightarrow> u32 \<Rightarrow> u32 \<Rightarrow> u32 \<Rightarrow> u32 \<Rightarrow> u32 \<Rightarrow> nat \<Rightarrow> u32 \<times> u32" where
  "ripemd160_R51 a b c d e x r = ripemd160_Round a b c d e (ripemd160_f5 b c d) x 0xA953FD4E r"

definition ripemd160_R12 :: "u32 \<Rightarrow> u32 \<Rightarrow> u32 \<Rightarrow> u32 \<Rightarrow> u32 \<Rightarrow> u32 \<Rightarrow> nat \<Rightarrow> u32 \<times> u32" where
  "ripemd160_R12 a b c d e x r = ripemd160_Round a b c d e (ripemd160_f5 b c d) x 0x50A28BE6 r"

definition ripemd160_R22 :: "u32 \<Rightarrow> u32 \<Rightarrow> u32 \<Rightarrow> u32 \<Rightarrow> u32 \<Rightarrow> u32 \<Rightarrow> nat \<Rightarrow> u32 \<times> u32" where
  "ripemd160_R22 a b c d e x r = ripemd160_Round a b c d e (ripemd160_f4 b c d) x 0x5C4DD124 r"

definition ripemd160_R32 :: "u32 \<Rightarrow> u32 \<Rightarrow> u32 \<Rightarrow> u32 \<Rightarrow> u32 \<Rightarrow> u32 \<Rightarrow> nat \<Rightarrow> u32 \<times> u32" where
  "ripemd160_R32 a b c d e x r = ripemd160_Round a b c d e (ripemd160_f3 b c d) x 0x6D703EF3 r"

definition ripemd160_R42 :: "u32 \<Rightarrow> u32 \<Rightarrow> u32 \<Rightarrow> u32 \<Rightarrow> u32 \<Rightarrow> u32 \<Rightarrow> nat \<Rightarrow> u32 \<times> u32" where
  "ripemd160_R42 a b c d e x r = ripemd160_Round a b c d e (ripemd160_f2 b c d) x 0x7A6D76E9 r"

definition ripemd160_R52 :: "u32 \<Rightarrow> u32 \<Rightarrow> u32 \<Rightarrow> u32 \<Rightarrow> u32 \<Rightarrow> u32 \<Rightarrow> nat \<Rightarrow> u32 \<times> u32" where
  "ripemd160_R52 a b c d e x r = ripemd160_Round a b c d e (ripemd160_f1 b c d) x 0 r"

type_synonym rmd_line = "u32 \<times> u32 \<times> u32 \<times> u32 \<times> u32"
type_synonym rmd_words = "u32 \<times> u32 \<times> u32 \<times> u32 \<times> u32 \<times> u32 \<times> u32 \<times> u32 \<times> u32 \<times> u32 \<times> u32 \<times> u32 \<times> u32 \<times> u32 \<times> u32 \<times> u32"

definition ripemd160_rounds1 :: "rmd_words \<Rightarrow> rmd_line \<times> rmd_line \<Rightarrow> rmd_line \<times> rmd_line" where
  "ripemd160_rounds1 = (\<lambda>(w0, w1, w2, w3, w4, w5, w6, w7, w8, w9, w10, w11, w12, w13, w14, w15) ((a1, b1, c1, d1, e1), (a2, b2, c2, d2, e2)).
    let
      (a1, c1) = ripemd160_R11 a1 b1 c1 d1 e1 w0 11;
      (a2, c2) = ripemd160_R12 a2 b2 c2 d2 e2 w5 8;
      (e1, b1) = ripemd160_R11 e1 a1 b1 c1 d1 w1 14;
      (e2, b2) = ripemd160_R12 e2 a2 b2 c2 d2 w14 9;
      (d1, a1) = ripemd160_R11 d1 e1 a1 b1 c1 w2 15;
      (d2, a2) = ripemd160_R12 d2 e2 a2 b2 c2 w7 9;
      (c1, e1) = ripemd160_R11 c1 d1 e1 a1 b1 w3 12;
      (c2, e2) = ripemd160_R12 c2 d2 e2 a2 b2 w0 11;
      (b1, d1) = ripemd160_R11 b1 c1 d1 e1 a1 w4 5;
      (b2, d2) = ripemd160_R12 b2 c2 d2 e2 a2 w9 13;
      (a1, c1) = ripemd160_R11 a1 b1 c1 d1 e1 w5 8;
      (a2, c2) = ripemd160_R12 a2 b2 c2 d2 e2 w2 15;
      (e1, b1) = ripemd160_R11 e1 a1 b1 c1 d1 w6 7;
      (e2, b2) = ripemd160_R12 e2 a2 b2 c2 d2 w11 15;
      (d1, a1) = ripemd160_R11 d1 e1 a1 b1 c1 w7 9;
      (d2, a2) = ripemd160_R12 d2 e2 a2 b2 c2 w4 5;
      (c1, e1) = ripemd160_R11 c1 d1 e1 a1 b1 w8 11;
      (c2, e2) = ripemd160_R12 c2 d2 e2 a2 b2 w13 7;
      (b1, d1) = ripemd160_R11 b1 c1 d1 e1 a1 w9 13;
      (b2, d2) = ripemd160_R12 b2 c2 d2 e2 a2 w6 7;
      (a1, c1) = ripemd160_R11 a1 b1 c1 d1 e1 w10 14;
      (a2, c2) = ripemd160_R12 a2 b2 c2 d2 e2 w15 8;
      (e1, b1) = ripemd160_R11 e1 a1 b1 c1 d1 w11 15;
      (e2, b2) = ripemd160_R12 e2 a2 b2 c2 d2 w8 11;
      (d1, a1) = ripemd160_R11 d1 e1 a1 b1 c1 w12 6;
      (d2, a2) = ripemd160_R12 d2 e2 a2 b2 c2 w1 14;
      (c1, e1) = ripemd160_R11 c1 d1 e1 a1 b1 w13 7;
      (c2, e2) = ripemd160_R12 c2 d2 e2 a2 b2 w10 14;
      (b1, d1) = ripemd160_R11 b1 c1 d1 e1 a1 w14 9;
      (b2, d2) = ripemd160_R12 b2 c2 d2 e2 a2 w3 12;
      (a1, c1) = ripemd160_R11 a1 b1 c1 d1 e1 w15 8;
      (a2, c2) = ripemd160_R12 a2 b2 c2 d2 e2 w12 6
    in ((a1, b1, c1, d1, e1), (a2, b2, c2, d2, e2)))"

definition ripemd160_rounds2 :: "rmd_words \<Rightarrow> rmd_line \<times> rmd_line \<Rightarrow> rmd_line \<times> rmd_line" where
  "ripemd160_rounds2 = (\<lambda>(w0, w1, w2, w3, w4, w5, w6, w7, w8, w9, w10, w11, w12, w13, w14, w15) ((a1, b1, c1, d1, e1), (a2, b2, c2, d2, e2)).
    let
      (e1, b1) = ripemd160_R21 e1 a1 b1 c1 d1 w7 7;
      (e2, b2) = ripemd160_R22 e2 a2 b2 c2 d2 w6 9;
      (d1, a1) = ripemd160_R21 d1 e1 a1 b1 c1 w4 6;
      (d2, a2) = ripemd160_R22 d2 e2 a2 b2 c2 w11 13;
      (c1, e1) = ripemd160_R21 c1 d1 e1 a1 b1 w13 8;
      (c2, e2) = ripemd160_R22 c2 d2 e2 a2 b2 w3 15;
      (b1, d1) = ripemd160_R21 b1 c1 d1 e1 a1 w1 13;
      (b2, d2) = ripemd160_R22 b2 c2 d2 e2 a2 w7 7;
      (a1, c1) = ripemd160_R21 a1 b1 c1 d1 e1 w10 11;
      (a2, c2) = ripemd160_R22 a2 b2 c2 d2 e2 w0 12;
      (e1, b1) = ripemd160_R21 e1 a1 b1 c1 d1 w6 9;
      (e2, b2) = ripemd160_R22 e2 a2 b2 c2 d2 w13 8;
      (d1, a1) = ripemd160_R21 d1 e1 a1 b1 c1 w15 7;
      (d2, a2) = ripemd160_R22 d2 e2 a2 b2 c2 w5 9;
      (c1, e1) = ripemd160_R21 c1 d1 e1 a1 b1 w3 15;
      (c2, e2) = ripemd160_R22 c2 d2 e2 a2 b2 w10 11;
      (b1, d1) = ripemd160_R21 b1 c1 d1 e1 a1 w12 7;
      (b2, d2) = ripemd160_R22 b2 c2 d2 e2 a2 w14 7;
      (a1, c1) = ripemd160_R21 a1 b1 c1 d1 e1 w0 12;
      (a2, c2) = ripemd160_R22 a2 b2 c2 d2 e2 w15 7;
      (e1, b1) = ripemd160_R21 e1 a1 b1 c1 d1 w9 15;
      (e2, b2) = ripemd160_R22 e2 a2 b2 c2 d2 w8 12;
      (d1, a1) = ripemd160_R21 d1 e1 a1 b1 c1 w5 9;
      (d2, a2) = ripemd160_R22 d2 e2 a2 b2 c2 w12 7;
      (c1, e1) = ripemd160_R21 c1 d1 e1 a1 b1 w2 11;
      (c2, e2) = ripemd160_R22 c2 d2 e2 a2 b2 w4 6;
      (b1, d1) = ripemd160_R21 b1 c1 d1 e1 a1 w14 7;
      (b2, d2) = ripemd160_R22 b2 c2 d2 e2 a2 w9 15;
      (a1, c1) = ripemd160_R21 a1 b1 c1 d1 e1 w11 13;
      (a2, c2) = ripemd160_R22 a2 b2 c2 d2 e2 w1 13;
      (e1, b1) = ripemd160_R21 e1 a1 b1 c1 d1 w8 12;
      (e2, b2) = ripemd160_R22 e2 a2 b2 c2 d2 w2 11
    in ((a1, b1, c1, d1, e1), (a2, b2, c2, d2, e2)))"

definition ripemd160_rounds3 :: "rmd_words \<Rightarrow> rmd_line \<times> rmd_line \<Rightarrow> rmd_line \<times> rmd_line" where
  "ripemd160_rounds3 = (\<lambda>(w0, w1, w2, w3, w4, w5, w6, w7, w8, w9, w10, w11, w12, w13, w14, w15) ((a1, b1, c1, d1, e1), (a2, b2, c2, d2, e2)).
    let
      (d1, a1) = ripemd160_R31 d1 e1 a1 b1 c1 w3 11;
      (d2, a2) = ripemd160_R32 d2 e2 a2 b2 c2 w15 9;
      (c1, e1) = ripemd160_R31 c1 d1 e1 a1 b1 w10 13;
      (c2, e2) = ripemd160_R32 c2 d2 e2 a2 b2 w5 7;
      (b1, d1) = ripemd160_R31 b1 c1 d1 e1 a1 w14 6;
      (b2, d2) = ripemd160_R32 b2 c2 d2 e2 a2 w1 15;
      (a1, c1) = ripemd160_R31 a1 b1 c1 d1 e1 w4 7;
      (a2, c2) = ripemd160_R32 a2 b2 c2 d2 e2 w3 11;
      (e1, b1) = ripemd160_R31 e1 a1 b1 c1 d1 w9 14;
      (e2, b2) = ripemd160_R32 e2 a2 b2 c2 d2 w7 8;
      (d1, a1) = ripemd160_R31 d1 e1 a1 b1 c1 w15 9;
      (d2, a2) = ripemd160_R32 d2 e2 a2 b2 c2 w14 6;
      (c1, e1) = ripemd160_R31 c1 d1 e1 a1 b1 w8 13;
      (c2, e2) = ripemd160_R32 c2 d2 e2 a2 b2 w6 6;
      (b1, d1) = ripemd160_R31 b1 c1 d1 e1 a1 w1 15;
      (b2, d2) = ripemd160_R32 b2 c2 d2 e2 a2 w9 14;
      (a1, c1) = ripemd160_R31 a1 b1 c1 d1 e1 w2 14;
      (a2, c2) = ripemd160_R32 a2 b2 c2 d2 e2 w11 12;
      (e1, b1) = ripemd160_R31 e1 a1 b1 c1 d1 w7 8;
      (e2, b2) = ripemd160_R32 e2 a2 b2 c2 d2 w8 13;
      (d1, a1) = ripemd160_R31 d1 e1 a1 b1 c1 w0 13;
      (d2, a2) = ripemd160_R32 d2 e2 a2 b2 c2 w12 5;
      (c1, e1) = ripemd160_R31 c1 d1 e1 a1 b1 w6 6;
      (c2, e2) = ripemd160_R32 c2 d2 e2 a2 b2 w2 14;
      (b1, d1) = ripemd160_R31 b1 c1 d1 e1 a1 w13 5;
      (b2, d2) = ripemd160_R32 b2 c2 d2 e2 a2 w10 13;
      (a1, c1) = ripemd160_R31 a1 b1 c1 d1 e1 w11 12;
      (a2, c2) = ripemd160_R32 a2 b2 c2 d2 e2 w0 13;
      (e1, b1) = ripemd160_R31 e1 a1 b1 c1 d1 w5 7;
      (e2, b2) = ripemd160_R32 e2 a2 b2 c2 d2 w4 7;
      (d1, a1) = ripemd160_R31 d1 e1 a1 b1 c1 w12 5;
      (d2, a2) = ripemd160_R32 d2 e2 a2 b2 c2 w13 5
    in ((a1, b1, c1, d1, e1), (a2, b2, c2, d2, e2)))"

definition ripemd160_rounds4 :: "rmd_words \<Rightarrow> rmd_line \<times> rmd_line \<Rightarrow> rmd_line \<times> rmd_line" where
  "ripemd160_rounds4 = (\<lambda>(w0, w1, w2, w3, w4, w5, w6, w7, w8, w9, w10, w11, w12, w13, w14, w15) ((a1, b1, c1, d1, e1), (a2, b2, c2, d2, e2)).
    let
      (c1, e1) = ripemd160_R41 c1 d1 e1 a1 b1 w1 11;
      (c2, e2) = ripemd160_R42 c2 d2 e2 a2 b2 w8 15;
      (b1, d1) = ripemd160_R41 b1 c1 d1 e1 a1 w9 12;
      (b2, d2) = ripemd160_R42 b2 c2 d2 e2 a2 w6 5;
      (a1, c1) = ripemd160_R41 a1 b1 c1 d1 e1 w11 14;
      (a2, c2) = ripemd160_R42 a2 b2 c2 d2 e2 w4 8;
      (e1, b1) = ripemd160_R41 e1 a1 b1 c1 d1 w10 15;
      (e2, b2) = ripemd160_R42 e2 a2 b2 c2 d2 w1 11;
      (d1, a1) = ripemd160_R41 d1 e1 a1 b1 c1 w0 14;
      (d2, a2) = ripemd160_R42 d2 e2 a2 b2 c2 w3 14;
      (c1, e1) = ripemd160_R41 c1 d1 e1 a1 b1 w8 15;
      (c2, e2) = ripemd160_R42 c2 d2 e2 a2 b2 w11 14;
      (b1, d1) = ripemd160_R41 b1 c1 d1 e1 a1 w12 9;
      (b2, d2) = ripemd160_R42 b2 c2 d2 e2 a2 w15 6;
      (a1, c1) = ripemd160_R41 a1 b1 c1 d1 e1 w4 8;
      (a2, c2) = ripemd160_R42 a2 b2 c2 d2 e2 w0 14;
      (e1, b1) = ripemd160_R41 e1 a1 b1 c1 d1 w13 9;
      (e2, b2) = ripemd160_R42 e2 a2 b2 c2 d2 w5 6;
      (d1, a1) = ripemd160_R41 d1 e1 a1 b1 c1 w3 14;
      (d2, a2) = ripemd160_R42 d2 e2 a2 b2 c2 w12 9;
      (c1, e1) = ripemd160_R41 c1 d1 e1 a1 b1 w7 5;
      (c2, e2) = ripemd160_R42 c2 d2 e2 a2 b2 w2 12;
      (b1, d1) = ripemd160_R41 b1 c1 d1 e1 a1 w15 6;
      (b2, d2) = ripemd160_R42 b2 c2 d2 e2 a2 w13 9;
      (a1, c1) = ripemd160_R41 a1 b1 c1 d1 e1 w14 8;
      (a2, c2) = ripemd160_R42 a2 b2 c2 d2 e2 w9 12;
      (e1, b1) = ripemd160_R41 e1 a1 b1 c1 d1 w5 6;
      (e2, b2) = ripemd160_R42 e2 a2 b2 c2 d2 w7 5;
      (d1, a1) = ripemd160_R41 d1 e1 a1 b1 c1 w6 5;
      (d2, a2) = ripemd160_R42 d2 e2 a2 b2 c2 w10 15;
      (c1, e1) = ripemd160_R41 c1 d1 e1 a1 b1 w2 12;
      (c2, e2) = ripemd160_R42 c2 d2 e2 a2 b2 w14 8
    in ((a1, b1, c1, d1, e1), (a2, b2, c2, d2, e2)))"

definition ripemd160_rounds5 :: "rmd_words \<Rightarrow> rmd_line \<times> rmd_line \<Rightarrow> rmd_line \<times> rmd_line" where
  "ripemd160_rounds5 = (\<lambda>(w0, w1, w2, w3, w4, w5, w6, w7, w8, w9, w10, w11, w12, w13, w14, w15) ((a1, b1, c1, d1, e1), (a2, b2, c2, d2, e2)).
    let
      (b1, d1) = ripemd160_R51 b1 c1 d1 e1 a1 w4 9;
      (b2, d2) = ripemd160_R52 b2 c2 d2 e2 a2 w12 8;
      (a1, c1) = ripemd160_R51 a1 b1 c1 d1 e1 w0 15;
      (a2, c2) = ripemd160_R52 a2 b2 c2 d2 e2 w15 5;
      (e1, b1) = ripemd160_R51 e1 a1 b1 c1 d1 w5 5;
      (e2, b2) = ripemd160_R52 e2 a2 b2 c2 d2 w10 12;
      (d1, a1) = ripemd160_R51 d1 e1 a1 b1 c1 w9 11;
      (d2, a2) = ripemd160_R52 d2 e2 a2 b2 c2 w4 9;
      (c1, e1) = ripemd160_R51 c1 d1 e1 a1 b1 w7 6;
      (c2, e2) = ripemd160_R52 c2 d2 e2 a2 b2 w1 12;
      (b1, d1) = ripemd160_R51 b1 c1 d1 e1 a1 w12 8;
      (b2, d2) = ripemd160_R52 b2 c2 d2 e2 a2 w5 5;
      (a1, c1) = ripemd160_R51 a1 b1 c1 d1 e1 w2 13;
      (a2, c2) = ripemd160_R52 a2 b2 c2 d2 e2 w8 14;
      (e1, b1) = ripemd160_R51 e1 a1 b1 c1 d1 w10 12;
      (e2, b2) = ripemd160_R52 e2 a2 b2 c2 d2 w7 6;
      (d1, a1) = ripemd160_R51 d1 e1 a1 b1 c1 w14 5;
      (d2, a2) = ripemd160_R52 d2 e2 a2 b2 c2 w6 8;
      (c1, e1) = ripemd160_R51 c1 d1 e1 a1 b1 w1 12;
      (c2, e2) = ripemd160_R52 c2 d2 e2 a2 b2 w2 13;
      (b1, d1) = ripemd160_R51 b1 c1 d1 e1 a1 w3 13;
      (b2, d2) = ripemd160_R52 b2 c2 d2 e2 a2 w13 6;
      (a1, c1) = ripemd160_R51 a1 b1 c1 d1 e1 w8 14;
      (a2, c2) = ripemd160_R52 a2 b2 c2 d2 e2 w14 5;
      (e1, b1) = ripemd160_R51 e1 a1 b1 c1 d1 w11 11;
      (e2, b2) = ripemd160_R52 e2 a2 b2 c2 d2 w0 15;
      (d1, a1) = ripemd160_R51 d1 e1 a1 b1 c1 w6 8;
      (d2, a2) = ripemd160_R52 d2 e2 a2 b2 c2 w3 13;
      (c1, e1) = ripemd160_R51 c1 d1 e1 a1 b1 w15 5;
      (c2, e2) = ripemd160_R52 c2 d2 e2 a2 b2 w9 11;
      (b1, d1) = ripemd160_R51 b1 c1 d1 e1 a1 w13 6;
      (b2, d2) = ripemd160_R52 b2 c2 d2 e2 a2 w11 11
    in ((a1, b1, c1, d1, e1), (a2, b2, c2, d2, e2)))"

definition ripemd160_Transform :: "u32 list \<Rightarrow> bytes \<Rightarrow> u32 list" where
  "ripemd160_Transform s chunk =
    (let v = (s ! 0, s ! 1, s ! 2, s ! 3, s ! 4);
         w = (ReadLE32 (drop 0 chunk), ReadLE32 (drop 4 chunk), ReadLE32 (drop 8 chunk), ReadLE32 (drop 12 chunk),
           ReadLE32 (drop 16 chunk), ReadLE32 (drop 20 chunk), ReadLE32 (drop 24 chunk), ReadLE32 (drop 28 chunk),
           ReadLE32 (drop 32 chunk), ReadLE32 (drop 36 chunk), ReadLE32 (drop 40 chunk), ReadLE32 (drop 44 chunk),
           ReadLE32 (drop 48 chunk), ReadLE32 (drop 52 chunk), ReadLE32 (drop 56 chunk), ReadLE32 (drop 60 chunk));
         v = ripemd160_rounds1 w (v, v);
         v = ripemd160_rounds2 w v;
         v = ripemd160_rounds3 w v;
         v = ripemd160_rounds4 w v;
         ((a1, b1, c1, d1, e1), (a2, b2, c2, d2, e2)) = ripemd160_rounds5 w v
     in [s ! 1 + c1 + d2, s ! 2 + d1 + e2, s ! 3 + e1 + a2, s ! 4 + a1 + b2, s ! 0 + b1 + c2])"

definition CRIPEMD160 :: "u32 hasher" where
  "CRIPEMD160 = \<lparr>hs_s = ripemd160_Initialize, hs_buf = replicate 64 0, hs_bytes = 0\<rparr>"

definition CRIPEMD160_Write :: "u32 hasher \<Rightarrow> bytes \<Rightarrow> u32 hasher" where
  "CRIPEMD160_Write = chunked_Write 64 ripemd160_Transform"

definition CRIPEMD160_Finalize :: "u32 hasher \<Rightarrow> u32 hasher \<times> bytes" where
  "CRIPEMD160_Finalize h =
    (let sizedesc = WriteLE64 (push_bit 3 (hs_bytes h));
         h = CRIPEMD160_Write h (take (1 + (119 - unat (hs_bytes h) mod 64) mod 64) (0x80 # replicate 63 0));
         h = CRIPEMD160_Write h sizedesc
     in (h, concat (map WriteLE32 (hs_s h))))"

definition CRIPEMD160_Reset :: "u32 hasher \<Rightarrow> u32 hasher" where
  "CRIPEMD160_Reset h = h\<lparr>hs_bytes := 0, hs_s := ripemd160_Initialize\<rparr>"

section \<open>The reference\<close>

text \<open>
  The step of a line; the five functions in order (the right line uses them in reverse); the
  constants, square roots of primes on the left and cube roots on the right, scaled by the
  thirtieth power of two; the order of the words, the identity on the left and the permutation
  \<open>i \<mapsto> 9 i + 5\<close> on the right, permuted once more by \<open>rmd_rho\<close> from round to round; the amounts of
  rotation, which depend on the round and the word.
\<close>

fun rmd_step :: "rmd_line \<Rightarrow> (u32 \<Rightarrow> u32 \<Rightarrow> u32 \<Rightarrow> u32) \<times> u32 \<times> u32 \<times> nat \<Rightarrow> rmd_line" where
  "rmd_step (a, b, c, d, e) (f, x, k, r) = (e, word_rotl r (a + f b c d + x + k) + e, b, word_rotl 10 c, d)"

definition rmd_f :: "(u32 \<Rightarrow> u32 \<Rightarrow> u32 \<Rightarrow> u32) list" where
  "rmd_f =
    [\<lambda>x y z. x XOR y XOR z, \<lambda>x y z. (x AND y) OR (NOT x AND z), \<lambda>x y z. (x OR NOT y) XOR z,
     \<lambda>x y z. (x AND z) OR (y AND NOT z), \<lambda>x y z. x XOR (y OR NOT z)]"

definition rmd_K :: "u32 list" where
  "rmd_K = 0 # map (\<lambda>p. of_nat (iroot 2 (p * 2 ^ 60))) [2, 3, 5, 7]"

definition rmd_K' :: "u32 list" where
  "rmd_K' = map (\<lambda>p. of_nat (iroot 3 (p * 2 ^ 90))) [2, 3, 5, 7] @ [0]"

definition rmd_rho :: "nat list" where
  "rmd_rho = [7, 4, 13, 1, 10, 6, 15, 3, 12, 0, 9, 5, 2, 14, 11, 8]"

primrec rmd_order :: "nat list \<Rightarrow> nat \<Rightarrow> nat list" where
  "rmd_order r 0 = r"
| "rmd_order r (Suc j) = map ((!) rmd_rho) (rmd_order r j)"

definition rmd_shift :: "nat list list" where
  "rmd_shift =
    [[11, 14, 15, 12, 5, 8, 7, 9, 11, 13, 14, 15, 6, 7, 9, 8],
     [12, 13, 11, 15, 6, 9, 9, 7, 12, 15, 11, 13, 7, 8, 7, 7],
     [13, 15, 14, 11, 7, 7, 6, 8, 13, 14, 13, 12, 5, 5, 6, 9],
     [14, 11, 12, 14, 8, 6, 5, 5, 15, 12, 15, 14, 9, 9, 8, 6],
     [15, 12, 13, 13, 9, 5, 8, 6, 14, 11, 12, 11, 8, 6, 5, 5]]"

definition rmd_left :: "u32 list \<Rightarrow> nat \<Rightarrow> ((u32 \<Rightarrow> u32 \<Rightarrow> u32 \<Rightarrow> u32) \<times> u32 \<times> u32 \<times> nat) list" where
  "rmd_left X j = map (\<lambda>i. (rmd_f ! j, X ! i, rmd_K ! j, rmd_shift ! j ! i)) (rmd_order [0..<16] j)"

definition rmd_right :: "u32 list \<Rightarrow> nat \<Rightarrow> ((u32 \<Rightarrow> u32 \<Rightarrow> u32 \<Rightarrow> u32) \<times> u32 \<times> u32 \<times> nat) list" where
  "rmd_right X j =
    map (\<lambda>i. (rmd_f ! (4 - j), X ! i, rmd_K' ! j, rmd_shift ! j ! i)) (rmd_order (map (\<lambda>i. (9 * i + 5) mod 16) [0..<16]) j)"

definition ripemd160_ref_block :: "u32 list \<Rightarrow> bytes \<Rightarrow> u32 list" where
  "ripemd160_ref_block h chunk =
    (let X = map (\<lambda>i. ReadLE32 (drop (4 * i) chunk)) [0..<16];
         v = (h ! 0, h ! 1, h ! 2, h ! 3, h ! 4);
         (a, b, c, d, e) = foldl rmd_step v (concat (map (rmd_left X) [0..<5]));
         (a', b', c', d', e') = foldl rmd_step v (concat (map (rmd_right X) [0..<5]))
     in [h ! 1 + c + d', h ! 2 + d + e', h ! 3 + e + a', h ! 4 + a + b', h ! 0 + b + c'])"

definition ripemd160_ref :: "bytes \<Rightarrow> bytes" where
  "ripemd160_ref m =
    concat (map WriteLE32
      (md_digest 64 8 (\<lambda>l. WriteLE64 (of_nat l)) ripemd160_ref_block [0x67452301, 0xEFCDAB89, 0x98BADCFE, 0x10325476, 0xC3D2E1F0] m))"

section \<open>Lemmas\<close>

subsection \<open>The compression function\<close>

text \<open>The order of the words, round by round.\<close>

declare rmd_order.simps [simp del]

lemma rmd_order_left:
  "rmd_order [0..<16] 0 = [0, 1, 2, 3, 4, 5, 6, 7, 8, 9, 10, 11, 12, 13, 14, 15]"
  "rmd_order [0..<16] (Suc 0) = [7, 4, 13, 1, 10, 6, 15, 3, 12, 0, 9, 5, 2, 14, 11, 8]"
  "rmd_order [0..<16] 2 = [3, 10, 14, 4, 9, 15, 8, 1, 2, 7, 0, 6, 13, 11, 5, 12]"
  "rmd_order [0..<16] 3 = [1, 9, 11, 10, 0, 8, 12, 4, 13, 3, 7, 15, 14, 5, 6, 2]"
  "rmd_order [0..<16] 4 = [4, 0, 5, 9, 7, 12, 2, 10, 14, 1, 3, 8, 11, 6, 15, 13]"
  by code_simp+

lemma rmd_order_right:
  "rmd_order (map (\<lambda>i. (9 * i + 5) mod 16) [0..<16]) 0 = [5, 14, 7, 0, 9, 2, 11, 4, 13, 6, 15, 8, 1, 10, 3, 12]"
  "rmd_order (map (\<lambda>i. (9 * i + 5) mod 16) [0..<16]) (Suc 0) = [6, 11, 3, 7, 0, 13, 5, 10, 14, 15, 8, 12, 4, 9, 1, 2]"
  "rmd_order (map (\<lambda>i. (9 * i + 5) mod 16) [0..<16]) 2 = [15, 5, 1, 3, 7, 14, 6, 9, 11, 8, 12, 2, 10, 0, 4, 13]"
  "rmd_order (map (\<lambda>i. (9 * i + 5) mod 16) [0..<16]) 3 = [8, 6, 4, 1, 3, 11, 15, 0, 5, 12, 2, 13, 9, 7, 10, 14]"
  "rmd_order (map (\<lambda>i. (9 * i + 5) mod 16) [0..<16]) 4 = [12, 15, 10, 4, 1, 5, 8, 7, 6, 2, 13, 14, 0, 3, 9, 11]"
  by code_simp+

lemma rmd_K_eq:
  "rmd_K = [0, 0x5A827999, 0x6ED9EBA1, 0x8F1BBCDC, 0xA953FD4E]"
  "rmd_K' = [0x50A28BE6, 0x5C4DD124, 0x6D703EF3, 0x7A6D76E9, 0]"
  using iroot_eq [of 2 1518500249 "2 * 2 ^ 60"] iroot_eq [of 2 1859775393 "3 * 2 ^ 60"] iroot_eq [of 2 2400959708 "5 * 2 ^ 60"] iroot_eq [of 2 2840853838 "7 * 2 ^ 60"]
    iroot_eq [of 3 1352829926 "2 * 2 ^ 90"] iroot_eq [of 3 1548603684 "3 * 2 ^ 90"] iroot_eq [of 3 1836072691 "5 * 2 ^ 90"] iroot_eq [of 3 2053994217 "7 * 2 ^ 90"]
  by (simp_all add: rmd_K_def rmd_K'_def)

lemmas rmd_round_defs =
  ripemd160_R11_def ripemd160_R21_def ripemd160_R31_def ripemd160_R41_def ripemd160_R51_def
  ripemd160_R12_def ripemd160_R22_def ripemd160_R32_def ripemd160_R42_def ripemd160_R52_def

lemma rmd_step_Round:
  assumes "0 < r" and "r < 32"
  shows "rmd_step (a, b, c, d, e) (f, x, k, r)
    = (case ripemd160_Round a b c d e (f b c d) x k r of (a', c') \<Rightarrow> (e, a', b, c', d))"
  using assms rotl_shifts [of r "32 - r" "a + f b c d + x + k"] rotl_shifts [of 10 22 c]
  by (simp add: ripemd160_Round_def ripemd160_rol_def)

declare rmd_step.simps [simp del]

text \<open>Both lines together, and the roles of the variables, which move by one place in sixteen steps.\<close>

fun rmd_pair :: "rmd_line \<times> rmd_line \<Rightarrow>
    ((u32 \<Rightarrow> u32 \<Rightarrow> u32 \<Rightarrow> u32) \<times> u32 \<times> u32 \<times> nat) \<times> ((u32 \<Rightarrow> u32 \<Rightarrow> u32 \<Rightarrow> u32) \<times> u32 \<times> u32 \<times> nat) \<Rightarrow> rmd_line \<times> rmd_line" where
  "rmd_pair (l, r) (x, y) = (rmd_step l x, rmd_step r y)"

lemma foldl_rmd_pair:
  "length xs = length ys \<Longrightarrow> foldl rmd_pair (l, r) (zip xs ys) = (foldl rmd_step l xs, foldl rmd_step r ys)"
  by (induction xs ys arbitrary: l r rule: list_induct2) simp_all

lemma rmd_pair_Round:
  assumes "0 < r" and "r < 32" and "0 < r'" and "r' < 32"
  shows "rmd_pair ((a, b, c, d, e), (a2, b2, c2, d2, e2)) ((f, x, k, r), (f2, x2, k2, r')) =
    (case ripemd160_Round a b c d e (f b c d) x k r of (a', c') \<Rightarrow>
      case ripemd160_Round a2 b2 c2 d2 e2 (f2 b2 c2 d2) x2 k2 r' of (a2', c2') \<Rightarrow> ((e, a', b, c', d), (e2, a2', b2, c2', d2)))"
  using assms by (simp add: rmd_step_Round split: prod.splits)

declare rmd_pair.simps [simp del]

fun rmd_rot :: "rmd_line \<times> rmd_line \<Rightarrow> rmd_line \<times> rmd_line" where
  "rmd_rot ((a, b, c, d, e), (a2, b2, c2, d2, e2)) = ((b, c, d, e, a), (b2, c2, d2, e2, a2))"

lemmas rmd_distrib = prod.case_distrib [of "\<lambda>s. rmd_pair s x" for x] prod.case_distrib [of rmd_rot]

lemma rmd_lines_exhaust:
  obtains a b c d e a2 b2 c2 d2 e2 where "v = ((a, b, c, d, e), (a2, b2, c2, d2, e2 :: u32))"
  by (cases v) auto

abbreviation rmd_tuple :: "u32 list \<Rightarrow> rmd_words" where
  "rmd_tuple X \<equiv> (X ! 0, X ! 1, X ! 2, X ! 3, X ! 4, X ! 5, X ! 6, X ! 7,
    X ! 8, X ! 9, X ! 10, X ! 11, X ! 12, X ! 13, X ! 14, X ! 15)"

lemmas rmd_defs = rmd_left_def rmd_right_def rmd_f_def rmd_K_eq rmd_shift_def rmd_order_left rmd_order_right
  ripemd160_f1_def [abs_def] ripemd160_f2_def [abs_def] ripemd160_f3_def [abs_def]
  ripemd160_f4_def [abs_def] ripemd160_f5_def [abs_def]

lemma ripemd160_rounds1_eq:
  "ripemd160_rounds1 (rmd_tuple X) (v) = rmd_rot (foldl rmd_pair v (zip (rmd_left X 0) (rmd_right X 0)))"
  by (cases v rule: rmd_lines_exhaust)
    (simp add: ripemd160_rounds1_def rmd_defs rmd_round_defs rmd_pair_Round rmd_distrib Let_def)

lemma ripemd160_rounds2_eq:
  "ripemd160_rounds2 (rmd_tuple X) (rmd_rot v) = rmd_rot (rmd_rot (foldl rmd_pair v (zip (rmd_left X 1) (rmd_right X 1))))"
  by (cases v rule: rmd_lines_exhaust)
    (simp add: ripemd160_rounds2_def rmd_defs rmd_round_defs rmd_pair_Round rmd_distrib Let_def)

lemma ripemd160_rounds3_eq:
  "ripemd160_rounds3 (rmd_tuple X) (rmd_rot (rmd_rot v)) = rmd_rot (rmd_rot (rmd_rot (foldl rmd_pair v (zip (rmd_left X 2) (rmd_right X 2)))))"
  by (cases v rule: rmd_lines_exhaust)
    (simp add: ripemd160_rounds3_def rmd_defs rmd_round_defs rmd_pair_Round rmd_distrib Let_def)

lemma ripemd160_rounds4_eq:
  "ripemd160_rounds4 (rmd_tuple X) (rmd_rot (rmd_rot (rmd_rot v))) = rmd_rot (rmd_rot (rmd_rot (rmd_rot (foldl rmd_pair v (zip (rmd_left X 3) (rmd_right X 3))))))"
  by (cases v rule: rmd_lines_exhaust)
    (simp add: ripemd160_rounds4_def rmd_defs rmd_round_defs rmd_pair_Round rmd_distrib Let_def)

lemma ripemd160_rounds5_eq:
  "ripemd160_rounds5 (rmd_tuple X) (rmd_rot (rmd_rot (rmd_rot (rmd_rot v)))) = foldl rmd_pair v (zip (rmd_left X 4) (rmd_right X 4))"
  by (cases v rule: rmd_lines_exhaust)
    (simp add: ripemd160_rounds5_def rmd_defs rmd_round_defs rmd_pair_Round rmd_distrib Let_def)

lemma length_rmd_round [simp]: "length (rmd_left X j) = 16" "length (rmd_right X j) = 16"
proof -
  have "length (rmd_order r j) = length r" for r
    by (induction j) (simp_all add: rmd_order.simps)
  then show "length (rmd_left X j) = 16" "length (rmd_right X j) = 16"
    by (simp_all add: rmd_left_def rmd_right_def)
qed

lemma ripemd160_Transform_eq: "ripemd160_Transform s chunk = ripemd160_ref_block s chunk"
proof -
  define X where "X = map (\<lambda>i. ReadLE32 (drop (4 * i) chunk)) [0..<16]"
  have X: "(ReadLE32 (drop 0 chunk), ReadLE32 (drop 4 chunk), ReadLE32 (drop 8 chunk), ReadLE32 (drop 12 chunk),
      ReadLE32 (drop 16 chunk), ReadLE32 (drop 20 chunk), ReadLE32 (drop 24 chunk), ReadLE32 (drop 28 chunk),
      ReadLE32 (drop 32 chunk), ReadLE32 (drop 36 chunk), ReadLE32 (drop 40 chunk), ReadLE32 (drop 44 chunk),
      ReadLE32 (drop 48 chunk), ReadLE32 (drop 52 chunk), ReadLE32 (drop 56 chunk), ReadLE32 (drop 60 chunk)) = rmd_tuple X"
    by (simp add: X_def)
  have u: "[0..<5] = [0, 1, 2, 3, 4]"
    by (simp add: upt_conv_Cons)
  have f: "foldl rmd_pair (l, r) (zip (rmd_left X j) (rmd_right X j))
      = (foldl rmd_step l (rmd_left X j), foldl rmd_step r (rmd_right X j))" for l r j
    by (simp add: foldl_rmd_pair)
  show ?thesis
    unfolding ripemd160_Transform_def ripemd160_ref_block_def X_def [symmetric] X Let_def
    using ripemd160_rounds1_eq ripemd160_rounds2_eq ripemd160_rounds3_eq ripemd160_rounds4_eq ripemd160_rounds5_eq
    by (simp add: f u split: prod.splits)
qed

lemma length_ripemd160_Transform [simp]: "length (ripemd160_Transform s chunk) = 5"
  by (simp add: ripemd160_Transform_def Let_def split: prod.splits)

lemma ripemd160_Transform_take: "64 \<le> length d \<Longrightarrow> ripemd160_Transform s (take 64 d) = ripemd160_Transform s d"
  by (simp add: ripemd160_Transform_def Let_def Read_take)

subsection \<open>The class\<close>

interpretation cripemd160: md_hasher 64 ripemd160_Transform CRIPEMD160 CRIPEMD160_Write
proof
  show "represents 64 ripemd160_Transform (hs_s CRIPEMD160) CRIPEMD160 []"
    by (simp add: represents_def CRIPEMD160_def absorb_short)
  show "represents 64 ripemd160_Transform (hs_s CRIPEMD160) (CRIPEMD160_Write h d) (m @ d)"
    if "represents 64 ripemd160_Transform (hs_s CRIPEMD160) h m" for h m d
    using that unfolding CRIPEMD160_Write_def by (intro represents_chunked_Write ripemd160_Transform_take) simp_all
qed simp

abbreviation CRIPEMD160_represents :: "u32 hasher \<Rightarrow> bytes \<Rightarrow> bool" where
  "CRIPEMD160_represents \<equiv> represents 64 ripemd160_Transform (hs_s CRIPEMD160)"

lemma CRIPEMD160_Reset_represents: "CRIPEMD160_represents h m \<Longrightarrow> CRIPEMD160_represents (CRIPEMD160_Reset h) []"
  by (simp add: represents_def CRIPEMD160_def CRIPEMD160_Reset_def absorb_short)

lemma CRIPEMD160_Finalize_digest:
  assumes "CRIPEMD160_represents h m"
  shows "snd (CRIPEMD160_Finalize h) = ripemd160_ref m" "CRIPEMD160_represents (CRIPEMD160_Reset (fst (CRIPEMD160_Finalize h))) []"
proof -
  have i: "hs_s CRIPEMD160 = [0x67452301, 0xEFCDAB89, 0x98BADCFE, 0x10325476, 0xC3D2E1F0]" "length (hs_s CRIPEMD160) = 5"
    by (simp_all add: CRIPEMD160_def ripemd160_Initialize_def)
  have "absorb 64 ripemd160_Transform (hs_s CRIPEMD160) d = absorb 64 ripemd160_ref_block (hs_s CRIPEMD160) d" for d
    by (rule absorb_cong [of "\<lambda>s. True"]) (simp_all add: ripemd160_Transform_eq)
  then show "snd (CRIPEMD160_Finalize h) = ripemd160_ref m"
    using cripemd160.chaining_value [OF assms] assms
    by (simp add: CRIPEMD160_Finalize_def Let_def ripemd160_ref_def md_digest_def md_pad_eq represents_def push_bit_3 i(1) del: take_Suc_Cons)
  show "CRIPEMD160_represents (CRIPEMD160_Reset (fst (CRIPEMD160_Finalize h))) []"
    unfolding CRIPEMD160_Finalize_def Let_def fst_conv
    by (rule CRIPEMD160_Reset_represents [OF cripemd160.Write_represents [OF cripemd160.Write_represents [OF assms]]])
qed

end
