(* ===== verification/Hashes.thy ===== *)
theory Hashes
  imports Sha1 Sha256 Sha512 Ripemd160
begin

unbundle bit_operations_syntax

text \<open>
  The hash classes built from others: \<^verbatim>\<open>CHash256\<close> and \<^verbatim>\<open>CHash160\<close> of \<^verbatim>\<open>src/src/hash.h\<close>, and the keyed hashes
  of \<^verbatim>\<open>src/src/crypto/hmac_sha256.cpp\<close>, \<^verbatim>\<open>hmac_sha256.h\<close>, \<^verbatim>\<open>hmac_sha512.cpp\<close> and \<^verbatim>\<open>hmac_sha512.h\<close>, with RFC 2104 as the
  reference.  The properties state what every hash class computes, however its input is cut into
  writes.
\<close>

section \<open>Definitions\<close>

subsection \<open>CHash256 and CHash160\<close>

definition CHash256_Write :: "u32 hasher \<Rightarrow> bytes \<Rightarrow> u32 hasher" where
  "CHash256_Write sha data = CSHA256_Write sha data"

definition CHash256_Finalize :: "u32 hasher \<Rightarrow> u32 hasher \<times> bytes" where
  "CHash256_Finalize sha =
    (let (sha, buf) = CSHA256_Finalize sha in CSHA256_Finalize (CSHA256_Write (CSHA256_Reset sha) buf))"

definition CHash160_Write :: "u32 hasher \<Rightarrow> bytes \<Rightarrow> u32 hasher" where
  "CHash160_Write sha data = CSHA256_Write sha data"

definition CHash160_Finalize :: "u32 hasher \<Rightarrow> u32 hasher \<times> bytes" where
  "CHash160_Finalize sha =
    (let (sha, buf) = CSHA256_Finalize sha in (sha, snd (CRIPEMD160_Finalize (CRIPEMD160_Write CRIPEMD160 buf))))"

subsection \<open>The keyed hashes\<close>

record 'w hmac =
  hm_outer :: "'w hasher"
  hm_inner :: "'w hasher"

definition CHMAC_SHA256 :: "bytes \<Rightarrow> u32 hmac" where
  "CHMAC_SHA256 key =
    (let rkey = (if length key \<le> 64 then key @ replicate (64 - length key) 0
                 else snd (CSHA256_Finalize (CSHA256_Write CSHA256 key)) @ replicate 32 0);
         rkey = map (\<lambda>b. b XOR 0x5c) rkey;
         outer = CSHA256_Write CSHA256 rkey;
         rkey = map (\<lambda>b. b XOR (0x5c XOR 0x36)) rkey;
         inner = CSHA256_Write CSHA256 rkey
     in \<lparr>hm_outer = outer, hm_inner = inner\<rparr>)"

definition CHMAC_SHA256_Write :: "u32 hmac \<Rightarrow> bytes \<Rightarrow> u32 hmac" where
  "CHMAC_SHA256_Write h data = h\<lparr>hm_inner := CSHA256_Write (hm_inner h) data\<rparr>"

definition CHMAC_SHA256_Finalize :: "u32 hmac \<Rightarrow> bytes" where
  "CHMAC_SHA256_Finalize h =
    (let temp = snd (CSHA256_Finalize (hm_inner h)) in snd (CSHA256_Finalize (CSHA256_Write (hm_outer h) temp)))"

definition CHMAC_SHA512 :: "bytes \<Rightarrow> u64 hmac" where
  "CHMAC_SHA512 key =
    (let rkey = (if length key \<le> 128 then key @ replicate (128 - length key) 0
                 else snd (CSHA512_Finalize (CSHA512_Write CSHA512 key)) @ replicate 64 0);
         rkey = map (\<lambda>b. b XOR 0x5c) rkey;
         outer = CSHA512_Write CSHA512 rkey;
         rkey = map (\<lambda>b. b XOR (0x5c XOR 0x36)) rkey;
         inner = CSHA512_Write CSHA512 rkey
     in \<lparr>hm_outer = outer, hm_inner = inner\<rparr>)"

definition CHMAC_SHA512_Write :: "u64 hmac \<Rightarrow> bytes \<Rightarrow> u64 hmac" where
  "CHMAC_SHA512_Write h data = h\<lparr>hm_inner := CSHA512_Write (hm_inner h) data\<rparr>"

definition CHMAC_SHA512_Finalize :: "u64 hmac \<Rightarrow> bytes" where
  "CHMAC_SHA512_Finalize h =
    (let temp = snd (CSHA512_Finalize (hm_inner h)) in snd (CSHA512_Finalize (CSHA512_Write (hm_outer h) temp)))"

subsection \<open>The reference\<close>

text \<open>RFC 2104, with the hash function \<open>H\<close> and its block size \<open>B\<close>.\<close>

definition hmac_key :: "(bytes \<Rightarrow> bytes) \<Rightarrow> nat \<Rightarrow> bytes \<Rightarrow> bytes" where
  "hmac_key H B key = (let k = (if length key \<le> B then key else H key) in k @ replicate (B - length k) 0)"

definition hmac_ref :: "(bytes \<Rightarrow> bytes) \<Rightarrow> nat \<Rightarrow> bytes \<Rightarrow> bytes \<Rightarrow> bytes" where
  "hmac_ref H B key m =
    (let k = hmac_key H B key in H (map (\<lambda>b. b XOR 0x5c) k @ H (map (\<lambda>b. b XOR 0x36) k @ m)))"

section \<open>Lemmas\<close>

lemma length_concat_WriteBE [simp]:
  "length (concat (map WriteBE32 s)) = 4 * length s" "length (concat (map WriteBE64 t)) = 8 * length t"
  "length (concat (map WriteLE32 s)) = 4 * length s"
  by (simp_all add: length_concat_map_const)

lemma length_digests:
  "CSHA1_represents a m \<Longrightarrow> length (snd (CSHA1_Finalize a)) = 20"
  "CSHA256_represents b m \<Longrightarrow> length (snd (CSHA256_Finalize b)) = 32"
  "CSHA512_represents c m \<Longrightarrow> length (snd (CSHA512_Finalize c)) = 64"
  "CRIPEMD160_represents d m \<Longrightarrow> length (snd (CRIPEMD160_Finalize d)) = 20"
proof -
  have i: "length (hs_s CSHA1) = 5" "length (hs_s CSHA256) = 8" "length (hs_s CSHA512) = 8" "length (hs_s CRIPEMD160) = 5"
    by (simp_all add: CSHA1_def CSHA256_def CSHA512_def CRIPEMD160_def
      sha1_Initialize_def sha256_Initialize_def sha512_Initialize_def ripemd160_Initialize_def)
  note w = csha1.Write_represents csha256.Write_represents csha512.Write_represents cripemd160.Write_represents
  show "CSHA1_represents a m \<Longrightarrow> length (snd (CSHA1_Finalize a)) = 20"
    using represents_length [OF length_sha1_Transform i(1) w(1) [OF w(1)]] by (simp add: CSHA1_Finalize_def Let_def)
  show "CSHA256_represents b m \<Longrightarrow> length (snd (CSHA256_Finalize b)) = 32"
    using represents_length [OF length_sha256_block i(2) w(2) [OF w(2)]] by (simp add: CSHA256_Finalize_def Let_def)
  show "CSHA512_represents c m \<Longrightarrow> length (snd (CSHA512_Finalize c)) = 64"
    using represents_length [OF length_sha512_Transform i(3) w(3) [OF w(3)]] by (simp add: CSHA512_Finalize_def Let_def)
  show "CRIPEMD160_represents d m \<Longrightarrow> length (snd (CRIPEMD160_Finalize d)) = 20"
    using represents_length [OF length_ripemd160_Transform i(4) w(4) [OF w(4)]] by (simp add: CRIPEMD160_Finalize_def Let_def)
qed

lemmas one_write = csha1.Write_represents [OF csha1.Init_represents, simplified]
  csha256.Write_represents [OF csha256.Init_represents, simplified]
  csha512.Write_represents [OF csha512.Init_represents, simplified]
  cripemd160.Write_represents [OF cripemd160.Init_represents, simplified]

lemma CHash256_digest:
  assumes "CSHA256_represents h m"
  shows "snd (CHash256_Finalize h) = sha256_ref (sha256_ref m)"
proof -
  obtain g buf where f: "CSHA256_Finalize h = (g, buf)"
    by (rule prod.exhaust)
  have "buf = sha256_ref m" "CSHA256_represents (CSHA256_Reset g) []"
    using CSHA256_Finalize_digest [OF assms] f by simp_all
  then show ?thesis
    using CSHA256_Finalize_digest(1) [OF csha256.Write_represents, of "CSHA256_Reset g" "[]" buf]
    by (simp add: CHash256_Finalize_def f)
qed

lemma CHash160_digest: "CSHA256_represents h m \<Longrightarrow> snd (CHash160_Finalize h) = ripemd160_ref (sha256_ref m)"
  using CSHA256_Finalize_digest(1) [of h m] CRIPEMD160_Finalize_digest(1) [OF one_write(4)]
  by (cases "CSHA256_Finalize h") (simp add: CHash160_Finalize_def)

subsection \<open>Keyed hashes\<close>

lemma xor_5c_36: "(b XOR 0x5c) XOR 0x6a = b XOR (0x36 :: byte)"
  by (simp add: xor.assoc)

lemma hmac_writes:
  "foldl CHMAC_SHA256_Write h ds = h\<lparr>hm_inner := foldl CSHA256_Write (hm_inner h) ds\<rparr>"
  "foldl CHMAC_SHA512_Write g ds = g\<lparr>hm_inner := foldl CSHA512_Write (hm_inner g) ds\<rparr>"
  by (induction ds arbitrary: h g) (simp_all add: CHMAC_SHA256_Write_def CHMAC_SHA512_Write_def)

lemma hmac_sha256_state:
  fixes key
  defines "k \<equiv> hmac_key sha256_ref 64 key"
  shows "CHMAC_SHA256 key = \<lparr>hm_outer = CSHA256_Write CSHA256 (map (\<lambda>b. b XOR 0x5c) k),
    hm_inner = CSHA256_Write CSHA256 (map (\<lambda>b. b XOR 0x36) k)\<rparr>"
  using CSHA256_Finalize_digest(1) [OF one_write(2), of key] length_digests(2) [OF one_write(2), of key]
  by (simp add: k_def CHMAC_SHA256_def hmac_key_def Let_def comp_def xor_5c_36)

lemma hmac_sha512_state:
  fixes key
  assumes "length key < 2 ^ 61"
  defines "k \<equiv> hmac_key sha512_ref 128 key"
  shows "CHMAC_SHA512 key = \<lparr>hm_outer = CSHA512_Write CSHA512 (map (\<lambda>b. b XOR 0x5c) k),
    hm_inner = CSHA512_Write CSHA512 (map (\<lambda>b. b XOR 0x36) k)\<rparr>"
  using CSHA512_Finalize_digest(1) [OF one_write(3) assms(1)] length_digests(3) [OF one_write(3), of key]
  by (simp add: k_def CHMAC_SHA512_def hmac_key_def Let_def comp_def xor_5c_36)

section \<open>Properties\<close>

text \<open>
  Claim C15.  \<^verbatim>\<open>CSHA256\<close> computes SHA-256 as FIPS 180-4 defines it: after any sequence of writes,
  \<^verbatim>\<open>Finalize\<close> gives the digest of the concatenation of what was written.  The unrolled in-place
  compression function, the direct processing of whole blocks, the buffer and the padding agree
  with the message schedule, the rounds and the padding of the standard, and the constants are
  the fractions of roots of primes that the standard prescribes.
\<close>

theorem sha256_correct:
  "snd (CSHA256_Finalize (foldl CSHA256_Write CSHA256 ds)) = sha256_ref (concat ds)"
  by (rule CSHA256_Finalize_digest(1) [OF csha256.writes_from_Init])

text \<open>
  Claim C22.  \<^verbatim>\<open>CSHA1\<close> and \<^verbatim>\<open>CRIPEMD160\<close> compute SHA-1 and RIPEMD-160 for any sequence of writes, and
  \<^verbatim>\<open>CHash256\<close> and \<^verbatim>\<open>CHash160\<close> the composed hashes of the script language.
\<close>

theorem sha1_ripemd160_correct:
  "snd (CSHA1_Finalize (foldl CSHA1_Write CSHA1 ds)) = sha1_ref (concat ds)
   \<and> snd (CRIPEMD160_Finalize (foldl CRIPEMD160_Write CRIPEMD160 ds)) = ripemd160_ref (concat ds)
   \<and> snd (CHash256_Finalize (foldl CHash256_Write CSHA256 ds)) = sha256_ref (sha256_ref (concat ds))
   \<and> snd (CHash160_Finalize (foldl CHash160_Write CSHA256 ds)) = ripemd160_ref (sha256_ref (concat ds))"
proof -
  have "CHash256_Write = CSHA256_Write" "CHash160_Write = CSHA256_Write"
    by (simp_all add: fun_eq_iff CHash256_Write_def CHash160_Write_def)
  then show ?thesis
    using CSHA1_Finalize_digest(1) [OF csha1.writes_from_Init, of ds]
      CRIPEMD160_Finalize_digest(1) [OF cripemd160.writes_from_Init, of ds]
      CHash256_digest [OF csha256.writes_from_Init, of ds] CHash160_digest [OF csha256.writes_from_Init, of ds]
    by simp
qed

text \<open>
  Claim C20.  The keyed hashes compute HMAC as RFC 2104 defines it, for keys shorter and longer
  than a block and any sequence of writes; SHA-512 for messages whose length in bits fits the
  eight bytes that the code fills.
\<close>

theorem hmac_correct:
  assumes "length key < 2 ^ 61" and "128 + length (concat ds) < 2 ^ 61"
  shows "CHMAC_SHA256_Finalize (foldl CHMAC_SHA256_Write (CHMAC_SHA256 key) ds) = hmac_ref sha256_ref 64 key (concat ds)
    \<and> CHMAC_SHA512_Finalize (foldl CHMAC_SHA512_Write (CHMAC_SHA512 key) ds) = hmac_ref sha512_ref 128 key (concat ds)"
proof -
  define k where "k = hmac_key sha256_ref 64 key"
  define l where "l = hmac_key sha512_ref 128 key"
  have "length (sha512_ref key) = 64"
    using CSHA512_Finalize_digest(1) [OF one_write(3) assms(1)] length_digests(3) [OF one_write(3), of key] by simp
  then have len: "length l = 128"
    by (simp add: l_def hmac_key_def)
  have i: "CSHA256_represents (foldl CSHA256_Write (CSHA256_Write CSHA256 (map (\<lambda>b. b XOR 0x36) k)) ds)
      (map (\<lambda>b. b XOR 0x36) k @ concat ds)"
    "CSHA512_represents (foldl CSHA512_Write (CSHA512_Write CSHA512 (map (\<lambda>b. b XOR 0x36) l)) ds)
      (map (\<lambda>b. b XOR 0x36) l @ concat ds)"
    by (rule csha256.writes_represent csha512.writes_represent; rule one_write)+
  note d = CSHA256_Finalize_digest(1) [OF i(1)] CSHA512_Finalize_digest(1) [OF i(2)] length_digests(3) [OF i(2)]
  have "CHMAC_SHA256_Finalize (foldl CHMAC_SHA256_Write (CHMAC_SHA256 key) ds) = hmac_ref sha256_ref 64 key (concat ds)"
    using d(1) CSHA256_Finalize_digest(1) [OF csha256.Write_represents [OF one_write(2)]]
    by (simp add: hmac_writes hmac_sha256_state CHMAC_SHA256_Finalize_def hmac_ref_def k_def Let_def)
  moreover have "CHMAC_SHA512_Finalize (foldl CHMAC_SHA512_Write (CHMAC_SHA512 key) ds) = hmac_ref sha512_ref 128 key (concat ds)"
    using d(2,3) assms len CSHA512_Finalize_digest(1) [OF csha512.Write_represents [OF one_write(3)]]
    by (simp add: hmac_writes hmac_sha512_state CHMAC_SHA512_Finalize_def hmac_ref_def l_def Let_def)
  ultimately show ?thesis
    by simp
qed

theorem hmac_correct_witness:
  "CHMAC_SHA256_Finalize (foldl CHMAC_SHA256_Write (CHMAC_SHA256 [1, 2, 3]) [[4], [5, 6]]) = hmac_ref sha256_ref 64 [1, 2, 3] [4, 5, 6]
    \<and> CHMAC_SHA512_Finalize (foldl CHMAC_SHA512_Write (CHMAC_SHA512 [1, 2, 3]) [[4], [5, 6]]) = hmac_ref sha512_ref 128 [1, 2, 3] [4, 5, 6]"
  using hmac_correct [of "[1, 2, 3]" "[[4], [5, 6]]"] by simp

end
