(* ===== verification/ScriptNum.thy ===== *)
theory ScriptNum
  imports HashCommon
begin

unbundle bit_operations_syntax

text \<open>
  \<^verbatim>\<open>CScriptNum\<close> of \<^verbatim>\<open>src/src/script/script.h\<close>: the numbers of the script language, little-endian with
  a sign bit in the last byte.  The value is an \<^verbatim>\<open>int64_t\<close>, in the model an integer; where an operation
  would leave the range it is an error of the model: a failed assertion where the code has one, and
  undefined behaviour otherwise.  The magnitude that \<^verbatim>\<open>serialize\<close> writes is a \<^verbatim>\<open>uint64_t\<close>; the negation of
  the least value, which overflows, has the value of wrapped arithmetic, and the theorems leave it out.
\<close>

section \<open>Definitions\<close>

type_synonym valtype = bytes

text \<open>What the code throws, failed assertions, and undefined behaviour.\<close>

datatype cpp_exn = scriptnum_error | out_of_range | runtime_error | assertion_failed | undefined_behaviour

definition nDefaultMaxNumSize :: nat where
  "nDefaultMaxNumSize = 4"

fun set_vch_loop :: "nat \<Rightarrow> int \<Rightarrow> valtype \<Rightarrow> int" where
  "set_vch_loop i result [] = result"
| "set_vch_loop i result (b # bs) = set_vch_loop (i + 1) (result OR push_bit (8 * i) (uint b)) bs"

text \<open>
  The number that the bytes denote, and the method: with more than eight bytes the shift is at least
  the width of the type, which is undefined.
\<close>

definition vch_number :: "valtype \<Rightarrow> int" where
  "vch_number vch =
    (if vch = [] then 0
     else (let result = set_vch_loop 0 0 vch in
       if last vch AND 0x80 \<noteq> 0 then - (result AND NOT (push_bit (8 * (length vch - 1)) 0x80)) else result))"

definition set_vch :: "valtype \<Rightarrow> cpp_exn + int" where
  "set_vch vch = (if length vch > 8 then Inl undefined_behaviour else Inr (vch_number vch))"

definition CScriptNum :: "valtype \<Rightarrow> bool \<Rightarrow> nat \<Rightarrow> cpp_exn + int" where
  "CScriptNum vch fRequireMinimal nMaxNumSize =
    (if length vch > nMaxNumSize then Inl scriptnum_error
     else if fRequireMinimal \<and> length vch > 0 \<and> last vch AND 0x7f = 0
       \<and> (length vch \<le> 1 \<or> vch ! (length vch - 2) AND 0x80 = 0)
     then Inl scriptnum_error
     else set_vch vch)"

function serialize_loop :: "nat \<Rightarrow> bytes" where
  "serialize_loop absvalue = (if absvalue = 0 then [] else of_nat (absvalue AND 0xff) # serialize_loop (drop_bit 8 absvalue))"
  by pat_completeness auto
termination
  by (relation "measure (\<lambda>n. n)") (simp_all add: drop_bit_eq_div)

definition scriptnum_serialize :: "int \<Rightarrow> valtype" where
  "scriptnum_serialize value =
    (if value = 0 then []
     else (let neg = value < 0; absvalue = (of_int (if neg then - value else value) :: u64);
         result = serialize_loop (unat absvalue) in
       if last result AND 0x80 \<noteq> 0 then result @ [if neg then 0x80 else 0]
       else if neg then result[length result - 1 := last result OR 0x80]
       else result))"

definition getint :: "int \<Rightarrow> int" where
  "getint m = (if m > 2 ^ 31 - 1 then 2 ^ 31 - 1 else if m < - (2 ^ 31) then - (2 ^ 31) else m)"

definition scriptnum_neg :: "int \<Rightarrow> cpp_exn + int" where
  "scriptnum_neg m = (if m = - (2 ^ 63) then Inl assertion_failed else Inr (- m))"

definition scriptnum_plus_assign :: "int \<Rightarrow> int \<Rightarrow> cpp_exn + int" where
  "scriptnum_plus_assign m rhs =
    (if rhs = 0 \<or> (rhs > 0 \<and> m \<le> (2 ^ 63 - 1) - rhs) \<or> (rhs < 0 \<and> m \<ge> - (2 ^ 63) - rhs)
     then Inr (m + rhs) else Inl assertion_failed)"

definition scriptnum_minus_assign :: "int \<Rightarrow> int \<Rightarrow> cpp_exn + int" where
  "scriptnum_minus_assign m rhs =
    (if rhs = 0 \<or> (rhs > 0 \<and> m \<ge> - (2 ^ 63) + rhs) \<or> (rhs < 0 \<and> m \<le> (2 ^ 63 - 1) + rhs)
     then Inr (m - rhs) else Inl assertion_failed)"

text \<open>\<^verbatim>\<open>operator+\<close> and \<^verbatim>\<open>operator-\<close>, without assertions.\<close>

definition scriptnum_plus :: "int \<Rightarrow> int \<Rightarrow> cpp_exn + int" where
  "scriptnum_plus m rhs =
    (if - (2 ^ 63) \<le> m + rhs \<and> m + rhs < 2 ^ 63 then Inr (m + rhs) else Inl undefined_behaviour)"

definition scriptnum_minus :: "int \<Rightarrow> int \<Rightarrow> cpp_exn + int" where
  "scriptnum_minus m rhs =
    (if - (2 ^ 63) \<le> m - rhs \<and> m - rhs < 2 ^ 63 then Inr (m - rhs) else Inl undefined_behaviour)"

section \<open>Lemmas\<close>

lemma uint_byte: "0 \<le> uint (b :: byte)" "uint (b :: byte) < 256"
  using unsigned_less [of b, where ?'a = int] by simp_all

lemma set_vch_loop_eq:
  assumes "0 \<le> r" and "r < 256 ^ i"
  shows "set_vch_loop i r bs = r + 256 ^ i * int (le_val bs)"
  using assms
proof (induction bs arbitrary: i r)
  case (Cons b bs)
  have p: "(2 :: int) ^ (8 * i) = 256 ^ i"
    by (simp add: power_mult)
  have r: "take_bit (8 * i) r = r"
    using Cons.prems by (intro take_bit_int_eq_self) (simp_all add: p)
  then have "r OR push_bit (8 * i) (uint b) = concat_bit (8 * i) r (uint b)"
    by (simp add: concat_bit_def r)
  also have "\<dots> = r + 256 ^ i * uint b"
    unfolding concat_bit_eq push_bit_eq_mult p r by (simp add: mult.commute)
  finally have e: "r OR push_bit (8 * i) (uint b) = r + 256 ^ i * uint b" .
  have b: "0 \<le> uint b" "uint b \<le> 255"
    using uint_byte [of b] by simp_all
  have "256 ^ i * uint b \<le> 256 ^ i * (255 :: int)"
    using b by (intro mult_left_mono) simp_all
  then have "r + 256 ^ i * uint b < 256 ^ i * 256"
    using Cons.prems(2) by linarith
  then have "set_vch_loop (i + 1) (r + 256 ^ i * uint b) bs = r + 256 ^ i * uint b + 256 ^ (i + 1) * int (le_val bs)"
    using Cons.prems b by (intro Cons.IH) (simp_all add: mult.commute)
  then show ?case
    by (simp add: e distrib_left)
qed simp

text \<open>The sign bit.\<close>

lemma byte_bit7: "bit (b :: byte) 7 \<longleftrightarrow> 128 \<le> unat b"
proof -
  have "bit b 7 \<longleftrightarrow> bit (unat b) 7"
    by (simp add: bit_unsigned_iff)
  also have "\<dots> \<longleftrightarrow> odd (unat b div 128)"
    by (simp add: bit_iff_odd)
  also have "\<dots> \<longleftrightarrow> 128 \<le> unat b"
  proof (cases "128 \<le> unat b")
    case True
    then have "unat b div 128 = 1"
      using unat_lt_256 [of b] by linarith
    then show ?thesis
      using True by simp
  qed simp
  finally show ?thesis .
qed

lemma byte_and_80: "(b :: byte) AND 0x80 = 0 \<longleftrightarrow> \<not> bit b 7"
proof -
  have p: "bit (0x80 :: byte) n \<longleftrightarrow> n = 7" for n
    using bit_push_bit_iff [of 7 "1 :: byte" n] by (auto simp: bit_1_iff simp del: bit_numeral_simps)
  show ?thesis
  proof
    assume "b AND 0x80 = 0"
    then have "\<not> bit (b AND 0x80) 7"
      by (simp only: bit_0_eq bot_apply bot_bool_def simp_thms)
    then show "\<not> bit b 7"
      using p [of 7] by (simp only: bit_and_iff simp_thms)
  next
    assume "\<not> bit b 7"
    then have "\<not> bit (b AND 0x80) n" for n
      using p [of n] by (auto simp only: bit_and_iff)
    then show "b AND 0x80 = 0"
      by (simp only: bit_eq_iff bit_0_eq bot_apply bot_bool_def simp_thms)
  qed
qed

lemma byte_or_80: "(b :: byte) OR 0x80 = set_bit 7 b"
  by (simp add: set_bit_eq_or)

lemma sign_bit:
  fixes b :: byte
  shows "b AND 0x80 = 0 \<longleftrightarrow> unat b < 128" "unat (b AND 0x7f) = unat b mod 128"
    "unat b < 128 \<Longrightarrow> unat (b OR 0x80) = unat b + 128" "unat b < 128 \<Longrightarrow> b AND 0x7f = b"
    "b AND 0x80 \<noteq> 0 \<Longrightarrow> (b AND 0x7f) OR 0x80 = b"
proof -
  have low: "b AND 0x7f = take_bit 7 b" for b :: byte
    by (simp add: take_bit_eq_mask mask_numeral)
  show u: "unat (b AND 0x7f) = unat b mod 128" for b :: byte
    unfolding low unsigned_take_bit_eq by (simp add: take_bit_eq_mod)
  show "b AND 0x80 = 0 \<longleftrightarrow> unat b < 128"
    by (simp add: byte_and_80 byte_bit7 not_le)
  show o: "unat b < 128 \<Longrightarrow> unat (b OR 0x80) = unat b + 128" for b :: byte
    by (simp add: byte_or_80 set_bit_eq byte_bit7 unat_add_small)
  show "unat b < 128 \<Longrightarrow> b AND 0x7f = b"
    using u [of b] by (simp add: word_unat_eq_iff)
  assume "b AND 0x80 \<noteq> 0"
  then have "128 \<le> unat b"
    by (simp add: byte_and_80 byte_bit7)
  then obtain j where "unat b = 128 + j"
    using le_Suc_ex by blast
  then show "(b AND 0x7f) OR 0x80 = b"
    using o [of "b AND 0x7f"] u [of b] unat_lt_256 [of b] by (simp add: word_unat_eq_iff)
qed

lemma vch_number_snoc:
  "vch_number (bs @ [m]) = (if m AND 0x80 = 0 then 1 else - 1) * int (le_val bs + 256 ^ length bs * unat (m AND 0x7f))"
proof -
  let ?k = "length bs" and ?v = "int (le_val (bs @ [m]))"
  have v: "set_vch_loop 0 0 (bs @ [m]) = ?v"
    using set_vch_loop_eq [of 0 0 "bs @ [m]"] by simp
  have e: "?v = int (le_val bs) + 256 ^ ?k * int (unat m)"
    by (simp add: le_val_append)
  show ?thesis
  proof (cases "m AND 0x80 = 0")
    case True
    then show ?thesis
      using sign_bit(1,4) [of m] v e by (simp add: vch_number_def)
  next
    case False
    then have "128 \<le> unat m"
      using sign_bit(1) [of m] by simp
    then obtain j where j: "unat m = 128 + j"
      using le_Suc_ex by blast
    then have m: "128 \<le> unat m" "unat (m AND 0x7f) = unat m - 128"
      using sign_bit(2) [of m] unat_lt_256 [of m] by simp_all
    have p: "push_bit (8 * ?k) (0x80 :: int) = push_bit (8 * ?k + 7) 1"
      by (simp add: push_bit_eq_mult power_add)
    have "int (le_val bs) < 256 ^ ?k"
      using le_val_less [of bs] by (metis of_nat_less_iff of_nat_numeral of_nat_power)
    then have "?v div 256 ^ ?k = int (unat m)"
      unfolding e by (simp add: div_pos_pos_trivial)
    moreover have q: "(2 :: int) ^ (8 * ?k + 7) = 256 ^ ?k * 128"
      by (simp add: power_add power_mult)
    ultimately have "?v div 2 ^ (8 * ?k + 7) = int (unat m) div 128"
      using zdiv_zmult2_eq [of 128 ?v "256 ^ ?k"] by simp
    moreover have "int (unat m) div 128 = 1"
      using m(1) unat_lt_256 [of m] by linarith
    ultimately have "bit ?v (8 * ?k + 7)"
      by (simp add: bit_iff_odd)
    then have "?v AND NOT (push_bit (8 * ?k) 0x80) = ?v - 2 ^ (8 * ?k + 7)"
      unfolding p unset_bit_int_def [symmetric] unset_bit_eq by simp
    also have "\<dots> = int (le_val bs + 256 ^ ?k * unat (m AND 0x7f))"
      unfolding q e m(2) j by (simp add: algebra_simps)
    finally show ?thesis
      using False v by (simp add: vch_number_def)
  qed
qed

text \<open>The writer.\<close>

declare serialize_loop.simps [simp del]

lemma serialize_loop_0 [simp]: "serialize_loop 0 = []"
  by (simp add: serialize_loop.simps)

lemma serialize_loop_pos:
  "0 < n \<Longrightarrow> serialize_loop n = of_nat (n mod 256) # serialize_loop (n div 256)"
  using take_bit_eq_mask [of 8 n]
  by (subst serialize_loop.simps) (simp add: drop_bit_eq_div mask_eq_exp_minus_1 take_bit_eq_mod)

lemma le_val_serialize_loop: "le_val (serialize_loop n) = n"
proof (induction n rule: less_induct)
  case (less n)
  then show ?case
    by (cases "n = 0") (simp_all add: serialize_loop_pos unat_of_nat)
qed

lemma serialize_loop_le_val:
  assumes "bs \<noteq> []" and "last bs \<noteq> 0"
  shows "serialize_loop (le_val bs) = bs"
  using assms
proof (induction bs)
  case (Cons b bs)
  have m: "(unat b + 256 * le_val bs) mod 256 = unat b" "(unat b + 256 * le_val bs) div 256 = le_val bs"
    using unat_lt_256 [of b] by simp_all
  have "0 < le_val (b # bs)"
    using Cons.prems by (intro le_val_pos)
  then have "serialize_loop (le_val (b # bs)) = b # serialize_loop (le_val bs)"
    using m by (simp add: serialize_loop_pos)
  then show ?case
    using Cons by (cases "bs = []") auto
qed simp

lemma serialize_loop_snoc:
  assumes "0 < n"
  obtains bs m where "serialize_loop n = bs @ [m]" "m \<noteq> 0" "n = le_val bs + 256 ^ length bs * unat m"
proof -
  have "serialize_loop n \<noteq> [] \<and> last (serialize_loop n) \<noteq> 0"
    using assms
  proof (induction n rule: less_induct)
    case (less n)
    show ?case
    proof (cases "n div 256 = 0")
      case True
      then have "n < 256"
        by (simp add: div_eq_0_iff)
      then have "unat (of_nat n :: byte) = n"
        by (simp add: unat_of_nat)
      then show ?thesis
        using True less.prems \<open>n < 256\<close> by (auto simp: serialize_loop_pos)
    next
      case False
      then show ?thesis
        using less by (auto simp: serialize_loop_pos)
    qed
  qed
  then have "serialize_loop n = butlast (serialize_loop n) @ [last (serialize_loop n)]" "last (serialize_loop n) \<noteq> 0"
    by simp_all
  moreover have "n = le_val (butlast (serialize_loop n)) + 256 ^ length (butlast (serialize_loop n)) * unat (last (serialize_loop n))"
    using le_val_serialize_loop [of n] le_val_append [of "butlast (serialize_loop n)" "[last (serialize_loop n)]"] calculation by simp
  ultimately show ?thesis
    by (rule that)
qed

text \<open>The digits of a number, with the sign in the last byte.\<close>

lemma scriptnum_serialize_eq:
  assumes "serialize_loop n = bs @ [m]" and "0 < n" and "n < 2 ^ 64"
  shows "scriptnum_serialize (int n) = (if m AND 0x80 = 0 then bs @ [m] else bs @ [m, 0])"
    "scriptnum_serialize (- int n) = (if m AND 0x80 = 0 then bs @ [m OR 0x80] else bs @ [m, 0x80])"
proof -
  have "unat (of_int (int n) :: u64) = n"
    using assms(3) by (simp add: unsigned_of_nat take_bit_nat_eq_self)
  then show "scriptnum_serialize (int n) = (if m AND 0x80 = 0 then bs @ [m] else bs @ [m, 0])"
    "scriptnum_serialize (- int n) = (if m AND 0x80 = 0 then bs @ [m OR 0x80] else bs @ [m, 0x80])"
    using assms(1,2) by (simp_all add: scriptnum_serialize_def Let_def)
qed

text \<open>A number of the range of the writer, as its magnitude and its sign.\<close>

lemma magnitude:
  assumes "v \<noteq> 0" and "\<bar>v\<bar> < 2 ^ 64"
  obtains n where "v = int n \<or> v = - int n" "0 < n" "n < 2 ^ 64"
  using assms by (cases v rule: int_cases2) auto

lemma vch_number_serialize:
  assumes "\<bar>v\<bar> < 2 ^ 64"
  shows "vch_number (scriptnum_serialize v) = v"
proof (cases "v = 0")
  case True
  then show ?thesis
    by (simp add: scriptnum_serialize_def vch_number_def)
next
  case False
  obtain n where n: "v = int n \<or> v = - int n" "0 < n" "n < 2 ^ 64"
    using False assms by (rule magnitude)
  obtain bs m where b: "serialize_loop n = bs @ [m]" "m \<noteq> 0" "n = le_val bs + 256 ^ length bs * unat m"
    by (rule serialize_loop_snoc [OF n(2)])
  note e = scriptnum_serialize_eq [OF b(1) n(2,3)]
  have "vch_number (scriptnum_serialize (int n)) = int n \<and> vch_number (scriptnum_serialize (- int n)) = - int n"
  proof (cases "m AND 0x80 = 0")
    case True
    then have "(m OR 0x80) AND 0x80 \<noteq> 0" "unat ((m OR 0x80) AND 0x7f) = unat m" "unat (m AND 0x7f) = unat m"
      using sign_bit [of m] sign_bit(1,2) [of "m OR 0x80"] by simp_all
    then show ?thesis
      unfolding e using True by (simp add: vch_number_snoc b(3))
  next
    case False
    have "vch_number (bs @ [m, 0]) = int n" "vch_number (bs @ [m, 0x80]) = - int n"
      using vch_number_snoc [of "bs @ [m]" 0] vch_number_snoc [of "bs @ [m]" "0x80"] by (simp_all add: le_val_append b(3))
    then show ?thesis
      unfolding e using False by simp
  qed
  then show ?thesis
    using n(1) by blast
qed

text \<open>The encodings the constructor accepts when it requires the shortest one.\<close>

definition minimal_vch :: "valtype \<Rightarrow> bool" where
  "minimal_vch vch \<longleftrightarrow>
    \<not> (length vch > 0 \<and> last vch AND 0x7f = 0 \<and> (length vch \<le> 1 \<or> vch ! (length vch - 2) AND 0x80 = 0))"

lemma minimal_vch_simps [simp]:
  "minimal_vch []"
  "minimal_vch [m] \<longleftrightarrow> m AND 0x7f \<noteq> 0"
  "minimal_vch (bs @ [b, m]) \<longleftrightarrow> m AND 0x7f \<noteq> 0 \<or> b AND 0x80 \<noteq> 0"
  by (simp_all add: minimal_vch_def nth_append)

lemma CScriptNum_eq:
  "n \<le> 8 \<Longrightarrow> CScriptNum vch fRequireMinimal n =
    (if length vch \<le> n \<and> (fRequireMinimal \<longrightarrow> minimal_vch vch) then Inr (vch_number vch) else Inl scriptnum_error)"
  by (auto simp: CScriptNum_def minimal_vch_def set_vch_def)

lemma minimal_vch_snoc: "m AND 0x7f \<noteq> 0 \<Longrightarrow> minimal_vch (bs @ [m])"
  by (simp add: minimal_vch_def)

lemma minimal_serialize:
  assumes "\<bar>v\<bar> < 2 ^ 64"
  shows "minimal_vch (scriptnum_serialize v)"
proof (cases "v = 0")
  case False
  obtain n where n: "v = int n \<or> v = - int n" "0 < n" "n < 2 ^ 64"
    using False assms by (rule magnitude)
  obtain bs m where b: "serialize_loop n = bs @ [m]" "m \<noteq> 0"
    by (rule serialize_loop_snoc [OF n(2)])
  have m: "unat m mod 128 = unat m" "unat (m OR 0x80) mod 128 = unat m" if "m AND 0x80 = 0"
    using that sign_bit(1,3) [of m] by simp_all
  have "minimal_vch (bs @ [m])" "minimal_vch (bs @ [m OR 0x80])" if "m AND 0x80 = 0"
    using m [OF that] b(2) sign_bit(2) [of m] sign_bit(2) [of "m OR 0x80"]
    by (auto intro!: minimal_vch_snoc simp: unat_eq_0)
  then show ?thesis
    using n(1) scriptnum_serialize_eq [OF b(1) n(2,3)] by auto
qed (simp add: scriptnum_serialize_def)

lemma le_val_64: "length bs \<le> 8 \<Longrightarrow> le_val bs < 2 ^ 64"
  using le_val_less [of bs] power_increasing [of "length bs" 8 "256 :: nat"] by simp

lemma serialize_vch_number:
  assumes "minimal_vch vch" and "length vch \<le> 8"
  shows "scriptnum_serialize (vch_number vch) = vch"
proof (cases vch rule: rev_cases)
  case Nil
  then show ?thesis
    by (simp add: scriptnum_serialize_def vch_number_def)
next
  case (snoc bs b)
  define m where "m = b AND 0x7f"
  have m: "m AND 0x80 = 0" "unat m < 128"
    using sign_bit(2) [of b] sign_bit(1) [of m] by (simp_all add: m_def)
  have b: "b = (if b AND 0x80 = 0 then m else m OR 0x80)"
    using sign_bit(1,4,5) [of b] by (auto simp: m_def)
  show ?thesis
  proof (cases "m = 0")
    case False
    define n where "n = le_val (bs @ [m])"
    have n: "serialize_loop n = bs @ [m]" "0 < n"
      using False unfolding n_def by (intro serialize_loop_le_val le_val_pos; simp)+
    note e = scriptnum_serialize_eq [OF n le_val_64 [of "bs @ [m]", folded n_def]]
    have "vch_number vch = (if b AND 0x80 = 0 then int n else - int n)"
      unfolding snoc vch_number_snoc by (simp add: n_def m_def le_val_append)
    then show ?thesis
      using e assms(2) m(1) b snoc by (simp split: if_splits)
  next
    case True
    then obtain cs c where c: "bs = cs @ [c]" "c AND 0x80 \<noteq> 0"
      using assms snoc by (cases bs rule: rev_cases) (auto simp: m_def)
    define n where "n = le_val (cs @ [c])"
    have n: "serialize_loop n = cs @ [c]" "0 < n"
      using c(2) unfolding n_def by (intro serialize_loop_le_val le_val_pos; auto)+
    note e = scriptnum_serialize_eq [OF n le_val_64 [of "cs @ [c]", folded n_def]]
    have "vch_number vch = (if b AND 0x80 = 0 then int n else - int n)"
      unfolding snoc vch_number_snoc using True by (simp add: n_def m_def [symmetric] c)
    then show ?thesis
      using e assms(2) c(2) b True snoc c(1) by (simp split: if_splits)
  qed
qed

text \<open>Operands are small, so that the assertions of the arithmetic hold.\<close>

lemma vch_number_bound:
  assumes "length vch \<le> n" and "0 < n"
  shows "\<bar>vch_number vch\<bar> < 128 * 256 ^ (n - 1)"
proof (cases vch rule: rev_cases)
  case (snoc bs b)
  have "\<bar>vch_number vch\<bar> = int (le_val bs + 256 ^ length bs * (unat b mod 128))"
    unfolding snoc vch_number_snoc sign_bit(2) by (simp add: abs_mult)
  also have "le_val bs + 256 ^ length bs * (unat b mod 128) < 256 ^ length bs + 256 ^ length bs * 127"
    using le_val_less [of bs] by (intro add_less_le_mono mult_left_mono) simp_all
  also have "256 ^ length bs + 256 ^ length bs * 127 \<le> (128 * 256 ^ (n - 1) :: nat)"
    using assms snoc power_increasing [of "length bs" "n - 1" "256 :: nat"] by simp
  finally show ?thesis
    by simp
qed (simp add: vch_number_def)

lemma CScriptNum_bound:
  assumes "CScriptNum vch fRequireMinimal n = Inr v" and "0 < n"
  shows "\<bar>v\<bar> < 128 * 256 ^ (n - 1)"
  using assms vch_number_bound [of vch n] by (auto simp: CScriptNum_def set_vch_def split: if_splits)

text \<open>Every number but the least one has an encoding of at most eight bytes.\<close>

lemma length_serialize_8:
  assumes "\<bar>v\<bar> < 2 ^ 63"
  shows "length (scriptnum_serialize v) \<le> 8"
proof (cases "v = 0")
  case False
  have "\<bar>v\<bar> < 2 ^ 64"
    using assms by simp
  with False obtain n where n: "v = int n \<or> v = - int n" "0 < n" "n < 2 ^ 64"
    by (rule magnitude)
  obtain bs m where b: "serialize_loop n = bs @ [m]" "m \<noteq> 0" "n = le_val bs + 256 ^ length bs * unat m"
    by (rule serialize_loop_snoc [OF n(2)])
  have "n < 2 ^ 63"
    using assms n(1) by auto
  then have m: "256 ^ length bs * unat m < (2 :: nat) ^ 63"
    unfolding b(3) by linarith
  have "256 ^ length bs < (256 :: nat) ^ 8"
    using m b(2) by (cases "unat m") (auto simp: unat_eq_0)
  then have l: "length bs < 8"
    by (rule power_less_imp_less_exp [rotated]) simp
  have "length bs < 7" if "m AND 0x80 \<noteq> 0"
  proof -
    have "(256 :: nat) ^ length bs * 128 \<le> 256 ^ length bs * unat m"
      using that sign_bit(1) [of m] by (intro mult_le_mono2) simp
    also note m
    finally have "(256 :: nat) ^ length bs < 256 ^ 7"
      by simp
    then show ?thesis
      by (rule power_less_imp_less_exp [rotated]) simp
  qed
  then show ?thesis
    using scriptnum_serialize_eq [OF b(1) n(2,3)] n(1) l by auto
qed (simp add: scriptnum_serialize_def)

section \<open>Properties\<close>

text \<open>
  Claim C16.  Each number of the range of \<^verbatim>\<open>int64_t\<close> but the least has exactly one encoding that the
  constructor accepts when it requires the shortest form, and that is the one \<^verbatim>\<open>serialize\<close> writes: with
  a limit of at most eight bytes, reading \<open>vch\<close> gives \<open>v\<close> if and only if \<open>vch\<close> is the serialisation of \<open>v\<close> and
  is within the limit; every other byte string is a \<^verbatim>\<open>scriptnum_error\<close>.  What \<^verbatim>\<open>serialize\<close> writes,
  \<^verbatim>\<open>set_vch\<close> reads back.
\<close>

theorem scriptnum_canonical:
  assumes "nMaxNumSize \<le> 8" and "\<bar>v\<bar> < 2 ^ 63"
  shows "(CScriptNum vch True nMaxNumSize = Inr v \<longleftrightarrow> length vch \<le> nMaxNumSize \<and> vch = scriptnum_serialize v)
    \<and> (CScriptNum vch True nMaxNumSize = Inl scriptnum_error
       \<or> (\<exists>w. \<bar>w\<bar> < 2 ^ 63 \<and> CScriptNum vch True nMaxNumSize = Inr w))
    \<and> set_vch (scriptnum_serialize v) = Inr v"
proof -
  have v: "\<bar>v\<bar> < 2 ^ 64"
    using assms(2) by simp
  have "\<bar>vch_number vch\<bar> < 2 ^ 63" if "length vch \<le> nMaxNumSize"
    using vch_number_bound [of vch 8] that assms(1) by simp
  then show ?thesis
    using assms(1) minimal_serialize [OF v] vch_number_serialize [OF v] serialize_vch_number [of vch] length_serialize_8 [OF assms(2)]
    by (auto simp: CScriptNum_eq set_vch_def)
qed

theorem scriptnum_canonical_witness:
  "CScriptNum [0xe8, 0x83] True 4 = Inr (- 1000) \<and> set_vch (scriptnum_serialize (- 1000)) = Inr (- 1000)"
proof -
  have "scriptnum_serialize (- 1000) = [0xe8, 0x83]"
    by code_simp
  then show ?thesis
    using scriptnum_canonical [of 4 "- 1000" "[0xe8, 0x83]"] by simp
qed

end
