(* ===== verification/Script.thy ===== *)
theory Script
  imports ScriptNum
begin

unbundle bit_operations_syntax

text \<open>
  \<^verbatim>\<open>CScript\<close> of \<^verbatim>\<open>src/src/script/script.h\<close> and \<^verbatim>\<open>script.cpp\<close>: the opcodes, the decoder \<^verbatim>\<open>GetOp2\<close>, the push
  encodings of \<^verbatim>\<open>operator<<\<close>, and the queries on whole scripts.  A script is its bytes; an iterator \<^verbatim>\<open>pc\<close>
  is the rest of the script from it on.
\<close>

section \<open>Definitions\<close>

type_synonym CScript = bytes

text \<open>An \<^verbatim>\<open>opcodetype\<close> is any byte that was cast to the enumeration; the enumerators are numbers.\<close>

type_synonym opcodetype = nat

abbreviation (input) OP_0 :: opcodetype where "OP_0 \<equiv> 0x00"
abbreviation (input) OP_FALSE :: opcodetype where "OP_FALSE \<equiv> 0x00"
abbreviation (input) OP_PUSHDATA1 :: opcodetype where "OP_PUSHDATA1 \<equiv> 0x4c"
abbreviation (input) OP_PUSHDATA2 :: opcodetype where "OP_PUSHDATA2 \<equiv> 0x4d"
abbreviation (input) OP_PUSHDATA4 :: opcodetype where "OP_PUSHDATA4 \<equiv> 0x4e"
abbreviation (input) OP_1NEGATE :: opcodetype where "OP_1NEGATE \<equiv> 0x4f"
abbreviation (input) OP_RESERVED :: opcodetype where "OP_RESERVED \<equiv> 0x50"
abbreviation (input) OP_1 :: opcodetype where "OP_1 \<equiv> 0x51"
abbreviation (input) OP_TRUE :: opcodetype where "OP_TRUE \<equiv> 0x51"
abbreviation (input) OP_2 :: opcodetype where "OP_2 \<equiv> 0x52"
abbreviation (input) OP_3 :: opcodetype where "OP_3 \<equiv> 0x53"
abbreviation (input) OP_4 :: opcodetype where "OP_4 \<equiv> 0x54"
abbreviation (input) OP_5 :: opcodetype where "OP_5 \<equiv> 0x55"
abbreviation (input) OP_6 :: opcodetype where "OP_6 \<equiv> 0x56"
abbreviation (input) OP_7 :: opcodetype where "OP_7 \<equiv> 0x57"
abbreviation (input) OP_8 :: opcodetype where "OP_8 \<equiv> 0x58"
abbreviation (input) OP_9 :: opcodetype where "OP_9 \<equiv> 0x59"
abbreviation (input) OP_10 :: opcodetype where "OP_10 \<equiv> 0x5a"
abbreviation (input) OP_11 :: opcodetype where "OP_11 \<equiv> 0x5b"
abbreviation (input) OP_12 :: opcodetype where "OP_12 \<equiv> 0x5c"
abbreviation (input) OP_13 :: opcodetype where "OP_13 \<equiv> 0x5d"
abbreviation (input) OP_14 :: opcodetype where "OP_14 \<equiv> 0x5e"
abbreviation (input) OP_15 :: opcodetype where "OP_15 \<equiv> 0x5f"
abbreviation (input) OP_16 :: opcodetype where "OP_16 \<equiv> 0x60"
abbreviation (input) OP_NOP :: opcodetype where "OP_NOP \<equiv> 0x61"
abbreviation (input) OP_VER :: opcodetype where "OP_VER \<equiv> 0x62"
abbreviation (input) OP_IF :: opcodetype where "OP_IF \<equiv> 0x63"
abbreviation (input) OP_NOTIF :: opcodetype where "OP_NOTIF \<equiv> 0x64"
abbreviation (input) OP_VERIF :: opcodetype where "OP_VERIF \<equiv> 0x65"
abbreviation (input) OP_VERNOTIF :: opcodetype where "OP_VERNOTIF \<equiv> 0x66"
abbreviation (input) OP_ELSE :: opcodetype where "OP_ELSE \<equiv> 0x67"
abbreviation (input) OP_ENDIF :: opcodetype where "OP_ENDIF \<equiv> 0x68"
abbreviation (input) OP_VERIFY :: opcodetype where "OP_VERIFY \<equiv> 0x69"
abbreviation (input) OP_RETURN :: opcodetype where "OP_RETURN \<equiv> 0x6a"
abbreviation (input) OP_TOALTSTACK :: opcodetype where "OP_TOALTSTACK \<equiv> 0x6b"
abbreviation (input) OP_FROMALTSTACK :: opcodetype where "OP_FROMALTSTACK \<equiv> 0x6c"
abbreviation (input) OP_2DROP :: opcodetype where "OP_2DROP \<equiv> 0x6d"
abbreviation (input) OP_2DUP :: opcodetype where "OP_2DUP \<equiv> 0x6e"
abbreviation (input) OP_3DUP :: opcodetype where "OP_3DUP \<equiv> 0x6f"
abbreviation (input) OP_2OVER :: opcodetype where "OP_2OVER \<equiv> 0x70"
abbreviation (input) OP_2ROT :: opcodetype where "OP_2ROT \<equiv> 0x71"
abbreviation (input) OP_2SWAP :: opcodetype where "OP_2SWAP \<equiv> 0x72"
abbreviation (input) OP_IFDUP :: opcodetype where "OP_IFDUP \<equiv> 0x73"
abbreviation (input) OP_DEPTH :: opcodetype where "OP_DEPTH \<equiv> 0x74"
abbreviation (input) OP_DROP :: opcodetype where "OP_DROP \<equiv> 0x75"
abbreviation (input) OP_DUP :: opcodetype where "OP_DUP \<equiv> 0x76"
abbreviation (input) OP_NIP :: opcodetype where "OP_NIP \<equiv> 0x77"
abbreviation (input) OP_OVER :: opcodetype where "OP_OVER \<equiv> 0x78"
abbreviation (input) OP_PICK :: opcodetype where "OP_PICK \<equiv> 0x79"
abbreviation (input) OP_ROLL :: opcodetype where "OP_ROLL \<equiv> 0x7a"
abbreviation (input) OP_ROT :: opcodetype where "OP_ROT \<equiv> 0x7b"
abbreviation (input) OP_SWAP :: opcodetype where "OP_SWAP \<equiv> 0x7c"
abbreviation (input) OP_TUCK :: opcodetype where "OP_TUCK \<equiv> 0x7d"
abbreviation (input) OP_CAT :: opcodetype where "OP_CAT \<equiv> 0x7e"
abbreviation (input) OP_SUBSTR :: opcodetype where "OP_SUBSTR \<equiv> 0x7f"
abbreviation (input) OP_LEFT :: opcodetype where "OP_LEFT \<equiv> 0x80"
abbreviation (input) OP_RIGHT :: opcodetype where "OP_RIGHT \<equiv> 0x81"
abbreviation (input) OP_SIZE :: opcodetype where "OP_SIZE \<equiv> 0x82"
abbreviation (input) OP_INVERT :: opcodetype where "OP_INVERT \<equiv> 0x83"
abbreviation (input) OP_AND :: opcodetype where "OP_AND \<equiv> 0x84"
abbreviation (input) OP_OR :: opcodetype where "OP_OR \<equiv> 0x85"
abbreviation (input) OP_XOR :: opcodetype where "OP_XOR \<equiv> 0x86"
abbreviation (input) OP_EQUAL :: opcodetype where "OP_EQUAL \<equiv> 0x87"
abbreviation (input) OP_EQUALVERIFY :: opcodetype where "OP_EQUALVERIFY \<equiv> 0x88"
abbreviation (input) OP_RESERVED1 :: opcodetype where "OP_RESERVED1 \<equiv> 0x89"
abbreviation (input) OP_RESERVED2 :: opcodetype where "OP_RESERVED2 \<equiv> 0x8a"
abbreviation (input) OP_1ADD :: opcodetype where "OP_1ADD \<equiv> 0x8b"
abbreviation (input) OP_1SUB :: opcodetype where "OP_1SUB \<equiv> 0x8c"
abbreviation (input) OP_2MUL :: opcodetype where "OP_2MUL \<equiv> 0x8d"
abbreviation (input) OP_2DIV :: opcodetype where "OP_2DIV \<equiv> 0x8e"
abbreviation (input) OP_NEGATE :: opcodetype where "OP_NEGATE \<equiv> 0x8f"
abbreviation (input) OP_ABS :: opcodetype where "OP_ABS \<equiv> 0x90"
abbreviation (input) OP_NOT :: opcodetype where "OP_NOT \<equiv> 0x91"
abbreviation (input) OP_0NOTEQUAL :: opcodetype where "OP_0NOTEQUAL \<equiv> 0x92"
abbreviation (input) OP_ADD :: opcodetype where "OP_ADD \<equiv> 0x93"
abbreviation (input) OP_SUB :: opcodetype where "OP_SUB \<equiv> 0x94"
abbreviation (input) OP_MUL :: opcodetype where "OP_MUL \<equiv> 0x95"
abbreviation (input) OP_DIV :: opcodetype where "OP_DIV \<equiv> 0x96"
abbreviation (input) OP_MOD :: opcodetype where "OP_MOD \<equiv> 0x97"
abbreviation (input) OP_LSHIFT :: opcodetype where "OP_LSHIFT \<equiv> 0x98"
abbreviation (input) OP_RSHIFT :: opcodetype where "OP_RSHIFT \<equiv> 0x99"
abbreviation (input) OP_BOOLAND :: opcodetype where "OP_BOOLAND \<equiv> 0x9a"
abbreviation (input) OP_BOOLOR :: opcodetype where "OP_BOOLOR \<equiv> 0x9b"
abbreviation (input) OP_NUMEQUAL :: opcodetype where "OP_NUMEQUAL \<equiv> 0x9c"
abbreviation (input) OP_NUMEQUALVERIFY :: opcodetype where "OP_NUMEQUALVERIFY \<equiv> 0x9d"
abbreviation (input) OP_NUMNOTEQUAL :: opcodetype where "OP_NUMNOTEQUAL \<equiv> 0x9e"
abbreviation (input) OP_LESSTHAN :: opcodetype where "OP_LESSTHAN \<equiv> 0x9f"
abbreviation (input) OP_GREATERTHAN :: opcodetype where "OP_GREATERTHAN \<equiv> 0xa0"
abbreviation (input) OP_LESSTHANOREQUAL :: opcodetype where "OP_LESSTHANOREQUAL \<equiv> 0xa1"
abbreviation (input) OP_GREATERTHANOREQUAL :: opcodetype where "OP_GREATERTHANOREQUAL \<equiv> 0xa2"
abbreviation (input) OP_MIN :: opcodetype where "OP_MIN \<equiv> 0xa3"
abbreviation (input) OP_MAX :: opcodetype where "OP_MAX \<equiv> 0xa4"
abbreviation (input) OP_WITHIN :: opcodetype where "OP_WITHIN \<equiv> 0xa5"
abbreviation (input) OP_RIPEMD160 :: opcodetype where "OP_RIPEMD160 \<equiv> 0xa6"
abbreviation (input) OP_SHA1 :: opcodetype where "OP_SHA1 \<equiv> 0xa7"
abbreviation (input) OP_SHA256 :: opcodetype where "OP_SHA256 \<equiv> 0xa8"
abbreviation (input) OP_HASH160 :: opcodetype where "OP_HASH160 \<equiv> 0xa9"
abbreviation (input) OP_HASH256 :: opcodetype where "OP_HASH256 \<equiv> 0xaa"
abbreviation (input) OP_CODESEPARATOR :: opcodetype where "OP_CODESEPARATOR \<equiv> 0xab"
abbreviation (input) OP_CHECKSIG :: opcodetype where "OP_CHECKSIG \<equiv> 0xac"
abbreviation (input) OP_CHECKSIGVERIFY :: opcodetype where "OP_CHECKSIGVERIFY \<equiv> 0xad"
abbreviation (input) OP_CHECKMULTISIG :: opcodetype where "OP_CHECKMULTISIG \<equiv> 0xae"
abbreviation (input) OP_CHECKMULTISIGVERIFY :: opcodetype where "OP_CHECKMULTISIGVERIFY \<equiv> 0xaf"
abbreviation (input) OP_NOP1 :: opcodetype where "OP_NOP1 \<equiv> 0xb0"
abbreviation (input) OP_CHECKLOCKTIMEVERIFY :: opcodetype where "OP_CHECKLOCKTIMEVERIFY \<equiv> 0xb1"
abbreviation (input) OP_NOP2 :: opcodetype where "OP_NOP2 \<equiv> 0xb1"
abbreviation (input) OP_CHECKSEQUENCEVERIFY :: opcodetype where "OP_CHECKSEQUENCEVERIFY \<equiv> 0xb2"
abbreviation (input) OP_NOP3 :: opcodetype where "OP_NOP3 \<equiv> 0xb2"
abbreviation (input) OP_NOP4 :: opcodetype where "OP_NOP4 \<equiv> 0xb3"
abbreviation (input) OP_NOP5 :: opcodetype where "OP_NOP5 \<equiv> 0xb4"
abbreviation (input) OP_NOP6 :: opcodetype where "OP_NOP6 \<equiv> 0xb5"
abbreviation (input) OP_NOP7 :: opcodetype where "OP_NOP7 \<equiv> 0xb6"
abbreviation (input) OP_NOP8 :: opcodetype where "OP_NOP8 \<equiv> 0xb7"
abbreviation (input) OP_NOP9 :: opcodetype where "OP_NOP9 \<equiv> 0xb8"
abbreviation (input) OP_NOP10 :: opcodetype where "OP_NOP10 \<equiv> 0xb9"
abbreviation (input) OP_SMALLINTEGER :: opcodetype where "OP_SMALLINTEGER \<equiv> 0xfa"
abbreviation (input) OP_PUBKEYS :: opcodetype where "OP_PUBKEYS \<equiv> 0xfb"
abbreviation (input) OP_PUBKEYHASH :: opcodetype where "OP_PUBKEYHASH \<equiv> 0xfd"
abbreviation (input) OP_PUBKEY :: opcodetype where "OP_PUBKEY \<equiv> 0xfe"
abbreviation (input) OP_INVALIDOPCODE :: opcodetype where "OP_INVALIDOPCODE \<equiv> 0xff"

definition MAX_SCRIPT_ELEMENT_SIZE :: nat where
  "MAX_SCRIPT_ELEMENT_SIZE = 520"

definition MAX_OPS_PER_SCRIPT :: int where
  "MAX_OPS_PER_SCRIPT = 201"

definition MAX_PUBKEYS_PER_MULTISIG :: int where
  "MAX_PUBKEYS_PER_MULTISIG = 20"

definition MAX_SCRIPT_SIZE :: nat where
  "MAX_SCRIPT_SIZE = 10000"

definition MAX_STACK_SIZE :: nat where
  "MAX_STACK_SIZE = 1000"

definition LOCKTIME_THRESHOLD :: int where
  "LOCKTIME_THRESHOLD = 500000000"

definition MAX_OPCODE :: opcodetype where
  "MAX_OPCODE = OP_NOP10"

definition GetOpName :: "opcodetype \<Rightarrow> string" where
  "GetOpName opcode =
    (case map_of
      [(OP_0, ''0''), (OP_PUSHDATA1, ''OP_PUSHDATA1''), (OP_PUSHDATA2, ''OP_PUSHDATA2''),
       (OP_PUSHDATA4, ''OP_PUSHDATA4''), (OP_1NEGATE, ''-1''), (OP_RESERVED, ''OP_RESERVED''),
       (OP_1, ''1''), (OP_2, ''2''), (OP_3, ''3''), (OP_4, ''4''), (OP_5, ''5''), (OP_6, ''6''),
       (OP_7, ''7''), (OP_8, ''8''), (OP_9, ''9''), (OP_10, ''10''), (OP_11, ''11''), (OP_12, ''12''),
       (OP_13, ''13''), (OP_14, ''14''), (OP_15, ''15''), (OP_16, ''16''), (OP_NOP, ''OP_NOP''),
       (OP_VER, ''OP_VER''), (OP_IF, ''OP_IF''), (OP_NOTIF, ''OP_NOTIF''), (OP_VERIF, ''OP_VERIF''),
       (OP_VERNOTIF, ''OP_VERNOTIF''), (OP_ELSE, ''OP_ELSE''), (OP_ENDIF, ''OP_ENDIF''),
       (OP_VERIFY, ''OP_VERIFY''), (OP_RETURN, ''OP_RETURN''), (OP_TOALTSTACK, ''OP_TOALTSTACK''),
       (OP_FROMALTSTACK, ''OP_FROMALTSTACK''), (OP_2DROP, ''OP_2DROP''), (OP_2DUP, ''OP_2DUP''),
       (OP_3DUP, ''OP_3DUP''), (OP_2OVER, ''OP_2OVER''), (OP_2ROT, ''OP_2ROT''), (OP_2SWAP, ''OP_2SWAP''),
       (OP_IFDUP, ''OP_IFDUP''), (OP_DEPTH, ''OP_DEPTH''), (OP_DROP, ''OP_DROP''), (OP_DUP, ''OP_DUP''),
       (OP_NIP, ''OP_NIP''), (OP_OVER, ''OP_OVER''), (OP_PICK, ''OP_PICK''), (OP_ROLL, ''OP_ROLL''),
       (OP_ROT, ''OP_ROT''), (OP_SWAP, ''OP_SWAP''), (OP_TUCK, ''OP_TUCK''), (OP_CAT, ''OP_CAT''),
       (OP_SUBSTR, ''OP_SUBSTR''), (OP_LEFT, ''OP_LEFT''), (OP_RIGHT, ''OP_RIGHT''), (OP_SIZE, ''OP_SIZE''),
       (OP_INVERT, ''OP_INVERT''), (OP_AND, ''OP_AND''), (OP_OR, ''OP_OR''), (OP_XOR, ''OP_XOR''),
       (OP_EQUAL, ''OP_EQUAL''), (OP_EQUALVERIFY, ''OP_EQUALVERIFY''), (OP_RESERVED1, ''OP_RESERVED1''),
       (OP_RESERVED2, ''OP_RESERVED2''), (OP_1ADD, ''OP_1ADD''), (OP_1SUB, ''OP_1SUB''),
       (OP_2MUL, ''OP_2MUL''), (OP_2DIV, ''OP_2DIV''), (OP_NEGATE, ''OP_NEGATE''), (OP_ABS, ''OP_ABS''),
       (OP_NOT, ''OP_NOT''), (OP_0NOTEQUAL, ''OP_0NOTEQUAL''), (OP_ADD, ''OP_ADD''), (OP_SUB, ''OP_SUB''),
       (OP_MUL, ''OP_MUL''), (OP_DIV, ''OP_DIV''), (OP_MOD, ''OP_MOD''), (OP_LSHIFT, ''OP_LSHIFT''),
       (OP_RSHIFT, ''OP_RSHIFT''), (OP_BOOLAND, ''OP_BOOLAND''), (OP_BOOLOR, ''OP_BOOLOR''),
       (OP_NUMEQUAL, ''OP_NUMEQUAL''), (OP_NUMEQUALVERIFY, ''OP_NUMEQUALVERIFY''),
       (OP_NUMNOTEQUAL, ''OP_NUMNOTEQUAL''), (OP_LESSTHAN, ''OP_LESSTHAN''),
       (OP_GREATERTHAN, ''OP_GREATERTHAN''), (OP_LESSTHANOREQUAL, ''OP_LESSTHANOREQUAL''),
       (OP_GREATERTHANOREQUAL, ''OP_GREATERTHANOREQUAL''), (OP_MIN, ''OP_MIN''), (OP_MAX, ''OP_MAX''),
       (OP_WITHIN, ''OP_WITHIN''), (OP_RIPEMD160, ''OP_RIPEMD160''), (OP_SHA1, ''OP_SHA1''),
       (OP_SHA256, ''OP_SHA256''), (OP_HASH160, ''OP_HASH160''), (OP_HASH256, ''OP_HASH256''),
       (OP_CODESEPARATOR, ''OP_CODESEPARATOR''), (OP_CHECKSIG, ''OP_CHECKSIG''),
       (OP_CHECKSIGVERIFY, ''OP_CHECKSIGVERIFY''), (OP_CHECKMULTISIG, ''OP_CHECKMULTISIG''),
       (OP_CHECKMULTISIGVERIFY, ''OP_CHECKMULTISIGVERIFY''), (OP_NOP1, ''OP_NOP1''),
       (OP_CHECKLOCKTIMEVERIFY, ''OP_CHECKLOCKTIMEVERIFY''),
       (OP_CHECKSEQUENCEVERIFY, ''OP_CHECKSEQUENCEVERIFY''), (OP_NOP4, ''OP_NOP4''), (OP_NOP5, ''OP_NOP5''),
       (OP_NOP6, ''OP_NOP6''), (OP_NOP7, ''OP_NOP7''), (OP_NOP8, ''OP_NOP8''), (OP_NOP9, ''OP_NOP9''),
       (OP_NOP10, ''OP_NOP10''), (OP_INVALIDOPCODE, ''OP_INVALIDOPCODE'')] opcode of
      Some name \<Rightarrow> name
    | None \<Rightarrow> ''OP_UNKNOWN'')"

subsection \<open>Reading an operation\<close>

text \<open>
  The size operand of a push, with the iterator behind it; \<open>None\<close> if the script ends inside it.
\<close>

definition operand_size :: "opcodetype \<Rightarrow> bytes \<Rightarrow> (nat \<times> bytes) option" where
  "operand_size opcode pc =
    (if opcode < OP_PUSHDATA1 then Some (opcode, pc)
     else if opcode = OP_PUSHDATA1 then (if length pc < 1 then None else Some (unat (hd pc), tl pc))
     else if opcode = OP_PUSHDATA2 then (if length pc < 2 then None else Some (unat (ReadLE16 pc), drop 2 pc))
     else (if length pc < 4 then None else Some (unat (ReadLE32 pc), drop 4 pc)))"

text \<open>The result, \<^verbatim>\<open>opcodeRet\<close>, \<^verbatim>\<open>*pvchRet\<close> and the iterator after the call.\<close>

definition GetOp2 :: "bytes \<Rightarrow> bool \<times> opcodetype \<times> valtype \<times> bytes" where
  "GetOp2 pc =
    (case pc of
      [] \<Rightarrow> (False, OP_INVALIDOPCODE, [], [])
    | b # pc \<Rightarrow>
       (let opcode = unat b in
        if opcode \<le> OP_PUSHDATA4
        then (case operand_size opcode pc of
            None \<Rightarrow> (False, OP_INVALIDOPCODE, [], pc)
          | Some (nSize, pc) \<Rightarrow>
             (if length pc < nSize then (False, OP_INVALIDOPCODE, [], pc)
              else (True, opcode, take nSize pc, drop nSize pc)))
        else (True, opcode, [], pc)))"

lemma GetOp2_shorter:
  assumes "GetOp2 pc = (ok, opcode, vch, pc')" and "pc \<noteq> []"
  shows "length pc' < length pc"
  using assms
  by (auto simp: GetOp2_def operand_size_def Let_def split: list.splits if_splits)

lemma GetOp2_True_shorter: "GetOp2 pc = (True, opcode, vch, pc') \<Longrightarrow> length pc' < length pc"
  using GetOp2_shorter [of pc True opcode vch pc'] by (cases "pc = []") (auto simp: GetOp2_def)

subsection \<open>Writing\<close>

text \<open>\<^verbatim>\<open>operator<<\<close> on data, on an opcode and on an integer.\<close>

definition push_data :: "CScript \<Rightarrow> valtype \<Rightarrow> CScript" where
  "push_data script b =
    (if length b < OP_PUSHDATA1 then script @ [of_nat (length b)]
     else if length b \<le> 0xff then script @ [of_nat OP_PUSHDATA1, of_nat (length b)]
     else if length b \<le> 0xffff then script @ [of_nat OP_PUSHDATA2] @ WriteLE16 (of_nat (length b))
     else script @ [of_nat OP_PUSHDATA4] @ WriteLE32 (of_nat (length b))) @ b"

definition push_opcode :: "CScript \<Rightarrow> opcodetype \<Rightarrow> cpp_exn + CScript" where
  "push_opcode script opcode = (if opcode > 0xff then Inl runtime_error else Inr (script @ [of_nat opcode]))"

definition push_int64 :: "CScript \<Rightarrow> int \<Rightarrow> CScript" where
  "push_int64 script n =
    (if n = -1 \<or> (1 \<le> n \<and> n \<le> 16) then script @ [of_int (n + (int OP_1 - 1))]
     else if n = 0 then script @ [of_nat OP_0]
     else push_data script (scriptnum_serialize n))"

subsection \<open>Small integers\<close>

definition DecodeOP_N :: "opcodetype \<Rightarrow> cpp_exn + nat" where
  "DecodeOP_N opcode =
    (if opcode = OP_0 then Inr 0
     else bindE (guardE (OP_1 \<le> opcode \<and> opcode \<le> OP_16) assertion_failed) (\<lambda>_. Inr (opcode - (OP_1 - 1))))"

definition EncodeOP_N :: "int \<Rightarrow> cpp_exn + opcodetype" where
  "EncodeOP_N n =
    bindE (guardE (0 \<le> n \<and> n \<le> 16) assertion_failed) (\<lambda>_. if n = 0 then Inr OP_0 else Inr (OP_1 + nat n - 1))"

subsection \<open>FindAndDelete\<close>

text \<open>The inner loop, which steps over consecutive occurrences of \<open>b\<close>.\<close>

function skip_matches :: "CScript \<Rightarrow> bytes \<Rightarrow> nat \<Rightarrow> bytes \<times> nat" where
  "skip_matches b pc nFound =
    (if b \<noteq> [] \<and> length b \<le> length pc \<and> take (length b) pc = b
     then skip_matches b (drop (length b) pc) (nFound + 1) else (pc, nFound))"
  by pat_completeness auto
termination
  by (relation "measure (\<lambda>(b, pc, n). length pc)") (auto simp: diff_less Suc_le_eq length_greater_0_conv [symmetric] simp del: length_greater_0_conv)

lemma skip_matches_length: "skip_matches b pc n = (pc', n') \<Longrightarrow> length pc' \<le> length pc"
proof (induction b pc n rule: skip_matches.induct)
  case (1 b pc n)
  then show ?case
    by (subst (asm) (2) skip_matches.simps) (fastforce split: if_splits)
qed

text \<open>
  The outer loop: \<open>result\<close> has what was kept, the bytes between \<open>pc2\<close> and \<open>pc\<close> are kept next.
\<close>

function find_and_delete_loop :: "CScript \<Rightarrow> CScript \<Rightarrow> bytes \<Rightarrow> bytes \<Rightarrow> nat \<Rightarrow> CScript \<times> bytes \<times> nat" where
  "find_and_delete_loop b result pc2 pc nFound =
    (let result = result @ take (length pc2 - length pc) pc2 in
      case skip_matches b pc nFound of (pc, nFound) \<Rightarrow>
        case GetOp2 pc of (ok, opcode, vch, pc') \<Rightarrow>
          if ok then find_and_delete_loop b result pc pc' nFound else (result, pc, nFound))"
  by pat_completeness auto
termination
proof (relation "measure (\<lambda>(b, result, pc2, pc, n). length pc)")
  fix pc pc' b and n n' :: nat and ok opcode vch rest x y z w result pc2 r
  assume "(pc', n') = skip_matches b pc n" "(ok, x) = GetOp2 pc'" "(opcode, y) = x" "(vch, rest) = y" "ok"
  then have "length rest < length pc'" "length pc' \<le> length pc"
    using GetOp2_True_shorter [of pc' opcode vch rest] skip_matches_length [of b pc n pc' n'] by auto
  then show "((b, r, pc', rest, n'), b, result, pc2, pc, n) \<in> measure (\<lambda>(b, result, pc2, pc, n). length pc)"
    by simp
qed simp

definition FindAndDelete :: "CScript \<Rightarrow> CScript \<Rightarrow> nat \<times> CScript" where
  "FindAndDelete script b =
    (if b = [] then (0, script)
     else (case find_and_delete_loop b [] script script 0 of
        (result, pc2, nFound) \<Rightarrow> (nFound, if nFound > 0 then result @ pc2 else script)))"

function Find_loop :: "opcodetype \<Rightarrow> bytes \<Rightarrow> nat \<Rightarrow> nat" where
  "Find_loop opc pc nFound =
    (if pc = [] then nFound
     else (case GetOp2 pc of (ok, opcode, vch, pc') \<Rightarrow>
        if ok then Find_loop opc pc' (if opcode = opc then nFound + 1 else nFound) else nFound))"
  by pat_completeness auto
termination
  by (relation "measure (\<lambda>(opc, pc, n). length pc)") (auto dest: GetOp2_True_shorter [OF sym])

definition Find :: "CScript \<Rightarrow> opcodetype \<Rightarrow> nat" where
  "Find script opc = Find_loop opc script 0"

subsection \<open>Queries\<close>

definition IsPayToScriptHash :: "CScript \<Rightarrow> bool" where
  "IsPayToScriptHash script \<longleftrightarrow>
    length script = 23 \<and> unat (script ! 0) = OP_HASH160 \<and> script ! 1 = 0x14 \<and> unat (script ! 22) = OP_EQUAL"

definition IsPayToWitnessScriptHash :: "CScript \<Rightarrow> bool" where
  "IsPayToWitnessScriptHash script \<longleftrightarrow> length script = 34 \<and> unat (script ! 0) = OP_0 \<and> script ! 1 = 0x20"

text \<open>The result with the output arguments \<^verbatim>\<open>version\<close> and \<^verbatim>\<open>program\<close>.\<close>

definition IsWitnessProgram :: "CScript \<Rightarrow> cpp_exn + (nat \<times> valtype) option" where
  "IsWitnessProgram script =
    (if length script < 4 \<or> length script > 42 then Inr None
     else if unat (script ! 0) \<noteq> OP_0 \<and> (unat (script ! 0) < OP_1 \<or> unat (script ! 0) > OP_16) then Inr None
     else if unat (script ! 1) + 2 = length script
     then bindE (DecodeOP_N (unat (script ! 0))) (\<lambda>version. Inr (Some (version, drop 2 script)))
     else Inr None)"

function sigop_loop :: "bool \<Rightarrow> bytes \<Rightarrow> opcodetype \<Rightarrow> u32 \<Rightarrow> cpp_exn + u32" where
  "sigop_loop fAccurate pc lastOpcode n =
    (if pc = [] then Inr n
     else (case GetOp2 pc of (ok, opcode, vch, pc') \<Rightarrow>
        if \<not> ok then Inr n
        else if opcode = OP_CHECKSIG \<or> opcode = OP_CHECKSIGVERIFY then sigop_loop fAccurate pc' opcode (n + 1)
        else if opcode = OP_CHECKMULTISIG \<or> opcode = OP_CHECKMULTISIGVERIFY
        then (if fAccurate \<and> OP_1 \<le> lastOpcode \<and> lastOpcode \<le> OP_16
              then bindE (DecodeOP_N lastOpcode) (\<lambda>d. sigop_loop fAccurate pc' opcode (n + of_nat d))
              else sigop_loop fAccurate pc' opcode (n + of_int MAX_PUBKEYS_PER_MULTISIG))
        else sigop_loop fAccurate pc' opcode n))"
  by pat_completeness auto
termination
  by (relation "measure (\<lambda>(fA, pc, l, n). length pc)") (auto dest: GetOp2_True_shorter [OF sym])

definition GetSigOpCount :: "CScript \<Rightarrow> bool \<Rightarrow> cpp_exn + u32" where
  "GetSigOpCount script fAccurate = sigop_loop fAccurate script OP_INVALIDOPCODE 0"

text \<open>The data of the last push of a script; \<open>None\<close> for the early returns.\<close>

function last_push :: "bytes \<Rightarrow> valtype \<Rightarrow> valtype option" where
  "last_push pc vData =
    (if pc = [] then Some vData
     else (case GetOp2 pc of (ok, opcode, vch, pc') \<Rightarrow>
        if \<not> ok then None else if opcode > OP_16 then None else last_push pc' vch))"
  by pat_completeness auto
termination
  by (relation "measure (\<lambda>(pc, v). length pc)") (auto dest: GetOp2_True_shorter [OF sym])

definition GetSigOpCount_scriptSig :: "CScript \<Rightarrow> CScript \<Rightarrow> cpp_exn + u32" where
  "GetSigOpCount_scriptSig script scriptSig =
    (if \<not> IsPayToScriptHash script then GetSigOpCount script True
     else (case last_push scriptSig [] of
        None \<Rightarrow> Inr 0
      | Some vData \<Rightarrow> GetSigOpCount vData True))"

function IsPushOnly :: "bytes \<Rightarrow> bool" where
  "IsPushOnly pc =
    (if pc = [] then True
     else (case GetOp2 pc of (ok, opcode, vch, pc') \<Rightarrow>
        if \<not> ok then False else if opcode > OP_16 then False else IsPushOnly pc'))"
  by pat_completeness auto
termination
  by (relation "measure length") (auto dest: GetOp2_True_shorter [OF sym])

function HasValidOps :: "bytes \<Rightarrow> bool" where
  "HasValidOps it =
    (if it = [] then True
     else (case GetOp2 it of (ok, opcode, item, it') \<Rightarrow>
        if \<not> ok \<or> opcode > MAX_OPCODE \<or> length item > MAX_SCRIPT_ELEMENT_SIZE then False else HasValidOps it'))"
  by pat_completeness auto
termination
  by (relation "measure length") (auto dest: GetOp2_True_shorter [OF sym])

definition IsUnspendable :: "CScript \<Rightarrow> bool" where
  "IsUnspendable script \<longleftrightarrow> (length script > 0 \<and> unat (hd script) = OP_RETURN) \<or> length script > MAX_SCRIPT_SIZE"

declare skip_matches.simps [simp del] find_and_delete_loop.simps [simp del] Find_loop.simps [simp del]
  sigop_loop.simps [simp del] last_push.simps [simp del] IsPushOnly.simps [simp del] HasValidOps.simps [simp del]

end
