(* ===== verification/ScriptInterp.thy ===== *)
theory ScriptInterp
  imports Script Hashes
begin

unbundle bit_operations_syntax

text \<open>
  \<^verbatim>\<open>src/src/script/interpreter.cpp\<close> and \<^verbatim>\<open>interpreter.h\<close>: the encodings of signatures and keys, the script
  machine \<^verbatim>\<open>EvalScript\<close> with one definition for each block of its switch, \<^verbatim>\<open>VerifyScript\<close>, witness
  programs and their signature operation counts, and the lock time checks.

  The stack is a list with the top first.  A result \<open>Inl (Fail e)\<close> is the return value \<^verbatim>\<open>false\<close> with \<open>e\<close>
  in \<^verbatim>\<open>*serror\<close>, \<open>Inl (Throw e)\<close> an exception, a failed assertion or undefined behaviour, which the handler of
  \<^verbatim>\<open>EvalScript\<close> does not catch.  The signature checker is an
  argument, as the virtual class \<^verbatim>\<open>BaseSignatureChecker\<close> is; so is \<^verbatim>\<open>CPubKey::CheckLowS\<close>, which calls the
  elliptic curve library.
\<close>

section \<open>Definitions\<close>

datatype ScriptError =
  SCRIPT_ERR_OK
  | SCRIPT_ERR_UNKNOWN_ERROR
  | SCRIPT_ERR_EVAL_FALSE
  | SCRIPT_ERR_OP_RETURN
  | SCRIPT_ERR_SCRIPT_SIZE
  | SCRIPT_ERR_PUSH_SIZE
  | SCRIPT_ERR_OP_COUNT
  | SCRIPT_ERR_STACK_SIZE
  | SCRIPT_ERR_SIG_COUNT
  | SCRIPT_ERR_PUBKEY_COUNT
  | SCRIPT_ERR_VERIFY
  | SCRIPT_ERR_EQUALVERIFY
  | SCRIPT_ERR_CHECKMULTISIGVERIFY
  | SCRIPT_ERR_CHECKSIGVERIFY
  | SCRIPT_ERR_NUMEQUALVERIFY
  | SCRIPT_ERR_BAD_OPCODE
  | SCRIPT_ERR_DISABLED_OPCODE
  | SCRIPT_ERR_INVALID_STACK_OPERATION
  | SCRIPT_ERR_INVALID_ALTSTACK_OPERATION
  | SCRIPT_ERR_UNBALANCED_CONDITIONAL
  | SCRIPT_ERR_NEGATIVE_LOCKTIME
  | SCRIPT_ERR_UNSATISFIED_LOCKTIME
  | SCRIPT_ERR_SIG_HASHTYPE
  | SCRIPT_ERR_SIG_DER
  | SCRIPT_ERR_MINIMALDATA
  | SCRIPT_ERR_SIG_PUSHONLY
  | SCRIPT_ERR_SIG_HIGH_S
  | SCRIPT_ERR_SIG_NULLDUMMY
  | SCRIPT_ERR_PUBKEYTYPE
  | SCRIPT_ERR_CLEANSTACK
  | SCRIPT_ERR_MINIMALIF
  | SCRIPT_ERR_SIG_NULLFAIL
  | SCRIPT_ERR_DISCOURAGE_UPGRADABLE_NOPS
  | SCRIPT_ERR_DISCOURAGE_UPGRADABLE_WITNESS_PROGRAM
  | SCRIPT_ERR_WITNESS_PROGRAM_WRONG_LENGTH
  | SCRIPT_ERR_WITNESS_PROGRAM_WITNESS_EMPTY
  | SCRIPT_ERR_WITNESS_PROGRAM_MISMATCH
  | SCRIPT_ERR_WITNESS_MALLEATED
  | SCRIPT_ERR_WITNESS_MALLEATED_P2SH
  | SCRIPT_ERR_WITNESS_UNEXPECTED
  | SCRIPT_ERR_WITNESS_PUBKEYTYPE

datatype SigVersion = SIGVERSION_BASE | SIGVERSION_WITNESS_V0

subsection \<open>Flags\<close>

definition SCRIPT_VERIFY_P2SH :: u32 where
  "SCRIPT_VERIFY_P2SH = push_bit 0 1"

definition SCRIPT_VERIFY_STRICTENC :: u32 where
  "SCRIPT_VERIFY_STRICTENC = push_bit 1 1"

definition SCRIPT_VERIFY_DERSIG :: u32 where
  "SCRIPT_VERIFY_DERSIG = push_bit 2 1"

definition SCRIPT_VERIFY_LOW_S :: u32 where
  "SCRIPT_VERIFY_LOW_S = push_bit 3 1"

definition SCRIPT_VERIFY_NULLDUMMY :: u32 where
  "SCRIPT_VERIFY_NULLDUMMY = push_bit 4 1"

definition SCRIPT_VERIFY_SIGPUSHONLY :: u32 where
  "SCRIPT_VERIFY_SIGPUSHONLY = push_bit 5 1"

definition SCRIPT_VERIFY_MINIMALDATA :: u32 where
  "SCRIPT_VERIFY_MINIMALDATA = push_bit 6 1"

definition SCRIPT_VERIFY_DISCOURAGE_UPGRADABLE_NOPS :: u32 where
  "SCRIPT_VERIFY_DISCOURAGE_UPGRADABLE_NOPS = push_bit 7 1"

definition SCRIPT_VERIFY_CLEANSTACK :: u32 where
  "SCRIPT_VERIFY_CLEANSTACK = push_bit 8 1"

definition SCRIPT_VERIFY_CHECKLOCKTIMEVERIFY :: u32 where
  "SCRIPT_VERIFY_CHECKLOCKTIMEVERIFY = push_bit 9 1"

definition SCRIPT_VERIFY_CHECKSEQUENCEVERIFY :: u32 where
  "SCRIPT_VERIFY_CHECKSEQUENCEVERIFY = push_bit 10 1"

definition SCRIPT_VERIFY_WITNESS :: u32 where
  "SCRIPT_VERIFY_WITNESS = push_bit 11 1"

definition SCRIPT_VERIFY_DISCOURAGE_UPGRADABLE_WITNESS_PROGRAM :: u32 where
  "SCRIPT_VERIFY_DISCOURAGE_UPGRADABLE_WITNESS_PROGRAM = push_bit 12 1"

definition SCRIPT_VERIFY_MINIMALIF :: u32 where
  "SCRIPT_VERIFY_MINIMALIF = push_bit 13 1"

definition SCRIPT_VERIFY_NULLFAIL :: u32 where
  "SCRIPT_VERIFY_NULLFAIL = push_bit 14 1"

definition SCRIPT_VERIFY_WITNESS_PUBKEYTYPE :: u32 where
  "SCRIPT_VERIFY_WITNESS_PUBKEYTYPE = push_bit 15 1"

text \<open>\<^verbatim>\<open>(flags & f) != 0\<close>.\<close>

definition has_flag :: "u32 \<Rightarrow> u32 \<Rightarrow> bool" where
  "has_flag flags f \<longleftrightarrow> flags AND f \<noteq> 0"

definition SIGHASH_ALL :: byte where
  "SIGHASH_ALL = 1"

definition SIGHASH_SINGLE :: byte where
  "SIGHASH_SINGLE = 3"

definition SIGHASH_ANYONECANPAY :: byte where
  "SIGHASH_ANYONECANPAY = 0x80"

subsection \<open>The machine\<close>

record BaseSignatureChecker =
  CheckSig :: "valtype \<Rightarrow> valtype \<Rightarrow> CScript \<Rightarrow> SigVersion \<Rightarrow> bool"
  CheckLockTime :: "int \<Rightarrow> bool"
  CheckSequence :: "int \<Rightarrow> bool"

record eval_args =
  ea_flags :: u32
  ea_checker :: BaseSignatureChecker
  ea_sigversion :: SigVersion
  ea_CheckLowS :: "bytes \<Rightarrow> bool"

record script_state =
  ss_stack :: "valtype list"
  ss_altstack :: "valtype list"
  ss_vfExec :: "bool list"
  ss_nOpCount :: int
  ss_pc :: bytes
  ss_pbegincodehash :: bytes

datatype script_exit = Fail ScriptError | Throw cpp_exn

type_synonym 'a script_result = "script_exit + 'a"

definition set_error :: "ScriptError \<Rightarrow> 'a script_result" where
  "set_error e = Inl (Fail e)"

definition throwing :: "cpp_exn + 'a \<Rightarrow> 'a script_result" where
  "throwing m = (case m of Inl e \<Rightarrow> Inl (Throw e) | Inr x \<Rightarrow> Inr x)"

definition stacktop :: "valtype list \<Rightarrow> nat \<Rightarrow> valtype script_result" where
  "stacktop stack i = (if 0 < i \<and> i \<le> length stack then Inr (stack ! (i - 1)) else Inl (Throw out_of_range))"

definition popstack :: "valtype list \<Rightarrow> valtype list script_result" where
  "popstack stack = (if stack = [] then Inl (Throw runtime_error) else Inr (tl stack))"

text \<open>\<^verbatim>\<open>swap(stacktop(-i), stacktop(-j))\<close>.\<close>

definition swap_top :: "valtype list \<Rightarrow> nat \<Rightarrow> nat \<Rightarrow> valtype list script_result" where
  "swap_top stack i j =
    bindE (stacktop stack i) (\<lambda>x. bindE (stacktop stack j) (\<lambda>y. Inr (stack[i - 1 := y, j - 1 := x])))"

text \<open>
  \<^verbatim>\<open>stack.erase(stack.end()-i, stack.end()-j)\<close> and \<^verbatim>\<open>stack.insert(stack.end()-i, x)\<close>; an iterator before the
  beginning is undefined behaviour.
\<close>

definition erase_top :: "valtype list \<Rightarrow> nat \<Rightarrow> nat \<Rightarrow> valtype list script_result" where
  "erase_top stack i j =
    (if j \<le> i \<and> i \<le> length stack then Inr (take j stack @ drop i stack) else Inl (Throw undefined_behaviour))"

definition insert_top :: "valtype list \<Rightarrow> nat \<Rightarrow> valtype \<Rightarrow> valtype list script_result" where
  "insert_top stack i x =
    (if i \<le> length stack then Inr (take i stack @ x # drop i stack) else Inl (Throw undefined_behaviour))"

definition vchFalse :: valtype where
  "vchFalse = []"

definition vchTrue :: valtype where
  "vchTrue = [1]"

definition bool_num :: "bool \<Rightarrow> int" where
  "bool_num b = (if b then 1 else 0)"

fun CastToBool :: "valtype \<Rightarrow> bool" where
  "CastToBool [] = False"
| "CastToBool (b # vch) = (if b \<noteq> 0 then \<not> (vch = [] \<and> b = 0x80) else CastToBool vch)"

subsection \<open>Encodings of keys and signatures\<close>

definition IsCompressedOrUncompressedPubKey :: "valtype \<Rightarrow> bool" where
  "IsCompressedOrUncompressedPubKey vchPubKey =
    (if length vchPubKey < 33 then False
     else if vchPubKey ! 0 = 0x04 then length vchPubKey = 65
     else if vchPubKey ! 0 = 0x02 \<or> vchPubKey ! 0 = 0x03 then length vchPubKey = 33
     else False)"

definition IsCompressedPubKey :: "valtype \<Rightarrow> bool" where
  "IsCompressedPubKey vchPubKey =
    (if length vchPubKey \<noteq> 33 then False else vchPubKey ! 0 = 0x02 \<or> vchPubKey ! 0 = 0x03)"

definition IsValidSignatureEncoding :: "valtype \<Rightarrow> bool" where
  "IsValidSignatureEncoding sig =
    (if length sig < 9 then False
     else if length sig > 73 then False
     else if sig ! 0 \<noteq> 0x30 then False
     else if unat (sig ! 1) \<noteq> length sig - 3 then False
     else (let lenR = unat (sig ! 3) in
       if 5 + lenR \<ge> length sig then False
       else (let lenS = unat (sig ! (5 + lenR)) in
         if lenR + lenS + 7 \<noteq> length sig then False
         else if sig ! 2 \<noteq> 0x02 then False
         else if lenR = 0 then False
         else if sig ! 4 AND 0x80 \<noteq> 0 then False
         else if lenR > 1 \<and> sig ! 4 = 0 \<and> \<not> (sig ! 5 AND 0x80 \<noteq> 0) then False
         else if sig ! (lenR + 4) \<noteq> 0x02 then False
         else if lenS = 0 then False
         else if sig ! (lenR + 6) AND 0x80 \<noteq> 0 then False
         else if lenS > 1 \<and> sig ! (lenR + 6) = 0 \<and> \<not> (sig ! (lenR + 7) AND 0x80 \<noteq> 0) then False
         else True)))"

definition IsLowDERSignature :: "(bytes \<Rightarrow> bool) \<Rightarrow> valtype \<Rightarrow> unit script_result" where
  "IsLowDERSignature CheckLowS vchSig =
    (if \<not> IsValidSignatureEncoding vchSig then set_error SCRIPT_ERR_SIG_DER
     else if \<not> CheckLowS (butlast vchSig) then set_error SCRIPT_ERR_SIG_HIGH_S
     else Inr ())"

definition IsDefinedHashtypeSignature :: "valtype \<Rightarrow> bool" where
  "IsDefinedHashtypeSignature vchSig =
    (if length vchSig = 0 then False
     else (let nHashType = last vchSig AND NOT SIGHASH_ANYONECANPAY in
       \<not> (nHashType < SIGHASH_ALL \<or> nHashType > SIGHASH_SINGLE)))"

definition CheckSignatureEncoding :: "(bytes \<Rightarrow> bool) \<Rightarrow> valtype \<Rightarrow> u32 \<Rightarrow> unit script_result" where
  "CheckSignatureEncoding CheckLowS vchSig flags =
    (if length vchSig = 0 then Inr ()
     else if has_flag flags (SCRIPT_VERIFY_DERSIG OR SCRIPT_VERIFY_LOW_S OR SCRIPT_VERIFY_STRICTENC)
       \<and> \<not> IsValidSignatureEncoding vchSig then set_error SCRIPT_ERR_SIG_DER
     else bindE (if has_flag flags SCRIPT_VERIFY_LOW_S then IsLowDERSignature CheckLowS vchSig else Inr ()) (\<lambda>_.
       if has_flag flags SCRIPT_VERIFY_STRICTENC \<and> \<not> IsDefinedHashtypeSignature vchSig
       then set_error SCRIPT_ERR_SIG_HASHTYPE
       else Inr ()))"

definition CheckPubKeyEncoding :: "valtype \<Rightarrow> u32 \<Rightarrow> SigVersion \<Rightarrow> unit script_result" where
  "CheckPubKeyEncoding vchPubKey flags sigversion =
    (if has_flag flags SCRIPT_VERIFY_STRICTENC \<and> \<not> IsCompressedOrUncompressedPubKey vchPubKey
     then set_error SCRIPT_ERR_PUBKEYTYPE
     else if has_flag flags SCRIPT_VERIFY_WITNESS_PUBKEYTYPE \<and> sigversion = SIGVERSION_WITNESS_V0
       \<and> \<not> IsCompressedPubKey vchPubKey
     then set_error SCRIPT_ERR_WITNESS_PUBKEYTYPE
     else Inr ())"

definition CheckMinimalPush :: "valtype \<Rightarrow> opcodetype \<Rightarrow> bool script_result" where
  "CheckMinimalPush data opcode =
    (if \<not> opcode \<le> OP_PUSHDATA4 then Inl (Throw assertion_failed)
     else Inr (
       if length data = 0 then opcode = OP_0
       else if length data = 1 \<and> data ! 0 \<ge> 1 \<and> data ! 0 \<le> 16 then False
       else if length data = 1 \<and> data ! 0 = 0x81 then False
       else if length data \<le> 75 then opcode = length data
       else if length data \<le> 255 then opcode = OP_PUSHDATA1
       else if length data \<le> 65535 then opcode = OP_PUSHDATA2
       else True))"

subsection \<open>Push value and control\<close>

text \<open>\<^verbatim>\<open>CScriptNum(stacktop(-i), fRequireMinimal, nMaxNumSize)\<close>.\<close>

definition num_top :: "eval_args \<Rightarrow> valtype list \<Rightarrow> nat \<Rightarrow> nat \<Rightarrow> int script_result" where
  "num_top ea stack i nMaxNumSize =
    bindE (stacktop stack i) (\<lambda>vch.
      throwing (CScriptNum vch (has_flag (ea_flags ea) SCRIPT_VERIFY_MINIMALDATA) nMaxNumSize))"

type_synonym script_op = "script_state \<Rightarrow> script_state script_result"

definition op_push_value :: "opcodetype \<Rightarrow> script_op" where
  "op_push_value opcode st =
    Inr (st\<lparr>ss_stack := scriptnum_serialize (int opcode - (int OP_1 - 1)) # ss_stack st\<rparr>)"

definition op_checklocktimeverify :: "eval_args \<Rightarrow> script_op" where
  "op_checklocktimeverify ea st =
    (if \<not> has_flag (ea_flags ea) SCRIPT_VERIFY_CHECKLOCKTIMEVERIFY then Inr st
     else if length (ss_stack st) < 1 then set_error SCRIPT_ERR_INVALID_STACK_OPERATION
     else bindE (num_top ea (ss_stack st) 1 5) (\<lambda>nLockTime.
       if nLockTime < 0 then set_error SCRIPT_ERR_NEGATIVE_LOCKTIME
       else if \<not> CheckLockTime (ea_checker ea) nLockTime then set_error SCRIPT_ERR_UNSATISFIED_LOCKTIME
       else Inr st))"

definition SEQUENCE_LOCKTIME_DISABLE_FLAG :: int where
  "SEQUENCE_LOCKTIME_DISABLE_FLAG = 2 ^ 31"

definition op_checksequenceverify :: "eval_args \<Rightarrow> script_op" where
  "op_checksequenceverify ea st =
    (if \<not> has_flag (ea_flags ea) SCRIPT_VERIFY_CHECKSEQUENCEVERIFY then Inr st
     else if length (ss_stack st) < 1 then set_error SCRIPT_ERR_INVALID_STACK_OPERATION
     else bindE (num_top ea (ss_stack st) 1 5) (\<lambda>nSequence.
       if nSequence < 0 then set_error SCRIPT_ERR_NEGATIVE_LOCKTIME
       else if nSequence AND SEQUENCE_LOCKTIME_DISABLE_FLAG \<noteq> 0 then Inr st
       else if \<not> CheckSequence (ea_checker ea) nSequence then set_error SCRIPT_ERR_UNSATISFIED_LOCKTIME
       else Inr st))"

definition op_nop :: "eval_args \<Rightarrow> script_op" where
  "op_nop ea st =
    (if has_flag (ea_flags ea) SCRIPT_VERIFY_DISCOURAGE_UPGRADABLE_NOPS
     then set_error SCRIPT_ERR_DISCOURAGE_UPGRADABLE_NOPS else Inr st)"

definition op_if :: "eval_args \<Rightarrow> opcodetype \<Rightarrow> bool \<Rightarrow> script_op" where
  "op_if ea opcode fExec st =
    (if fExec
     then (if length (ss_stack st) < 1 then set_error SCRIPT_ERR_UNBALANCED_CONDITIONAL
       else bindE (stacktop (ss_stack st) 1) (\<lambda>vch.
         if ea_sigversion ea = SIGVERSION_WITNESS_V0 \<and> has_flag (ea_flags ea) SCRIPT_VERIFY_MINIMALIF
           \<and> (length vch > 1 \<or> (length vch = 1 \<and> vch ! 0 \<noteq> 1))
         then set_error SCRIPT_ERR_MINIMALIF
         else (let fValue = CastToBool vch; fValue = (if opcode = OP_NOTIF then \<not> fValue else fValue) in
           bindE (popstack (ss_stack st)) (\<lambda>stack.
             Inr (st\<lparr>ss_stack := stack, ss_vfExec := fValue # ss_vfExec st\<rparr>)))))
     else Inr (st\<lparr>ss_vfExec := False # ss_vfExec st\<rparr>))"

definition op_else :: script_op where
  "op_else st =
    (case ss_vfExec st of
      [] \<Rightarrow> set_error SCRIPT_ERR_UNBALANCED_CONDITIONAL
    | b # v \<Rightarrow> Inr (st\<lparr>ss_vfExec := (\<not> b) # v\<rparr>))"

definition op_endif :: script_op where
  "op_endif st =
    (case ss_vfExec st of
      [] \<Rightarrow> set_error SCRIPT_ERR_UNBALANCED_CONDITIONAL
    | b # v \<Rightarrow> Inr (st\<lparr>ss_vfExec := v\<rparr>))"

definition op_verify :: script_op where
  "op_verify st =
    (if length (ss_stack st) < 1 then set_error SCRIPT_ERR_INVALID_STACK_OPERATION
     else bindE (stacktop (ss_stack st) 1) (\<lambda>vch.
       if CastToBool vch then bindE (popstack (ss_stack st)) (\<lambda>stack. Inr (st\<lparr>ss_stack := stack\<rparr>))
       else set_error SCRIPT_ERR_VERIFY))"

subsection \<open>Stack operations\<close>

definition need_stack :: "nat \<Rightarrow> script_op \<Rightarrow> script_op" where
  "need_stack n f st = (if length (ss_stack st) < n then set_error SCRIPT_ERR_INVALID_STACK_OPERATION else f st)"

definition op_toaltstack :: script_op where
  "op_toaltstack = need_stack 1 (\<lambda>st.
    bindE (stacktop (ss_stack st) 1) (\<lambda>vch. bindE (popstack (ss_stack st)) (\<lambda>stack.
      Inr (st\<lparr>ss_altstack := vch # ss_altstack st, ss_stack := stack\<rparr>))))"

definition op_fromaltstack :: script_op where
  "op_fromaltstack st =
    (if length (ss_altstack st) < 1 then set_error SCRIPT_ERR_INVALID_ALTSTACK_OPERATION
     else bindE (stacktop (ss_altstack st) 1) (\<lambda>vch. bindE (popstack (ss_altstack st)) (\<lambda>altstack.
       Inr (st\<lparr>ss_stack := vch # ss_stack st, ss_altstack := altstack\<rparr>))))"

definition op_2drop :: script_op where
  "op_2drop = need_stack 2 (\<lambda>st.
    bindE (popstack (ss_stack st)) (\<lambda>stack. bindE (popstack stack) (\<lambda>stack. Inr (st\<lparr>ss_stack := stack\<rparr>))))"

definition op_2dup :: script_op where
  "op_2dup = need_stack 2 (\<lambda>st.
    bindE (stacktop (ss_stack st) 2) (\<lambda>vch1. bindE (stacktop (ss_stack st) 1) (\<lambda>vch2.
      Inr (st\<lparr>ss_stack := vch2 # vch1 # ss_stack st\<rparr>))))"

definition op_3dup :: script_op where
  "op_3dup = need_stack 3 (\<lambda>st.
    bindE (stacktop (ss_stack st) 3) (\<lambda>vch1. bindE (stacktop (ss_stack st) 2) (\<lambda>vch2.
      bindE (stacktop (ss_stack st) 1) (\<lambda>vch3. Inr (st\<lparr>ss_stack := vch3 # vch2 # vch1 # ss_stack st\<rparr>)))))"

definition op_2over :: script_op where
  "op_2over = need_stack 4 (\<lambda>st.
    bindE (stacktop (ss_stack st) 4) (\<lambda>vch1. bindE (stacktop (ss_stack st) 3) (\<lambda>vch2.
      Inr (st\<lparr>ss_stack := vch2 # vch1 # ss_stack st\<rparr>))))"

definition op_2rot :: script_op where
  "op_2rot = need_stack 6 (\<lambda>st.
    bindE (stacktop (ss_stack st) 6) (\<lambda>vch1. bindE (stacktop (ss_stack st) 5) (\<lambda>vch2.
      bindE (erase_top (ss_stack st) 6 4) (\<lambda>stack.
        Inr (st\<lparr>ss_stack := vch2 # vch1 # stack\<rparr>)))))"

definition op_2swap :: script_op where
  "op_2swap = need_stack 4 (\<lambda>st.
    bindE (swap_top (ss_stack st) 4 2) (\<lambda>stack. bindE (swap_top stack 3 1) (\<lambda>stack. Inr (st\<lparr>ss_stack := stack\<rparr>))))"

definition op_ifdup :: script_op where
  "op_ifdup = need_stack 1 (\<lambda>st.
    bindE (stacktop (ss_stack st) 1) (\<lambda>vch.
      if CastToBool vch then Inr (st\<lparr>ss_stack := vch # ss_stack st\<rparr>) else Inr st))"

definition op_depth :: script_op where
  "op_depth st = Inr (st\<lparr>ss_stack := scriptnum_serialize (int (length (ss_stack st))) # ss_stack st\<rparr>)"

definition op_drop :: script_op where
  "op_drop = need_stack 1 (\<lambda>st. bindE (popstack (ss_stack st)) (\<lambda>stack. Inr (st\<lparr>ss_stack := stack\<rparr>)))"

definition op_dup :: script_op where
  "op_dup = need_stack 1 (\<lambda>st.
    bindE (stacktop (ss_stack st) 1) (\<lambda>vch. Inr (st\<lparr>ss_stack := vch # ss_stack st\<rparr>)))"

definition op_nip :: script_op where
  "op_nip = need_stack 2 (\<lambda>st. bindE (erase_top (ss_stack st) 2 1) (\<lambda>stack. Inr (st\<lparr>ss_stack := stack\<rparr>)))"

definition op_over :: script_op where
  "op_over = need_stack 2 (\<lambda>st.
    bindE (stacktop (ss_stack st) 2) (\<lambda>vch. Inr (st\<lparr>ss_stack := vch # ss_stack st\<rparr>)))"

definition op_pick_roll :: "eval_args \<Rightarrow> opcodetype \<Rightarrow> script_op" where
  "op_pick_roll ea opcode = need_stack 2 (\<lambda>st.
    bindE (num_top ea (ss_stack st) 1 nDefaultMaxNumSize) (\<lambda>bn. let n = getint bn in
      bindE (popstack (ss_stack st)) (\<lambda>stack.
        if n < 0 \<or> n \<ge> int (length stack) then set_error SCRIPT_ERR_INVALID_STACK_OPERATION
        else bindE (stacktop stack (nat n + 1)) (\<lambda>vch.
          bindE (if opcode = OP_ROLL then erase_top stack (nat n + 1) (nat n) else Inr stack) (\<lambda>stack.
            Inr (st\<lparr>ss_stack := vch # stack\<rparr>))))))"

definition op_rot :: script_op where
  "op_rot = need_stack 3 (\<lambda>st.
    bindE (swap_top (ss_stack st) 3 2) (\<lambda>stack. bindE (swap_top stack 2 1) (\<lambda>stack. Inr (st\<lparr>ss_stack := stack\<rparr>))))"

definition op_swap :: script_op where
  "op_swap = need_stack 2 (\<lambda>st. bindE (swap_top (ss_stack st) 2 1) (\<lambda>stack. Inr (st\<lparr>ss_stack := stack\<rparr>)))"

definition op_tuck :: script_op where
  "op_tuck = need_stack 2 (\<lambda>st.
    bindE (stacktop (ss_stack st) 1) (\<lambda>vch. bindE (insert_top (ss_stack st) 2 vch) (\<lambda>stack. Inr (st\<lparr>ss_stack := stack\<rparr>))))"

definition op_size :: script_op where
  "op_size = need_stack 1 (\<lambda>st.
    bindE (stacktop (ss_stack st) 1) (\<lambda>vch. Inr (st\<lparr>ss_stack := scriptnum_serialize (int (length vch)) # ss_stack st\<rparr>)))"

subsection \<open>Comparison and arithmetic\<close>

definition op_equal :: "opcodetype \<Rightarrow> script_op" where
  "op_equal opcode = need_stack 2 (\<lambda>st.
    bindE (stacktop (ss_stack st) 2) (\<lambda>vch1. bindE (stacktop (ss_stack st) 1) (\<lambda>vch2.
      let fEqual = (vch1 = vch2) in
      bindE (popstack (ss_stack st)) (\<lambda>stack. bindE (popstack stack) (\<lambda>stack.
        let stack = (if fEqual then vchTrue else vchFalse) # stack in
        if opcode = OP_EQUALVERIFY
        then (if fEqual then bindE (popstack stack) (\<lambda>stack. Inr (st\<lparr>ss_stack := stack\<rparr>))
              else set_error SCRIPT_ERR_EQUALVERIFY)
        else Inr (st\<lparr>ss_stack := stack\<rparr>))))))"

definition unary_num :: "opcodetype \<Rightarrow> int \<Rightarrow> cpp_exn + int" where
  "unary_num opcode bn =
    (if opcode = OP_1ADD then scriptnum_plus_assign bn 1
     else if opcode = OP_1SUB then scriptnum_minus_assign bn 1
     else if opcode = OP_NEGATE then scriptnum_neg bn
     else if opcode = OP_ABS then (if bn < 0 then scriptnum_neg bn else Inr bn)
     else if opcode = OP_NOT then Inr (bool_num (bn = 0))
     else if opcode = OP_0NOTEQUAL then Inr (bool_num (bn \<noteq> 0))
     else Inl assertion_failed)"

definition op_unary :: "eval_args \<Rightarrow> opcodetype \<Rightarrow> script_op" where
  "op_unary ea opcode = need_stack 1 (\<lambda>st.
    bindE (num_top ea (ss_stack st) 1 nDefaultMaxNumSize) (\<lambda>bn.
      bindE (throwing (unary_num opcode bn)) (\<lambda>bn.
        bindE (popstack (ss_stack st)) (\<lambda>stack. Inr (st\<lparr>ss_stack := scriptnum_serialize bn # stack\<rparr>)))))"

definition binary_num :: "opcodetype \<Rightarrow> int \<Rightarrow> int \<Rightarrow> cpp_exn + int" where
  "binary_num opcode bn1 bn2 =
    (if opcode = OP_ADD then scriptnum_plus bn1 bn2
     else if opcode = OP_SUB then scriptnum_minus bn1 bn2
     else if opcode = OP_BOOLAND then Inr (bool_num (bn1 \<noteq> 0 \<and> bn2 \<noteq> 0))
     else if opcode = OP_BOOLOR then Inr (bool_num (bn1 \<noteq> 0 \<or> bn2 \<noteq> 0))
     else if opcode = OP_NUMEQUAL then Inr (bool_num (bn1 = bn2))
     else if opcode = OP_NUMEQUALVERIFY then Inr (bool_num (bn1 = bn2))
     else if opcode = OP_NUMNOTEQUAL then Inr (bool_num (bn1 \<noteq> bn2))
     else if opcode = OP_LESSTHAN then Inr (bool_num (bn1 < bn2))
     else if opcode = OP_GREATERTHAN then Inr (bool_num (bn1 > bn2))
     else if opcode = OP_LESSTHANOREQUAL then Inr (bool_num (bn1 \<le> bn2))
     else if opcode = OP_GREATERTHANOREQUAL then Inr (bool_num (bn1 \<ge> bn2))
     else if opcode = OP_MIN then Inr (if bn1 < bn2 then bn1 else bn2)
     else if opcode = OP_MAX then Inr (if bn1 > bn2 then bn1 else bn2)
     else Inl assertion_failed)"

definition op_binary :: "eval_args \<Rightarrow> opcodetype \<Rightarrow> script_op" where
  "op_binary ea opcode = need_stack 2 (\<lambda>st.
    bindE (num_top ea (ss_stack st) 2 nDefaultMaxNumSize) (\<lambda>bn1.
      bindE (num_top ea (ss_stack st) 1 nDefaultMaxNumSize) (\<lambda>bn2.
        bindE (throwing (binary_num opcode bn1 bn2)) (\<lambda>bn.
          bindE (popstack (ss_stack st)) (\<lambda>stack. bindE (popstack stack) (\<lambda>stack.
            let stack = scriptnum_serialize bn # stack in
            if opcode = OP_NUMEQUALVERIFY
            then bindE (stacktop stack 1) (\<lambda>vch.
              if CastToBool vch then bindE (popstack stack) (\<lambda>stack. Inr (st\<lparr>ss_stack := stack\<rparr>))
              else set_error SCRIPT_ERR_NUMEQUALVERIFY)
            else Inr (st\<lparr>ss_stack := stack\<rparr>)))))))"

definition op_within :: "eval_args \<Rightarrow> script_op" where
  "op_within ea = need_stack 3 (\<lambda>st.
    bindE (num_top ea (ss_stack st) 3 nDefaultMaxNumSize) (\<lambda>bn1.
      bindE (num_top ea (ss_stack st) 2 nDefaultMaxNumSize) (\<lambda>bn2.
        bindE (num_top ea (ss_stack st) 1 nDefaultMaxNumSize) (\<lambda>bn3.
          let fValue = (bn2 \<le> bn1 \<and> bn1 < bn3) in
          bindE (popstack (ss_stack st)) (\<lambda>stack. bindE (popstack stack) (\<lambda>stack. bindE (popstack stack) (\<lambda>stack.
            Inr (st\<lparr>ss_stack := (if fValue then vchTrue else vchFalse) # stack\<rparr>))))))))"

subsection \<open>Cryptography\<close>

definition script_hash :: "opcodetype \<Rightarrow> valtype \<Rightarrow> valtype" where
  "script_hash opcode vch =
    (if opcode = OP_RIPEMD160 then snd (CRIPEMD160_Finalize (CRIPEMD160_Write CRIPEMD160 vch))
     else if opcode = OP_SHA1 then snd (CSHA1_Finalize (CSHA1_Write CSHA1 vch))
     else if opcode = OP_SHA256 then snd (CSHA256_Finalize (CSHA256_Write CSHA256 vch))
     else if opcode = OP_HASH160 then snd (CHash160_Finalize (CHash160_Write CSHA256 vch))
     else if opcode = OP_HASH256 then snd (CHash256_Finalize (CHash256_Write CSHA256 vch))
     else replicate 32 0)"

definition op_hash :: "opcodetype \<Rightarrow> script_op" where
  "op_hash opcode = need_stack 1 (\<lambda>st.
    bindE (stacktop (ss_stack st) 1) (\<lambda>vch.
      let vchHash = script_hash opcode vch in
      bindE (popstack (ss_stack st)) (\<lambda>stack. Inr (st\<lparr>ss_stack := vchHash # stack\<rparr>))))"

definition op_codeseparator :: script_op where
  "op_codeseparator st = Inr (st\<lparr>ss_pbegincodehash := ss_pc st\<rparr>)"

text \<open>\<^verbatim>\<open>CScript(pbegincodehash, pend)\<close> without a signature, in scripts before segregated witness.\<close>

definition drop_signature :: "eval_args \<Rightarrow> CScript \<Rightarrow> valtype \<Rightarrow> CScript" where
  "drop_signature ea scriptCode vchSig =
    (if ea_sigversion ea = SIGVERSION_BASE then snd (FindAndDelete scriptCode (push_data [] vchSig)) else scriptCode)"

definition check_encodings :: "eval_args \<Rightarrow> valtype \<Rightarrow> valtype \<Rightarrow> unit script_result" where
  "check_encodings ea vchSig vchPubKey =
    bindE (CheckSignatureEncoding (ea_CheckLowS ea) vchSig (ea_flags ea)) (\<lambda>_.
      CheckPubKeyEncoding vchPubKey (ea_flags ea) (ea_sigversion ea))"

definition op_checksig :: "eval_args \<Rightarrow> opcodetype \<Rightarrow> script_op" where
  "op_checksig ea opcode = need_stack 2 (\<lambda>st.
    bindE (stacktop (ss_stack st) 2) (\<lambda>vchSig. bindE (stacktop (ss_stack st) 1) (\<lambda>vchPubKey.
      let scriptCode = drop_signature ea (ss_pbegincodehash st) vchSig in
      bindE (check_encodings ea vchSig vchPubKey) (\<lambda>_.
        let fSuccess = CheckSig (ea_checker ea) vchSig vchPubKey scriptCode (ea_sigversion ea) in
        if \<not> fSuccess \<and> has_flag (ea_flags ea) SCRIPT_VERIFY_NULLFAIL \<and> length vchSig \<noteq> 0
        then set_error SCRIPT_ERR_SIG_NULLFAIL
        else bindE (popstack (ss_stack st)) (\<lambda>stack. bindE (popstack stack) (\<lambda>stack.
          let stack = (if fSuccess then vchTrue else vchFalse) # stack in
          if opcode = OP_CHECKSIGVERIFY
          then (if fSuccess then bindE (popstack stack) (\<lambda>stack. Inr (st\<lparr>ss_stack := stack\<rparr>))
                else set_error SCRIPT_ERR_CHECKSIGVERIFY)
          else Inr (st\<lparr>ss_stack := stack\<rparr>)))))))"

text \<open>The loops of \<^verbatim>\<open>OP_CHECKMULTISIG\<close>.  \<open>isig\<close> and \<open>ikey\<close> are positions from the top of the stack.\<close>

primrec multisig_drop :: "eval_args \<Rightarrow> valtype list \<Rightarrow> nat \<Rightarrow> nat \<Rightarrow> CScript \<Rightarrow> CScript script_result" where
  "multisig_drop ea stack isig 0 scriptCode = Inr scriptCode"
| "multisig_drop ea stack isig (Suc n) scriptCode =
    bindE (stacktop stack isig) (\<lambda>vchSig. multisig_drop ea stack (isig + 1) n (drop_signature ea scriptCode vchSig))"

function multisig_loop ::
  "eval_args \<Rightarrow> valtype list \<Rightarrow> CScript \<Rightarrow> nat \<Rightarrow> nat \<Rightarrow> int \<Rightarrow> int \<Rightarrow> bool script_result" where
  "multisig_loop ea stack scriptCode isig ikey nSigsCount nKeysCount =
    (if nSigsCount > 0
     then bindE (stacktop stack isig) (\<lambda>vchSig. bindE (stacktop stack ikey) (\<lambda>vchPubKey.
       bindE (check_encodings ea vchSig vchPubKey) (\<lambda>_.
         let fOk = CheckSig (ea_checker ea) vchSig vchPubKey scriptCode (ea_sigversion ea);
             isig' = (if fOk then isig + 1 else isig);
             nSigsCount' = (if fOk then nSigsCount - 1 else nSigsCount);
             ikey' = ikey + 1;
             nKeysCount' = nKeysCount - 1
         in if nSigsCount' > nKeysCount' then Inr False
            else multisig_loop ea stack scriptCode isig' ikey' nSigsCount' nKeysCount')))
     else Inr True)"
  by pat_completeness auto
termination
  by (relation "measure (\<lambda>(ea, stack, c, isig, ikey, nS, nK). nat nK)") (auto split: if_splits)

fun multisig_cleanup :: "eval_args \<Rightarrow> bool \<Rightarrow> nat \<Rightarrow> nat \<Rightarrow> valtype list \<Rightarrow> valtype list script_result" where
  "multisig_cleanup ea fSuccess i ikey2 stack =
    (if i > 1
     then bindE (if \<not> fSuccess \<and> has_flag (ea_flags ea) SCRIPT_VERIFY_NULLFAIL \<and> ikey2 = 0
           then bindE (stacktop stack 1) (\<lambda>vch.
             if length vch \<noteq> 0 then set_error SCRIPT_ERR_SIG_NULLFAIL else Inr ())
           else Inr ()) (\<lambda>_.
         bindE (popstack stack) (\<lambda>stack.
           multisig_cleanup ea fSuccess (i - 1) (if ikey2 > 0 then ikey2 - 1 else ikey2) stack))
     else Inr stack)"

declare multisig_loop.simps [simp del] multisig_cleanup.simps [simp del]

text \<open>From the check of the dummy argument to the end of the block.\<close>

definition multisig_finish :: "eval_args \<Rightarrow> opcodetype \<Rightarrow> bool \<Rightarrow> script_state \<Rightarrow> valtype list \<Rightarrow> script_state script_result" where
  "multisig_finish ea opcode fSuccess st stack =
    (if length stack < 1 then set_error SCRIPT_ERR_INVALID_STACK_OPERATION
     else bindE (stacktop stack 1) (\<lambda>vch.
       if has_flag (ea_flags ea) SCRIPT_VERIFY_NULLDUMMY \<and> length vch \<noteq> 0 then set_error SCRIPT_ERR_SIG_NULLDUMMY
       else bindE (popstack stack) (\<lambda>stack.
         let stack = (if fSuccess then vchTrue else vchFalse) # stack in
         if opcode = OP_CHECKMULTISIGVERIFY
         then (if fSuccess then bindE (popstack stack) (\<lambda>stack. Inr (st\<lparr>ss_stack := stack\<rparr>))
               else set_error SCRIPT_ERR_CHECKMULTISIGVERIFY)
         else Inr (st\<lparr>ss_stack := stack\<rparr>))))"

definition op_checkmultisig :: "eval_args \<Rightarrow> opcodetype \<Rightarrow> script_op" where
  "op_checkmultisig ea opcode st =
    (let stack = ss_stack st; i = 1 in
     if length stack < i then set_error SCRIPT_ERR_INVALID_STACK_OPERATION
     else bindE (num_top ea stack i nDefaultMaxNumSize) (\<lambda>bn. let nKeysCount = getint bn in
       if nKeysCount < 0 \<or> nKeysCount > MAX_PUBKEYS_PER_MULTISIG then set_error SCRIPT_ERR_PUBKEY_COUNT
       else (let st = st\<lparr>ss_nOpCount := ss_nOpCount st + nKeysCount\<rparr> in
       if ss_nOpCount st > MAX_OPS_PER_SCRIPT then set_error SCRIPT_ERR_OP_COUNT
       else (let i = i + 1; ikey = i; ikey2 = nat nKeysCount + 2; i = i + nat nKeysCount in
       if length stack < i then set_error SCRIPT_ERR_INVALID_STACK_OPERATION
       else bindE (num_top ea stack i nDefaultMaxNumSize) (\<lambda>bn. let nSigsCount = getint bn in
         if nSigsCount < 0 \<or> nSigsCount > nKeysCount then set_error SCRIPT_ERR_SIG_COUNT
         else (let i = i + 1; isig = i; i = i + nat nSigsCount in
         if length stack < i then set_error SCRIPT_ERR_INVALID_STACK_OPERATION
         else bindE (multisig_drop ea stack isig (nat nSigsCount) (ss_pbegincodehash st)) (\<lambda>scriptCode.
           bindE (multisig_loop ea stack scriptCode isig ikey nSigsCount nKeysCount) (\<lambda>fSuccess.
             bindE (multisig_cleanup ea fSuccess i ikey2 stack) (\<lambda>stack.
               multisig_finish ea opcode fSuccess st stack)))))))))"

subsection \<open>EvalScript\<close>

definition disabled_opcode :: "opcodetype \<Rightarrow> bool" where
  "disabled_opcode opcode \<longleftrightarrow>
    opcode \<in> {OP_CAT, OP_SUBSTR, OP_LEFT, OP_RIGHT, OP_INVERT, OP_AND, OP_OR, OP_XOR, OP_2MUL, OP_2DIV,
      OP_MUL, OP_DIV, OP_MOD, OP_LSHIFT, OP_RSHIFT}"

text \<open>The switch.\<close>

definition eval_case :: "eval_args \<Rightarrow> opcodetype \<Rightarrow> bool \<Rightarrow> script_op" where
  "eval_case ea opcode fExec =
    (if opcode = OP_1NEGATE \<or> (OP_1 \<le> opcode \<and> opcode \<le> OP_16) then op_push_value opcode
     else if opcode = OP_NOP then Inr
     else if opcode = OP_CHECKLOCKTIMEVERIFY then op_checklocktimeverify ea
     else if opcode = OP_CHECKSEQUENCEVERIFY then op_checksequenceverify ea
     else if opcode \<in> {OP_NOP1, OP_NOP4, OP_NOP5, OP_NOP6, OP_NOP7, OP_NOP8, OP_NOP9, OP_NOP10} then op_nop ea
     else if opcode = OP_IF \<or> opcode = OP_NOTIF then op_if ea opcode fExec
     else if opcode = OP_ELSE then op_else
     else if opcode = OP_ENDIF then op_endif
     else if opcode = OP_VERIFY then op_verify
     else if opcode = OP_RETURN then (\<lambda>st. set_error SCRIPT_ERR_OP_RETURN)
     else if opcode = OP_TOALTSTACK then op_toaltstack
     else if opcode = OP_FROMALTSTACK then op_fromaltstack
     else if opcode = OP_2DROP then op_2drop
     else if opcode = OP_2DUP then op_2dup
     else if opcode = OP_3DUP then op_3dup
     else if opcode = OP_2OVER then op_2over
     else if opcode = OP_2ROT then op_2rot
     else if opcode = OP_2SWAP then op_2swap
     else if opcode = OP_IFDUP then op_ifdup
     else if opcode = OP_DEPTH then op_depth
     else if opcode = OP_DROP then op_drop
     else if opcode = OP_DUP then op_dup
     else if opcode = OP_NIP then op_nip
     else if opcode = OP_OVER then op_over
     else if opcode = OP_PICK \<or> opcode = OP_ROLL then op_pick_roll ea opcode
     else if opcode = OP_ROT then op_rot
     else if opcode = OP_SWAP then op_swap
     else if opcode = OP_TUCK then op_tuck
     else if opcode = OP_SIZE then op_size
     else if opcode = OP_EQUAL \<or> opcode = OP_EQUALVERIFY then op_equal opcode
     else if opcode \<in> {OP_1ADD, OP_1SUB, OP_NEGATE, OP_ABS, OP_NOT, OP_0NOTEQUAL} then op_unary ea opcode
     else if opcode \<in> {OP_ADD, OP_SUB, OP_BOOLAND, OP_BOOLOR, OP_NUMEQUAL, OP_NUMEQUALVERIFY, OP_NUMNOTEQUAL,
         OP_LESSTHAN, OP_GREATERTHAN, OP_LESSTHANOREQUAL, OP_GREATERTHANOREQUAL, OP_MIN, OP_MAX}
       then op_binary ea opcode
     else if opcode = OP_WITHIN then op_within ea
     else if opcode \<in> {OP_RIPEMD160, OP_SHA1, OP_SHA256, OP_HASH160, OP_HASH256} then op_hash opcode
     else if opcode = OP_CODESEPARATOR then op_codeseparator
     else if opcode = OP_CHECKSIG \<or> opcode = OP_CHECKSIGVERIFY then op_checksig ea opcode
     else if opcode = OP_CHECKMULTISIG \<or> opcode = OP_CHECKMULTISIGVERIFY then op_checkmultisig ea opcode
     else (\<lambda>st. set_error SCRIPT_ERR_BAD_OPCODE))"

text \<open>The push of an immediate operand, and the choice between it, the switch and nothing.\<close>

definition eval_push :: "eval_args \<Rightarrow> opcodetype \<Rightarrow> valtype \<Rightarrow> script_op" where
  "eval_push ea opcode vchPushValue st =
    bindE (if has_flag (ea_flags ea) SCRIPT_VERIFY_MINIMALDATA then CheckMinimalPush vchPushValue opcode else Inr True)
      (\<lambda>ok. if \<not> ok then set_error SCRIPT_ERR_MINIMALDATA else Inr (st\<lparr>ss_stack := vchPushValue # ss_stack st\<rparr>))"

definition eval_opcode :: "eval_args \<Rightarrow> opcodetype \<Rightarrow> valtype \<Rightarrow> bool \<Rightarrow> script_op" where
  "eval_opcode ea opcode vchPushValue fExec st =
    (if fExec \<and> opcode \<le> OP_PUSHDATA4 then eval_push ea opcode vchPushValue st
     else if fExec \<or> (OP_IF \<le> opcode \<and> opcode \<le> OP_ENDIF) then eval_case ea opcode fExec st
     else Inr st)"

text \<open>One iteration of the loop, after the operation was read and the iterator moved.\<close>

definition eval_step :: "eval_args \<Rightarrow> opcodetype \<Rightarrow> valtype \<Rightarrow> script_op" where
  "eval_step ea opcode vchPushValue st =
    (let fExec = (False \<notin> set (ss_vfExec st)) in
     if length vchPushValue > MAX_SCRIPT_ELEMENT_SIZE then set_error SCRIPT_ERR_PUSH_SIZE
     else (let st = (if opcode > OP_16 then st\<lparr>ss_nOpCount := ss_nOpCount st + 1\<rparr> else st) in
       if opcode > OP_16 \<and> ss_nOpCount st > MAX_OPS_PER_SCRIPT then set_error SCRIPT_ERR_OP_COUNT
       else if disabled_opcode opcode then set_error SCRIPT_ERR_DISABLED_OPCODE
       else bindE (eval_opcode ea opcode vchPushValue fExec st) (\<lambda>st.
         if length (ss_stack st) + length (ss_altstack st) > MAX_STACK_SIZE then set_error SCRIPT_ERR_STACK_SIZE
         else Inr st)))"

text \<open>No operation moves the iterator.\<close>

named_theorems script_pc \<open>operations that keep the iterator\<close>

lemma op_push_value_pc [script_pc]: "op_push_value opcode st = Inr st' \<Longrightarrow> ss_pc st' = ss_pc st"
  by (auto simp: op_push_value_def need_stack_def set_error_def bindE_eq_Inr Let_def split: if_splits list.splits)

lemma op_checklocktimeverify_pc [script_pc]: "op_checklocktimeverify ea st = Inr st' \<Longrightarrow> ss_pc st' = ss_pc st"
  by (auto simp: op_checklocktimeverify_def need_stack_def set_error_def bindE_eq_Inr Let_def split: if_splits list.splits)

lemma op_checksequenceverify_pc [script_pc]: "op_checksequenceverify ea st = Inr st' \<Longrightarrow> ss_pc st' = ss_pc st"
  by (auto simp: op_checksequenceverify_def need_stack_def set_error_def bindE_eq_Inr Let_def split: if_splits list.splits)

lemma op_nop_pc [script_pc]: "op_nop ea st = Inr st' \<Longrightarrow> ss_pc st' = ss_pc st"
  by (auto simp: op_nop_def need_stack_def set_error_def bindE_eq_Inr Let_def split: if_splits list.splits)

lemma op_if_pc [script_pc]: "op_if ea opcode fExec st = Inr st' \<Longrightarrow> ss_pc st' = ss_pc st"
  by (auto simp: op_if_def need_stack_def set_error_def bindE_eq_Inr Let_def split: if_splits list.splits)

lemma op_else_pc [script_pc]: "op_else st = Inr st' \<Longrightarrow> ss_pc st' = ss_pc st"
  by (auto simp: op_else_def need_stack_def set_error_def bindE_eq_Inr Let_def split: if_splits list.splits)

lemma op_endif_pc [script_pc]: "op_endif st = Inr st' \<Longrightarrow> ss_pc st' = ss_pc st"
  by (auto simp: op_endif_def need_stack_def set_error_def bindE_eq_Inr Let_def split: if_splits list.splits)

lemma op_verify_pc [script_pc]: "op_verify st = Inr st' \<Longrightarrow> ss_pc st' = ss_pc st"
  by (auto simp: op_verify_def need_stack_def set_error_def bindE_eq_Inr Let_def split: if_splits list.splits)

lemma op_toaltstack_pc [script_pc]: "op_toaltstack st = Inr st' \<Longrightarrow> ss_pc st' = ss_pc st"
  by (auto simp: op_toaltstack_def need_stack_def set_error_def bindE_eq_Inr Let_def split: if_splits list.splits)

lemma op_fromaltstack_pc [script_pc]: "op_fromaltstack st = Inr st' \<Longrightarrow> ss_pc st' = ss_pc st"
  by (auto simp: op_fromaltstack_def need_stack_def set_error_def bindE_eq_Inr Let_def split: if_splits list.splits)

lemma op_2drop_pc [script_pc]: "op_2drop st = Inr st' \<Longrightarrow> ss_pc st' = ss_pc st"
  by (auto simp: op_2drop_def need_stack_def set_error_def bindE_eq_Inr Let_def split: if_splits list.splits)

lemma op_2dup_pc [script_pc]: "op_2dup st = Inr st' \<Longrightarrow> ss_pc st' = ss_pc st"
  by (auto simp: op_2dup_def need_stack_def set_error_def bindE_eq_Inr Let_def split: if_splits list.splits)

lemma op_3dup_pc [script_pc]: "op_3dup st = Inr st' \<Longrightarrow> ss_pc st' = ss_pc st"
  by (auto simp: op_3dup_def need_stack_def set_error_def bindE_eq_Inr Let_def split: if_splits list.splits)

lemma op_2over_pc [script_pc]: "op_2over st = Inr st' \<Longrightarrow> ss_pc st' = ss_pc st"
  by (auto simp: op_2over_def need_stack_def set_error_def bindE_eq_Inr Let_def split: if_splits list.splits)

lemma op_2rot_pc [script_pc]: "op_2rot st = Inr st' \<Longrightarrow> ss_pc st' = ss_pc st"
  by (auto simp: op_2rot_def need_stack_def set_error_def bindE_eq_Inr Let_def split: if_splits list.splits)

lemma op_2swap_pc [script_pc]: "op_2swap st = Inr st' \<Longrightarrow> ss_pc st' = ss_pc st"
  by (auto simp: op_2swap_def need_stack_def set_error_def bindE_eq_Inr Let_def split: if_splits list.splits)

lemma op_ifdup_pc [script_pc]: "op_ifdup st = Inr st' \<Longrightarrow> ss_pc st' = ss_pc st"
  by (auto simp: op_ifdup_def need_stack_def set_error_def bindE_eq_Inr Let_def split: if_splits list.splits)

lemma op_depth_pc [script_pc]: "op_depth st = Inr st' \<Longrightarrow> ss_pc st' = ss_pc st"
  by (auto simp: op_depth_def need_stack_def set_error_def bindE_eq_Inr Let_def split: if_splits list.splits)

lemma op_drop_pc [script_pc]: "op_drop st = Inr st' \<Longrightarrow> ss_pc st' = ss_pc st"
  by (auto simp: op_drop_def need_stack_def set_error_def bindE_eq_Inr Let_def split: if_splits list.splits)

lemma op_dup_pc [script_pc]: "op_dup st = Inr st' \<Longrightarrow> ss_pc st' = ss_pc st"
  by (auto simp: op_dup_def need_stack_def set_error_def bindE_eq_Inr Let_def split: if_splits list.splits)

lemma op_nip_pc [script_pc]: "op_nip st = Inr st' \<Longrightarrow> ss_pc st' = ss_pc st"
  by (auto simp: op_nip_def need_stack_def set_error_def bindE_eq_Inr Let_def split: if_splits list.splits)

lemma op_over_pc [script_pc]: "op_over st = Inr st' \<Longrightarrow> ss_pc st' = ss_pc st"
  by (auto simp: op_over_def need_stack_def set_error_def bindE_eq_Inr Let_def split: if_splits list.splits)

lemma op_pick_roll_pc [script_pc]: "op_pick_roll ea opcode st = Inr st' \<Longrightarrow> ss_pc st' = ss_pc st"
  by (auto simp: op_pick_roll_def need_stack_def set_error_def bindE_eq_Inr Let_def split: if_splits list.splits)

lemma op_rot_pc [script_pc]: "op_rot st = Inr st' \<Longrightarrow> ss_pc st' = ss_pc st"
  by (auto simp: op_rot_def need_stack_def set_error_def bindE_eq_Inr Let_def split: if_splits list.splits)

lemma op_swap_pc [script_pc]: "op_swap st = Inr st' \<Longrightarrow> ss_pc st' = ss_pc st"
  by (auto simp: op_swap_def need_stack_def set_error_def bindE_eq_Inr Let_def split: if_splits list.splits)

lemma op_tuck_pc [script_pc]: "op_tuck st = Inr st' \<Longrightarrow> ss_pc st' = ss_pc st"
  by (auto simp: op_tuck_def need_stack_def set_error_def bindE_eq_Inr Let_def split: if_splits list.splits)

lemma op_size_pc [script_pc]: "op_size st = Inr st' \<Longrightarrow> ss_pc st' = ss_pc st"
  by (auto simp: op_size_def need_stack_def set_error_def bindE_eq_Inr Let_def split: if_splits list.splits)

lemma op_equal_pc [script_pc]: "op_equal opcode st = Inr st' \<Longrightarrow> ss_pc st' = ss_pc st"
  by (auto simp: op_equal_def need_stack_def set_error_def bindE_eq_Inr Let_def split: if_splits list.splits)

lemma op_unary_pc [script_pc]: "op_unary ea opcode st = Inr st' \<Longrightarrow> ss_pc st' = ss_pc st"
  by (auto simp: op_unary_def need_stack_def set_error_def bindE_eq_Inr Let_def split: if_splits list.splits)

lemma op_binary_pc [script_pc]: "op_binary ea opcode st = Inr st' \<Longrightarrow> ss_pc st' = ss_pc st"
  by (auto simp: op_binary_def need_stack_def set_error_def bindE_eq_Inr Let_def split: if_splits list.splits)

lemma op_within_pc [script_pc]: "op_within ea st = Inr st' \<Longrightarrow> ss_pc st' = ss_pc st"
  by (auto simp: op_within_def need_stack_def set_error_def bindE_eq_Inr Let_def split: if_splits list.splits)

lemma op_hash_pc [script_pc]: "op_hash opcode st = Inr st' \<Longrightarrow> ss_pc st' = ss_pc st"
  by (auto simp: op_hash_def need_stack_def set_error_def bindE_eq_Inr Let_def split: if_splits list.splits)

lemma op_codeseparator_pc [script_pc]: "op_codeseparator st = Inr st' \<Longrightarrow> ss_pc st' = ss_pc st"
  by (auto simp: op_codeseparator_def need_stack_def set_error_def bindE_eq_Inr Let_def split: if_splits list.splits)

lemma op_checksig_pc [script_pc]: "op_checksig ea opcode st = Inr st' \<Longrightarrow> ss_pc st' = ss_pc st"
  by (auto simp: op_checksig_def need_stack_def set_error_def bindE_eq_Inr Let_def split: if_splits list.splits)

lemma op_checkmultisig_pc [script_pc]: "op_checkmultisig ea opcode st = Inr st' \<Longrightarrow> ss_pc st' = ss_pc st"
  by (auto simp: op_checkmultisig_def multisig_finish_def need_stack_def set_error_def bindE_eq_Inr Let_def split: if_splits list.splits)

lemma eval_case_pc [script_pc]: "eval_case ea opcode fExec st = Inr st' \<Longrightarrow> ss_pc st' = ss_pc st"
  unfolding eval_case_def by (simp add: set_error_def script_pc split: if_splits)

lemma eval_step_pc: "eval_step ea opcode vch st = Inr st' \<Longrightarrow> ss_pc st' = ss_pc st"
  by (auto simp: eval_step_def eval_opcode_def eval_push_def set_error_def bindE_eq_Inr Let_def split: if_splits
    dest!: eval_case_pc)

text \<open>The loop; every iteration reads an operation.\<close>

function eval_loop :: "eval_args \<Rightarrow> script_op" where
  "eval_loop ea st =
    (if ss_pc st = [] then Inr st
     else (case GetOp2 (ss_pc st) of (ok, opcode, vchPushValue, pc) \<Rightarrow>
        if \<not> ok then set_error SCRIPT_ERR_BAD_OPCODE
        else bindE (eval_step ea opcode vchPushValue (st\<lparr>ss_pc := pc\<rparr>)) (eval_loop ea)))"
  by pat_completeness auto
termination
  by (relation "measure (\<lambda>(ea, st). length (ss_pc st))") (auto dest!: GetOp2_True_shorter [OF sym] eval_step_pc)

declare eval_loop.simps [simp del]

text \<open>The locals of \<^verbatim>\<open>EvalScript\<close> before the loop.\<close>

definition script_start :: "valtype list \<Rightarrow> CScript \<Rightarrow> script_state" where
  "script_start stack script =
    \<lparr>ss_stack = stack, ss_altstack = [], ss_vfExec = [], ss_nOpCount = 0, ss_pc = script, ss_pbegincodehash = script\<rparr>"

definition EvalScript :: "eval_args \<Rightarrow> valtype list \<Rightarrow> CScript \<Rightarrow> valtype list script_result" where
  "EvalScript ea stack script =
    (if length script > MAX_SCRIPT_SIZE then set_error SCRIPT_ERR_SCRIPT_SIZE
     else (case eval_loop ea (script_start stack script) of
        Inl (Throw e) \<Rightarrow> if e \<in> {assertion_failed, undefined_behaviour} then Inl (Throw e)
          else set_error SCRIPT_ERR_UNKNOWN_ERROR
      | Inl (Fail e) \<Rightarrow> set_error e
      | Inr st \<Rightarrow> if ss_vfExec st \<noteq> [] then set_error SCRIPT_ERR_UNBALANCED_CONDITIONAL else Inr (ss_stack st)))"

subsection \<open>Lock times\<close>

text \<open>
  \<^verbatim>\<open>TransactionSignatureChecker\<close>: the fields of the transaction that the lock time checks read, the
  sequence number being that of the input \<^verbatim>\<open>nIn\<close>.
\<close>

record tx_locks =
  tx_nVersion :: u32
  tx_nLockTime :: u32
  tx_nSequence :: u32

definition SEQUENCE_FINAL :: u32 where
  "SEQUENCE_FINAL = 0xffffffff"

definition SEQUENCE_LOCKTIME_TYPE_FLAG :: int where
  "SEQUENCE_LOCKTIME_TYPE_FLAG = 2 ^ 22"

definition SEQUENCE_LOCKTIME_MASK :: int where
  "SEQUENCE_LOCKTIME_MASK = 0x0000ffff"

definition Transaction_CheckLockTime :: "tx_locks \<Rightarrow> int \<Rightarrow> bool" where
  "Transaction_CheckLockTime tx nLockTime =
    (if \<not> ((uint (tx_nLockTime tx) < LOCKTIME_THRESHOLD \<and> nLockTime < LOCKTIME_THRESHOLD)
         \<or> (uint (tx_nLockTime tx) \<ge> LOCKTIME_THRESHOLD \<and> nLockTime \<ge> LOCKTIME_THRESHOLD)) then False
     else if nLockTime > uint (tx_nLockTime tx) then False
     else if SEQUENCE_FINAL = tx_nSequence tx then False
     else True)"

definition Transaction_CheckSequence :: "tx_locks \<Rightarrow> int \<Rightarrow> bool" where
  "Transaction_CheckSequence tx nSequence =
    (let txToSequence = uint (tx_nSequence tx) in
     if tx_nVersion tx < 2 then False
     else if txToSequence AND SEQUENCE_LOCKTIME_DISABLE_FLAG \<noteq> 0 then False
     else (let nLockTimeMask = SEQUENCE_LOCKTIME_TYPE_FLAG OR SEQUENCE_LOCKTIME_MASK;
               txToSequenceMasked = txToSequence AND nLockTimeMask;
               nSequenceMasked = nSequence AND nLockTimeMask
       in if \<not> ((txToSequenceMasked < SEQUENCE_LOCKTIME_TYPE_FLAG \<and> nSequenceMasked < SEQUENCE_LOCKTIME_TYPE_FLAG)
            \<or> (txToSequenceMasked \<ge> SEQUENCE_LOCKTIME_TYPE_FLAG \<and> nSequenceMasked \<ge> SEQUENCE_LOCKTIME_TYPE_FLAG)) then False
          else if nSequenceMasked > txToSequenceMasked then False
          else True))"

subsection \<open>VerifyScript\<close>

text \<open>
  A witness is its stack in the order of the vector, the last element on top.  \<open>verify_args\<close> are the
  arguments that \<^verbatim>\<open>VerifyScript\<close> hands to \<^verbatim>\<open>EvalScript\<close>.
\<close>

type_synonym CScriptWitness = "valtype list"

record verify_args =
  va_flags :: u32
  va_checker :: BaseSignatureChecker
  va_CheckLowS :: "bytes \<Rightarrow> bool"

definition eval_with :: "verify_args \<Rightarrow> SigVersion \<Rightarrow> eval_args" where
  "eval_with va sigversion =
    \<lparr>ea_flags = va_flags va, ea_checker = va_checker va, ea_sigversion = sigversion, ea_CheckLowS = va_CheckLowS va\<rparr>"

text \<open>\<^verbatim>\<open>scriptPubKey << OP_DUP << OP_HASH160 << program << OP_EQUALVERIFY << OP_CHECKSIG\<close>.\<close>

definition pubkeyhash_script :: "valtype \<Rightarrow> cpp_exn + CScript" where
  "pubkeyhash_script program =
    bindE (push_opcode [] OP_DUP) (\<lambda>s. bindE (push_opcode s OP_HASH160) (\<lambda>s.
      bindE (push_opcode (push_data s program) OP_EQUALVERIFY) (\<lambda>s. push_opcode s OP_CHECKSIG)))"

text \<open>The stack and the script that a witness program stands for; \<open>None\<close> for success at once.\<close>

definition witness_script :: "verify_args \<Rightarrow> CScriptWitness \<Rightarrow> nat \<Rightarrow> valtype \<Rightarrow> (valtype list \<times> CScript) option script_result" where
  "witness_script va witness witversion program =
    (if witversion = 0
     then (if length program = 32
       then (if length witness = 0 then set_error SCRIPT_ERR_WITNESS_PROGRAM_WITNESS_EMPTY
         else (let scriptPubKey = last witness; stack = butlast witness in
           if snd (CSHA256_Finalize (CSHA256_Write CSHA256 scriptPubKey)) \<noteq> program
           then set_error SCRIPT_ERR_WITNESS_PROGRAM_MISMATCH
           else Inr (Some (stack, scriptPubKey))))
       else if length program = 20
       then (if length witness \<noteq> 2 then set_error SCRIPT_ERR_WITNESS_PROGRAM_MISMATCH
         else bindE (throwing (pubkeyhash_script program)) (\<lambda>scriptPubKey. Inr (Some (witness, scriptPubKey))))
       else set_error SCRIPT_ERR_WITNESS_PROGRAM_WRONG_LENGTH)
     else if has_flag (va_flags va) SCRIPT_VERIFY_DISCOURAGE_UPGRADABLE_WITNESS_PROGRAM
     then set_error SCRIPT_ERR_DISCOURAGE_UPGRADABLE_WITNESS_PROGRAM
     else Inr None)"

definition VerifyWitnessProgram :: "verify_args \<Rightarrow> CScriptWitness \<Rightarrow> nat \<Rightarrow> valtype \<Rightarrow> unit script_result" where
  "VerifyWitnessProgram va witness witversion program =
    bindE (witness_script va witness witversion program) (\<lambda>r.
      case r of
        None \<Rightarrow> Inr ()
      | Some (stack, scriptPubKey) \<Rightarrow>
         (if \<exists>vch\<in>set stack. length vch > MAX_SCRIPT_ELEMENT_SIZE then set_error SCRIPT_ERR_PUSH_SIZE
          else bindE (EvalScript (eval_with va SIGVERSION_WITNESS_V0) (rev stack) scriptPubKey) (\<lambda>stack.
            if length stack \<noteq> 1 then set_error SCRIPT_ERR_EVAL_FALSE
            else if \<not> CastToBool (hd stack) then set_error SCRIPT_ERR_EVAL_FALSE
            else Inr ())))"

text \<open>\<^verbatim>\<open>stack.resize(1)\<close>.\<close>

definition resize_one :: "valtype list \<Rightarrow> valtype list" where
  "resize_one stack = (if stack = [] then [[]] else [last stack])"

text \<open>
  Both tests for a witness program: for the script \<open>program_script\<close>, \<open>malleated\<close> says that \<^verbatim>\<open>scriptSig\<close> is not the
  one form that is allowed.  The result is \<^verbatim>\<open>hadWitness\<close> and the stack.
\<close>

definition verify_witness ::
  "verify_args \<Rightarrow> CScriptWitness \<Rightarrow> CScript \<Rightarrow> bool \<Rightarrow> ScriptError \<Rightarrow> bool \<Rightarrow> valtype list \<Rightarrow> (bool \<times> valtype list) script_result" where
  "verify_witness va witness program_script malleated err hadWitness stack =
    (if has_flag (va_flags va) SCRIPT_VERIFY_WITNESS
     then bindE (throwing (IsWitnessProgram program_script)) (\<lambda>r.
       case r of
         None \<Rightarrow> Inr (hadWitness, stack)
       | Some (witnessversion, witnessprogram) \<Rightarrow>
          (if malleated then set_error err
           else bindE (VerifyWitnessProgram va witness witnessversion witnessprogram) (\<lambda>_. Inr (True, resize_one stack))))
     else Inr (hadWitness, stack))"

text \<open>The evaluation of the redeem script of a pay-to-script-hash output.\<close>

definition verify_p2sh ::
  "verify_args \<Rightarrow> CScriptWitness \<Rightarrow> CScript \<Rightarrow> bool \<Rightarrow> valtype list \<Rightarrow> (bool \<times> valtype list) script_result" where
  "verify_p2sh va witness scriptSig hadWitness stackCopy =
    (if \<not> IsPushOnly scriptSig then set_error SCRIPT_ERR_SIG_PUSHONLY
     else if stackCopy = [] then Inl (Throw assertion_failed)
     else (let pubKey2 = hd stackCopy in
       bindE (popstack stackCopy) (\<lambda>stack.
         bindE (EvalScript (eval_with va SIGVERSION_BASE) stack pubKey2) (\<lambda>stack.
           if stack = [] then set_error SCRIPT_ERR_EVAL_FALSE
           else if \<not> CastToBool (hd stack) then set_error SCRIPT_ERR_EVAL_FALSE
           else verify_witness va witness pubKey2 (scriptSig \<noteq> push_data [] pubKey2)
             SCRIPT_ERR_WITNESS_MALLEATED_P2SH hadWitness stack))))"

text \<open>The checks at the end.\<close>

definition verify_finish :: "verify_args \<Rightarrow> CScriptWitness \<Rightarrow> bool \<times> valtype list \<Rightarrow> unit script_result" where
  "verify_finish va witness = (\<lambda>(hadWitness, stack).
    bindE (if has_flag (va_flags va) SCRIPT_VERIFY_CLEANSTACK
       then bindE (guardE (has_flag (va_flags va) SCRIPT_VERIFY_P2SH) (Throw assertion_failed)) (\<lambda>_.
         bindE (guardE (has_flag (va_flags va) SCRIPT_VERIFY_WITNESS) (Throw assertion_failed)) (\<lambda>_.
           if length stack \<noteq> 1 then set_error SCRIPT_ERR_CLEANSTACK else Inr ()))
       else Inr ()) (\<lambda>_.
      if has_flag (va_flags va) SCRIPT_VERIFY_WITNESS
      then bindE (guardE (has_flag (va_flags va) SCRIPT_VERIFY_P2SH) (Throw assertion_failed)) (\<lambda>_.
        if \<not> hadWitness \<and> witness \<noteq> [] then set_error SCRIPT_ERR_WITNESS_UNEXPECTED else Inr ())
      else Inr ()))"

definition VerifyScript :: "verify_args \<Rightarrow> CScript \<Rightarrow> CScript \<Rightarrow> CScriptWitness option \<Rightarrow> unit script_result" where
  "VerifyScript va scriptSig scriptPubKey witness_ptr =
    (let witness = (case witness_ptr of None \<Rightarrow> [] | Some w \<Rightarrow> w) in
     if has_flag (va_flags va) SCRIPT_VERIFY_SIGPUSHONLY \<and> \<not> IsPushOnly scriptSig then set_error SCRIPT_ERR_SIG_PUSHONLY
     else bindE (EvalScript (eval_with va SIGVERSION_BASE) [] scriptSig) (\<lambda>stackCopy.
       bindE (EvalScript (eval_with va SIGVERSION_BASE) stackCopy scriptPubKey) (\<lambda>stack.
         if stack = [] then set_error SCRIPT_ERR_EVAL_FALSE
         else if \<not> CastToBool (hd stack) then set_error SCRIPT_ERR_EVAL_FALSE
         else bindE (verify_witness va witness scriptPubKey (length scriptSig \<noteq> 0) SCRIPT_ERR_WITNESS_MALLEATED False stack)
           (\<lambda>(hadWitness, stack).
             bindE (if has_flag (va_flags va) SCRIPT_VERIFY_P2SH \<and> IsPayToScriptHash scriptPubKey
                then verify_p2sh va witness scriptSig hadWitness stackCopy
                else Inr (hadWitness, stack)) (verify_finish va witness)))))"

subsection \<open>Signature operations of witnesses\<close>

definition WitnessSigOps :: "nat \<Rightarrow> valtype \<Rightarrow> CScriptWitness \<Rightarrow> cpp_exn + u32" where
  "WitnessSigOps witversion witprogram witness =
    (if witversion = 0 \<and> length witprogram = 20 then Inr 1
     else if witversion = 0 \<and> length witprogram = 32 \<and> length witness > 0 then GetSigOpCount (last witness) True
     else Inr 0)"

text \<open>The data of the last operation of a script, whether or not it could be read.\<close>

function last_data :: "bytes \<Rightarrow> valtype \<Rightarrow> valtype" where
  "last_data pc data =
    (if pc = [] then data
     else (case GetOp2 pc of (ok, opcode, data', pc') \<Rightarrow> last_data pc' data'))"
  by pat_completeness auto
termination
  by (relation "measure (\<lambda>(pc, d). length pc)") (auto dest: GetOp2_shorter [OF sym])

declare last_data.simps [simp del]

definition CountWitnessSigOps :: "CScript \<Rightarrow> CScript \<Rightarrow> CScriptWitness option \<Rightarrow> u32 \<Rightarrow> cpp_exn + u32" where
  "CountWitnessSigOps scriptSig scriptPubKey witness_ptr flags =
    (let witness = (case witness_ptr of None \<Rightarrow> [] | Some w \<Rightarrow> w) in
     if \<not> has_flag flags SCRIPT_VERIFY_WITNESS then Inr 0
     else bindE (guardE (has_flag flags SCRIPT_VERIFY_P2SH) assertion_failed) (\<lambda>_.
       bindE (IsWitnessProgram scriptPubKey) (\<lambda>r.
         case r of
           Some (witnessversion, witnessprogram) \<Rightarrow> WitnessSigOps witnessversion witnessprogram witness
         | None \<Rightarrow>
            (if IsPayToScriptHash scriptPubKey \<and> IsPushOnly scriptSig
             then bindE (IsWitnessProgram (last_data scriptSig [])) (\<lambda>r.
               case r of
                 Some (witnessversion, witnessprogram) \<Rightarrow> WitnessSigOps witnessversion witnessprogram witness
               | None \<Rightarrow> Inr 0)
             else Inr 0))))"

end
