(* ===== verification/ScriptSafety.thy ===== *)
theory ScriptSafety
  imports ScriptInterp
begin

unbundle bit_operations_syntax

text \<open>
  What the script machine cannot do: no operation reads below the stack, no assertion fails, the
  only exception is \<^verbatim>\<open>scriptnum_error\<close>; and the limits on the stack, its elements and the number of
  operations hold in every state of the loop.  The proofs use a small calculus: \<open>sat m P\<close> says that
  \<open>m\<close> ends in an error value, in a \<^verbatim>\<open>scriptnum_error\<close>, or in a value with \<open>P\<close>.
\<close>

section \<open>The calculus\<close>

definition sat :: "'a script_result \<Rightarrow> ('a \<Rightarrow> bool) \<Rightarrow> bool" where
  "sat m P \<longleftrightarrow> (case m of Inr x \<Rightarrow> P x | Inl (Fail e) \<Rightarrow> True | Inl (Throw e) \<Rightarrow> e = scriptnum_error)"

named_theorems sat_intros \<open>rules of the calculus\<close>

lemma sat_Inr [sat_intros]: "P x \<Longrightarrow> sat (Inr x) P"
  by (simp add: sat_def)

lemma sat_error [sat_intros]: "sat (set_error e) P"
  by (simp add: sat_def set_error_def)

lemma sat_bind [sat_intros]: "sat m (\<lambda>x. sat (f x) P) \<Longrightarrow> sat (bindE m f) P"
  by (cases m) (auto simp: sat_def)

lemma sat_if [sat_intros]: "(b \<Longrightarrow> sat x P) \<Longrightarrow> (\<not> b \<Longrightarrow> sat y P) \<Longrightarrow> sat (if b then x else y) P"
  by simp

lemma sat_let [sat_intros]: "sat (f x) P \<Longrightarrow> sat (Let x f) P"
  by simp

lemma sat_stacktop [sat_intros]:
  "0 < i \<Longrightarrow> i \<le> length s \<Longrightarrow> P (s ! (i - 1)) \<Longrightarrow> sat (stacktop s i) P"
  by (simp add: sat_def stacktop_def)

lemma sat_popstack [sat_intros]: "0 < length s \<Longrightarrow> P (tl s) \<Longrightarrow> sat (popstack s) P"
  by (simp add: sat_def popstack_def)

lemma sat_list [sat_intros]:
  "(xs = [] \<Longrightarrow> sat a P) \<Longrightarrow> (\<And>y ys. xs = y # ys \<Longrightarrow> sat (f y ys) P) \<Longrightarrow> sat (case xs of [] \<Rightarrow> a | y # ys \<Rightarrow> f y ys) P"
  by (cases xs) simp_all

lemma sat_swap [sat_intros]:
  "0 < i \<Longrightarrow> i \<le> length s \<Longrightarrow> 0 < j \<Longrightarrow> j \<le> length s \<Longrightarrow> P (s[i - 1 := s ! (j - 1), j - 1 := s ! (i - 1)])
    \<Longrightarrow> sat (swap_top s i j) P"
  by (simp add: sat_def stacktop_def swap_top_def)

lemma sat_erase [sat_intros]:
  "j \<le> i \<Longrightarrow> i \<le> length s \<Longrightarrow> P (take j s @ drop i s) \<Longrightarrow> sat (erase_top s i j) P"
  by (simp add: sat_def erase_top_def)

lemma sat_insert [sat_intros]: "i \<le> length s \<Longrightarrow> P (take i s @ x # drop i s) \<Longrightarrow> sat (insert_top s i x) P"
  by (simp add: sat_def insert_top_def)

lemma sat_num [sat_intros]:
  assumes "0 < i" and "i \<le> length s" and "0 < n" and "n \<le> 8" and "\<And>v. \<bar>v\<bar> < 128 * 256 ^ (n - 1) \<Longrightarrow> P v"
  shows "sat (num_top ea s i n) P"
  using assms CScriptNum_bound [of "s ! (i - 1)" "has_flag (ea_flags ea) SCRIPT_VERIFY_MINIMALDATA" n]
  by (auto simp: sat_def num_top_def stacktop_def throwing_def CScriptNum_eq split: sum.splits)

lemma sat_need [sat_intros]: "(n \<le> length (ss_stack st) \<Longrightarrow> sat (f st) P) \<Longrightarrow> sat (need_stack n f st) P"
  by (simp add: need_stack_def sat_def set_error_def)

lemma sat_mono: "sat m P \<Longrightarrow> (\<And>x. P x \<Longrightarrow> Q x) \<Longrightarrow> sat m Q"
  by (auto simp: sat_def split: sum.splits script_exit.splits)

lemma sat_encodings [sat_intros]: "P () \<Longrightarrow> sat (check_encodings ea vchSig vchPubKey) P"
  by (simp add: sat_def check_encodings_def CheckSignatureEncoding_def CheckPubKeyEncoding_def
    IsLowDERSignature_def set_error_def)

section \<open>The limits\<close>

text \<open>Elements have at most 520 bytes.\<close>

definition elems :: "valtype list \<Rightarrow> bool" where
  "elems s \<longleftrightarrow> (\<forall>v\<in>set s. length v \<le> MAX_SCRIPT_ELEMENT_SIZE)"

lemma elems_simps [simp]:
  "elems []" "elems (v # s) \<longleftrightarrow> length v \<le> MAX_SCRIPT_ELEMENT_SIZE \<and> elems s" "elems (s @ t) \<longleftrightarrow> elems s \<and> elems t"
  by (auto simp: elems_def)

lemma elems_intros [intro, simp]:
  "elems s \<Longrightarrow> elems (take n s)" "elems s \<Longrightarrow> elems (drop n s)"
  "elems s \<Longrightarrow> length v \<le> MAX_SCRIPT_ELEMENT_SIZE \<Longrightarrow> elems (s[i := v])"
  "elems s \<Longrightarrow> i < length s \<Longrightarrow> length (s ! i) \<le> MAX_SCRIPT_ELEMENT_SIZE"
  by (auto simp: elems_def dest: in_set_takeD in_set_dropD set_update_subset_insert [THEN subsetD] nth_mem)

lemma elems_tl [intro, simp]: "elems s \<Longrightarrow> elems (tl s)"
  by (cases s) simp_all

text \<open>Numbers of the machine have few bytes.\<close>

lemma length_serialize_loop: "n < 256 ^ k \<Longrightarrow> length (serialize_loop n) \<le> k"
proof (induction k arbitrary: n)
  case (Suc k)
  then show ?case
    using Suc.IH [of "n div 256"] by (cases "n = 0") (auto simp: serialize_loop_pos less_mult_imp_div_less mult.commute)
qed simp

lemma length_serialize:
  assumes "\<bar>v\<bar> < 256 ^ k"
  shows "length (scriptnum_serialize v) \<le> k + 1"
proof -
  have "uint (of_int (if v < 0 then - v else v) :: u64) \<le> \<bar>v\<bar>"
    by (simp add: unsigned_of_int take_bit_int_less_eq_self_iff)
  then have "int (unat (of_int (if v < 0 then - v else v) :: u64)) < int (256 ^ k)"
    using assms by simp
  then have "length (serialize_loop (unat (of_int (if v < 0 then - v else v) :: u64))) \<le> k"
    by (intro length_serialize_loop) (simp only: of_nat_less_iff)
  then show ?thesis
    unfolding scriptnum_serialize_def Let_def by auto
qed

lemma small_num: "\<bar>v\<bar> < 256 ^ 5 \<Longrightarrow> length (scriptnum_serialize v) \<le> MAX_SCRIPT_ELEMENT_SIZE"
  using length_serialize [of v 5] by (simp add: MAX_SCRIPT_ELEMENT_SIZE_def)

lemma length_consts [simp]: "length vchTrue \<le> MAX_SCRIPT_ELEMENT_SIZE" "length vchFalse \<le> MAX_SCRIPT_ELEMENT_SIZE"
  by (simp_all add: vchTrue_def vchFalse_def MAX_SCRIPT_ELEMENT_SIZE_def)

lemma length_script_hash: "length (script_hash opcode vch) \<le> MAX_SCRIPT_ELEMENT_SIZE"
proof -
  have "length (snd (CHash256_Finalize (CHash256_Write CSHA256 vch))) = 32"
    "length (snd (CHash160_Finalize (CHash160_Write CSHA256 vch))) = 20"
    using length_digests(2) [OF csha256.Write_represents [OF CSHA256_Finalize_digest(2) [OF one_write(2), of vch]]]
      length_digests(4) [OF one_write(4)]
    by (simp_all add: CHash256_Finalize_def CHash160_Finalize_def CHash256_Write_def CHash160_Write_def case_prod_unfold Let_def)
  then show ?thesis
    using length_digests(1) [OF one_write(1), of vch] length_digests(2) [OF one_write(2), of vch]
      length_digests(4) [OF one_write(4), of vch]
    by (simp add: script_hash_def MAX_SCRIPT_ELEMENT_SIZE_def)
qed

text \<open>The invariant of the loop, and what an operation leaves of it before the check of the stack size.\<close>

definition within_limits :: "script_state \<Rightarrow> bool" where
  "within_limits st \<longleftrightarrow> elems (ss_stack st) \<and> elems (ss_altstack st) \<and> 0 \<le> ss_nOpCount st \<and> ss_nOpCount st \<le> MAX_OPS_PER_SCRIPT"

definition op_ready :: "script_state \<Rightarrow> bool" where
  "op_ready st \<longleftrightarrow> within_limits st \<and> length (ss_stack st) < 2 ^ 32"

lemma depth_bound: "n < 2 ^ 32 \<Longrightarrow> length (scriptnum_serialize (int n)) \<le> MAX_SCRIPT_ELEMENT_SIZE"
  by (intro small_num) simp

lemma size_bound: "length v \<le> MAX_SCRIPT_ELEMENT_SIZE \<Longrightarrow> length (scriptnum_serialize (int (length v))) \<le> MAX_SCRIPT_ELEMENT_SIZE"
  by (intro depth_bound) (simp add: MAX_SCRIPT_ELEMENT_SIZE_def)

lemmas script_bounds = depth_bound size_bound length_script_hash nDefaultMaxNumSize_def

named_theorems script_sat \<open>every operation keeps the limits\<close>

lemma op_push_value_sat [script_sat]: "opcode \<le> OP_16 \<Longrightarrow> sat (op_push_value opcode st) (\<lambda>st'. op_ready st \<longrightarrow> within_limits st')"
  using small_num [of "int opcode - 80"]
  by (simp add: op_push_value_def sat_def op_ready_def within_limits_def)

lemma op_checklocktimeverify_sat [script_sat]: "sat (op_checklocktimeverify ea st) (\<lambda>st'. op_ready st \<longrightarrow> within_limits st')"
  unfolding op_checklocktimeverify_def
  by (intro sat_intros; (simp add: op_ready_def within_limits_def script_bounds del: length_greater_0_conv length_0_conv)?)

lemma op_checksequenceverify_sat [script_sat]: "sat (op_checksequenceverify ea st) (\<lambda>st'. op_ready st \<longrightarrow> within_limits st')"
  unfolding op_checksequenceverify_def
  by (intro sat_intros; (simp add: op_ready_def within_limits_def script_bounds del: length_greater_0_conv length_0_conv)?)

lemma op_nop_sat [script_sat]: "sat (op_nop ea st) (\<lambda>st'. op_ready st \<longrightarrow> within_limits st')"
  unfolding op_nop_def
  by (intro sat_intros; (simp add: op_ready_def within_limits_def script_bounds del: length_greater_0_conv length_0_conv)?)

lemma op_if_sat [script_sat]: "sat (op_if ea opcode fExec st) (\<lambda>st'. op_ready st \<longrightarrow> within_limits st')"
  unfolding op_if_def
  by (intro sat_intros; (simp add: op_ready_def within_limits_def script_bounds del: length_greater_0_conv length_0_conv)?)

lemma op_else_sat [script_sat]: "sat (op_else st) (\<lambda>st'. op_ready st \<longrightarrow> within_limits st')"
  unfolding op_else_def
  by (intro sat_intros; (simp add: op_ready_def within_limits_def script_bounds del: length_greater_0_conv length_0_conv)?)

lemma op_endif_sat [script_sat]: "sat (op_endif st) (\<lambda>st'. op_ready st \<longrightarrow> within_limits st')"
  unfolding op_endif_def
  by (intro sat_intros; (simp add: op_ready_def within_limits_def script_bounds del: length_greater_0_conv length_0_conv)?)

lemma op_verify_sat [script_sat]: "sat (op_verify st) (\<lambda>st'. op_ready st \<longrightarrow> within_limits st')"
  unfolding op_verify_def
  by (intro sat_intros; (simp add: op_ready_def within_limits_def script_bounds del: length_greater_0_conv length_0_conv)?)

lemma op_toaltstack_sat [script_sat]: "sat (op_toaltstack st) (\<lambda>st'. op_ready st \<longrightarrow> within_limits st')"
  unfolding op_toaltstack_def
  by (intro sat_intros; (simp add: op_ready_def within_limits_def script_bounds del: length_greater_0_conv length_0_conv)?)

lemma op_fromaltstack_sat [script_sat]: "sat (op_fromaltstack st) (\<lambda>st'. op_ready st \<longrightarrow> within_limits st')"
  unfolding op_fromaltstack_def
  by (intro sat_intros; (simp add: op_ready_def within_limits_def script_bounds del: length_greater_0_conv length_0_conv)?)

lemma op_2drop_sat [script_sat]: "sat (op_2drop st) (\<lambda>st'. op_ready st \<longrightarrow> within_limits st')"
  unfolding op_2drop_def
  by (intro sat_intros; (simp add: op_ready_def within_limits_def script_bounds del: length_greater_0_conv length_0_conv)?)

lemma op_2dup_sat [script_sat]: "sat (op_2dup st) (\<lambda>st'. op_ready st \<longrightarrow> within_limits st')"
  unfolding op_2dup_def
  by (intro sat_intros; (simp add: op_ready_def within_limits_def script_bounds del: length_greater_0_conv length_0_conv)?)

lemma op_3dup_sat [script_sat]: "sat (op_3dup st) (\<lambda>st'. op_ready st \<longrightarrow> within_limits st')"
  unfolding op_3dup_def
  by (intro sat_intros; (simp add: op_ready_def within_limits_def script_bounds del: length_greater_0_conv length_0_conv)?)

lemma op_2over_sat [script_sat]: "sat (op_2over st) (\<lambda>st'. op_ready st \<longrightarrow> within_limits st')"
  unfolding op_2over_def
  by (intro sat_intros; (simp add: op_ready_def within_limits_def script_bounds del: length_greater_0_conv length_0_conv)?)

lemma op_2rot_sat [script_sat]: "sat (op_2rot st) (\<lambda>st'. op_ready st \<longrightarrow> within_limits st')"
  unfolding op_2rot_def
  by (intro sat_intros; (simp add: op_ready_def within_limits_def script_bounds del: length_greater_0_conv length_0_conv)?)

lemma op_2swap_sat [script_sat]: "sat (op_2swap st) (\<lambda>st'. op_ready st \<longrightarrow> within_limits st')"
  unfolding op_2swap_def
  by (intro sat_intros; (simp add: op_ready_def within_limits_def script_bounds del: length_greater_0_conv length_0_conv)?)

lemma op_ifdup_sat [script_sat]: "sat (op_ifdup st) (\<lambda>st'. op_ready st \<longrightarrow> within_limits st')"
  unfolding op_ifdup_def
  by (intro sat_intros; (simp add: op_ready_def within_limits_def script_bounds del: length_greater_0_conv length_0_conv)?)

lemma op_depth_sat [script_sat]: "sat (op_depth st) (\<lambda>st'. op_ready st \<longrightarrow> within_limits st')"
  unfolding op_depth_def
  by (intro sat_intros; (simp add: op_ready_def within_limits_def script_bounds del: length_greater_0_conv length_0_conv)?)

lemma op_drop_sat [script_sat]: "sat (op_drop st) (\<lambda>st'. op_ready st \<longrightarrow> within_limits st')"
  unfolding op_drop_def
  by (intro sat_intros; (simp add: op_ready_def within_limits_def script_bounds del: length_greater_0_conv length_0_conv)?)

lemma op_dup_sat [script_sat]: "sat (op_dup st) (\<lambda>st'. op_ready st \<longrightarrow> within_limits st')"
  unfolding op_dup_def
  by (intro sat_intros; (simp add: op_ready_def within_limits_def script_bounds del: length_greater_0_conv length_0_conv)?)

lemma op_nip_sat [script_sat]: "sat (op_nip st) (\<lambda>st'. op_ready st \<longrightarrow> within_limits st')"
  unfolding op_nip_def
  by (intro sat_intros; (simp add: op_ready_def within_limits_def script_bounds del: length_greater_0_conv length_0_conv)?)

lemma op_over_sat [script_sat]: "sat (op_over st) (\<lambda>st'. op_ready st \<longrightarrow> within_limits st')"
  unfolding op_over_def
  by (intro sat_intros; (simp add: op_ready_def within_limits_def script_bounds del: length_greater_0_conv length_0_conv)?)

lemma op_rot_sat [script_sat]: "sat (op_rot st) (\<lambda>st'. op_ready st \<longrightarrow> within_limits st')"
  unfolding op_rot_def
  by (intro sat_intros; (simp add: op_ready_def within_limits_def script_bounds del: length_greater_0_conv length_0_conv)?)

lemma op_swap_sat [script_sat]: "sat (op_swap st) (\<lambda>st'. op_ready st \<longrightarrow> within_limits st')"
  unfolding op_swap_def
  by (intro sat_intros; (simp add: op_ready_def within_limits_def script_bounds del: length_greater_0_conv length_0_conv)?)

lemma op_tuck_sat [script_sat]: "sat (op_tuck st) (\<lambda>st'. op_ready st \<longrightarrow> within_limits st')"
  unfolding op_tuck_def
  by (intro sat_intros; (simp add: op_ready_def within_limits_def script_bounds del: length_greater_0_conv length_0_conv)?)

lemma op_size_sat [script_sat]: "sat (op_size st) (\<lambda>st'. op_ready st \<longrightarrow> within_limits st')"
  unfolding op_size_def
  by (intro sat_intros; (simp add: op_ready_def within_limits_def script_bounds del: length_greater_0_conv length_0_conv)?)

lemma op_equal_sat [script_sat]: "sat (op_equal opcode st) (\<lambda>st'. op_ready st \<longrightarrow> within_limits st')"
  unfolding op_equal_def
  by (intro sat_intros; (simp add: op_ready_def within_limits_def script_bounds del: length_greater_0_conv length_0_conv)?)

lemma op_within_sat [script_sat]: "sat (op_within ea st) (\<lambda>st'. op_ready st \<longrightarrow> within_limits st')"
  unfolding op_within_def
  by (intro sat_intros; (simp add: op_ready_def within_limits_def script_bounds del: length_greater_0_conv length_0_conv)?)

lemma op_hash_sat [script_sat]: "sat (op_hash opcode st) (\<lambda>st'. op_ready st \<longrightarrow> within_limits st')"
  unfolding op_hash_def
  by (intro sat_intros; (simp add: op_ready_def within_limits_def script_bounds del: length_greater_0_conv length_0_conv)?)

lemma op_codeseparator_sat [script_sat]: "sat (op_codeseparator st) (\<lambda>st'. op_ready st \<longrightarrow> within_limits st')"
  unfolding op_codeseparator_def
  by (intro sat_intros; (simp add: op_ready_def within_limits_def script_bounds del: length_greater_0_conv length_0_conv)?)

lemma op_checksig_sat [script_sat]: "sat (op_checksig ea opcode st) (\<lambda>st'. op_ready st \<longrightarrow> within_limits st')"
  unfolding op_checksig_def
  by (intro sat_intros; (simp add: op_ready_def within_limits_def script_bounds del: length_greater_0_conv length_0_conv)?)

lemma op_pick_roll_sat [script_sat]: "sat (op_pick_roll ea opcode st) (\<lambda>st'. op_ready st \<longrightarrow> within_limits st')"
  unfolding op_pick_roll_def
  by (intro sat_intros; (simp add: op_ready_def within_limits_def nDefaultMaxNumSize_def del: length_greater_0_conv)?)
    (auto simp: Suc_le_eq nat_less_iff)

text \<open>Arithmetic on operands of four bytes stays far from the bounds of a 64-bit integer.\<close>

lemma sat_throwing [sat_intros]: "(\<And>e. m = Inl e \<Longrightarrow> e = scriptnum_error) \<Longrightarrow> (\<And>x. m = Inr x \<Longrightarrow> P x) \<Longrightarrow> sat (throwing m) P"
  by (cases m) (auto simp: sat_def throwing_def)

lemma unary_num_safe:
  assumes "\<bar>bn\<bar> < 2 ^ 31" and "opcode \<in> {OP_1ADD, OP_1SUB, OP_NEGATE, OP_ABS, OP_NOT, OP_0NOTEQUAL}"
  shows "\<exists>v. unary_num opcode bn = Inr v \<and> \<bar>v\<bar> < 256 ^ 5"
  using assms by (auto simp: unary_num_def scriptnum_plus_assign_def scriptnum_minus_assign_def scriptnum_neg_def bool_num_def)

lemma binary_num_safe:
  assumes "\<bar>bn1\<bar> < 2 ^ 31" and "\<bar>bn2\<bar> < 2 ^ 31"
    and "opcode \<in> {OP_ADD, OP_SUB, OP_BOOLAND, OP_BOOLOR, OP_NUMEQUAL, OP_NUMEQUALVERIFY, OP_NUMNOTEQUAL,
      OP_LESSTHAN, OP_GREATERTHAN, OP_LESSTHANOREQUAL, OP_GREATERTHANOREQUAL, OP_MIN, OP_MAX}"
  shows "\<exists>v. binary_num opcode bn1 bn2 = Inr v \<and> \<bar>v\<bar> < 256 ^ 5"
proof -
  have b: "bn1 < 2147483648" "- bn1 < 2147483648" "bn2 < 2147483648" "- bn2 < 2147483648"
    using assms(1,2) by (simp_all add: abs_less_iff)
  from assms(3) show ?thesis
    by (elim insertE emptyE; use b in \<open>auto simp: binary_num_def scriptnum_plus_def scriptnum_minus_def bool_num_def abs_less_iff\<close>)
qed

lemma op_unary_sat [script_sat]:
  assumes "opcode \<in> {OP_1ADD, OP_1SUB, OP_NEGATE, OP_ABS, OP_NOT, OP_0NOTEQUAL}"
  shows "sat (op_unary ea opcode st) (\<lambda>st'. op_ready st \<longrightarrow> within_limits st')"
proof -
  have u: "sat (throwing (unary_num opcode bn)) P"
    if "\<bar>bn\<bar> < 128 * 256 ^ (nDefaultMaxNumSize - 1)" and "\<And>v. length (scriptnum_serialize v) \<le> MAX_SCRIPT_ELEMENT_SIZE \<Longrightarrow> P v" for bn P
    using unary_num_safe [OF _ assms, of bn] that small_num
    by (auto simp: sat_def throwing_def nDefaultMaxNumSize_def)
  show ?thesis
    unfolding op_unary_def
    by (intro sat_need sat_bind sat_num u sat_popstack sat_Inr)
      (simp_all add: op_ready_def within_limits_def script_bounds del: length_greater_0_conv)
qed

lemma op_binary_sat [script_sat]:
  assumes "opcode \<in> {OP_ADD, OP_SUB, OP_BOOLAND, OP_BOOLOR, OP_NUMEQUAL, OP_NUMEQUALVERIFY, OP_NUMNOTEQUAL,
      OP_LESSTHAN, OP_GREATERTHAN, OP_LESSTHANOREQUAL, OP_GREATERTHANOREQUAL, OP_MIN, OP_MAX}"
  shows "sat (op_binary ea opcode st) (\<lambda>st'. op_ready st \<longrightarrow> within_limits st')"
proof -
  have u: "sat (throwing (binary_num opcode bn1 bn2)) P"
    if "\<bar>bn1\<bar> < 128 * 256 ^ (nDefaultMaxNumSize - 1)" and "\<bar>bn2\<bar> < 128 * 256 ^ (nDefaultMaxNumSize - 1)"
      and "\<And>v. length (scriptnum_serialize v) \<le> MAX_SCRIPT_ELEMENT_SIZE \<Longrightarrow> P v" for bn1 bn2 P
    using binary_num_safe [OF _ _ assms, of bn1 bn2] that small_num
    by (auto simp: sat_def throwing_def nDefaultMaxNumSize_def)
  show ?thesis
    unfolding op_binary_def
    by (intro sat_need sat_bind sat_num u sat_popstack sat_Inr sat_let sat_if sat_stacktop sat_error)
      (simp_all add: op_ready_def within_limits_def script_bounds del: length_greater_0_conv)
qed

text \<open>The loops of \<^verbatim>\<open>OP_CHECKMULTISIG\<close>.\<close>

lemma multisig_drop_sat:
  "0 < isig \<Longrightarrow> isig + n \<le> length stack + 1 \<Longrightarrow> sat (multisig_drop ea stack isig n scriptCode) (\<lambda>_. True)"
  by (induction n arbitrary: isig scriptCode) (auto intro!: sat_intros)

lemma multisig_loop_sat:
  assumes "0 < isig" and "0 < ikey" and "nSigs \<le> nKeys"
    and "int isig + nSigs \<le> int (length stack) + 1" and "int ikey + nKeys \<le> int (length stack) + 1"
  shows "sat (multisig_loop ea stack scriptCode isig ikey nSigs nKeys) (\<lambda>_. True)"
  using assms
proof (induction "nat nKeys" arbitrary: isig ikey nSigs nKeys rule: less_induct)
  case less
  show ?case
  proof (cases "nSigs > 0")
    case True
    then have i: "isig \<le> length stack" "ikey \<le> length stack" "nat (nKeys - 1) < nat nKeys"
      using less.prems by linarith+
    have "sat (multisig_loop ea stack scriptCode (if ok then isig + 1 else isig) (ikey + 1)
        (if ok then nSigs - 1 else nSigs) (nKeys - 1)) (\<lambda>_. True)"
      if "\<not> nKeys - 1 < (if ok then nSigs - 1 else nSigs)" for ok
      using that less.prems i(3) by (intro less.hyps) (auto split: if_splits)
    then show ?thesis
      unfolding multisig_loop.simps [of ea stack scriptCode isig ikey nSigs nKeys] Let_def
      using less.prems True i by (intro sat_if sat_bind sat_stacktop sat_encodings sat_Inr) simp_all
  qed (simp add: multisig_loop.simps sat_def)
qed

lemma multisig_cleanup_sat:
  "i \<le> length stack + 1 \<Longrightarrow> sat (multisig_cleanup ea fSuccess i ikey2 stack) (\<lambda>s. elems stack \<longrightarrow> elems s)"
proof (induction i arbitrary: stack ikey2 rule: less_induct)
  case (less i)
  show ?case
  proof (cases "i > 1")
    case True
    then have "sat (multisig_cleanup ea fSuccess (i - 1) k (tl stack)) (\<lambda>s. elems stack \<longrightarrow> elems s)" for k
      using less.prems by (intro sat_mono [OF less.IH]) auto
    then show ?thesis
      unfolding multisig_cleanup.simps [of ea fSuccess i ikey2 stack]
      using less.prems True
      by (intro sat_if sat_bind sat_stacktop sat_Inr sat_error sat_popstack) (simp_all del: length_greater_0_conv)
  qed (use less.prems in \<open>simp add: multisig_cleanup.simps sat_def\<close>)
qed

lemma multisig_finish_sat:
  "(Q \<Longrightarrow> elems stack \<and> within_limits st) \<Longrightarrow> sat (multisig_finish ea opcode fSuccess st stack) (\<lambda>st'. Q \<longrightarrow> within_limits st')"
  unfolding multisig_finish_def
  by (intro sat_if sat_bind sat_stacktop sat_Inr sat_error sat_popstack sat_let)
    (simp_all add: within_limits_def del: length_greater_0_conv length_0_conv)

lemma op_checkmultisig_sat [script_sat]:
  "sat (op_checkmultisig ea opcode st) (\<lambda>st'. op_ready st \<longrightarrow> within_limits st')"
proof -
  note bounds = MAX_PUBKEYS_PER_MULTISIG_def nDefaultMaxNumSize_def
  have d: "sat (multisig_drop ea (ss_stack st) isig n c) P"
    if "0 < isig" "isig + n \<le> length (ss_stack st) + 1" "\<And>x. P x" for isig n c P
    by (rule sat_mono [OF multisig_drop_sat]) (use that in auto)
  have l: "sat (multisig_loop ea (ss_stack st) c isig ikey nS nK) P"
    if "0 < isig" "0 < ikey" "nS \<le> nK" "int isig + nS \<le> int (length (ss_stack st)) + 1"
      "int ikey + nK \<le> int (length (ss_stack st)) + 1" "\<And>x. P x" for isig ikey nS nK c P
    by (rule sat_mono [OF multisig_loop_sat]) (use that in auto)
  have c: "sat (multisig_cleanup ea f i k (ss_stack st)) P"
    if "i \<le> length (ss_stack st) + 1" "\<And>x. (elems (ss_stack st) \<Longrightarrow> elems x) \<Longrightarrow> P x" for f i k P
    by (rule sat_mono [OF multisig_cleanup_sat]) (use that in auto)
  show ?thesis
    unfolding op_checkmultisig_def Let_def
    by (intro sat_if sat_bind sat_num sat_error d l c multisig_finish_sat)
      (auto simp: op_ready_def within_limits_def bounds nat_less_iff simp del: length_greater_0_conv length_0_conv)
qed

section \<open>Steps\<close>

lemma eval_case_sat: "sat (eval_case ea opcode fExec st) (\<lambda>st'. op_ready st \<longrightarrow> within_limits st')"
proof -
  have "sat (Inr st) (\<lambda>st'. op_ready st \<longrightarrow> within_limits st')"
    by (simp add: sat_def op_ready_def)
  then show ?thesis
    unfolding eval_case_def by (simp add: script_sat sat_error)
qed

lemma eval_push_sat:
  "opcode \<le> OP_PUSHDATA4 \<Longrightarrow> length vch \<le> MAX_SCRIPT_ELEMENT_SIZE
    \<Longrightarrow> sat (eval_push ea opcode vch st) (\<lambda>st'. op_ready st \<longrightarrow> within_limits st')"
  unfolding eval_push_def CheckMinimalPush_def
  by (intro sat_intros) (simp_all add: op_ready_def within_limits_def)

text \<open>One iteration of the loop, started within the limits, ends within the limits and with a small stack.\<close>

lemma eval_step_sat:
  "sat (eval_step ea opcode vch st)
    (\<lambda>st'. (op_ready st \<longrightarrow> within_limits st') \<and> length (ss_stack st') + length (ss_altstack st') \<le> MAX_STACK_SIZE)"
proof -
  have o: "sat (eval_opcode ea opcode vch fExec st') P"
    if "length vch \<le> MAX_SCRIPT_ELEMENT_SIZE" and "\<And>x. (op_ready st' \<Longrightarrow> within_limits x) \<Longrightarrow> P x" for st' fExec P
    unfolding eval_opcode_def
    by (intro sat_if sat_mono [OF eval_case_sat] sat_mono [OF eval_push_sat] sat_Inr; (rule that)?)
      (use that in \<open>auto simp: op_ready_def\<close>)
  show ?thesis
    unfolding eval_step_def Let_def
    by (intro sat_if sat_bind sat_error o sat_Inr) (auto simp: op_ready_def within_limits_def)
qed

text \<open>The loop as a step relation.\<close>

inductive script_step :: "eval_args \<Rightarrow> script_state \<Rightarrow> script_state \<Rightarrow> bool" for ea where
  step: "ss_pc st \<noteq> [] \<Longrightarrow> GetOp2 (ss_pc st) = (True, opcode, vch, pc)
    \<Longrightarrow> eval_step ea opcode vch (st\<lparr>ss_pc := pc\<rparr>) = Inr st' \<Longrightarrow> script_step ea st st'"

inductive_cases script_stepE: "script_step ea st st'"

lemma eval_loop_steps: "eval_loop ea st = Inr st' \<Longrightarrow> (script_step ea)\<^sup>*\<^sup>* st st' \<and> ss_pc st' = []"
proof (induction ea st rule: eval_loop.induct)
  case (1 ea st)
  show ?case
  proof (cases "ss_pc st = []")
    case True
    then show ?thesis
      using "1.prems" by (simp add: eval_loop.simps)
  next
    case False
    then obtain opcode vch pc st1 where s: "GetOp2 (ss_pc st) = (True, opcode, vch, pc)"
      "eval_step ea opcode vch (st\<lparr>ss_pc := pc\<rparr>) = Inr st1" "eval_loop ea st1 = Inr st'"
      using "1.prems" by (subst (asm) eval_loop.simps) (auto simp: bindE_eq_Inr set_error_def split: prod.splits if_splits)
    moreover have "(script_step ea)\<^sup>*\<^sup>* st1 st' \<and> ss_pc st' = []"
      using "1.IH" [OF False s(1) [symmetric] refl refl _ s(2,3)] by simp
    moreover have "script_step ea st st1"
      using False s by (intro script_step.step)
    ultimately show ?thesis
      by (auto intro: converse_rtranclp_into_rtranclp)
  qed
qed

text \<open>Exceptions inside the loop.\<close>

lemma eval_loop_safe: "sat (eval_loop ea st) (\<lambda>_. True)"
proof (induction ea st rule: eval_loop.induct)
  case (1 ea st)
  obtain ok opcode vch pc where g: "GetOp2 (ss_pc st) = (ok, opcode, vch, pc)"
    by (rule prod_cases4)
  have "sat (eval_loop ea st1) (\<lambda>_. True)"
    if "ss_pc st \<noteq> []" "ok" "eval_step ea opcode vch (st\<lparr>ss_pc := pc\<rparr>) = Inr st1" for st1
    using that g by (intro "1.IH" [of ok "(opcode, vch, pc)" opcode "(vch, pc)" vch pc st1]) simp_all
  then show ?case
    using eval_step_sat [of ea opcode vch "st\<lparr>ss_pc := pc\<rparr>"]
    unfolding eval_loop.simps [of ea st] g
    by (auto simp: sat_def set_error_def bindE_def split: sum.splits)
qed

section \<open>VerifyScript\<close>

text \<open>No exception and no failed assertion leaves a result.\<close>

definition nothrow :: "'a script_result \<Rightarrow> bool" where
  "nothrow m \<longleftrightarrow> (\<forall>e. m \<noteq> Inl (Throw e))"

lemma nothrow_simps [simp]: "nothrow (Inr x)" "nothrow (set_error e)"
  by (simp_all add: nothrow_def set_error_def)

lemma nothrow_bind [intro]: "nothrow m \<Longrightarrow> (\<And>x. m = Inr x \<Longrightarrow> nothrow (f x)) \<Longrightarrow> nothrow (bindE m f)"
  by (cases m) (auto simp: nothrow_def)

lemma nothrow_EvalScript: "nothrow (EvalScript ea stack script)"
  using eval_loop_safe [of ea "script_start stack script"]
  by (auto simp: EvalScript_def nothrow_def sat_def set_error_def split: sum.splits script_exit.splits)

lemma IsWitnessProgram_Inr: "\<exists>r. IsWitnessProgram script = Inr r"
  by (auto simp: IsWitnessProgram_def DecodeOP_N_def)

lemma pubkeyhash_script_eq:
  "length h < OP_PUSHDATA1 \<Longrightarrow> pubkeyhash_script h = Inr ([0x76, 0xa9, of_nat (length h)] @ h @ [0x88, 0xac])"
  by (simp add: pubkeyhash_script_def push_opcode_def push_data_def)

lemma nothrow_witness_script: "nothrow (witness_script va witness witversion program)"
  by (auto simp: witness_script_def Let_def pubkeyhash_script_eq throwing_def)

lemma nothrow_VerifyWitnessProgram: "nothrow (VerifyWitnessProgram va witness witversion program)"
  unfolding VerifyWitnessProgram_def
  by (intro nothrow_bind nothrow_witness_script) (auto intro!: nothrow_bind nothrow_EvalScript split: option.splits)

lemma nothrow_verify_witness: "nothrow (verify_witness va witness script malleated err had stack)"
  using IsWitnessProgram_Inr [of script]
  by (auto simp: verify_witness_def throwing_def intro!: nothrow_bind nothrow_VerifyWitnessProgram split: option.splits)

text \<open>A pay-to-script-hash script fails on an empty stack.\<close>

lemma p2sh_empty_stack:
  assumes "IsPayToScriptHash script"
  shows "EvalScript ea [] script \<noteq> Inr stack"
proof -
  obtain b pc where s: "script = b # pc" "unat b = OP_HASH160" "length script = 23"
    using assms by (cases script) (auto simp: IsPayToScriptHash_def)
  then have g: "GetOp2 script = (True, OP_HASH160, [], pc)"
    by (simp add: GetOp2_def)
  have "eval_step ea OP_HASH160 [] (script_start [] script\<lparr>ss_pc := pc\<rparr>) = Inl (Fail SCRIPT_ERR_INVALID_STACK_OPERATION)"
    by (simp add: eval_step_def eval_opcode_def eval_case_def disabled_opcode_def script_start_def op_hash_def need_stack_def
      set_error_def MAX_SCRIPT_ELEMENT_SIZE_def MAX_OPS_PER_SCRIPT_def Let_def)
  then have "eval_loop ea (script_start [] script) = Inl (Fail SCRIPT_ERR_INVALID_STACK_OPERATION)"
    using g s by (subst eval_loop.simps) (simp add: script_start_def)
  then show ?thesis
    by (simp add: EvalScript_def set_error_def)
qed

lemma nothrow_verify_p2sh: "stackCopy \<noteq> [] \<Longrightarrow> nothrow (verify_p2sh va witness scriptSig had stackCopy)"
  unfolding verify_p2sh_def Let_def
  by (auto simp: popstack_def intro!: nothrow_bind nothrow_EvalScript nothrow_verify_witness)

text \<open>The combinations of flags that the assertions at the end admit.\<close>

definition flags_consistent :: "u32 \<Rightarrow> bool" where
  "flags_consistent flags \<longleftrightarrow>
    (has_flag flags SCRIPT_VERIFY_CLEANSTACK \<longrightarrow> has_flag flags SCRIPT_VERIFY_P2SH \<and> has_flag flags SCRIPT_VERIFY_WITNESS)
    \<and> (has_flag flags SCRIPT_VERIFY_WITNESS \<longrightarrow> has_flag flags SCRIPT_VERIFY_P2SH)"

lemma nothrow_verify_finish: "flags_consistent (va_flags va) \<Longrightarrow> nothrow (verify_finish va witness p)"
  by (cases p) (auto simp: verify_finish_def flags_consistent_def intro!: nothrow_bind)

section \<open>Properties\<close>

text \<open>
  Claim C11.  The script machine is memory safe and never aborts: its loop never reads below the
  stack (\<^verbatim>\<open>out_of_range\<close>), never pops an empty stack (\<^verbatim>\<open>runtime_error\<close>) and never fails an assertion, for
  any script, stack, flags and checker.  Nor does it erase or insert below the stack, overflow a
  script number or shift by its width, which would be undefined behaviour.  So the only exception that the handler at the end of
  \<^verbatim>\<open>EvalScript\<close> can catch is \<^verbatim>\<open>scriptnum_error\<close>, and \<^verbatim>\<open>EvalScript\<close> itself throws nothing.
\<close>

theorem eval_script_safe:
  "eval_loop ea st \<noteq> Inl (Throw out_of_range) \<and> eval_loop ea st \<noteq> Inl (Throw runtime_error)
   \<and> eval_loop ea st \<noteq> Inl (Throw assertion_failed) \<and> eval_loop ea st \<noteq> Inl (Throw undefined_behaviour)
   \<and> EvalScript ea stack script \<noteq> Inl (Throw e)"
  using eval_loop_safe [of ea st] nothrow_EvalScript [of ea stack script] by (auto simp: sat_def nothrow_def)

text \<open>
  Claim C17.  The resource limits hold in every state that the loop of \<^verbatim>\<open>EvalScript\<close> reaches: every
  element of the stack and of the alternative stack has at most 520 bytes, the operation counter
  is at most 201, and after the first operation the two stacks have at most 1000 elements together.
\<close>

theorem eval_script_limits:
  assumes "elems stack" and "length stack < 2 ^ 32"
    and "(script_step ea)\<^sup>*\<^sup>* (script_start stack script) st"
  shows "within_limits st \<and> (st = script_start stack script \<or> length (ss_stack st) + length (ss_altstack st) \<le> MAX_STACK_SIZE)"
  using assms(3)
proof (induction rule: rtranclp_induct)
  case base
  then show ?case
    using assms(1) by (simp add: within_limits_def script_start_def MAX_OPS_PER_SCRIPT_def)
next
  case (step st st')
  then have "length (ss_stack st) < 2 ^ 32"
    using assms(2) by (auto simp: script_start_def MAX_STACK_SIZE_def)
  then have "op_ready (st\<lparr>ss_pc := pc\<rparr>)" for pc
    using step.IH by (simp add: op_ready_def within_limits_def)
  moreover obtain opcode vch pc where "eval_step ea opcode vch (st\<lparr>ss_pc := pc\<rparr>) = Inr st'"
    using step.hyps(2) by (rule script_stepE)
  ultimately show ?case
    using eval_step_sat [of ea opcode vch "st\<lparr>ss_pc := pc\<rparr>"] by (simp add: sat_def)
qed

theorem eval_script_limits_witness:
  "(script_step \<lparr>ea_flags = 0, ea_checker = \<lparr>CheckSig = \<lambda>_ _ _ _. False, CheckLockTime = \<lambda>_. False, CheckSequence = \<lambda>_. False\<rparr>,
      ea_sigversion = SIGVERSION_BASE, ea_CheckLowS = \<lambda>_. False\<rparr>)\<^sup>*\<^sup>*
      (script_start [[7]] [0x76]) (script_start [[7], [7]] [0x76]\<lparr>ss_nOpCount := 1, ss_pc := []\<rparr>)
    \<and> within_limits (script_start [[7], [7]] [0x76]\<lparr>ss_nOpCount := 1, ss_pc := []\<rparr>)"
proof -
  let ?ea = "\<lparr>ea_flags = 0, ea_checker = \<lparr>CheckSig = \<lambda>_ _ _ _. False, CheckLockTime = \<lambda>_. False, CheckSequence = \<lambda>_. False\<rparr>,
      ea_sigversion = SIGVERSION_BASE, ea_CheckLowS = \<lambda>_. False\<rparr> :: eval_args"
  have "script_step ?ea (script_start [[7]] [0x76]) (script_start [[7], [7]] [0x76]\<lparr>ss_nOpCount := 1, ss_pc := []\<rparr>)"
    by (rule script_step.step [where opcode = OP_DUP and vch = "[]" and pc = "[]"])
      (simp_all add: script_start_def GetOp2_def eval_step_def eval_opcode_def eval_case_def disabled_opcode_def op_dup_def
        need_stack_def stacktop_def MAX_SCRIPT_ELEMENT_SIZE_def MAX_OPS_PER_SCRIPT_def MAX_STACK_SIZE_def Let_def)
  then have "(script_step ?ea)\<^sup>*\<^sup>* (script_start [[7]] [0x76]) (script_start [[7], [7]] [0x76]\<lparr>ss_nOpCount := 1, ss_pc := []\<rparr>)"
    by (rule r_into_rtranclp)
  then show ?thesis
    using eval_script_limits [of "[[7]]" ?ea "[0x76]"] by (simp add: MAX_SCRIPT_ELEMENT_SIZE_def)
qed

text \<open>
  Claim C21.  \<^verbatim>\<open>VerifyScript\<close> never fails an assertion, in particular the stack is never empty when a
  redeem script is taken from it, as long as the flags are combined as the comments require:
  \<^verbatim>\<open>CLEANSTACK\<close> only with \<^verbatim>\<open>P2SH\<close> and \<^verbatim>\<open>WITNESS\<close>, \<^verbatim>\<open>WITNESS\<close> only with \<^verbatim>\<open>P2SH\<close>.
\<close>

theorem verify_script_no_assertion:
  assumes "flags_consistent (va_flags va)"
  shows "VerifyScript va scriptSig scriptPubKey witness \<noteq> Inl (Throw e)"
proof -
  have "nothrow (VerifyScript va scriptSig scriptPubKey witness)"
    unfolding VerifyScript_def Let_def
    using p2sh_empty_stack [of scriptPubKey] assms
    by (auto intro!: nothrow_bind nothrow_EvalScript nothrow_verify_witness nothrow_verify_p2sh nothrow_verify_finish
      split: prod.splits)
  then show ?thesis
    by (simp add: nothrow_def)
qed

text \<open>A redeem script taken from the stack, under the flags that assert their combination.\<close>

theorem verify_script_no_assertion_witness:
  "VerifyScript \<lparr>va_flags = 0x901, va_checker = \<lparr>CheckSig = \<lambda>_ _ _ _. False, CheckLockTime = \<lambda>_. False, CheckSequence = \<lambda>_. False\<rparr>,
      va_CheckLowS = \<lambda>_. False\<rparr> [0x01, 0x51] ([0xa9, 0x14] @ replicate 20 0 @ [0x87]) None \<noteq> Inl (Throw assertion_failed)"
proof (rule verify_script_no_assertion)
  have "flags_consistent 0x901"
    by code_simp
  then show "flags_consistent (va_flags \<lparr>va_flags = 0x901, va_checker = \<lparr>CheckSig = \<lambda>_ _ _ _. False, CheckLockTime = \<lambda>_. False,
      CheckSequence = \<lambda>_. False\<rparr>, va_CheckLowS = \<lambda>_. False\<rparr>)"
    by simp
qed

end
