(* ===== verification/ScriptFork.thy ===== *)
theory ScriptFork
  imports ScriptSafety
begin

unbundle bit_operations_syntax

text \<open>
  Script verification flags are soft forks, as the comment on the flags in \<^verbatim>\<open>src/src/script/interpreter.h\<close>
  intends: what is accepted under more flags is accepted under fewer.  Each operation that succeeds
  with a set of flags succeeds with a subset of them and leaves the same state, so the whole
  evaluation does.
\<close>

section \<open>Fewer flags\<close>

definition fewer_flags :: "u32 \<Rightarrow> u32 \<Rightarrow> bool" where
  "fewer_flags A F \<longleftrightarrow> (\<forall>f. has_flag A f \<longrightarrow> has_flag F f)"

lemma fewer_flagsD: "has_flag A f \<Longrightarrow> fewer_flags A F \<Longrightarrow> has_flag F f"
  by (simp add: fewer_flags_def)

lemma fewer_flags_or: "fewer_flags A (A OR B)"
  by (auto simp: fewer_flags_def has_flag_def bit.conj_disj_distrib2 or_eq_0_iff)

text \<open>\<open>weaker m m'\<close>: if \<open>m\<close> succeeds, \<open>m'\<close> succeeds with the same value.\<close>

definition weaker :: "'a script_result \<Rightarrow> 'a script_result \<Rightarrow> bool" where
  "weaker m m' \<longleftrightarrow> (\<forall>x. m = Inr x \<longrightarrow> m' = Inr x)"

named_theorems weaker_intros \<open>rules for weaker results\<close>

lemma weaker_refl [simp]: "weaker m m"
  by (simp add: weaker_def)

lemma weaker_fail [simp]: "weaker (set_error e) m" "weaker (Inl x) m"
  by (simp_all add: weaker_def set_error_def)

lemma weaker_unit [simp]: "weaker m (Inr ())"
  by (simp add: weaker_def)

lemma weaker_bind [weaker_intros]:
  "weaker m m' \<Longrightarrow> (\<And>x. m = Inr x \<Longrightarrow> weaker (f x) (f' x)) \<Longrightarrow> weaker (bindE m f) (bindE m' f')"
  by (auto simp: weaker_def bindE_eq_Inr)

lemma weaker_bind_Inr: "(\<And>x. weaker (f x) (Inr y)) \<Longrightarrow> weaker (bindE m f) (Inr y)"
  by (auto simp: weaker_def bindE_eq_Inr)

lemma weaker_if [weaker_intros]:
  assumes "c \<Longrightarrow> c' \<Longrightarrow> weaker a a'" and "\<not> c \<Longrightarrow> \<not> c' \<Longrightarrow> weaker b b'"
    and "c \<Longrightarrow> \<not> c' \<Longrightarrow> weaker a b'" and "\<not> c \<Longrightarrow> c' \<Longrightarrow> weaker b a'"
  shows "weaker (if c then a else b) (if c' then a' else b')"
  using assms by simp

lemma weaker_switch:
  assumes "weaker (f st) (f' st)" and "weaker (g st) (g' st)"
  shows "weaker ((if c then f else g) st) ((if c then f' else g') st)"
  using assms by simp

lemma weakerD: "weaker m m' \<Longrightarrow> m = Inr x \<Longrightarrow> m' = Inr x"
  by (simp add: weaker_def)

text \<open>The arguments with other flags.\<close>

abbreviation lenient :: "eval_args \<Rightarrow> u32 \<Rightarrow> eval_args" where
  "lenient ea A \<equiv> ea\<lparr>ea_flags := A\<rparr>"

section \<open>Operations\<close>

lemma num_top_weaker [weaker_intros]:
  "fewer_flags A (ea_flags ea) \<Longrightarrow> weaker (num_top ea s i n) (num_top (lenient ea A) s i n)"
  unfolding num_top_def
  by (intro weaker_intros) (auto simp: throwing_def CScriptNum_def weaker_def split: if_splits dest: fewer_flagsD)

lemma CheckSignatureEncoding_weaker [weaker_intros]:
  "fewer_flags A F \<Longrightarrow> weaker (CheckSignatureEncoding L vch F) (CheckSignatureEncoding L vch A)"
  unfolding CheckSignatureEncoding_def
  by (intro weaker_intros) (auto dest: fewer_flagsD)

lemma CheckPubKeyEncoding_weaker [weaker_intros]:
  "fewer_flags A F \<Longrightarrow> weaker (CheckPubKeyEncoding k F v) (CheckPubKeyEncoding k A v)"
  unfolding CheckPubKeyEncoding_def
  by (intro weaker_intros) (auto dest: fewer_flagsD)

lemma check_encodings_weaker [weaker_intros]:
  "fewer_flags A (ea_flags ea) \<Longrightarrow> weaker (check_encodings ea sig key) (check_encodings (lenient ea A) sig key)"
  unfolding check_encodings_def by (simp, intro weaker_intros)

lemma drop_signature_lenient [simp]: "drop_signature (lenient ea A) = drop_signature ea"
  by (simp add: drop_signature_def fun_eq_iff)

lemma multisig_drop_lenient [simp]: "multisig_drop (lenient ea A) s isig n c = multisig_drop ea s isig n c"
  by (induction n arbitrary: isig c) simp_all

lemma multisig_loop_weaker [weaker_intros]:
  assumes "fewer_flags A (ea_flags ea)"
  shows "weaker (multisig_loop ea s c isig ikey nS nK) (multisig_loop (lenient ea A) s c isig ikey nS nK)"
proof (induction "nat nK" arbitrary: isig ikey nS nK rule: less_induct)
  case less
  note unfolded = multisig_loop.simps [of _ s c isig ikey nS nK]
  have "weaker (multisig_loop ea s c i' (ikey + 1) n' (nK - 1)) (multisig_loop (lenient ea A) s c i' (ikey + 1) n' (nK - 1))"
    if "nS > 0" "\<not> n' > nK - 1" "n' \<ge> nS - 1" for i' n'
    using that by (intro less.hyps) auto
  then show ?case
    unfolding unfolded Let_def
    using assms by (intro weaker_intros) auto
qed

lemma multisig_cleanup_weaker [weaker_intros]:
  assumes "fewer_flags A (ea_flags ea)"
  shows "weaker (multisig_cleanup ea f i k s) (multisig_cleanup (lenient ea A) f i k s)"
proof (induction i arbitrary: k s rule: less_induct)
  case (less i)
  note unfolded = multisig_cleanup.simps [of _ f i k s]
  show ?case
    unfolding unfolded
    using assms by (intro weaker_intros less) (auto dest: fewer_flagsD)
qed

lemma multisig_finish_weaker [weaker_intros]:
  "fewer_flags A (ea_flags ea) \<Longrightarrow> weaker (multisig_finish ea opcode f st s) (multisig_finish (lenient ea A) opcode f st s)"
  unfolding multisig_finish_def Let_def by (intro weaker_intros) (auto dest: fewer_flagsD)

lemma op_checklocktimeverify_weaker [weaker_intros]:
  "fewer_flags A (ea_flags ea) \<Longrightarrow> weaker (op_checklocktimeverify ea st) (op_checklocktimeverify (lenient ea A) st)"
  unfolding op_checklocktimeverify_def need_stack_def Let_def by (intro weaker_intros) (auto intro!: weaker_bind_Inr dest: fewer_flagsD)

lemma op_checksequenceverify_weaker [weaker_intros]:
  "fewer_flags A (ea_flags ea) \<Longrightarrow> weaker (op_checksequenceverify ea st) (op_checksequenceverify (lenient ea A) st)"
  unfolding op_checksequenceverify_def need_stack_def Let_def by (intro weaker_intros) (auto intro!: weaker_bind_Inr dest: fewer_flagsD)

lemma op_nop_weaker [weaker_intros]:
  "fewer_flags A (ea_flags ea) \<Longrightarrow> weaker (op_nop ea st) (op_nop (lenient ea A) st)"
  unfolding op_nop_def need_stack_def Let_def by (intro weaker_intros) (auto intro!: weaker_bind_Inr dest: fewer_flagsD)

lemma op_if_weaker [weaker_intros]:
  "fewer_flags A (ea_flags ea) \<Longrightarrow> weaker (op_if ea opcode fExec st) (op_if (lenient ea A) opcode fExec st)"
  unfolding op_if_def need_stack_def Let_def by (intro weaker_intros) (auto intro!: weaker_bind_Inr dest: fewer_flagsD)

lemma op_pick_roll_weaker [weaker_intros]:
  "fewer_flags A (ea_flags ea) \<Longrightarrow> weaker (op_pick_roll ea opcode st) (op_pick_roll (lenient ea A) opcode st)"
  unfolding op_pick_roll_def need_stack_def Let_def by (intro weaker_intros) (auto intro!: weaker_bind_Inr dest: fewer_flagsD)

lemma op_unary_weaker [weaker_intros]:
  "fewer_flags A (ea_flags ea) \<Longrightarrow> weaker (op_unary ea opcode st) (op_unary (lenient ea A) opcode st)"
  unfolding op_unary_def need_stack_def Let_def by (intro weaker_intros) (auto intro!: weaker_bind_Inr dest: fewer_flagsD)

lemma op_binary_weaker [weaker_intros]:
  "fewer_flags A (ea_flags ea) \<Longrightarrow> weaker (op_binary ea opcode st) (op_binary (lenient ea A) opcode st)"
  unfolding op_binary_def need_stack_def Let_def by (intro weaker_intros) (auto intro!: weaker_bind_Inr dest: fewer_flagsD)

lemma op_within_weaker [weaker_intros]:
  "fewer_flags A (ea_flags ea) \<Longrightarrow> weaker (op_within ea st) (op_within (lenient ea A) st)"
  unfolding op_within_def need_stack_def Let_def by (intro weaker_intros) (auto intro!: weaker_bind_Inr dest: fewer_flagsD)

lemma op_checksig_weaker [weaker_intros]:
  "fewer_flags A (ea_flags ea) \<Longrightarrow> weaker (op_checksig ea opcode st) (op_checksig (lenient ea A) opcode st)"
  unfolding op_checksig_def need_stack_def Let_def by (intro weaker_intros) (auto intro!: weaker_bind_Inr dest: fewer_flagsD)

lemma op_checkmultisig_weaker [weaker_intros]:
  "fewer_flags A (ea_flags ea) \<Longrightarrow> weaker (op_checkmultisig ea opcode st) (op_checkmultisig (lenient ea A) opcode st)"
  unfolding op_checkmultisig_def need_stack_def Let_def by (intro weaker_intros) (auto intro!: weaker_bind_Inr dest: fewer_flagsD)

lemma eval_push_weaker [weaker_intros]:
  "fewer_flags A (ea_flags ea) \<Longrightarrow> weaker (eval_push ea opcode vch st) (eval_push (lenient ea A) opcode vch st)"
  by (auto simp: eval_push_def weaker_def bindE_eq_Inr set_error_def split: if_splits dest: fewer_flagsD)

lemma eval_case_weaker [weaker_intros]:
  "fewer_flags A (ea_flags ea) \<Longrightarrow> weaker (eval_case ea opcode fExec st) (eval_case (lenient ea A) opcode fExec st)"
  unfolding eval_case_def by (intro weaker_switch) (simp_all add: weaker_intros)

lemma eval_step_weaker [weaker_intros]:
  "fewer_flags A (ea_flags ea) \<Longrightarrow> weaker (eval_step ea opcode vch st) (eval_step (lenient ea A) opcode vch st)"
  unfolding eval_step_def eval_opcode_def Let_def by (intro weaker_intros) auto

lemma eval_loop_weaker [weaker_intros]:
  assumes "fewer_flags A (ea_flags ea)"
  shows "weaker (eval_loop ea st) (eval_loop (lenient ea A) st)"
proof (induction "length (ss_pc st)" arbitrary: st rule: less_induct)
  case less
  obtain ok opcode vch pc where g: "GetOp2 (ss_pc st) = (ok, opcode, vch, pc)"
    by (cases "GetOp2 (ss_pc st)")
  have "weaker (bindE (eval_step ea opcode vch (st\<lparr>ss_pc := pc\<rparr>)) (eval_loop ea))
    (bindE (eval_step (lenient ea A) opcode vch (st\<lparr>ss_pc := pc\<rparr>)) (eval_loop (lenient ea A)))"
    if "ok" "ss_pc st \<noteq> []"
  proof (intro weaker_bind eval_step_weaker assms)
    fix st'
    assume "eval_step ea opcode vch (st\<lparr>ss_pc := pc\<rparr>) = Inr st'"
    then have "length (ss_pc st') < length (ss_pc st)"
      using GetOp2_True_shorter [of "ss_pc st"] g that by (auto dest!: eval_step_pc)
    then show "weaker (eval_loop ea st') (eval_loop (lenient ea A) st')"
      by (rule less)
  qed
  then show ?case
    unfolding eval_loop.simps [of ea st] eval_loop.simps [of "lenient ea A" st] g prod.case
    by (intro weaker_if) auto
qed

lemma EvalScript_weaker:
  assumes "fewer_flags A (ea_flags ea)"
  shows "weaker (EvalScript ea stack script) (EvalScript (lenient ea A) stack script)"
  using weakerD [OF eval_loop_weaker [OF assms]]
  by (auto simp: EvalScript_def weaker_def set_error_def split: sum.splits script_exit.splits if_splits)

section \<open>VerifyScript\<close>

abbreviation lenient_va :: "verify_args \<Rightarrow> u32 \<Rightarrow> verify_args" where
  "lenient_va va A \<equiv> va\<lparr>va_flags := A\<rparr>"

lemma eval_with_weaker [weaker_intros]:
  assumes "fewer_flags A (va_flags va)"
  shows "weaker (EvalScript (eval_with va v) stack script) (EvalScript (eval_with (lenient_va va A) v) stack script)"
proof -
  have "eval_with (lenient_va va A) v = lenient (eval_with va v) A"
    by (simp add: eval_with_def)
  then show ?thesis
    using EvalScript_weaker [of A "eval_with va v" stack script] assms by (simp add: eval_with_def)
qed

lemma witness_script_weaker [weaker_intros]:
  "fewer_flags A (va_flags va) \<Longrightarrow>
    weaker (witness_script va witness ver prog) (witness_script (lenient_va va A) witness ver prog)"
  unfolding witness_script_def Let_def by (intro weaker_intros) (auto dest: fewer_flagsD)

lemma VerifyWitnessProgram_weaker [weaker_intros]:
  "fewer_flags A (va_flags va) \<Longrightarrow>
    weaker (VerifyWitnessProgram va witness ver prog) (VerifyWitnessProgram (lenient_va va A) witness ver prog)"
  unfolding VerifyWitnessProgram_def by (intro weaker_intros) (auto intro!: weaker_intros split: option.split prod.split)

text \<open>With the witness flag in both sets the same checks are made.\<close>

lemma verify_witness_weaker:
  assumes "fewer_flags A (va_flags va)" and "has_flag A SCRIPT_VERIFY_WITNESS"
  shows "weaker (verify_witness va witness script mall err had stack) (verify_witness (lenient_va va A) witness script mall err had stack)"
  unfolding verify_witness_def
  using assms fewer_flagsD [OF assms(2,1)] by (auto intro!: weaker_intros split: option.split prod.split)

lemma verify_p2sh_weaker:
  assumes "fewer_flags A (va_flags va)" and "has_flag A SCRIPT_VERIFY_WITNESS"
  shows "weaker (verify_p2sh va witness sig had stack) (verify_p2sh (lenient_va va A) witness sig had stack)"
  unfolding verify_p2sh_def Let_def
  using assms by (intro weaker_intros verify_witness_weaker) auto

lemma verify_finish_weaker:
  assumes "fewer_flags A (va_flags va)" and "flags_consistent A"
  shows "weaker (verify_finish va witness r) (verify_finish (lenient_va va A) witness r)"
  using assms
  by (auto simp: verify_finish_def weaker_def guardE_def flags_consistent_def bindE_eq_Inr set_error_def
    split: prod.splits if_splits dest: fewer_flagsD)

text \<open>Without it the checks of witnesses are left out, and those of the redeem script remain.\<close>

lemma verify_p2sh_without_witness:
  assumes "fewer_flags A (va_flags va)" and "\<not> has_flag A SCRIPT_VERIFY_WITNESS"
    and "verify_p2sh va witness sig had stack = Inr r"
  shows "\<exists>r'. verify_p2sh (lenient_va va A) witness sig had' stack = Inr r'"
proof -
  from assms(3) obtain stack' stack'' where s: "IsPushOnly sig" "stack \<noteq> []" "popstack stack = Inr stack'"
    "EvalScript (eval_with va SIGVERSION_BASE) stack' (hd stack) = Inr stack''" "stack'' \<noteq> []" "CastToBool (hd stack'')"
    by (auto simp: verify_p2sh_def Let_def bindE_eq_Inr set_error_def split: if_splits)
  have "EvalScript (eval_with (lenient_va va A) SIGVERSION_BASE) stack' (hd stack) = Inr stack''"
    using weakerD [OF eval_with_weaker [OF assms(1)] s(4)] .
  then show ?thesis
    using s assms(2) by (simp add: verify_p2sh_def Let_def verify_witness_def)
qed

lemma verify_finish_without_witness:
  "flags_consistent A \<Longrightarrow> \<not> has_flag A SCRIPT_VERIFY_WITNESS \<Longrightarrow> verify_finish (lenient_va va A) witness r = Inr ()"
  by (auto simp: verify_finish_def flags_consistent_def split: prod.split)

lemma VerifyScript_weaker:
  assumes "fewer_flags A (va_flags va)" and "flags_consistent A"
  shows "weaker (VerifyScript va sig pub w) (VerifyScript (lenient_va va A) sig pub w)"
proof (cases "has_flag A SCRIPT_VERIFY_WITNESS")
  case True
  then have "has_flag A SCRIPT_VERIFY_P2SH" "has_flag (va_flags va) SCRIPT_VERIFY_P2SH"
    using assms fewer_flagsD by (auto simp: flags_consistent_def)
  then show ?thesis
    unfolding VerifyScript_def Let_def
    using assms True
    by (intro weaker_intros verify_witness_weaker) (auto intro!: weaker_intros verify_p2sh_weaker verify_finish_weaker dest: fewer_flagsD)
next
  case False
  let ?w = "case w of None \<Rightarrow> [] | Some w \<Rightarrow> w"
  show ?thesis
    unfolding weaker_def
  proof (intro allI impI)
    fix u
    assume ok: "VerifyScript va sig pub w = Inr u"
    then obtain copy stack where e: "EvalScript (eval_with va SIGVERSION_BASE) [] sig = Inr copy"
      "EvalScript (eval_with va SIGVERSION_BASE) copy pub = Inr stack" "stack \<noteq> []" "CastToBool (hd stack)"
      and push: "has_flag (va_flags va) SCRIPT_VERIFY_SIGPUSHONLY \<longrightarrow> IsPushOnly sig"
      by (auto simp: VerifyScript_def Let_def bindE_eq_Inr set_error_def split: if_splits)
    have p: "\<exists>had r. verify_p2sh va ?w sig had copy = Inr r"
      if "has_flag (va_flags va) SCRIPT_VERIFY_P2SH" "IsPayToScriptHash pub"
      using ok e that by (auto simp: VerifyScript_def Let_def bindE_eq_Inr set_error_def split: if_splits)
    note e' = weakerD [OF eval_with_weaker [OF assms(1)] e(1)] weakerD [OF eval_with_weaker [OF assms(1)] e(2)]
    have "\<exists>r'. (if has_flag A SCRIPT_VERIFY_P2SH \<and> IsPayToScriptHash pub
        then verify_p2sh (lenient_va va A) ?w sig False copy else Inr (False, stack)) = Inr r'"
      using p verify_p2sh_without_witness [OF assms(1) False] fewer_flagsD [OF _ assms(1)] by fastforce
    moreover have "\<not> (has_flag A SCRIPT_VERIFY_SIGPUSHONLY \<and> \<not> IsPushOnly sig)"
      using push fewer_flagsD [OF _ assms(1)] by blast
    ultimately show "VerifyScript (lenient_va va A) sig pub w = Inr u"
      using e e' False verify_finish_without_witness [OF assms(2) False]
      by (auto simp: VerifyScript_def Let_def verify_witness_def)
  qed
qed

text \<open>
  Claim C12.  Verification flags are soft forks: the spends that \<^verbatim>\<open>VerifyScript\<close> accepts under the flags
  \<^verbatim>\<open>A | B\<close> are accepted under \<^verbatim>\<open>A\<close>, for every pair of scripts, witness and signature checker, as long as
  \<^verbatim>\<open>A\<close> itself is a combination that does not fail an assertion (\<^verbatim>\<open>CLEANSTACK\<close> with \<^verbatim>\<open>P2SH\<close> and \<^verbatim>\<open>WITNESS\<close>,
  \<^verbatim>\<open>WITNESS\<close> with \<^verbatim>\<open>P2SH\<close>).
\<close>

theorem soft_fork:
  assumes "VerifyScript (va\<lparr>va_flags := A OR B\<rparr>) scriptSig scriptPubKey witness = Inr ()" and "flags_consistent A"
  shows "VerifyScript (va\<lparr>va_flags := A\<rparr>) scriptSig scriptPubKey witness = Inr ()"
proof -
  have "weaker (VerifyScript (va\<lparr>va_flags := A OR B\<rparr>) scriptSig scriptPubKey witness)
    (VerifyScript (lenient_va (va\<lparr>va_flags := A OR B\<rparr>) A) scriptSig scriptPubKey witness)"
    by (intro VerifyScript_weaker assms) (simp add: fewer_flags_or)
  from weakerD [OF this assms(1)] show ?thesis
    by simp
qed

theorem soft_fork_witness:
  "VerifyScript \<lparr>va_flags = 0x801 OR 0xffff, va_checker = \<lparr>CheckSig = \<lambda>_ _ _ _. False, CheckLockTime = \<lambda>_. False, CheckSequence = \<lambda>_. False\<rparr>,
      va_CheckLowS = \<lambda>_. False\<rparr> [0x01, 0x19] [0x76, 0x87] None = Inr ()
   \<and> VerifyScript \<lparr>va_flags = 0x801, va_checker = \<lparr>CheckSig = \<lambda>_ _ _ _. False, CheckLockTime = \<lambda>_. False, CheckSequence = \<lambda>_. False\<rparr>,
      va_CheckLowS = \<lambda>_. False\<rparr> [0x01, 0x19] [0x76, 0x87] None = Inr ()"
proof -
  let ?va = "\<lambda>F. \<lparr>va_flags = F, va_checker = \<lparr>CheckSig = \<lambda>_ _ _ _. False, CheckLockTime = \<lambda>_. False, CheckSequence = \<lambda>_. False\<rparr>,
      va_CheckLowS = \<lambda>_. False\<rparr>"
  have "VerifyScript (?va (0x801 OR 0xffff)) [0x01, 0x19] [0x76, 0x87] None = Inr ()"
    by code_simp
  moreover have "flags_consistent 0x801"
    by code_simp
  ultimately show ?thesis
    using soft_fork [where va = "?va 0" and A = "0x801" and B = "0xffff" and scriptSig = "[0x01, 0x19]"
      and scriptPubKey = "[0x76, 0x87]" and witness = None] by simp
qed

end
