(* ===== verification/ScriptUse.thy ===== *)
theory ScriptUse
  imports ScriptFork "HOL-Library.Sublist"
begin

unbundle bit_operations_syntax

text \<open>
  What the building blocks of transactions do: data and integers that \<^verbatim>\<open>operator<<\<close> pushes come back
  on the stack, \<^verbatim>\<open>OP_CHECKMULTISIG\<close> matches signatures to keys in order, and a witness program for a
  key hash is satisfied exactly by a key with that hash and a signature of it.
\<close>

section \<open>Pushes\<close>

lemma push_data_append: "push_data s b = s @ push_data [] b"
  by (simp add: push_data_def)

lemma pushes_concat: "foldl push_data s bs = s @ concat (map (push_data []) bs)"
proof (induction bs arbitrary: s)
  case (Cons b bs)
  then show ?case
    using push_data_append [of s b] by simp
qed simp

text \<open>The opcode that pushes \<open>n\<close> bytes.\<close>

definition push_op :: "nat \<Rightarrow> opcodetype" where
  "push_op n = (if n < OP_PUSHDATA1 then n else if n \<le> 0xff then OP_PUSHDATA1 else if n \<le> 0xffff then OP_PUSHDATA2 else OP_PUSHDATA4)"

lemma push_op_le: "push_op n \<le> OP_PUSHDATA4"
  by (simp add: push_op_def)

lemma GetOp2_push_data:
  assumes "length b < 2 ^ 32"
  shows "GetOp2 (push_data [] b @ rest) = (True, push_op (length b), b, rest)"
proof -
  have w: "unat (of_nat n :: byte) = n" if "n \<le> 0xff" for n
    using that by (simp add: unsigned_of_nat take_bit_nat_eq_self)
  have s: "unat (of_nat n :: 16 word) = n" if "n \<le> 0xffff" for n
    using that by (simp add: unsigned_of_nat take_bit_nat_eq_self)
  have l: "unat (of_nat (length b) :: u32) = length b"
    using assms by (simp add: unsigned_of_nat take_bit_nat_eq_self)
  consider "length b < OP_PUSHDATA1" | "OP_PUSHDATA1 \<le> length b" "length b \<le> 0xff" | "0xff < length b" "length b \<le> 0xffff"
    | "0xffff < length b"
    by linarith
  then show ?thesis
    by cases (simp_all add: GetOp2_def push_data_def push_op_def operand_size_def Let_def Read_Write w s l)
qed

lemma script_start_simps [simp]:
  "ss_pc (script_start stack script) = script" "ss_stack (script_start stack script) = stack"
  "ss_altstack (script_start stack script) = []" "ss_vfExec (script_start stack script) = []"
  "ss_nOpCount (script_start stack script) = 0" "ss_pbegincodehash (script_start stack script) = script"
  by (simp_all add: script_start_def)

text \<open>The loop on an operation without an operand and on a push.\<close>

lemma eval_loop_op:
  assumes "ss_pc st = b # pc" and "unat b > OP_PUSHDATA4"
  shows "eval_loop ea st = bindE (eval_step ea (unat b) [] (st\<lparr>ss_pc := pc\<rparr>)) (eval_loop ea)"
  unfolding eval_loop.simps [of ea st] using assms by (simp add: GetOp2_def Let_def)

lemma push_data_not_Nil [simp]: "push_data s b \<noteq> []"
  by (simp add: push_data_def)

lemma eval_loop_push:
  assumes "ss_pc st = push_data [] b @ pc" and "length b < 2 ^ 32"
  shows "eval_loop ea st = bindE (eval_step ea (push_op (length b)) b (st\<lparr>ss_pc := pc\<rparr>)) (eval_loop ea)"
  unfolding eval_loop.simps [of ea st] assms(1) GetOp2_push_data [OF assms(2)] by simp

lemma eval_loop_end: "ss_pc st = [] \<Longrightarrow> eval_loop ea st = Inr st"
  unfolding eval_loop.simps [of ea st] by simp

text \<open>An executed push whose form is allowed.\<close>

lemma not_disabled_push: "opcode \<le> OP_16 \<Longrightarrow> \<not> disabled_opcode opcode"
  by (auto simp: disabled_opcode_def)

lemma eval_step_push:
  assumes "False \<notin> set (ss_vfExec st)" and "length b \<le> MAX_SCRIPT_ELEMENT_SIZE" and "opcode \<le> OP_PUSHDATA4"
    and "has_flag (ea_flags ea) SCRIPT_VERIFY_MINIMALDATA \<Longrightarrow> CheckMinimalPush b opcode = Inr True"
    and "length (ss_stack st) + length (ss_altstack st) < MAX_STACK_SIZE"
  shows "eval_step ea opcode b st = Inr (st\<lparr>ss_stack := b # ss_stack st\<rparr>)"
  using assms not_disabled_push [of opcode]
  by (simp add: eval_step_def eval_opcode_def eval_push_def Let_def)

lemma eval_loop_pushes:
  assumes "\<not> has_flag (ea_flags ea) SCRIPT_VERIFY_MINIMALDATA"
  shows "ss_pc st = concat (map (push_data []) bs) \<Longrightarrow> ss_vfExec st = [] \<Longrightarrow> ss_altstack st = [] \<Longrightarrow>
    list_all (\<lambda>b. length b \<le> MAX_SCRIPT_ELEMENT_SIZE) bs \<Longrightarrow> length (ss_stack st) + length bs \<le> MAX_STACK_SIZE \<Longrightarrow>
    eval_loop ea st = Inr (st\<lparr>ss_pc := [], ss_stack := rev bs @ ss_stack st\<rparr>)"
proof (induction bs arbitrary: st)
  case Nil
  then show ?case
    by (simp add: eval_loop_end)
next
  case (Cons b bs)
  let ?pc = "concat (map (push_data []) bs)"
  have "eval_step ea (push_op (length b)) b (st\<lparr>ss_pc := ?pc\<rparr>) = Inr (st\<lparr>ss_pc := ?pc, ss_stack := b # ss_stack st\<rparr>)"
    using Cons.prems assms by (subst eval_step_push) (simp_all add: push_op_le)
  then show ?case
    using Cons.prems by (subst eval_loop_push [of st b ?pc]) (simp_all add: Cons.IH MAX_SCRIPT_ELEMENT_SIZE_def)
qed

lemma IsPushOnly_pushes:
  "list_all (\<lambda>b. length b < 2 ^ 32) bs \<Longrightarrow> IsPushOnly (concat (map (push_data []) bs))"
proof (induction bs)
  case Nil
  then show ?case
    by (simp add: IsPushOnly.simps)
next
  case (Cons b bs)
  have "push_op (length b) \<le> OP_16"
    using push_op_le [of "length b"] by simp
  then show ?case
    using Cons GetOp2_push_data [of b "concat (map (push_data []) bs)"] by (subst IsPushOnly.simps) simp
qed

text \<open>
  Claim C19.  Data that a script pushes with \<^verbatim>\<open>operator<<\<close> come back on the stack, the last on top, for
  data of any allowed size, whichever of the four push instructions the size needs; and the script is
  recognised as one that only pushes.  The encoding need not be the shortest, so this is without
  \<^verbatim>\<open>MINIMALDATA\<close>.
\<close>

theorem pushes_evaluate:
  assumes "\<not> has_flag (ea_flags ea) SCRIPT_VERIFY_MINIMALDATA"
    and "list_all (\<lambda>b. length b \<le> MAX_SCRIPT_ELEMENT_SIZE) bs"
    and "length (foldl push_data [] bs) \<le> MAX_SCRIPT_SIZE" and "length stack + length bs \<le> MAX_STACK_SIZE"
  shows "EvalScript ea stack (foldl push_data [] bs) = Inr (rev bs @ stack) \<and> IsPushOnly (foldl push_data [] bs)"
proof -
  have "list_all (\<lambda>b. length b < 2 ^ 32) bs"
    using assms(2) by (rule list.pred_mono_strong) (simp add: MAX_SCRIPT_ELEMENT_SIZE_def)
  then show ?thesis
    using assms eval_loop_pushes [OF assms(1), of "script_start stack (foldl push_data [] bs)" bs] IsPushOnly_pushes [of bs]
    by (simp add: EvalScript_def pushes_concat)
qed

theorem pushes_evaluate_witness:
  "EvalScript \<lparr>ea_flags = 1, ea_checker = \<lparr>CheckSig = \<lambda>_ _ _ _. False, CheckLockTime = \<lambda>_. False, CheckSequence = \<lambda>_. False\<rparr>,
      ea_sigversion = SIGVERSION_BASE, ea_CheckLowS = \<lambda>_. False\<rparr> [[5]] (foldl push_data [] [[], [1, 2], replicate 300 7])
    = Inr [replicate 300 7, [1, 2], [], [5]]"
  using pushes_evaluate [where bs = "[[], [1, 2], replicate 300 7]" and stack = "[[5]]"
    and ea = "\<lparr>ea_flags = 1, ea_checker = \<lparr>CheckSig = \<lambda>_ _ _ _. False, CheckLockTime = \<lambda>_. False, CheckSequence = \<lambda>_. False\<rparr>,
      ea_sigversion = SIGVERSION_BASE, ea_CheckLowS = \<lambda>_. False\<rparr>"]
  by (simp add: has_flag_def SCRIPT_VERIFY_MINIMALDATA_def MAX_SCRIPT_ELEMENT_SIZE_def MAX_SCRIPT_SIZE_def MAX_STACK_SIZE_def
    push_data_def)

section \<open>Integers\<close>

text \<open>A number that has no opcode of its own is pushed in the shortest form.\<close>

lemma CheckMinimalPush_serialize:
  assumes "\<bar>v\<bar> < 256 ^ 8" and "\<not> (v = -1 \<or> 1 \<le> v \<and> v \<le> 16)" and "v \<noteq> 0"
  shows "CheckMinimalPush (scriptnum_serialize v) (length (scriptnum_serialize v)) = Inr True"
proof -
  let ?d = "scriptnum_serialize v"
  have r: "vch_number ?d = v"
    using assms(1) by (intro vch_number_serialize) simp
  have "?d \<noteq> []"
    using r assms(3) by (auto simp: vch_number_def)
  moreover have "\<not> (1 \<le> b \<and> b \<le> 16) \<and> b \<noteq> 0x81" if "?d = [b]" for b
  proof -
    have v: "vch_number [b] = v"
      using r that by simp
    have "b \<noteq> 0x81"
    proof
      assume "b = 0x81"
      moreover have "vch_number [0x81] = -1"
        by code_simp
      ultimately show False
        using v assms(2) by simp
    qed
    moreover have "\<not> (1 \<le> b \<and> b \<le> 16)"
    proof
      assume "1 \<le> b \<and> b \<le> 16"
      then have u: "1 \<le> unat b" "unat b \<le> 16"
        by (simp_all add: word_le_nat_alt)
      then have "vch_number ([] @ [b]) = int (unat b)"
        unfolding vch_number_snoc by (simp add: sign_bit)
      then have "v = int (unat b)"
        using v by (simp only: append_Nil)
      then show False
        using u assms(2) by linarith
    qed
    ultimately show ?thesis
      by simp
  qed
  ultimately show ?thesis
    using length_serialize [OF assms(1)]
    by (cases ?d; cases "tl ?d") (auto simp: CheckMinimalPush_def)
qed

lemma eval_step_small_int:
  assumes "False \<notin> set (ss_vfExec st)" and "opcode = OP_1NEGATE \<or> OP_1 \<le> opcode \<and> opcode \<le> OP_16"
    and "length (ss_stack st) + length (ss_altstack st) < MAX_STACK_SIZE"
  shows "eval_step ea opcode [] st = Inr (st\<lparr>ss_stack := scriptnum_serialize (int opcode - 80) # ss_stack st\<rparr>)"
proof -
  have "eval_case ea opcode True st = op_push_value opcode st"
    using assms(2) by (auto simp: eval_case_def)
  then show ?thesis
    using assms not_disabled_push [of opcode]
    by (auto simp: eval_step_def eval_opcode_def Let_def op_push_value_def)
qed

text \<open>
  Claim C18.  An integer that \<^verbatim>\<open>operator<<\<close> pushes evaluates to its serialisation and reads back as the
  same number, under every set of flags: the three forms (the opcodes of small integers, \<^verbatim>\<open>OP_0\<close> and a push
  of bytes) are always the shortest, so \<^verbatim>\<open>MINIMALDATA\<close> accepts them.
\<close>

theorem push_int_roundtrip:
  assumes "- (2 ^ 63) < n" and "n < 2 ^ 63" and "length stack < MAX_STACK_SIZE"
  shows "EvalScript ea stack (push_int64 [] n) = Inr (scriptnum_serialize n # stack)
    \<and> CScriptNum (scriptnum_serialize n) fRequireMinimal 8 = Inr n"
proof -
  have b: "\<bar>n\<bar> < 256 ^ 8"
    using assms by simp
  let ?st = "script_start stack (push_int64 [] n)"
  consider "n = -1 \<or> 1 \<le> n \<and> n \<le> 16" | "n = 0" | "\<not> (n = -1 \<or> 1 \<le> n \<and> n \<le> 16)" "n \<noteq> 0"
    by blast
  then have "eval_loop ea ?st = Inr (?st\<lparr>ss_pc := [], ss_stack := scriptnum_serialize n # stack\<rparr>)"
  proof cases
    case 1
    define m where "m = nat (n + 80)"
    have m: "n + 80 = int m" "m = OP_1NEGATE \<or> OP_1 \<le> m \<and> m \<le> OP_16" "int m - 80 = n"
      using 1 by (auto simp: m_def)
    then have u: "unat (of_nat m :: byte) = m"
      by (auto simp: unsigned_of_nat take_bit_nat_eq_self)
    have "push_int64 [] n = [of_int (n + 80)]"
      using 1 by (simp add: push_int64_def)
    then have p: "push_int64 [] n = [of_nat m]"
      unfolding m(1) by simp
    have "eval_loop ea ?st = bindE (eval_step ea m [] (?st\<lparr>ss_pc := []\<rparr>)) (eval_loop ea)"
      using eval_loop_op [of ?st "of_nat m" "[]" ea] m(2) unfolding u p by auto
    also have "eval_step ea m [] (?st\<lparr>ss_pc := []\<rparr>) = Inr (?st\<lparr>ss_pc := [], ss_stack := scriptnum_serialize n # stack\<rparr>)"
      using eval_step_small_int [of "?st\<lparr>ss_pc := []\<rparr>" m ea] m assms(3) by simp
    finally show ?thesis
      by (simp add: eval_loop_end)
  next
    case 2
    then have p: "push_int64 [] n = push_data [] [] @ []" "scriptnum_serialize n = []"
      by (simp_all add: push_int64_def push_data_def scriptnum_serialize_def)
    have "eval_step ea (push_op 0) [] (?st\<lparr>ss_pc := []\<rparr>) = Inr (?st\<lparr>ss_pc := [], ss_stack := [] # stack\<rparr>)"
      using assms(3) by (subst eval_step_push) (simp_all add: push_op_def CheckMinimalPush_def)
    then show ?thesis
      using eval_loop_push [of ?st "[]" "[]" ea] by (simp add: p eval_loop_end)
  next
    case 3
    then have p: "push_int64 [] n = push_data [] (scriptnum_serialize n) @ []"
      by (auto simp: push_int64_def)
    note l = length_serialize [OF b]
    then have o: "push_op (length (scriptnum_serialize n)) = length (scriptnum_serialize n)"
      by (simp add: push_op_def)
    have "eval_step ea (length (scriptnum_serialize n)) (scriptnum_serialize n) (?st\<lparr>ss_pc := []\<rparr>) =
        Inr (?st\<lparr>ss_pc := [], ss_stack := scriptnum_serialize n # stack\<rparr>)"
      using assms(3) l CheckMinimalPush_serialize [OF b 3]
      by (subst eval_step_push) (simp_all add: MAX_SCRIPT_ELEMENT_SIZE_def)
    then show ?thesis
      using eval_loop_push [of ?st "scriptnum_serialize n" "[]" ea] l by (simp add: p o eval_loop_end)
  qed
  moreover have "length (push_int64 [] n) \<le> MAX_SCRIPT_SIZE"
    using length_serialize [OF b] by (auto simp: push_int64_def push_data_def MAX_SCRIPT_SIZE_def)
  moreover have "CScriptNum (scriptnum_serialize n) fRequireMinimal 8 = Inr n"
    using length_serialize_8 [of n] minimal_serialize [of n] vch_number_serialize [of n] assms(1,2) by (simp add: CScriptNum_eq)
  ultimately show ?thesis
    by (simp add: EvalScript_def)
qed

theorem push_int_roundtrip_witness:
  "EvalScript \<lparr>ea_flags = 0x40, ea_checker = \<lparr>CheckSig = \<lambda>_ _ _ _. False, CheckLockTime = \<lambda>_. False, CheckSequence = \<lambda>_. False\<rparr>,
      ea_sigversion = SIGVERSION_BASE, ea_CheckLowS = \<lambda>_. False\<rparr> [] (push_int64 [] (- 1000)) = Inr [scriptnum_serialize (- 1000)]"
  using push_int_roundtrip [of "- 1000" "[]"] by (simp add: MAX_STACK_SIZE_def)

section \<open>Multiple signatures\<close>

text \<open>
  The specification of \<^verbatim>\<open>OP_CHECKMULTISIG\<close>: the signatures match a subsequence of the keys, in order.
\<close>

definition signed_by :: "('s \<Rightarrow> 'k \<Rightarrow> bool) \<Rightarrow> 's list \<Rightarrow> 'k list \<Rightarrow> bool" where
  "signed_by ok sigs keys \<longleftrightarrow> (\<exists>ks. subseq ks keys \<and> list_all2 ok sigs ks)"

lemma signed_by_Nil [simp]: "signed_by ok [] keys"
  by (auto simp: signed_by_def)

lemma signed_by_length: "signed_by ok sigs keys \<Longrightarrow> length sigs \<le> length keys"
  unfolding signed_by_def by (metis list_all2_lengthD list_emb_length)

text \<open>Taking the first key that fits loses nothing.\<close>

lemma signed_by_Cons:
  "signed_by ok (s # ss) (k # ks) \<longleftrightarrow> (if ok s k then signed_by ok ss ks else signed_by ok (s # ss) ks)"
proof (cases "ok s k")
  case True
  have "signed_by ok ss ks" if "signed_by ok (s # ss) (k # ks)"
    using that unfolding signed_by_def
    by (auto simp: list_all2_Cons1 subseq_Cons2_iff split: if_splits) (blast dest: subseq_Cons')+
  moreover have "signed_by ok (s # ss) (k # ks)" if "signed_by ok ss ks"
    using that True unfolding signed_by_def by (auto simp: list_all2_Cons1)
  ultimately show ?thesis
    using True by auto
next
  case False
  then show ?thesis
    by (auto simp: signed_by_def list_all2_Cons1 subseq_Cons2_iff split: if_splits)
qed

lemma stacktop_append: "stacktop (pre @ x # rest) (length pre + 1) = Inr x"
  by (simp add: stacktop_def)

lemma multisig_loop_done [simp]: "multisig_loop ea s c isig ikey 0 nK = Inr True"
  unfolding multisig_loop.simps [of ea s c isig ikey 0 nK] by simp

lemma multisig_loop_step:
  assumes "nS > 0" "stacktop s isig = Inr sig" "stacktop s ikey = Inr key" "check_encodings ea sig key = Inr ()"
    and "ok = CheckSig (ea_checker ea) sig key c (ea_sigversion ea)"
  shows "multisig_loop ea s c isig ikey nS nK =
    (if (if ok then nS - 1 else nS) > nK - 1 then Inr False
     else multisig_loop ea s c (if ok then isig + 1 else isig) (ikey + 1) (if ok then nS - 1 else nS) (nK - 1))"
  unfolding multisig_loop.simps [of ea s c isig ikey nS nK] assms(5)
  by (simp only: assms(1-4) if_True bindE_Inr Let_def)

lemma multisig_loop_signed_by:
  "s = pre @ keys @ rest \<Longrightarrow> s = pre' @ sigs @ rest' \<Longrightarrow> length sigs \<le> length keys \<Longrightarrow>
    (\<And>sig key. sig \<in> set sigs \<Longrightarrow> key \<in> set keys \<Longrightarrow> check_encodings ea sig key = Inr ()) \<Longrightarrow>
    multisig_loop ea s c (length pre' + 1) (length pre + 1) (int (length sigs)) (int (length keys)) =
      Inr (signed_by (\<lambda>sig key. CheckSig (ea_checker ea) sig key c (ea_sigversion ea)) sigs keys)"
proof (induction keys arbitrary: pre pre' sigs)
  case Nil
  then show ?case
    by simp
next
  case (Cons k ks)
  let ?ok = "\<lambda>sig key. CheckSig (ea_checker ea) sig key c (ea_sigversion ea)"
  show ?case
  proof (cases sigs)
    case Nil
    then show ?thesis
      by simp
  next
    case (Cons sg ss)
    have top: "stacktop s (length pre' + 1) = Inr sg" "stacktop s (length pre + 1) = Inr k"
      using stacktop_append [of pre' sg "ss @ rest'"] stacktop_append [of pre k "ks @ rest"] Cons.prems Cons by simp_all
    have "check_encodings ea sg k = Inr ()"
      using Cons.prems(4) Cons by simp
    note step = multisig_loop_step [OF _ top this refl, of "int (length sigs)" c "int (length (k # ks))"]
    show ?thesis
    proof (cases "?ok sg k")
      case True
      then show ?thesis
        using step Cons Cons.prems Cons.IH [of "pre @ [k]" "pre' @ [sg]" ss] by (simp add: signed_by_Cons)
    next
      case False
      then show ?thesis
        using step Cons Cons.prems Cons.IH [of "pre @ [k]" pre' sigs] signed_by_length [of ?ok "sg # ss" ks]
        by (auto simp: signed_by_Cons not_le)
    qed
  qed
qed

lemma multisig_drop_eq:
  "multisig_drop ea (pre @ sigs @ rest) (length pre + 1) (length sigs) c = Inr (foldl (drop_signature ea) c sigs)"
proof (induction sigs arbitrary: pre c)
  case (Cons sg ss)
  then show ?case
    using stacktop_append [of pre sg "ss @ rest"] Cons.IH [of "pre @ [sg]"] by simp
qed simp

lemma multisig_cleanup_eq:
  assumes "\<not> has_flag (ea_flags ea) SCRIPT_VERIFY_NULLFAIL"
  shows "multisig_cleanup ea f (length args + 1) k (args @ rest) = Inr rest"
proof (induction args arbitrary: k)
  case (Cons a args)
  then show ?case
    using assms by (subst multisig_cleanup.simps) (simp add: popstack_def)
qed (subst multisig_cleanup.simps, simp)

lemma num_top_serialize:
  assumes "stacktop s i = Inr (scriptnum_serialize v)" and "\<bar>v\<bar> < 256 ^ 3"
  shows "num_top ea s i nDefaultMaxNumSize = Inr v"
  using length_serialize [OF assms(2)] minimal_serialize [of v] vch_number_serialize [of v] assms
  by (simp add: num_top_def throwing_def CScriptNum_eq nDefaultMaxNumSize_def)

text \<open>
  Claim C13.  \<^verbatim>\<open>OP_CHECKMULTISIG\<close> pushes true if and only if the signatures match a subsequence of the keys in
  order, each signature its key, for the script code with the signatures removed: the one pass over
  the keys with its early exit decides the existence of a matching.  It takes its arguments and the
  dummy element off the stack and counts one operation for each key.  This is for an empty dummy
  element, keys and signatures whose encodings pass the checks, and without \<^verbatim>\<open>NULLFAIL\<close>.
\<close>

theorem checkmultisig_matches:
  assumes "ss_stack st = scriptnum_serialize (int (length keys)) # keys @ scriptnum_serialize (int (length sigs)) # sigs @ [] # rest"
    and "length sigs \<le> length keys" and "int (length keys) \<le> MAX_PUBKEYS_PER_MULTISIG"
    and "ss_nOpCount st + int (length keys) \<le> MAX_OPS_PER_SCRIPT"
    and "\<And>sig key. sig \<in> set sigs \<Longrightarrow> key \<in> set keys \<Longrightarrow> check_encodings ea sig key = Inr ()" and "\<not> has_flag (ea_flags ea) SCRIPT_VERIFY_NULLFAIL"
  shows "op_checkmultisig ea OP_CHECKMULTISIG st =
    Inr (st\<lparr>ss_nOpCount := ss_nOpCount st + int (length keys),
      ss_stack := (if signed_by (\<lambda>sig key. CheckSig (ea_checker ea) sig key (foldl (drop_signature ea) (ss_pbegincodehash st) sigs)
        (ea_sigversion ea)) sigs keys then vchTrue else vchFalse) # rest\<rparr>)"
proof -
  let ?nk = "scriptnum_serialize (int (length keys))" and ?ns = "scriptnum_serialize (int (length sigs))"
  let ?s = "ss_stack st" and ?c = "foldl (drop_signature ea) (ss_pbegincodehash st) sigs"
  let ?ok = "signed_by (\<lambda>sig key. CheckSig (ea_checker ea) sig key ?c (ea_sigversion ea)) sigs keys"
  let ?isig = "length keys + 3"
  have small: "\<bar>int (length keys)\<bar> < 256 ^ 3" "\<bar>int (length sigs)\<bar> < 256 ^ 3"
    using assms(2,3) by (simp_all add: MAX_PUBKEYS_PER_MULTISIG_def)
  have top: "stacktop ?s 1 = Inr ?nk" "stacktop ?s (2 + length keys) = Inr ?ns"
    using stacktop_append [of "[]" ?nk "keys @ ?ns # sigs @ [] # rest"] stacktop_append [of "?nk # keys" ?ns "sigs @ [] # rest"] assms(1)
    by simp_all
  note num = num_top_serialize [OF top(1) small(1), of ea] num_top_serialize [OF top(2) small(2), of ea]
  have drop: "multisig_drop ea ?s ?isig (length sigs) (ss_pbegincodehash st) = Inr ?c"
    using multisig_drop_eq [of ea "?nk # keys @ [?ns]" sigs "[] # rest"] assms(1) by (simp add: numeral_3_eq_3)
  have loop: "multisig_loop ea ?s ?c ?isig 2 (int (length sigs)) (int (length keys)) = Inr ?ok"
    using multisig_loop_signed_by [of ?s "[?nk]" keys "?ns # sigs @ [] # rest" "?nk # keys @ [?ns]" sigs "[] # rest" ea ?c]
      assms(1,2,5) by (simp add: numeral_2_eq_2 numeral_3_eq_3)
  have clean: "multisig_cleanup ea ?ok (?isig + length sigs) k ?s = Inr ([] # rest)" for k
    using multisig_cleanup_eq [OF assms(6), of ?ok "?nk # keys @ ?ns # sigs" k "[] # rest"] assms(1) by (simp add: numeral_3_eq_3 add_ac)
  have getint: "getint (int n) = int n" if "n \<le> 20" for n
    using that by (simp add: getint_def)
  have len: "length ?s = length keys + length sigs + 3 + length rest"
    using assms(1) by simp
  have finish: "multisig_finish ea OP_CHECKMULTISIG ?ok st' ([] # rest) = Inr (st'\<lparr>ss_stack := (if ?ok then vchTrue else vchFalse) # rest\<rparr>)" for st'
    by (simp add: multisig_finish_def stacktop_def popstack_def)
  have "length sigs \<le> 20" "length keys \<le> 20"
    using assms(2,3) by (simp_all add: MAX_PUBKEYS_PER_MULTISIG_def)
  then show ?thesis
    unfolding op_checkmultisig_def Let_def
    using num drop loop clean finish assms(2-4) len
    by (simp add: getint numeral_2_eq_2 numeral_3_eq_3 add_ac del: signed_by_Nil)
qed

theorem checkmultisig_matches_witness:
  "op_checkmultisig \<lparr>ea_flags = 0, ea_checker = \<lparr>CheckSig = \<lambda>sig key _ _. sig = key, CheckLockTime = \<lambda>_. False, CheckSequence = \<lambda>_. False\<rparr>,
      ea_sigversion = SIGVERSION_WITNESS_V0, ea_CheckLowS = \<lambda>_. False\<rparr> OP_CHECKMULTISIG
      (script_start [scriptnum_serialize 3, [7], [8], [9], scriptnum_serialize 2, [7], [9], [], [5]] [])
    = Inr (script_start [[1], [5]] []\<lparr>ss_nOpCount := 3\<rparr>)"
  using checkmultisig_matches [where keys = "[[7], [8], [9]]" and sigs = "[[7], [9]]" and rest = "[[5]]"
    and st = "script_start [scriptnum_serialize 3, [7], [8], [9], scriptnum_serialize 2, [7], [9], [], [5]] []"
    and ea = "\<lparr>ea_flags = 0, ea_checker = \<lparr>CheckSig = \<lambda>sig key _ _. sig = key, CheckLockTime = \<lambda>_. False, CheckSequence = \<lambda>_. False\<rparr>,
      ea_sigversion = SIGVERSION_WITNESS_V0, ea_CheckLowS = \<lambda>_. False\<rparr>"]
  by (simp add: signed_by_Cons MAX_PUBKEYS_PER_MULTISIG_def MAX_OPS_PER_SCRIPT_def check_encodings_def CheckSignatureEncoding_def
    CheckPubKeyEncoding_def has_flag_def vchTrue_def script_start_def)

section \<open>Witness programs for a key hash\<close>

lemma script_hash160: "script_hash OP_HASH160 vch = ripemd160_ref (sha256_ref vch)"
  using CHash160_digest [OF csha256.writes_from_Init, of "[vch]"]
  by (simp add: script_hash_def CHash160_Write_def)

text \<open>An executed operation that counts, in a script without branches.\<close>

lemma eval_loop_exec:
  assumes "ss_pc st = b # pc" and "ss_vfExec st = []" and "unat b > OP_16" and "\<not> disabled_opcode (unat b)"
    and "ss_nOpCount st < MAX_OPS_PER_SCRIPT"
  shows "eval_loop ea st = bindE (eval_case ea (unat b) True (st\<lparr>ss_pc := pc, ss_nOpCount := ss_nOpCount st + 1\<rparr>)) (\<lambda>st.
    if length (ss_stack st) + length (ss_altstack st) > MAX_STACK_SIZE then set_error SCRIPT_ERR_STACK_SIZE else eval_loop ea st)"
proof -
  have "eval_loop ea st = bindE (eval_step ea (unat b) [] (st\<lparr>ss_pc := pc\<rparr>)) (eval_loop ea)"
    using eval_loop_op [OF assms(1)] assms(3) by simp
  then show ?thesis
    using assms(2-5)
    by (simp add: eval_step_def eval_opcode_def Let_def bindE_assoc set_error_def if_distrib [of "\<lambda>m. bindE m f" for f] cong: if_cong)
qed

text \<open>The states of a script without branches that has counted \<open>n\<close> operations.\<close>

definition key_hash_state :: "CScript \<Rightarrow> int \<Rightarrow> valtype list \<Rightarrow> bytes \<Rightarrow> script_state" where
  "key_hash_state script n stack pc =
    \<lparr>ss_stack = stack, ss_altstack = [], ss_vfExec = [], ss_nOpCount = n, ss_pc = pc, ss_pbegincodehash = script\<rparr>"

lemmas key_hash_simps =
  key_hash_state_def eval_case_def disabled_opcode_def need_stack_def stacktop_def popstack_def
  MAX_OPS_PER_SCRIPT_def MAX_STACK_SIZE_def Let_def

lemma key_hash_dup:
  "eval_loop ea (key_hash_state c 0 [pk, sig] (0x76 # pc)) = eval_loop ea (key_hash_state c 1 [pk, pk, sig] pc)"
  by (subst eval_loop_exec [where b = "0x76" and pc = pc]) (simp_all add: key_hash_simps op_dup_def)

lemma key_hash_hash160:
  "eval_loop ea (key_hash_state c 1 [pk, pk, sig] (0xa9 # pc)) =
    eval_loop ea (key_hash_state c 2 [ripemd160_ref (sha256_ref pk), pk, sig] pc)"
  by (subst eval_loop_exec [where b = "0xa9" and pc = pc]) (simp_all add: key_hash_simps op_hash_def script_hash160)

lemma key_hash_push:
  assumes "length h = 20"
  shows "eval_loop ea (key_hash_state c 2 [x, pk, sig] (push_data [] h @ pc)) = eval_loop ea (key_hash_state c 2 [h, x, pk, sig] pc)"
proof -
  have "eval_step ea 20 h (key_hash_state c 2 [x, pk, sig] pc) = Inr (key_hash_state c 2 [h, x, pk, sig] pc)"
    using assms
    by (subst eval_step_push) (simp_all add: key_hash_state_def MAX_SCRIPT_ELEMENT_SIZE_def MAX_STACK_SIZE_def CheckMinimalPush_def)
  then show ?thesis
    using eval_loop_push [of "key_hash_state c 2 [x, pk, sig] (push_data [] h @ pc)" h pc ea] assms
    by (simp add: key_hash_state_def push_op_def)
qed

lemma key_hash_equalverify:
  "eval_loop ea (key_hash_state c 2 [h, x, pk, sig] (0x88 # pc)) =
    (if x = h then eval_loop ea (key_hash_state c 3 [pk, sig] pc) else set_error SCRIPT_ERR_EQUALVERIFY)"
  by (subst eval_loop_exec [where b = "0x88" and pc = pc]) (simp_all add: key_hash_simps op_equal_def set_error_def)

lemma key_hash_checksig:
  assumes "ea_sigversion ea = SIGVERSION_WITNESS_V0"
  shows "eval_loop ea (key_hash_state c 3 [pk, sig] [0xac]) =
    bindE (check_encodings ea sig pk) (\<lambda>_. let ok = CheckSig (ea_checker ea) sig pk c SIGVERSION_WITNESS_V0 in
      if \<not> ok \<and> has_flag (ea_flags ea) SCRIPT_VERIFY_NULLFAIL \<and> sig \<noteq> [] then set_error SCRIPT_ERR_SIG_NULLFAIL
      else Inr (key_hash_state c 4 [if ok then vchTrue else vchFalse] []))"
  using assms
  by (subst eval_loop_exec [where b = "0xac" and pc = "[]"])
    (simp_all add: key_hash_simps op_checksig_def drop_signature_def set_error_def eval_loop_end bindE_assoc
      if_distrib [of "\<lambda>m. bindE m f" for f] cong: if_cong)

lemma nothrow_check_encodings: "nothrow (check_encodings ea sig key)"
  unfolding check_encodings_def CheckSignatureEncoding_def CheckPubKeyEncoding_def IsLowDERSignature_def
  by (auto intro!: nothrow_bind)

text \<open>
  Claim C14.  The verification of a version 0 witness program of 20 bytes, a key hash, with a witness of
  two elements is exactly: neither is longer than 520 bytes, the second hashes to the program, both
  pass the checks of encodings, and the signature of the implied script by that key is valid.  Each
  failure has its own error, in this order.
\<close>

theorem witness_key_hash:
  assumes "length h = 20"
  shows "VerifyWitnessProgram va [sig, pk] 0 h =
    (if length sig > MAX_SCRIPT_ELEMENT_SIZE \<or> length pk > MAX_SCRIPT_ELEMENT_SIZE then set_error SCRIPT_ERR_PUSH_SIZE
     else if ripemd160_ref (sha256_ref pk) \<noteq> h then set_error SCRIPT_ERR_EQUALVERIFY
     else bindE (check_encodings (eval_with va SIGVERSION_WITNESS_V0) sig pk) (\<lambda>_.
       if CheckSig (va_checker va) sig pk ([0x76, 0xa9, 0x14] @ h @ [0x88, 0xac]) SIGVERSION_WITNESS_V0 then Inr ()
       else if has_flag (va_flags va) SCRIPT_VERIFY_NULLFAIL \<and> sig \<noteq> [] then set_error SCRIPT_ERR_SIG_NULLFAIL
       else set_error SCRIPT_ERR_EVAL_FALSE))"
proof -
  let ?ea = "eval_with va SIGVERSION_WITNESS_V0" and ?c = "[0x76, 0xa9, 0x14] @ h @ [0x88, 0xac]"
  have c: "?c = 0x76 # 0xa9 # push_data [] h @ [0x88, 0xac]"
    using assms by (simp add: push_data_def)
  have loop: "eval_loop ?ea (script_start [pk, sig] ?c) =
      (if ripemd160_ref (sha256_ref pk) = h then eval_loop ?ea (key_hash_state ?c 3 [pk, sig] [0xac])
       else set_error SCRIPT_ERR_EQUALVERIFY)"
    using key_hash_dup [of ?ea ?c pk sig "0xa9 # push_data [] h @ [0x88, 0xac]"]
      key_hash_hash160 [of ?ea ?c pk sig "push_data [] h @ [0x88, 0xac]"]
      key_hash_push [OF assms, of ?ea ?c "ripemd160_ref (sha256_ref pk)" pk sig "[0x88, 0xac]"]
      key_hash_equalverify [of ?ea ?c h "ripemd160_ref (sha256_ref pk)" pk sig "[0xac]"]
    unfolding script_start_def key_hash_state_def [symmetric] c [symmetric] by (simp add: c)
  have ws: "witness_script va [sig, pk] 0 h = Inr (Some ([sig, pk], ?c))"
    using assms by (simp add: witness_script_def pubkeyhash_script_eq throwing_def)
  have len: "length ?c \<le> MAX_SCRIPT_SIZE"
    using assms by (simp add: MAX_SCRIPT_SIZE_def)
  have ea: "ea_sigversion ?ea = SIGVERSION_WITNESS_V0" "ea_flags ?ea = va_flags va" "ea_checker ?ea = va_checker va"
    by (simp_all add: eval_with_def)
  consider "check_encodings ?ea sig pk = Inr ()" | e where "check_encodings ?ea sig pk = Inl (Fail e)"
    using nothrow_check_encodings [of ?ea sig pk] unfolding nothrow_def
    by (cases "check_encodings ?ea sig pk") (auto intro: script_exit.exhaust)
  then have "EvalScript ?ea [pk, sig] ?c =
    (if ripemd160_ref (sha256_ref pk) \<noteq> h then set_error SCRIPT_ERR_EQUALVERIFY
     else bindE (check_encodings ?ea sig pk) (\<lambda>_. let ok = CheckSig (va_checker va) sig pk ?c SIGVERSION_WITNESS_V0 in
      if \<not> ok \<and> has_flag (va_flags va) SCRIPT_VERIFY_NULLFAIL \<and> sig \<noteq> [] then set_error SCRIPT_ERR_SIG_NULLFAIL
      else Inr [if ok then vchTrue else vchFalse]))"
    unfolding EvalScript_def loop key_hash_checksig [OF ea(1)] using len ea
    by cases (auto simp: set_error_def Let_def key_hash_state_def)
  then show ?thesis
    unfolding VerifyWitnessProgram_def ws
    by (auto simp: Let_def set_error_def vchTrue_def vchFalse_def bindE_assoc intro!: bindE_cong)
qed

lemma length_ripemd160_ref: "length (ripemd160_ref m) = 20"
  using CRIPEMD160_Finalize_digest(1) [OF one_write(4), of m] length_digests(4) [OF one_write(4), of m] by simp

theorem witness_key_hash_witness:
  "VerifyWitnessProgram \<lparr>va_flags = 0, va_checker = \<lparr>CheckSig = \<lambda>sig key _ _. sig = key, CheckLockTime = \<lambda>_. False,
      CheckSequence = \<lambda>_. False\<rparr>, va_CheckLowS = \<lambda>_. False\<rparr> [[3], [3]] 0 (ripemd160_ref (sha256_ref [3])) = Inr ()"
  unfolding witness_key_hash [OF length_ripemd160_ref]
  by (simp add: MAX_SCRIPT_ELEMENT_SIZE_def check_encodings_def CheckSignatureEncoding_def CheckPubKeyEncoding_def has_flag_def
    eval_with_def)

end
