(* ===== verification/Spec2Isabelle.thy ===== *)
theory Spec2Isabelle
  imports RLP VMDispatch VMCorrect VMStack Storage TrieMap Hashes ScriptSafety ScriptFork ScriptUse
begin

text \<open>
  A verification of the TOS node, a C++ program under \<^verbatim>\<open>src/\<close>.  The node runs contracts on a stack machine
  derived from the Ethereum virtual machine, keeps its state in a Merkle-Patricia trie of RLP-encoded
  nodes over a key-value store, and carries the transaction scripts and the hash functions of a
  Bitcoin-derived full node.  This theory imports the whole development; the sections below say which
  theory models which files, how state and operations correspond, and what is proved.

  \<^bold>\<open>Conventions.\<close>  C++ exceptions, failed assertions and error codes are the left summand of a sum
  type, sequenced with \<open>bindE\<close> (\<^verbatim>\<open>Prelude\<close>).  Machine integers are words of their width; where the code
  uses an integer whose range is shown not to be exceeded, an \<open>int\<close> or a \<open>nat\<close>.  Classes are records
  and methods are functions that return the changed record.  Undefined behaviour, such as an access
  outside an array, is an explicit result of the model, so that its absence can be proved.

  \<^bold>\<open>Bytes and RLP.\<close>  \<^verbatim>\<open>CommonData\<close> models the hexadecimal, nibble and big-endian conversions of
  \<^verbatim>\<open>src/toscore/common\<close>.  \<^verbatim>\<open>RLP\<close> models \<^verbatim>\<open>RLP.h\<close> and \<^verbatim>\<open>RLP.cpp\<close> of \<^verbatim>\<open>src/toscore/utils\<close>: the reader as functions of the
  view's bytes (with its cache, its iterator and its conversions), and the writer \<^verbatim>\<open>RLPStream\<close> with its stack
  of open lists.  Shown: sizes, counts, subscripts and the integer and hash conversions of the reader stay inside
  the view, and copying the payload does so after the check for short views; the writer produces the
  canonical encoding, which is prefix-free; strings and integers read back; data that the strict
  constructor accepts is canonical, and so is the outer header of a list that it accepts; the
  cache of subscripts cannot be observed; iteration ends exactly on views without trailing bytes.

  \<^bold>\<open>The virtual machine.\<close>  \<^verbatim>\<open>Instruction\<close> holds the tables of \<^verbatim>\<open>Instruction.h\<close> and \<^verbatim>\<open>Instruction.cpp\<close>; \<^verbatim>\<open>VMState\<close> the
  fields of the class \<^verbatim>\<open>VM\<close>, the messages and the host interface; \<^verbatim>\<open>VMArith\<close> the values that instructions compute;
  \<^verbatim>\<open>VMOps\<close> one definition for each case of \<^verbatim>\<open>VM::interpretCases\<close>; \<^verbatim>\<open>VMExec\<close> the calls and creations of \<^verbatim>\<open>VMCalls.cpp\<close>,
  the loop, the trampoline \<^verbatim>\<open>VM::exec\<close>, the preparation of code of \<^verbatim>\<open>VMOpt.cpp\<close>, and the entry point \<^verbatim>\<open>execute\<close>.  \<^verbatim>\<open>VMSafety\<close>,
  \<^verbatim>\<open>VMCases\<close> and \<^verbatim>\<open>VMRun\<close> prove case by case, and \<^verbatim>\<open>VMCorrect\<close> for whole runs, that the stack, the memory,
  the code and the buffers copied from are accessed in range, that every run ends and spends gas, that static calls leave the host alone, and how results
  and messages are built.  \<^verbatim>\<open>VMCode\<close> relates the prepared jump targets to the instruction boundaries,
  \<^verbatim>\<open>VMDispatch\<close> the jump table to the switch, and \<^verbatim>\<open>VMStack\<close> states what single instructions do.

  \<^bold>\<open>The state trie.\<close>  \<^verbatim>\<open>Storage\<close> models \<^verbatim>\<open>MemoryDB\<close>, \<^verbatim>\<open>OverlayDB\<close> and the LevelDB wrapper of \<^verbatim>\<open>src/toscore/storage\<close>; \<^verbatim>\<open>TrieCommon\<close> the
  nibble paths and the hex-prefix code; \<^verbatim>\<open>TrieDB\<close> the operations of \<^verbatim>\<open>GenericTrieDB\<close> on node bytes.  \<^verbatim>\<open>TrieTree\<close> is
  the abstract trie, \<^verbatim>\<open>TrieRefine\<close> and \<^verbatim>\<open>TrieInsert\<close> show that the operations implement it, and \<^verbatim>\<open>TrieMap\<close> that
  the trie is a finite map, over the in-memory store and over an overlay on a database that may fail.

  \<^bold>\<open>Hash functions.\<close>  \<^verbatim>\<open>HashCommon\<close> models \<^verbatim>\<open>src/src/crypto/common.h\<close> and the buffered \<^verbatim>\<open>Write\<close> that the four classes
  share; \<^verbatim>\<open>Sha1\<close>, \<^verbatim>\<open>Sha256\<close>, \<^verbatim>\<open>Sha512\<close> and \<^verbatim>\<open>Ripemd160\<close> the unrolled compression functions line by line.  \<^verbatim>\<open>Sha2Ref\<close>
  and the reference definitions beside the classes follow the standards.  \<^verbatim>\<open>Hashes\<close> models the composed hashes
  of \<^verbatim>\<open>src/src/hash.h\<close> and the keyed ones.  Shown: for any sequence of writes each class computes the digest
  that the standard defines, and the keyed hashes compute HMAC.

  \<^bold>\<open>Scripts.\<close>  \<^verbatim>\<open>ScriptNum\<close> models \<^verbatim>\<open>CScriptNum\<close>, \<^verbatim>\<open>Script\<close> the class \<^verbatim>\<open>CScript\<close> of \<^verbatim>\<open>src/src/script\<close>, \<^verbatim>\<open>ScriptInterp\<close> the
  interpreter \<^verbatim>\<open>interpreter.cpp\<close>, one definition for each block of the switch of \<^verbatim>\<open>EvalScript\<close>, and \<^verbatim>\<open>VerifyScript\<close>.
  \<^verbatim>\<open>ScriptSafety\<close> shows that no operation reads below the stack, fails an assertion or reaches undefined
  behaviour of the script numbers, and the limits
  on elements, stacks and operations.  \<^verbatim>\<open>ScriptFork\<close> shows that verification flags are soft forks: what is accepted under
  more flags is accepted under fewer.  \<^verbatim>\<open>ScriptUse\<close> states what the building blocks of transactions do: pushes read back,
  multiple signatures match the keys in order, and a witness program for a key hash is satisfied exactly by
  a key with that hash and a signature of it.

  \<^bold>\<open>Interfaces.\<close>  The locales are the contracts between components: a self-delimiting encoding (\<^verbatim>\<open>RLP\<close>), a
  database and a node store (\<^verbatim>\<open>Storage\<close>), a store under a trie (\<^verbatim>\<open>TrieInsert\<close>), and a block hasher (\<^verbatim>\<open>HashCommon\<close>); each is
  interpreted on the definitions of the model.

  \<^bold>\<open>Parameters.\<close>  Keccak, the host of the virtual machine, the storage engine, the signature checker
  (a virtual class in the code) and the low-S test of the curve library are arguments of the
  definitions.  What is assumed of them is a named hypothesis, and a witness shows that it can hold.

  \<^bold>\<open>Fuel.\<close>  The interpreter loop takes fuel; twice the gas of the message plus five is enough, because
  every turn but one costs gas.  The trie functions recurse through the store: \<open>2 * length key + 1\<close> steps are
  enough for lookup and \<open>4 * length key + 2\<close> for insertion, because each step but one consumes a nibble.  The
  script loop and the hash loops are total.  Iteration over an RLP list may not end and is a partial
  function.

  \<^bold>\<open>Not modelled.\<close>  Sockets, threads, files, logging, options, key files and wallets are input and output
  or wrappers of libraries.  The curve arithmetic, LevelDB and JSON are third-party code.  The signature
  hash of transactions, the mempool, block validation and the peer-to-peer protocol of the inherited full
  node need its transaction serialisation and its databases, which are not modelled.  The DAG of
  \<^verbatim>\<open>src/sdag\<close> is code under construction whose operations depend on threads and on network callbacks.  The
  legacy interpreter, the SIMD instructions and the trie iterator are not modelled: the first is an
  earlier form of the machine that is modelled, the second is compiled out.
\<close>

end
